(* ===== verification/Prelude.thy ===== *)
theory Prelude
  imports Main "HOL-Library.Sublist"
begin

section \<open>Shared types, tables and interfaces\<close>

text \<open>
  What the components share. A database table is the list of its rows in insertion order;
  the queries the services send to the database client become the functions of the section on
  tables. Identifiers are opaque strings and instants are milliseconds since the epoch, as the
  JavaScript \<open>Date\<close> counts them. The locales at the end are the interfaces several
  components implement: a machine that keeps an invariant, a log no operation rewrites, and a
  credential that can be spent once.
\<close>

type_synonym uuid = string

type_synonym instant = int

named_theorems table_simps \<open>how the table operations change the rows\<close>

named_theorems op_simps \<open>unfolding equations of the service operations\<close>

subsection \<open>Units of time\<close>

definition minute_ms :: int where
  "minute_ms = 60000"

definition hour_ms :: int where
  "hour_ms = 60 * minute_ms"

definition day_ms :: int where
  "day_ms = 24 * hour_ms"

lemmas time_units = day_ms_def hour_ms_def minute_ms_def

subsection \<open>Truth of an optional string\<close>

text \<open>JavaScript counts the empty string as false.\<close>

definition truthy :: "string option \<Rightarrow> bool" where
  "truthy v \<longleftrightarrow> v \<noteq> None \<and> v \<noteq> Some []"

subsection \<open>Positions in a string\<close>

text \<open>\<open>indexOf\<close> of a character, counting from \<open>i\<close>; \<open>None\<close> is the \<open>-1\<close>.\<close>

fun index_from :: "nat \<Rightarrow> char \<Rightarrow> string \<Rightarrow> nat option" where
  "index_from i c [] = None"
| "index_from i c (d # ds) = (if c = d then Some i else index_from (Suc i) c ds)"

subsection \<open>Association lists\<close>

lemma map_of_graph: "map_of (map (\<lambda>x. (x, f x)) xs) k = (if k \<in> set xs then Some (f k) else None)"
  by (induction xs) auto

subsection \<open>Counting\<close>

lemma length_filter_mono:
  "(\<And>x. x \<in> set xs \<Longrightarrow> P x \<Longrightarrow> Q x) \<Longrightarrow> length (filter P xs) \<le> length (filter Q xs)"
  by (induction xs) (auto intro: le_SucI)

subsection \<open>Tables\<close>

text \<open>
  \<open>find_row\<close> is \<open>findFirst\<close> with no ordering, \<open>update_where\<close> is \<open>updateMany\<close>,
  \<open>delete_where\<close> is \<open>deleteMany\<close>, \<open>count_where\<close> is \<open>count\<close> (and the count that
  \<open>updateMany\<close> reports), \<open>latest_by\<close> is \<open>findFirst\<close> ordered by a column, largest first.
\<close>

definition find_row :: "('r \<Rightarrow> bool) \<Rightarrow> 'r list \<Rightarrow> 'r option" where
  "find_row P rows = List.find P rows"

definition update_where :: "('r \<Rightarrow> bool) \<Rightarrow> ('r \<Rightarrow> 'r) \<Rightarrow> 'r list \<Rightarrow> 'r list" where
  "update_where P f rows = map (\<lambda>r. if P r then f r else r) rows"

definition delete_where :: "('r \<Rightarrow> bool) \<Rightarrow> 'r list \<Rightarrow> 'r list" where
  "delete_where P rows = filter (\<lambda>r. \<not> P r) rows"

definition count_where :: "('r \<Rightarrow> bool) \<Rightarrow> 'r list \<Rightarrow> nat" where
  "count_where P rows = length (filter P rows)"

fun latest_by :: "('r \<Rightarrow> int) \<Rightarrow> 'r list \<Rightarrow> 'r option" where
  "latest_by k [] = None"
| "latest_by k (r # rs) =
     (case latest_by k rs of
        None \<Rightarrow> Some r
      | Some b \<Rightarrow> if k b \<le> k r then Some r else Some b)"

lemma find_row_SomeD: "find_row P rows = Some r \<Longrightarrow> P r \<and> r \<in> set rows"
  by (auto simp: find_row_def find_Some_iff)

lemma find_row_None_iff: "find_row P rows = None \<longleftrightarrow> (\<forall>r\<in>set rows. \<not> P r)"
  by (auto simp: find_row_def find_None_iff)

lemma find_row_Nil [table_simps]: "find_row P [] = None"
  by (simp add: find_row_def)

lemma find_row_Cons [table_simps]:
  "find_row P (r # rs) = (if P r then Some r else find_row P rs)"
  by (simp add: find_row_def)

lemma set_update_where [table_simps]:
  "set (update_where P f rows) = f ` {r \<in> set rows. P r} \<union> {r \<in> set rows. \<not> P r}"
  by (auto simp: update_where_def)

lemma length_update_where [table_simps]: "length (update_where P f rows) = length rows"
  by (simp add: update_where_def)

lemma update_where_Nil [table_simps]: "update_where P f [] = []"
  by (simp add: update_where_def)

lemma update_where_Cons [table_simps]:
  "update_where P f (r # rs) = (if P r then f r else r) # update_where P f rs"
  by (simp add: update_where_def)

lemma set_delete_where [table_simps]: "set (delete_where P rows) = {r \<in> set rows. \<not> P r}"
  by (auto simp: delete_where_def)

lemma delete_where_append: "delete_where P (xs @ ys) = delete_where P xs @ delete_where P ys"
  by (simp add: delete_where_def)

lemma count_where_0_iff: "count_where P rows = 0 \<longleftrightarrow> (\<forall>r\<in>set rows. \<not> P r)"
  by (auto simp: count_where_def filter_empty_conv)

lemma count_where_Cons [table_simps]:
  "count_where P (r # rs) = (if P r then Suc (count_where P rs) else count_where P rs)"
  by (simp add: count_where_def)

lemma count_where_Nil [table_simps]: "count_where P [] = 0"
  by (simp add: count_where_def)

lemma count_where_append [table_simps]:
  "count_where P (xs @ ys) = count_where P xs + count_where P ys"
  by (simp add: count_where_def)

lemma count_where_cong:
  "(\<And>r. r \<in> set rows \<Longrightarrow> P r = Q r) \<Longrightarrow> count_where P rows = count_where Q rows"
  unfolding count_where_def by (rule arg_cong [where f = length], rule filter_cong) simp_all

lemma latest_by_mem: "latest_by k rows = Some r \<Longrightarrow> r \<in> set rows"
  by (induction rows arbitrary: r) (auto split: option.splits if_splits)

lemma latest_by_max: "latest_by k rows = Some r \<Longrightarrow> x \<in> set rows \<Longrightarrow> k x \<le> k r"
proof (induction rows arbitrary: r x)
  case (Cons a rows)
  show ?case
  proof (cases "latest_by k rows")
    case None
    then have "rows = []"
      by (cases rows) (auto split: option.splits if_splits)
    with Cons.prems show ?thesis by simp
  next
    case (Some b)
    have ub: "y \<in> set rows \<Longrightarrow> k y \<le> k b" for y
      using Cons.IH [OF Some] .
    from Cons.prems Some show ?thesis
      by (auto split: if_splits dest: ub)
  qed
qed simp

lemma latest_by_None_iff: "latest_by k rows = None \<longleftrightarrow> rows = []"
  by (cases rows) (auto split: option.splits)

lemma find_row_update_key:
  assumes "\<And>r. key (f r) = key r"
  shows "find_row (\<lambda>r. key r = u) (update_where (\<lambda>r. key r = v) f rows) =
     (if u = v then map_option f (find_row (\<lambda>r. key r = u) rows) else find_row (\<lambda>r. key r = u) rows)"
  by (induction rows) (auto simp: table_simps assms)

text \<open>A unique key: no two rows agree on it.\<close>

definition unique_key :: "('r \<Rightarrow> 'k) \<Rightarrow> 'r list \<Rightarrow> bool" where
  "unique_key k rows = distinct (map k rows)"

lemma unique_key_update_where:
  assumes "\<And>r. k (f r) = k r"
  shows "unique_key k (update_where P f rows) = unique_key k rows"
proof -
  have "map k (update_where P f rows) = map k rows"
    by (simp add: update_where_def assms)
  then show ?thesis by (simp add: unique_key_def)
qed

lemma unique_key_delete_where: "unique_key k rows \<Longrightarrow> unique_key k (delete_where P rows)"
  by (simp add: unique_key_def delete_where_def distinct_map_filter)

lemma unique_key_snoc:
  "unique_key k (rows @ [r]) \<longleftrightarrow> unique_key k rows \<and> k r \<notin> k ` set rows"
  by (auto simp: unique_key_def)

lemma unique_keyD:
  "unique_key k rows \<Longrightarrow> r \<in> set rows \<Longrightarrow> s \<in> set rows \<Longrightarrow> k r = k s \<Longrightarrow> r = s"
  by (auto simp: unique_key_def distinct_map inj_on_def)

subsection \<open>Interface: operations that keep an invariant\<close>

locale op_machine =
  fixes step :: "'s \<Rightarrow> 'o \<Rightarrow> 's"
    and inv :: "'s \<Rightarrow> bool"
  assumes step_inv: "inv s \<Longrightarrow> inv (step s x)"
begin

lemma run_inv: "inv s \<Longrightarrow> inv (foldl step s xs)"
  by (induction xs arbitrary: s) (simp_all add: step_inv)

end

subsection \<open>Interface: a log that no operation rewrites\<close>

locale append_only =
  fixes step :: "'s \<Rightarrow> 'o \<Rightarrow> 's"
    and log :: "'s \<Rightarrow> 'e list"
  assumes step_extends: "prefix (log s) (log (step s x))"
begin

lemma run_extends: "prefix (log s) (log (foldl step s xs))"
proof (induction xs arbitrary: s)
  case Nil
  show ?case by simp
next
  case (Cons x xs)
  have "prefix (log s) (log (step s x))" by (rule step_extends)
  also have "prefix \<dots> (log (foldl step (step s x) xs))" by (rule Cons.IH)
  finally show ?case by simp
qed

lemma event_stays: "e \<in> set (log s) \<Longrightarrow> e \<in> set (log (foldl step s xs))"
  using run_extends [of s xs] by (auto dest: set_mono_prefix)

end

subsection \<open>Interface: a credential with a bounded number of uses\<close>

text \<open>
  \<open>uses k s x\<close> says that running the operation \<open>x\<close> in the state \<open>s\<close> is a use of \<open>k\<close>, and \<open>left k s\<close>
  how many are left. Whatever is interleaved, \<open>k\<close> is used at most \<open>left k s\<close> times from \<open>s\<close> on.
\<close>

fun count_uses ::
  "('s \<Rightarrow> 'o \<Rightarrow> 's) \<Rightarrow> ('k \<Rightarrow> 's \<Rightarrow> 'o \<Rightarrow> bool) \<Rightarrow> 'k \<Rightarrow> 's \<Rightarrow> 'o list \<Rightarrow> nat" where
  "count_uses step uses k s [] = 0"
| "count_uses step uses k s (x # xs) =
     (if uses k s x then 1 else 0) + count_uses step uses k (step s x) xs"

locale budget = op_machine step inv
  for step :: "'s \<Rightarrow> 'o \<Rightarrow> 's" and inv :: "'s \<Rightarrow> bool" +
  fixes uses :: "'k \<Rightarrow> 's \<Rightarrow> 'o \<Rightarrow> bool"
    and left :: "'k \<Rightarrow> 's \<Rightarrow> nat"
  assumes use_costs: "inv s \<Longrightarrow> uses k s x \<Longrightarrow> left k (step s x) < left k s"
    and never_refilled: "inv s \<Longrightarrow> left k (step s x) \<le> left k s"
begin

lemma left_run: "inv s \<Longrightarrow> left k (foldl step s xs) \<le> left k s"
proof (induction xs arbitrary: s)
  case (Cons x xs)
  have "left k (foldl step (step s x) xs) \<le> left k (step s x)"
    by (rule Cons.IH, rule step_inv, rule Cons.prems)
  also have "\<dots> \<le> left k s" by (rule never_refilled, rule Cons.prems)
  finally show ?case by simp
qed simp

lemma uses_bounded: "inv s \<Longrightarrow> count_uses step uses k s xs \<le> left k s"
proof (induction xs arbitrary: s)
  case (Cons x xs)
  note IH = Cons.IH [OF step_inv [OF Cons.prems], of x]
  show ?case
  proof (cases "uses k s x")
    case True
    with IH use_costs [OF Cons.prems True] show ?thesis by simp
  next
    case False
    with IH never_refilled [OF Cons.prems, of k x] show ?thesis by simp
  qed
qed simp

lemma exhausted_never_again: "inv s \<Longrightarrow> left k s = 0 \<Longrightarrow> count_uses step uses k s xs = 0"
  using uses_bounded [of s k xs] by simp

end

subsection \<open>Interface: a credential that can be spent once\<close>

text \<open>
  \<open>spends k s x\<close> says that \<open>x\<close> is answered in \<open>s\<close> as a successful use of the credential \<open>k\<close>;
  \<open>spent k s\<close> says that it is used up. It is the budget of one.
\<close>

locale single_use = op_machine step inv
  for step :: "'s \<Rightarrow> 'o \<Rightarrow> 's" and inv :: "'s \<Rightarrow> bool" +
  fixes spends :: "'k \<Rightarrow> 's \<Rightarrow> 'o \<Rightarrow> bool"
    and spent :: "'k \<Rightarrow> 's \<Rightarrow> bool"
  assumes spends_live: "inv s \<Longrightarrow> spends k s x \<Longrightarrow> \<not> spent k s"
    and spends_spent: "inv s \<Longrightarrow> spends k s x \<Longrightarrow> spent k (step s x)"
    and spent_stays: "inv s \<Longrightarrow> spent k s \<Longrightarrow> spent k (step s x)"

sublocale single_use \<subseteq> uses: budget step inv spends "\<lambda>k s. if spent k s then 0 else 1"
  by unfold_locales (auto dest: spends_live spends_spent spent_stays)

context single_use
begin

lemma spends_at_most_once: "inv s \<Longrightarrow> count_uses step spends k s xs \<le> 1"
  using uses.uses_bounded [of s k xs] by (simp split: if_splits)

lemma spent_never_again: "inv s \<Longrightarrow> spent k s \<Longrightarrow> count_uses step spends k s xs = 0"
  by (rule uses.exhausted_never_again) simp_all

lemma spent_run: "inv s \<Longrightarrow> spent k s \<Longrightarrow> spent k (foldl step s xs)"
  using uses.left_run [of s k xs] by (simp split: if_splits)

end

subsection \<open>Interface: a state that has to be earned\<close>

text \<open>\<open>holds k\<close> appears only by an operation that \<open>grants\<close> it.\<close>

locale evidence = op_machine step inv
  for step :: "'s \<Rightarrow> 'o \<Rightarrow> 's" and inv :: "'s \<Rightarrow> bool" +
  fixes grants :: "'k \<Rightarrow> 's \<Rightarrow> 'o \<Rightarrow> bool"
    and holds :: "'k \<Rightarrow> 's \<Rightarrow> bool"
  assumes holds_earned: "inv s \<Longrightarrow> holds k (step s x) \<Longrightarrow> holds k s \<or> grants k s x"
begin

lemma earned:
  assumes "inv s" "\<not> holds k s" "holds k (foldl step s xs)"
  shows "\<exists>ys x zs. xs = ys @ x # zs \<and> grants k (foldl step s ys) x"
  using assms(3)
proof (induction xs rule: rev_induct)
  case Nil
  with assms(2) show ?case by simp
next
  case (snoc x xs)
  from snoc.prems have "holds k (step (foldl step s xs) x)" by simp
  from holds_earned [OF run_inv [OF assms(1)] this]
  show ?case
  proof
    assume "holds k (foldl step s xs)"
    from snoc.IH [OF this] obtain ys y zs where
      "xs = ys @ y # zs \<and> grants k (foldl step s ys) y" by blast
    then have "xs @ [x] = ys @ y # (zs @ [x]) \<and> grants k (foldl step s ys) y" by simp
    then show ?case by blast
  next
    assume "grants k (foldl step s xs) x"
    then show ?case by blast
  qed
qed

end

end
