(* ===== verification/Errors.thy ===== *)
theory Errors
  imports Prelude
begin

section \<open>Errors as values\<close>

text \<open>
  \<open>common/errors\<close>: the codes of \<open>errorCodes.ts\<close> and the \<open>AppError\<close> the services throw. An
  operation that may throw returns a sum, \<open>Inl\<close> the error. An \<open>AppError\<close> is its HTTP status,
  its code and the machine-readable reason of its details, when it has one; the prose of the
  message is not modelled. \<open>ServerError\<close> is any other thrown value, which the error handler
  answers as a 500 with the code \<open>INTERNAL_ERROR\<close>.
\<close>

datatype error_code =
    VALIDATION_ERROR | UNAUTHORIZED | FORBIDDEN | NOT_FOUND | CONFLICT
  | TENANT_SELECTION_REQUIRED | TOKEN_INVALID | TOKEN_EXPIRED | TOKEN_REUSED
  | SESSION_SUPERSEDED | WORKSPACE_MISMATCH | INTERNAL_ERROR
  | INVITATION_INVALID | INVITATION_EXPIRED | RATE_LIMIT_EXCEEDED | FEATURE_DISABLED
  | OTP_INVALID | OTP_EXPIRED | OTP_MAX_ATTEMPTS | OTP_RESEND_LIMIT | OTP_COOLDOWN
  | EMAIL_ALREADY_VERIFIED | EMAIL_NOT_VERIFIED | USER_SUSPENDED | USER_DISABLED
  | MEMBERSHIP_SUSPENDED | TENANT_SUSPENDED | WORKSPACE_ACCESS_DENIED
  | IDEMPOTENCY_KEY_REQUIRED | IDEMPOTENCY_PAYLOAD_MISMATCH | IDEMPOTENCY_REQUEST_IN_PROGRESS
  | DNS_PROVIDER_ERROR | MAIL_HOSTING_NOT_CONFIGURED | PROVISIONING_IN_PROGRESS
  | MAIL_HOSTING_UNAVAILABLE | MAILBOX_NOT_EMPTY | MAILBOX_DELETE_DISABLED
  | MAIL_SERVER_SYNC_FAILED | MAILBOX_NOT_IN_WORKSPACE | WORKSPACE_ACCESS_NOT_ASSIGNED
  | DATABASE_UNAVAILABLE | INBOUND_NOT_CONFIGURED | INBOUND_SIGNATURE_INVALID
  | INBOUND_RECIPIENT_UNKNOWN

datatype app_error =
    AppError (statusCode: nat) (code: error_code) (reason: "string option")
  | ServerError string

type_synonym 'a result = "app_error + 'a"

abbreviation fail_with :: "nat \<Rightarrow> error_code \<Rightarrow> 'a result" where
  "fail_with st c \<equiv> Inl (AppError st c None)"

abbreviation fail_because :: "nat \<Rightarrow> error_code \<Rightarrow> string \<Rightarrow> 'a result" where
  "fail_because st c r \<equiv> Inl (AppError st c (Some r))"

abbreviation not_found :: "'a result" where
  "not_found \<equiv> fail_with 404 NOT_FOUND"

definition bind_result :: "'a result \<Rightarrow> ('a \<Rightarrow> 'b result) \<Rightarrow> 'b result" where
  "bind_result m f = (case m of Inl e \<Rightarrow> Inl e | Inr x \<Rightarrow> f x)"

lemma bind_result_simps [simp]:
  "bind_result (Inl e) f = Inl e" "bind_result (Inr x) f = f x"
  by (simp_all add: bind_result_def)

lemma bind_result_Inr_iff: "bind_result m f = Inr y \<longleftrightarrow> (\<exists>x. m = Inr x \<and> f x = Inr y)"
  by (cases m) simp_all

lemma bind_result_Inl_iff:
  "bind_result m f = Inl e \<longleftrightarrow> m = Inl e \<or> (\<exists>x. m = Inr x \<and> f x = Inl e)"
  by (cases m) auto

definition require :: "bool \<Rightarrow> app_error \<Rightarrow> unit result" where
  "require b e = (if b then Inr () else Inl e)"

lemma require_simps [simp]: "require True e = Inr ()" "require False e = Inl e"
  by (simp_all add: require_def)

lemma require_Inr_iff [simp]: "require b e = Inr u \<longleftrightarrow> b"
  by (simp add: require_def)

lemma require_Inl_iff [simp]: "require b e = Inl e' \<longleftrightarrow> \<not> b \<and> e' = e"
  by (auto simp: require_def)

end
