(* ===== verification/Roles.thy ===== *)
theory Roles
  imports Errors
begin

section \<open>Roles and consoles\<close>

text \<open>
  The role enumerations of the database schema that every authorization decision reads, and the
  console a session is bound to (\<open>common/utils/workspaceScope.ts\<close>): which consoles a role
  reaches, the authority a session acts with, and the console a sign-in opens.
\<close>

subsection \<open>Roles\<close>

datatype membership_role = OWNER | ADMIN | MEMBER | SUPPORT

datatype membership_status = MS_INVITED | MS_ACTIVE | MS_SUSPENDED | MS_REMOVED

datatype platform_role = PR_NONE | PR_SUPPORT | PR_SUPER_ADMIN

text \<open>A workspace scope is a console, named like the role it is for.\<close>

type_synonym workspace_scope = membership_role

lemma UNIV_membership_role: "UNIV = {OWNER, ADMIN, MEMBER, SUPPORT}"
  by (auto intro: membership_role.exhaust)

instantiation membership_role :: enum
begin

definition enum_membership_role :: "membership_role list" where
  "enum_membership_role = [OWNER, ADMIN, MEMBER, SUPPORT]"

definition enum_all_membership_role :: "(membership_role \<Rightarrow> bool) \<Rightarrow> bool" where
  "enum_all_membership_role P \<longleftrightarrow> P OWNER \<and> P ADMIN \<and> P MEMBER \<and> P SUPPORT"

definition enum_ex_membership_role :: "(membership_role \<Rightarrow> bool) \<Rightarrow> bool" where
  "enum_ex_membership_role P \<longleftrightarrow> P OWNER \<or> P ADMIN \<or> P MEMBER \<or> P SUPPORT"

instance
proof
  show "UNIV = set (Enum.enum :: membership_role list)"
    by (simp add: enum_membership_role_def UNIV_membership_role)
  show "distinct (Enum.enum :: membership_role list)"
    by (simp add: enum_membership_role_def)
  show "Enum.enum_all P = Ball UNIV P" for P :: "membership_role \<Rightarrow> bool"
    unfolding enum_all_membership_role_def UNIV_membership_role by simp
  show "Enum.enum_ex P = Bex UNIV P" for P :: "membership_role \<Rightarrow> bool"
    unfolding enum_ex_membership_role_def UNIV_membership_role by simp
qed

end

subsection \<open>The console ladder\<close>

text \<open>\<open>RANK\<close> is a table on the three roles below; \<open>SUPPORT\<close> has no rank.\<close>

fun RANK :: "membership_role \<Rightarrow> nat option" where
  "RANK MEMBER = Some 1"
| "RANK ADMIN = Some 2"
| "RANK OWNER = Some 3"
| "RANK SUPPORT = None"

definition WORKSPACE_SCOPES :: "workspace_scope list" where
  "WORKSPACE_SCOPES = [MEMBER, SUPPORT, ADMIN, OWNER]"

definition reachableWorkspaces :: "membership_role \<Rightarrow> workspace_scope list" where
  "reachableWorkspaces role =
     (if role = SUPPORT then [SUPPORT]
      else filter (\<lambda>sc. the (RANK sc) \<le> the (RANK role)) [MEMBER, ADMIN, OWNER])"

definition actingRole :: "membership_role \<Rightarrow> workspace_scope \<Rightarrow> membership_role option" where
  "actingRole membershipRole workspace =
     (if workspace = MEMBER then Some MEMBER
      else if membershipRole = SUPPORT \<or> workspace = SUPPORT
        then (if membershipRole = workspace then Some membershipRole else None)
      else let held = the (RANK membershipRole); opened = the (RANK workspace)
        in if held \<le> opened then Some membershipRole else Some workspace)"

definition consoleAuthorized ::
  "membership_role \<Rightarrow> workspace_scope \<Rightarrow> workspace_scope list option \<Rightarrow> bool" where
  "consoleAuthorized membershipRole workspace mailboxWorkspaces =
     (if workspace = MEMBER then True
      else if membershipRole = OWNER \<and> workspace = OWNER then True
      else case mailboxWorkspaces of None \<Rightarrow> True | Some ws \<Rightarrow> workspace \<in> set ws)"

definition signInWorkspace ::
  "membership_role \<Rightarrow> workspace_scope list option \<Rightarrow> workspace_scope option \<Rightarrow> workspace_scope" where
  "signInWorkspace membershipRole mailboxWorkspaces requested =
     (if requested = Some MEMBER then MEMBER
      else if consoleAuthorized membershipRole membershipRole mailboxWorkspaces
        then membershipRole else MEMBER)"

subsection \<open>What the ladder guarantees\<close>

text \<open>The authority of a role, as the set of ranks it stands on.\<close>

definition authority_le :: "membership_role \<Rightarrow> membership_role \<Rightarrow> bool" where
  "authority_le r s \<longleftrightarrow>
     r = s \<or> r = MEMBER \<or> (case (RANK r, RANK s) of (Some a, Some b) \<Rightarrow> a \<le> b | _ \<Rightarrow> False)"

lemma authority_le_refl: "authority_le r r"
  by (simp add: authority_le_def)

lemma authority_le_trans: "authority_le r s \<Longrightarrow> authority_le s t \<Longrightarrow> authority_le r t"
  by (cases r; cases s; cases t) (simp_all add: authority_le_def)

lemma actingRole_le:
  "actingRole m w = Some r \<Longrightarrow> authority_le r m \<and> authority_le r w"
  by (cases m; cases w) (auto simp: actingRole_def authority_le_def)

lemma actingRole_greatest:
  "actingRole m w = Some r \<Longrightarrow> authority_le q m \<Longrightarrow> authority_le q w \<Longrightarrow> authority_le q r"
  by (cases m; cases w; cases q) (auto simp: actingRole_def authority_le_def)

lemma actingRole_defined_iff:
  "actingRole m w = None \<longleftrightarrow> w \<noteq> MEMBER \<and> (m = SUPPORT) \<noteq> (w = SUPPORT)"
  by (cases m; cases w) (auto simp: actingRole_def)

lemma reachable_iff:
  "w \<in> set (reachableWorkspaces m) \<longleftrightarrow>
     w \<noteq> MEMBER \<and> actingRole m w = Some w \<or> w = MEMBER \<and> m \<noteq> SUPPORT"
  by (cases m; cases w) (auto simp: actingRole_def reachableWorkspaces_def)

lemma actingRole_own: "actingRole m m = Some m"
  by (cases m) (simp_all add: actingRole_def)

lemma actingRole_MEMBER: "actingRole m MEMBER = Some MEMBER"
  by (simp add: actingRole_def)

lemma signInWorkspace_cases:
  "signInWorkspace m ws q = m \<or> signInWorkspace m ws q = MEMBER"
  by (simp add: signInWorkspace_def)

text \<open>
  The authority a session acts with is the meet of what the membership grants and what the
  session was opened for. It never exceeds either, and nothing the two both allow is lost.
\<close>

theorem actingRole_is_meet:
  assumes "actingRole m w = Some r"
  shows "authority_le q r \<longleftrightarrow> authority_le q m \<and> authority_le q w"
  using assms actingRole_le actingRole_greatest authority_le_trans by blast

theorem actingRole_is_meet_witness:
  "authority_le ADMIN (the (actingRole OWNER ADMIN)) \<and> \<not> authority_le OWNER (the (actingRole OWNER ADMIN))"
proof -
  have r: "actingRole OWNER ADMIN = Some ADMIN" by (simp add: actingRole_def)
  show ?thesis
    using actingRole_is_meet [OF r, of ADMIN] actingRole_is_meet [OF r, of OWNER]
    by (simp add: r authority_le_def)
qed

text \<open>
  A sign-in always opens a console the setting authorises and the membership can act in,
  whatever the console asked for and whatever consoles the mailbox lists; the Member sign-in
  always opens the Member console, and an Owner who did not ask for it is never locked out of the
  Owner console.
\<close>

theorem signIn_opens_usable_console:
  "consoleAuthorized m (signInWorkspace m ws q) ws
   \<and> actingRole m (signInWorkspace m ws q) = Some (signInWorkspace m ws q)
   \<and> signInWorkspace m ws (Some MEMBER) = MEMBER
   \<and> signInWorkspace OWNER ws (if q = Some MEMBER then None else q) = OWNER"
  by (auto simp: signInWorkspace_def consoleAuthorized_def actingRole_own actingRole_MEMBER)

end
