(* ===== verification/Capabilities.thy ===== *)
theory Capabilities
  imports Roles
begin

section \<open>Capabilities\<close>

text \<open>
  \<open>common/capabilities\<close>: the vocabulary (\<open>capabilities.ts\<close>), the role matrix
  (\<open>matrix.ts\<close>) and the resolver (\<open>resolver.ts\<close>), which decides one capability for one
  caller. A route asks with a string, so the resolver takes one and an unknown name is a denial.
\<close>

subsection \<open>The vocabulary\<close>

datatype capability =
    Mail_Own_Rw
  | Commitments_Own_Manage
  | Connector_Own_Connect
  | Mail_Other_Read
  | People_Read
  | People_Invite_Member
  | People_Invite_Admin
  | People_Invite_Owner
  | People_Member_Manage
  | People_Admin_Manage
  | People_Owner_Manage
  | People_Mfa_Reset
  | People_Credentials_Reset
  | Workspace_Settings_Read
  | Workspace_Settings_Write
  | Workspace_Mailboxes_Manage
  | Workspace_Domains_Manage
  | Workspace_Groups_Manage
  | Workspace_Domains_Remove
  | Workspace_Mailboxes_Delete
  | Workspace_Mailboxes_Sending
  | Connector_Credentials_Rotate
  | Connector_Tenant_Disconnect
  | Mailbox_Delegate
  | Policy_Write
  | Policy_Ai_Write
  | Mailbox_Ai_Enable
  | Policy_Security_Write
  | Audit_Read
  | Security_Alert_Read
  | Security_Alert_Review
  | Billing_Read
  | Billing_Plan_Write
  | Data_Export
  | Tenant_Ownership_Transfer
  | Tenant_Delete
  | Support_Grant_Create
  | Support_Grant_End
  | Support_Console_Read
  | Support_Grant_Read
  | Support_Workspace_Investigate
  | Support_Mailbox_Reset

primrec capability_name :: "capability \<Rightarrow> string" where
  "capability_name Mail_Own_Rw = ''mail.own.rw''"
| "capability_name Commitments_Own_Manage = ''commitments.own.manage''"
| "capability_name Connector_Own_Connect = ''connector.own.connect''"
| "capability_name Mail_Other_Read = ''mail.other.read''"
| "capability_name People_Read = ''people.read''"
| "capability_name People_Invite_Member = ''people.invite.member''"
| "capability_name People_Invite_Admin = ''people.invite.admin''"
| "capability_name People_Invite_Owner = ''people.invite.owner''"
| "capability_name People_Member_Manage = ''people.member.manage''"
| "capability_name People_Admin_Manage = ''people.admin.manage''"
| "capability_name People_Owner_Manage = ''people.owner.manage''"
| "capability_name People_Mfa_Reset = ''people.mfa.reset''"
| "capability_name People_Credentials_Reset = ''people.credentials.reset''"
| "capability_name Workspace_Settings_Read = ''workspace.settings.read''"
| "capability_name Workspace_Settings_Write = ''workspace.settings.write''"
| "capability_name Workspace_Mailboxes_Manage = ''workspace.mailboxes.manage''"
| "capability_name Workspace_Domains_Manage = ''workspace.domains.manage''"
| "capability_name Workspace_Groups_Manage = ''workspace.groups.manage''"
| "capability_name Workspace_Domains_Remove = ''workspace.domains.remove''"
| "capability_name Workspace_Mailboxes_Delete = ''workspace.mailboxes.delete''"
| "capability_name Workspace_Mailboxes_Sending = ''workspace.mailboxes.sending''"
| "capability_name Connector_Credentials_Rotate = ''connector.credentials.rotate''"
| "capability_name Connector_Tenant_Disconnect = ''connector.tenant.disconnect''"
| "capability_name Mailbox_Delegate = ''mailbox.delegate''"
| "capability_name Policy_Write = ''policy.write''"
| "capability_name Policy_Ai_Write = ''policy.ai.write''"
| "capability_name Mailbox_Ai_Enable = ''mailbox.ai.enable''"
| "capability_name Policy_Security_Write = ''policy.security.write''"
| "capability_name Audit_Read = ''audit.read''"
| "capability_name Security_Alert_Read = ''security-alert.read''"
| "capability_name Security_Alert_Review = ''security-alert.review''"
| "capability_name Billing_Read = ''billing.read''"
| "capability_name Billing_Plan_Write = ''billing.plan.write''"
| "capability_name Data_Export = ''data.export''"
| "capability_name Tenant_Ownership_Transfer = ''tenant.ownership.transfer''"
| "capability_name Tenant_Delete = ''tenant.delete''"
| "capability_name Support_Grant_Create = ''support.grant.create''"
| "capability_name Support_Grant_End = ''support.grant.end''"
| "capability_name Support_Console_Read = ''support.console.read''"
| "capability_name Support_Grant_Read = ''support.grant.read''"
| "capability_name Support_Workspace_Investigate = ''support.workspace.investigate''"
| "capability_name Support_Mailbox_Reset = ''support.mailbox.reset''"

definition CAPABILITIES :: "capability list" where
  "CAPABILITIES =
     [Mail_Own_Rw,
      Commitments_Own_Manage,
      Connector_Own_Connect,
      Mail_Other_Read,
      People_Read,
      People_Invite_Member,
      People_Invite_Admin,
      People_Invite_Owner,
      People_Member_Manage,
      People_Admin_Manage,
      People_Owner_Manage,
      People_Mfa_Reset,
      People_Credentials_Reset,
      Workspace_Settings_Read,
      Workspace_Settings_Write,
      Workspace_Mailboxes_Manage,
      Workspace_Domains_Manage,
      Workspace_Groups_Manage,
      Workspace_Domains_Remove,
      Workspace_Mailboxes_Delete,
      Workspace_Mailboxes_Sending,
      Connector_Credentials_Rotate,
      Connector_Tenant_Disconnect,
      Mailbox_Delegate,
      Policy_Write,
      Policy_Ai_Write,
      Mailbox_Ai_Enable,
      Policy_Security_Write,
      Audit_Read,
      Security_Alert_Read,
      Security_Alert_Review,
      Billing_Read,
      Billing_Plan_Write,
      Data_Export,
      Tenant_Ownership_Transfer,
      Tenant_Delete,
      Support_Grant_Create,
      Support_Grant_End,
      Support_Console_Read,
      Support_Grant_Read,
      Support_Workspace_Investigate,
      Support_Mailbox_Reset]"

definition capability_of :: "string \<Rightarrow> capability option" where
  "capability_of v = List.find (\<lambda>c. capability_name c = v) CAPABILITIES"

definition isCapability :: "string \<Rightarrow> bool" where
  "isCapability v \<longleftrightarrow> capability_of v \<noteq> None"

datatype resolver_kind = ALLOW | DENY | READ_ONLY | OWN | STEP_UP | TWO_PERSON | GRANT

datatype decision_reason =
    ALLOWED | ALLOWED_OWN_RESOURCE | ALLOWED_READ_ONLY | NO_MEMBERSHIP | MEMBERSHIP_INACTIVE
  | ROLE_LACKS_CAPABILITY | REQUIRES_STEP_UP | REQUIRES_SECOND_APPROVER
  | REQUIRES_SUPPORT_GRANT | UNKNOWN_CAPABILITY

subsection \<open>The matrix\<close>

text \<open>An omitted entry is a denial.\<close>

type_synonym role_matrix = "(capability \<times> resolver_kind) list"

definition OWNER_matrix :: "role_matrix" where
  "OWNER_matrix =
     [(Mail_Own_Rw, OWN),
      (Commitments_Own_Manage, OWN),
      (Connector_Own_Connect, OWN),
      (People_Read, ALLOW),
      (People_Invite_Member, ALLOW),
      (People_Invite_Admin, ALLOW),
      (People_Invite_Owner, ALLOW),
      (People_Member_Manage, ALLOW),
      (People_Admin_Manage, ALLOW),
      (People_Owner_Manage, ALLOW),
      (People_Mfa_Reset, STEP_UP),
      (People_Credentials_Reset, STEP_UP),
      (Workspace_Settings_Read, ALLOW),
      (Workspace_Settings_Write, ALLOW),
      (Workspace_Mailboxes_Manage, ALLOW),
      (Workspace_Domains_Manage, ALLOW),
      (Workspace_Groups_Manage, ALLOW),
      (Workspace_Domains_Remove, STEP_UP),
      (Workspace_Mailboxes_Delete, STEP_UP),
      (Workspace_Mailboxes_Sending, ALLOW),
      (Connector_Credentials_Rotate, STEP_UP),
      (Connector_Tenant_Disconnect, ALLOW),
      (Mailbox_Delegate, ALLOW),
      (Policy_Write, ALLOW),
      (Policy_Ai_Write, STEP_UP),
      (Mailbox_Ai_Enable, STEP_UP),
      (Policy_Security_Write, ALLOW),
      (Audit_Read, ALLOW),
      (Security_Alert_Read, ALLOW),
      (Security_Alert_Review, ALLOW),
      (Billing_Read, ALLOW),
      (Billing_Plan_Write, ALLOW),
      (Data_Export, STEP_UP),
      (Tenant_Ownership_Transfer, TWO_PERSON),
      (Tenant_Delete, TWO_PERSON),
      (Support_Grant_Create, STEP_UP),
      (Support_Grant_End, ALLOW),
      (Support_Console_Read, ALLOW),
      (Support_Workspace_Investigate, ALLOW),
      (Support_Grant_Read, ALLOW)]"

definition ADMIN_matrix :: "role_matrix" where
  "ADMIN_matrix =
     [(Mail_Own_Rw, OWN),
      (Commitments_Own_Manage, OWN),
      (Connector_Own_Connect, OWN),
      (People_Read, ALLOW),
      (People_Invite_Member, ALLOW),
      (People_Invite_Admin, ALLOW),
      (People_Member_Manage, ALLOW),
      (People_Admin_Manage, ALLOW),
      (People_Credentials_Reset, STEP_UP),
      (Workspace_Settings_Read, ALLOW),
      (Workspace_Settings_Write, ALLOW),
      (Workspace_Mailboxes_Manage, ALLOW),
      (Workspace_Domains_Manage, ALLOW),
      (Workspace_Groups_Manage, ALLOW),
      (Workspace_Domains_Remove, STEP_UP),
      (Workspace_Mailboxes_Delete, STEP_UP),
      (Workspace_Mailboxes_Sending, ALLOW),
      (Connector_Credentials_Rotate, STEP_UP),
      (Connector_Tenant_Disconnect, ALLOW),
      (Mailbox_Delegate, ALLOW),
      (Policy_Write, ALLOW),
      (Policy_Ai_Write, STEP_UP),
      (Mailbox_Ai_Enable, STEP_UP),
      (Audit_Read, ALLOW),
      (Security_Alert_Read, ALLOW),
      (Security_Alert_Review, ALLOW),
      (Data_Export, STEP_UP),
      (Support_Grant_End, ALLOW),
      (Support_Console_Read, ALLOW),
      (Support_Workspace_Investigate, ALLOW),
      (Support_Grant_Read, ALLOW)]"

definition MEMBER_matrix :: "role_matrix" where
  "MEMBER_matrix =
     [(Mail_Own_Rw, OWN),
      (Commitments_Own_Manage, OWN),
      (Connector_Own_Connect, OWN)]"

definition SUPPORT_matrix :: "role_matrix" where
  "SUPPORT_matrix =
     [(Mail_Other_Read, ALLOW),
      (Support_Console_Read, ALLOW),
      (Support_Workspace_Investigate, ALLOW),
      (Support_Mailbox_Reset, GRANT)]"

fun CAPABILITY_MATRIX :: "membership_role \<Rightarrow> role_matrix" where
  "CAPABILITY_MATRIX OWNER = OWNER_matrix"
| "CAPABILITY_MATRIX ADMIN = ADMIN_matrix"
| "CAPABILITY_MATRIX MEMBER = MEMBER_matrix"
| "CAPABILITY_MATRIX SUPPORT = SUPPORT_matrix"

definition matrixKind :: "membership_role \<Rightarrow> capability \<Rightarrow> resolver_kind option" where
  "matrixKind role c = map_of (CAPABILITY_MATRIX role) c"

definition rolesHolding :: "capability \<Rightarrow> membership_role list" where
  "rolesHolding c = filter (\<lambda>role. matrixKind role c \<noteq> None) [OWNER, ADMIN, MEMBER, SUPPORT]"

definition capabilitiesFor :: "membership_role \<Rightarrow> capability list" where
  "capabilitiesFor role = filter (\<lambda>c. matrixKind role c \<noteq> None) CAPABILITIES"

subsection \<open>The resolver\<close>

text \<open>An optional field of the context is an option; \<open>secondApproverUserId\<close> is tested for
  truth, so an empty string does not approve.\<close>

record capability_context =
  cc_role :: "membership_role option"
  membershipActive :: "bool option"
  hasActiveSupportGrant :: "bool option"
  stepUpSatisfied :: "bool option"
  secondApproverUserId :: "uuid option"

record capability_decision =
  cd_capability :: string
  cd_kind :: "resolver_kind option"
  cd_allowed :: bool
  cd_reason :: decision_reason
  requiresStepUp :: bool
  requiresSecondApprover :: bool
  requiresSupportGrant :: bool
  ownResourceOnly :: bool
  readOnly :: bool
  heldBy :: "membership_role list"

definition decision ::
  "capability \<Rightarrow> resolver_kind option \<Rightarrow> bool \<Rightarrow> decision_reason \<Rightarrow> capability_decision" where
  "decision c kind allowed why =
     \<lparr>cd_capability = capability_name c, cd_kind = kind, cd_allowed = allowed, cd_reason = why,
      requiresStepUp = False, requiresSecondApprover = False, requiresSupportGrant = False,
      ownResourceOnly = False, readOnly = False, heldBy = rolesHolding c\<rparr>"

fun decide_kind :: "capability \<Rightarrow> capability_context \<Rightarrow> resolver_kind \<Rightarrow> capability_decision" where
  "decide_kind c ctx ALLOW = decision c (Some ALLOW) True ALLOWED"
| "decide_kind c ctx OWN =
     (decision c (Some OWN) True ALLOWED_OWN_RESOURCE)\<lparr>ownResourceOnly := True\<rparr>"
| "decide_kind c ctx READ_ONLY =
     (decision c (Some READ_ONLY) True ALLOWED_READ_ONLY)\<lparr>readOnly := True\<rparr>"
| "decide_kind c ctx STEP_UP =
     (let satisfied = (stepUpSatisfied ctx = Some True)
      in (decision c (Some STEP_UP) satisfied (if satisfied then ALLOWED else REQUIRES_STEP_UP))
           \<lparr>requiresStepUp := \<not> satisfied\<rparr>)"
| "decide_kind c ctx TWO_PERSON =
     (let approved = truthy (secondApproverUserId ctx)
      in (decision c (Some TWO_PERSON) approved
            (if approved then ALLOWED else REQUIRES_SECOND_APPROVER))
           \<lparr>requiresSecondApprover := \<not> approved\<rparr>)"
| "decide_kind c ctx GRANT =
     (let granted = (hasActiveSupportGrant ctx = Some True)
      in (decision c (Some GRANT) granted (if granted then ALLOWED else REQUIRES_SUPPORT_GRANT))
           \<lparr>requiresSupportGrant := \<not> granted\<rparr>)"
| "decide_kind c ctx DENY = decision c (Some DENY) False ROLE_LACKS_CAPABILITY"

definition unknown_capability :: "string \<Rightarrow> capability_decision" where
  "unknown_capability v =
     \<lparr>cd_capability = v, cd_kind = None, cd_allowed = False, cd_reason = UNKNOWN_CAPABILITY,
      requiresStepUp = False, requiresSecondApprover = False, requiresSupportGrant = False,
      ownResourceOnly = False, readOnly = False, heldBy = []\<rparr>"

definition resolveCapability :: "string \<Rightarrow> capability_context \<Rightarrow> capability_decision" where
  "resolveCapability v ctx =
     (case capability_of v of
        None \<Rightarrow> unknown_capability v
      | Some c \<Rightarrow>
          (case cc_role ctx of
             None \<Rightarrow> decision c None False NO_MEMBERSHIP
           | Some role \<Rightarrow>
               if membershipActive ctx = Some False then decision c None False MEMBERSHIP_INACTIVE
               else case matrixKind role c of
                      None \<Rightarrow> decision c None False ROLE_LACKS_CAPABILITY
                    | Some kind \<Rightarrow> decide_kind c ctx kind))"

definition can :: "string \<Rightarrow> capability_context \<Rightarrow> bool" where
  "can v ctx = cd_allowed (resolveCapability v ctx)"

definition capabilitySnapshot :: "capability_context \<Rightarrow> capability_decision list" where
  "capabilitySnapshot ctx =
     (case cc_role ctx of
        None \<Rightarrow> []
      | Some role \<Rightarrow> map (\<lambda>c. resolveCapability (capability_name c) ctx) (capabilitiesFor role))"

subsection \<open>Facts about the tables\<close>

lemma CAPABILITIES_UNIV: "set CAPABILITIES = UNIV"
proof -
  have "c \<in> set CAPABILITIES" for c
    by (cases c) (simp_all add: CAPABILITIES_def)
  then show ?thesis by auto
qed

lemma all_capabilities: "(\<forall>c. P c) \<longleftrightarrow> list_all P CAPABILITIES"
  by (simp add: list_all_iff CAPABILITIES_UNIV)

lemma distinct_capability_names: "distinct (map capability_name CAPABILITIES)"
  by code_simp

lemma capability_name_inj: "capability_name c = capability_name d \<Longrightarrow> c = d"
  using distinct_capability_names
  by (auto simp: distinct_map inj_on_def CAPABILITIES_UNIV)

lemma capability_of_name [simp]: "capability_of (capability_name c) = Some c"
proof -
  have "\<exists>d. capability_of (capability_name c) = Some d"
    using find_None_iff [of "\<lambda>d. capability_name d = capability_name c" CAPABILITIES]
    by (auto simp: capability_of_def CAPABILITIES_UNIV)
  then obtain d where d: "capability_of (capability_name c) = Some d" by blast
  then have "capability_name d = capability_name c"
    by (auto simp: capability_of_def find_Some_iff)
  with d show ?thesis using capability_name_inj by auto
qed

lemma capability_of_SomeD: "capability_of v = Some c \<Longrightarrow> v = capability_name c"
  by (auto simp: capability_of_def find_Some_iff)

definition superset_row :: "capability \<Rightarrow> bool" where
  "superset_row c \<longleftrightarrow>
     (matrixKind ADMIN c \<noteq> None \<longrightarrow> matrixKind OWNER c = matrixKind ADMIN c)
     \<and> (matrixKind MEMBER c \<noteq> None \<longrightarrow> matrixKind ADMIN c = matrixKind MEMBER c)"

lemma superset_rows: "list_all superset_row CAPABILITIES"
  by code_simp

lemma support_rows:
  "list_all (\<lambda>c. matrixKind SUPPORT c \<noteq> None \<longrightarrow>
      c \<in> set [Mail_Other_Read, Support_Console_Read, Support_Workspace_Investigate, Support_Mailbox_Reset]
      \<and> (c \<in> set [Mail_Other_Read, Support_Mailbox_Reset] \<longrightarrow> rolesHolding c = [SUPPORT])) CAPABILITIES"
  by code_simp

lemma owner_only_rows:
  "filter (\<lambda>c. rolesHolding c = [OWNER]) CAPABILITIES =
     [People_Invite_Owner, People_Owner_Manage, People_Mfa_Reset, Policy_Security_Write, Billing_Read,
      Billing_Plan_Write, Tenant_Ownership_Transfer, Tenant_Delete, Support_Grant_Create]"
  by code_simp

lemma no_deny_or_read_only_rows:
  "list_all (\<lambda>c. list_all (\<lambda>r. matrixKind r c \<noteq> Some DENY \<and> matrixKind r c \<noteq> Some READ_ONLY)
     [OWNER, ADMIN, MEMBER, SUPPORT]) CAPABILITIES"
  by code_simp

lemma rolesHolding_iff: "r \<in> set (rolesHolding c) \<longleftrightarrow> matrixKind r c \<noteq> None"
  by (cases r) (simp_all add: rolesHolding_def)

lemma set_capabilitiesFor: "set (capabilitiesFor r) = {c. matrixKind r c \<noteq> None}"
  by (auto simp: capabilitiesFor_def CAPABILITIES_UNIV)

subsection \<open>Facts about the resolver\<close>

text \<open>When a kind is satisfied by a context.\<close>

fun kind_satisfied :: "capability_context \<Rightarrow> resolver_kind \<Rightarrow> bool" where
  "kind_satisfied ctx ALLOW = True"
| "kind_satisfied ctx OWN = True"
| "kind_satisfied ctx READ_ONLY = True"
| "kind_satisfied ctx STEP_UP = (stepUpSatisfied ctx = Some True)"
| "kind_satisfied ctx TWO_PERSON = truthy (secondApproverUserId ctx)"
| "kind_satisfied ctx GRANT = (hasActiveSupportGrant ctx = Some True)"
| "kind_satisfied ctx DENY = False"

lemma decide_kind_allowed [simp]: "cd_allowed (decide_kind c ctx k) = kind_satisfied ctx k"
  by (cases k) (simp_all add: decision_def Let_def)

lemma decide_kind_kind [simp]: "cd_kind (decide_kind c ctx k) = Some k"
  by (cases k) (simp_all add: decision_def Let_def)

lemma decide_kind_heldBy [simp]: "heldBy (decide_kind c ctx k) = rolesHolding c"
  by (cases k) (simp_all add: decision_def Let_def)

lemma decide_kind_capability [simp]: "cd_capability (decide_kind c ctx k) = capability_name c"
  by (cases k) (simp_all add: decision_def Let_def)

lemma decide_kind_conditions:
  "requiresStepUp (decide_kind c ctx k) = (k = STEP_UP \<and> \<not> kind_satisfied ctx k)"
  "requiresSecondApprover (decide_kind c ctx k) = (k = TWO_PERSON \<and> \<not> kind_satisfied ctx k)"
  "requiresSupportGrant (decide_kind c ctx k) = (k = GRANT \<and> \<not> kind_satisfied ctx k)"
  by (cases k; simp add: decision_def Let_def)+

declare decide_kind.simps [simp del]

lemma decision_fields [simp]:
  "cd_capability (decision c k a w) = capability_name c" "cd_allowed (decision c k a w) = a"
  "requiresStepUp (decision c k a w) = False" "requiresSecondApprover (decision c k a w) = False"
  "requiresSupportGrant (decision c k a w) = False" "heldBy (decision c k a w) = rolesHolding c"
  by (simp_all add: decision_def)

lemma resolve_name:
  "resolveCapability (capability_name c) ctx =
     (case cc_role ctx of
        None \<Rightarrow> decision c None False NO_MEMBERSHIP
      | Some role \<Rightarrow>
          if membershipActive ctx = Some False then decision c None False MEMBERSHIP_INACTIVE
          else case matrixKind role c of
                 None \<Rightarrow> decision c None False ROLE_LACKS_CAPABILITY
               | Some kind \<Rightarrow> decide_kind c ctx kind)"
  by (simp add: resolveCapability_def)

lemma can_iff:
  "can v ctx \<longleftrightarrow> (\<exists>c r k. v = capability_name c \<and> cc_role ctx = Some r
     \<and> membershipActive ctx \<noteq> Some False \<and> matrixKind r c = Some k \<and> kind_satisfied ctx k)"
  (is "?l \<longleftrightarrow> ?r")
proof (cases "capability_of v")
  case None
  then have "v \<noteq> capability_name c" for c by auto
  with None show ?thesis by (simp add: can_def resolveCapability_def unknown_capability_def)
next
  case (Some c)
  then have v: "v = capability_name c" by (rule capability_of_SomeD)
  have "?l \<longleftrightarrow> (\<exists>r k. cc_role ctx = Some r \<and> membershipActive ctx \<noteq> Some False
      \<and> matrixKind r c = Some k \<and> kind_satisfied ctx k)"
    unfolding v can_def resolve_name by (auto split: option.splits)
  with v show ?thesis by (auto dest: capability_name_inj)
qed


text \<open>
  The role matrix is a ladder with a side room. Every capability an Admin holds, the Owner
  holds in the same form, and every capability a Member holds, the Admin holds in the same form;
  the two capabilities that reach a customer's private mail or settings are held by Support alone,
  in particular by neither Owner nor Admin.
\<close>

theorem matrix_ladder:
  "(\<forall>c. matrixKind ADMIN c \<noteq> None \<longrightarrow> matrixKind OWNER c = matrixKind ADMIN c)
   \<and> (\<forall>c. matrixKind MEMBER c \<noteq> None \<longrightarrow> matrixKind ADMIN c = matrixKind MEMBER c)
   \<and> rolesHolding Mail_Other_Read = [SUPPORT] \<and> rolesHolding Support_Mailbox_Reset = [SUPPORT]
   \<and> matrixKind SUPPORT Support_Mailbox_Reset = Some GRANT"
proof -
  have rows: "superset_row c" for c
    using superset_rows all_capabilities [of superset_row] by blast
  moreover have "rolesHolding Mail_Other_Read = [SUPPORT]" "rolesHolding Support_Mailbox_Reset = [SUPPORT]"
      "matrixKind SUPPORT Support_Mailbox_Reset = Some GRANT"
    by code_simp+
  ultimately show ?thesis by (auto simp: superset_row_def)
qed

theorem matrix_ladder_witness:
  "matrixKind OWNER Workspace_Domains_Remove = Some STEP_UP"
proof -
  have a: "matrixKind ADMIN Workspace_Domains_Remove = Some STEP_UP" by code_simp
  from matrix_ladder have "matrixKind OWNER Workspace_Domains_Remove = matrixKind ADMIN Workspace_Domains_Remove"
    using a by blast
  with a show ?thesis by simp
qed

text \<open>
  A decision never says both that the caller may proceed and that a condition is open, never
  asks for two conditions, and on a suspended membership asks for none: a suspended Owner is
  refused outright whatever it could satisfy. A refusal of a known capability names exactly the
  roles that hold it.
\<close>

theorem decision_conditions_exclusive:
  "let d = resolveCapability v ctx in
     (requiresStepUp d \<or> requiresSecondApprover d \<or> requiresSupportGrant d \<longrightarrow> \<not> cd_allowed d)
   \<and> \<not> (requiresStepUp d \<and> requiresSecondApprover d) \<and> \<not> (requiresStepUp d \<and> requiresSupportGrant d)
   \<and> \<not> (requiresSecondApprover d \<and> requiresSupportGrant d)
   \<and> (membershipActive ctx = Some False \<longrightarrow>
        \<not> cd_allowed d \<and> \<not> requiresStepUp d \<and> \<not> requiresSecondApprover d \<and> \<not> requiresSupportGrant d)
   \<and> (\<forall>c. capability_of v = Some c \<longrightarrow> (\<forall>r. r \<in> set (heldBy d) \<longleftrightarrow> matrixKind r c \<noteq> None))"
proof (cases "capability_of v")
  case None
  then show ?thesis by (simp add: Let_def resolveCapability_def unknown_capability_def)
next
  case (Some c)
  then show ?thesis
    unfolding resolveCapability_def Let_def
    by (auto simp: decide_kind_conditions rolesHolding_iff split: option.split)
qed

theorem decision_conditions_exclusive_witness:
  "\<not> can ''tenant.delete''
     \<lparr>cc_role = Some OWNER, membershipActive = Some False, hasActiveSupportGrant = None,
      stepUpSatisfied = Some True, secondApproverUserId = Some ''u2''\<rparr>"
  using decision_conditions_exclusive
    [of "''tenant.delete''" "\<lparr>cc_role = Some OWNER, membershipActive = Some False,
      hasActiveSupportGrant = None, stepUpSatisfied = Some True, secondApproverUserId = Some ''u2''\<rparr>"]
  by (simp add: can_def Let_def)

lemma snapshot_shows_every_held_capability:
  "cc_role ctx = Some r \<Longrightarrow>
   map cd_capability (capabilitySnapshot ctx) = map capability_name (capabilitiesFor r)"
  by (auto simp: capabilitySnapshot_def resolve_name split: option.split)

end
