(* ===== verification/Pagination.thy ===== *)
theory Pagination
  imports Errors "HOL-Library.Char_ord"
begin

section \<open>Cursor pagination\<close>

text \<open>
  \<open>common/utils/pagination.ts\<close>: opaque cursors, the arguments of the database query, and the
  page a query's rows become. A cursor is the base64url text of a row's identifier, as the
  platform's \<open>Buffer\<close> writes and reads it; identifiers are ASCII.
\<close>

subsection \<open>base64url\<close>

definition BASE64URL :: string where
  "BASE64URL = ''ABCDEFGHIJKLMNOPQRSTUVWXYZabcdefghijklmnopqrstuvwxyz0123456789-_''"

text \<open>Eight-bit values to six-bit values and back; the last group may be short.\<close>

fun sextets :: "nat list \<Rightarrow> nat list" where
  "sextets [] = []"
| "sextets [a] = [a div 4, (a mod 4) * 16]"
| "sextets [a, b] = [a div 4, (a mod 4) * 16 + b div 16, (b mod 16) * 4]"
| "sextets (a # b # c # rest) =
     a div 4 # ((a mod 4) * 16 + b div 16) # ((b mod 16) * 4 + c div 64) # c mod 64 # sextets rest"

fun octets :: "nat list \<Rightarrow> nat list" where
  "octets [] = []"
| "octets [p] = []"
| "octets [p, q] = [p * 4 + q div 16]"
| "octets [p, q, r] = [p * 4 + q div 16, (q mod 16) * 16 + r div 4]"
| "octets (p # q # r # s # rest) =
     (p * 4 + q div 16) # ((q mod 16) * 16 + r div 4) # ((r mod 4) * 64 + s) # octets rest"

definition to_base64url :: "string \<Rightarrow> string" where
  "to_base64url s = map (\<lambda>v. BASE64URL ! v) (sextets (map of_char s))"

text \<open>The decoder also reads the classic alphabet and skips what is in neither.\<close>

definition sextet_of :: "char \<Rightarrow> nat option" where
  "sextet_of c = (if c = CHR ''+'' then Some 62 else if c = CHR ''/'' then Some 63 else index_from 0 c BASE64URL)"

definition from_base64url :: "string \<Rightarrow> string" where
  "from_base64url s = map char_of (octets (List.map_filter sextet_of s))"

subsection \<open>Cursors\<close>

definition encodeCursor :: "uuid \<Rightarrow> string" where
  "encodeCursor i = to_base64url i"

definition is_hex :: "char \<Rightarrow> bool" where
  "is_hex c \<longleftrightarrow> c \<in> set ''0123456789abcdefABCDEF''"

definition UUID :: "string \<Rightarrow> bool" where
  "UUID s = list_all2 (\<lambda>p c. if p = CHR ''-'' then c = CHR ''-'' else is_hex c)
     ''xxxxxxxx-xxxx-xxxx-xxxx-xxxxxxxxxxxx'' s"

definition decodeCursor :: "string option \<Rightarrow> (uuid option) result" where
  "decodeCursor cursor =
     (case cursor of
        None \<Rightarrow> Inr None
      | Some c \<Rightarrow>
          if c = [] then Inr None
          else let i = from_base64url c
            in if UUID i then Inr (Some i) else fail_with 400 VALIDATION_ERROR)"

subsection \<open>Pages\<close>

text \<open>\<open>take\<close>, and the \<open>cursor\<close> with its \<open>skip: 1\<close> when there is one.\<close>

definition cursorArgs :: "nat \<Rightarrow> string option \<Rightarrow> (nat \<times> uuid option) result" where
  "cursorArgs limit cursor = map_sum id (\<lambda>i. (limit + 1, i)) (decodeCursor cursor)"

record 'r page =
  items :: "'r list"
  nextCursor :: "string option"

definition toPage :: "('r \<Rightarrow> uuid) \<Rightarrow> 'r list \<Rightarrow> nat \<Rightarrow> 'r page" where
  "toPage rid rows limit =
     (let hasMore = limit < length rows;
          its = (if hasMore then take limit rows else rows)
      in \<lparr>items = its,
          nextCursor = (if hasMore \<and> its \<noteq> [] then Some (encodeCursor (rid (last its))) else None)\<rparr>)"

text \<open>
  The database's part: the rows of the query in its order, from the row the cursor names (skipping
  it), and none when no row has that identifier.
\<close>

fun find_many :: "('r \<Rightarrow> uuid) \<Rightarrow> nat \<times> uuid option \<Rightarrow> 'r list \<Rightarrow> 'r list" where
  "find_many rid (n, None) rows = take n rows"
| "find_many rid (n, Some i) rows = take n (drop 1 (dropWhile (\<lambda>r. rid r \<noteq> i) rows))"

definition list_page :: "('r \<Rightarrow> uuid) \<Rightarrow> 'r list \<Rightarrow> nat \<Rightarrow> string option \<Rightarrow> 'r page result" where
  "list_page rid rows limit cursor =
     bind_result (cursorArgs limit cursor) (\<lambda>args. Inr (toPage rid (find_many rid args rows) limit))"

text \<open>A client that follows the cursors to the end, with a bound on the number of pages.\<close>

fun walk :: "('r \<Rightarrow> uuid) \<Rightarrow> 'r list \<Rightarrow> nat \<Rightarrow> nat \<Rightarrow> string option \<Rightarrow> 'r list list option" where
  "walk rid rows limit 0 cursor = None"
| "walk rid rows limit (Suc n) cursor =
     (case list_page rid rows limit cursor of
        Inl e \<Rightarrow> None
      | Inr p \<Rightarrow>
          (case nextCursor p of
             None \<Rightarrow> Some [items p]
           | Some c \<Rightarrow> map_option ((#) (items p)) (walk rid rows limit n (Some c))))"

definition paginationLimit :: "int option \<Rightarrow> int option" where
  "paginationLimit v = (case v of None \<Rightarrow> Some 50
     | Some n \<Rightarrow> if 1 \<le> n \<and> n \<le> 200 then Some n else None)"

subsection \<open>The codec\<close>

lemma octets_sextets: "\<forall>x\<in>set xs. x < 256 \<Longrightarrow> octets (sextets xs) = xs"
proof (induction xs rule: sextets.induct)
  case (2 a)
  then show ?case by simp
next
  case (3 a b)
  then have "b div 16 < 16" by auto
  then have "(a mod 4 * 16 + b div 16) div 16 = a mod 4" by simp
  with 3 show ?case by simp
next
  case (4 a b c rest)
  then have "b div 16 < 16" "c div 64 < 4" by auto
  then have "(a mod 4 * 16 + b div 16) div 16 = a mod 4" "(a mod 4 * 16 + b div 16) mod 16 = b div 16"
    "(b mod 16 * 4 + c div 64) div 4 = b mod 16" "(b mod 16 * 4 + c div 64) mod 4 = c div 64"
    by auto
  with 4 show ?case by simp
qed simp

lemma sextets_lt: "\<forall>x\<in>set xs. x < 256 \<Longrightarrow> v \<in> set (sextets xs) \<Longrightarrow> v < 64"
proof (induction xs rule: sextets.induct)
  case (2 a)
  then show ?case by auto
next
  case (3 a b)
  then have "a div 4 < 64" "b div 16 < 16" by auto
  then have "a mod 4 * 16 + b div 16 < 64" "b mod 16 * 4 < 64" by auto
  with 3 show ?case by auto
next
  case (4 a b c rest)
  then have "a div 4 < 64" "b div 16 < 16" "c div 64 < 4" by auto
  then have "a mod 4 * 16 + b div 16 < 64" "b mod 16 * 4 + c div 64 < 64"
    using mod_less_divisor [of 4 a] mod_less_divisor [of 16 b] by linarith+
  with 4 show ?case by auto
qed simp

lemma sextet_alphabet: "v < 64 \<Longrightarrow> sextet_of (BASE64URL ! v) = Some v"
proof -
  have "list_all (\<lambda>v. sextet_of (BASE64URL ! v) = Some v) [0..<64]" by code_simp
  then show "v < 64 \<Longrightarrow> ?thesis" by (simp add: list_all_iff)
qed

lemma sextets_back: "\<forall>v\<in>set vs. v < 64 \<Longrightarrow> List.map_filter sextet_of (map (\<lambda>v. BASE64URL ! v) vs) = vs"
  by (induction vs) (simp_all add: List.map_filter_def sextet_alphabet)

lemma base64url_roundtrip: "from_base64url (to_base64url s) = s"
proof -
  have b: "\<forall>x\<in>set (map of_char s). x < (256 :: nat)" by auto
  then have "\<forall>v\<in>set (sextets (map of_char s)). v < 64" using sextets_lt by blast
  then show ?thesis
    by (simp add: from_base64url_def to_base64url_def sextets_back octets_sextets [OF b] comp_def)
qed

subsection \<open>Walking the pages\<close>

lemma UUID_not_empty: "UUID i \<Longrightarrow> to_base64url i \<noteq> []"
proof
  assume "UUID i" and "to_base64url i = []"
  moreover have "from_base64url (to_base64url i) = i" by (rule base64url_roundtrip)
  moreover have "from_base64url [] = []" by (simp add: from_base64url_def List.map_filter_def)
  ultimately show False by (auto simp: UUID_def)
qed

lemma decode_encode: "UUID i \<Longrightarrow> decodeCursor (Some (encodeCursor i)) = Inr (Some i)"
  by (simp add: decodeCursor_def encodeCursor_def base64url_roundtrip UUID_not_empty)

text \<open>
  A cursor the API issues for a row is accepted and names that row, so a client can always go
  on from a page it was given; and a cursor that is accepted names an identifier, so no other
  text reaches the database and no bad cursor restarts the list.
\<close>

theorem cursor_roundtrip:
  assumes "UUID i"
  shows "decodeCursor (Some (encodeCursor i)) = Inr (Some i)
     \<and> (\<forall>c r. c \<noteq> [] \<and> decodeCursor (Some c) = Inr r \<longrightarrow> (\<exists>j. r = Some j \<and> UUID j))"
  using decode_encode [OF assms] by (auto simp: decodeCursor_def Let_def split: if_splits)

definition demo_uuid :: "char \<Rightarrow> uuid" where
  "demo_uuid c = replicate 8 c @ ''-0000-4000-8000-000000000000''"

theorem cursor_roundtrip_witness:
  "decodeCursor (Some (encodeCursor (demo_uuid (CHR ''a'')))) = Inr (Some (demo_uuid (CHR ''a'')))
   \<and> decodeCursor (Some ''not-a-cursor'') = fail_with 400 VALIDATION_ERROR"
proof -
  have "UUID (demo_uuid (CHR ''a''))" by code_simp
  moreover have "decodeCursor (Some ''not-a-cursor'') = fail_with 400 VALIDATION_ERROR" by code_simp
  ultimately show ?thesis using cursor_roundtrip [of "demo_uuid (CHR ''a'')"] by simp
qed

lemma dropWhile_to_row:
  "rid l \<notin> rid ` set pre \<Longrightarrow> dropWhile (\<lambda>r. rid r \<noteq> rid l) (pre @ l # suf) = l # suf"
  by (induction pre) auto

lemma list_page_from:
  assumes "unique_key rid (pre @ suf)" and "\<forall>r\<in>set (pre @ suf). UUID (rid r)" and "0 < limit"
    and "cursor = (if pre = [] then None else Some (encodeCursor (rid (last pre))))"
  shows "list_page rid (pre @ suf) limit cursor = Inr (toPage rid (take (limit + 1) suf) limit)"
proof (cases "pre = []")
  case True
  with assms(4) show ?thesis by (simp add: list_page_def cursorArgs_def decodeCursor_def)
next
  case False
  then obtain ps l where pre: "pre = ps @ [l]" by (metis append_butlast_last_id)
  then have "rid l \<notin> rid ` set ps" using assms(1) by (auto simp: unique_key_def)
  then have "dropWhile (\<lambda>r. rid r \<noteq> rid l) (pre @ suf) = l # suf"
    by (simp add: pre dropWhile_to_row)
  moreover have "decodeCursor cursor = Inr (Some (rid l))"
    using assms(2,4) by (simp add: pre decode_encode)
  ultimately show ?thesis by (simp add: list_page_def cursorArgs_def)
qed

lemma toPage_full:
  "limit < length suf \<Longrightarrow> 0 < limit \<Longrightarrow>
     toPage rid (take (limit + 1) suf) limit
       = \<lparr>items = take limit suf, nextCursor = Some (encodeCursor (rid (last (take limit suf))))\<rparr>"
  by (auto simp: toPage_def Let_def min_def)

lemma walk_from:
  assumes "0 < limit"
  shows "unique_key rid (pre @ suf) \<Longrightarrow> \<forall>r\<in>set (pre @ suf). UUID (rid r) \<Longrightarrow>
     cursor = (if pre = [] then None else Some (encodeCursor (rid (last pre)))) \<Longrightarrow>
     length suf div limit < n \<Longrightarrow>
     \<exists>pages. walk rid (pre @ suf) limit n cursor = Some pages \<and> concat pages = suf
       \<and> (\<forall>p\<in>set pages. length p \<le> limit)"
proof (induction n arbitrary: pre suf cursor)
  case (Suc n)
  note pg = list_page_from [OF Suc.prems(1,2) assms Suc.prems(3)]
  show ?case
  proof (cases "limit < length suf")
    case False
    then show ?thesis by (simp add: pg toPage_def)
  next
    case True
    let ?p = "take limit suf" and ?s = "drop limit suf"
    have ne: "?p \<noteq> []" using True assms by auto
    have "length ?s div limit < n" using Suc.prems(4) True assms by (simp add: le_div_geq)
    moreover have "unique_key rid ((pre @ ?p) @ ?s)" "\<forall>r\<in>set ((pre @ ?p) @ ?s). UUID (rid r)"
      using Suc.prems(1,2) by simp_all
    moreover have "Some (encodeCursor (rid (last ?p)))
        = (if pre @ ?p = [] then None else Some (encodeCursor (rid (last (pre @ ?p)))))"
      using ne by simp
    ultimately obtain pages where
      "walk rid ((pre @ ?p) @ ?s) limit n (Some (encodeCursor (rid (last ?p)))) = Some pages"
      "concat pages = ?s" "\<forall>p\<in>set pages. length p \<le> limit"
      using Suc.IH by blast
    then show ?thesis using True assms
      by (intro exI [of _ "?p # pages"]) (simp add: pg toPage_full [simplified])
  qed
qed simp

text \<open>
  C32: following the cursors visits every row exactly once, in the order of the query, and comes to
  an end: a list of \<open>n\<close> rows takes at most one page more than \<open>n div limit\<close>, and no page is longer
  than the limit.
\<close>

theorem walk_visits_every_row_once:
  assumes "0 < limit" and "unique_key rid rows" and "\<forall>r\<in>set rows. UUID (rid r)"
  shows "\<exists>pages. walk rid rows limit (Suc (length rows div limit)) None = Some pages
     \<and> concat pages = rows \<and> (\<forall>p\<in>set pages. length p \<le> limit)"
  using walk_from [OF assms(1), of rid "[]" rows None "Suc (length rows div limit)"] assms(2,3) by simp

theorem walk_visits_every_row_once_witness:
  "let rows = map demo_uuid ''abcde''
   in \<exists>pages. walk id rows 2 3 None = Some pages \<and> concat pages = rows"
proof -
  let ?rows = "map demo_uuid ''abcde''"
  have u: "unique_key id ?rows" and i: "\<forall>r\<in>set ?rows. UUID (id r)" by code_simp+
  have len: "Suc (length ?rows div 2) = 3" by simp
  show ?thesis
    using walk_visits_every_row_once [OF zero_less_numeral u i] unfolding Let_def len [symmetric] by blast
qed

end
