(* ===== verification/Totp.thy ===== *)
theory Totp
  imports Errors "HOL-Library.Word"
begin

unbundle bit_operations_syntax

section \<open>Base32 and time-based one-time passwords\<close>

text \<open>
  \<open>modules/auth/totp.ts\<close>. A buffer is a list of bytes. The accumulators of the base32 loops are
  JavaScript numbers under the bit operators, which work on 32 bits, so they are 32-bit words. The
  HMAC-SHA1 of the platform's crypto library is the parameter \<open>hmac\<close>; what is proved of a digest
  needs at most that it has 20 bytes. Strings are ASCII.
\<close>

type_synonym byte = "8 word"

definition TOTP_STEP_SECONDS :: int where
  "TOTP_STEP_SECONDS = 30"

definition TOTP_DIGITS :: nat where
  "TOTP_DIGITS = 6"

definition TOTP_WINDOW_STEPS :: int where
  "TOTP_WINDOW_STEPS = 1"

definition BASE32_ALPHABET :: string where
  "BASE32_ALPHABET = ''ABCDEFGHIJKLMNOPQRSTUVWXYZ234567''"

definition is_space :: "char \<Rightarrow> bool" where
  "is_space c \<longleftrightarrow> c \<in> set [CHR '' '', CHR 0x09, CHR 0x0A, CHR 0x0B, CHR 0x0C, CHR 0x0D, CHR 0xA0]"

definition strip_spaces :: "string \<Rightarrow> string" where
  "strip_spaces s = filter (\<lambda>c. \<not> is_space c) s"

definition upper_char :: "char \<Rightarrow> char" where
  "upper_char c = (if 97 \<le> (of_char c :: nat) \<and> (of_char c :: nat) \<le> 122
     then char_of ((of_char c :: nat) - 32) else c)"

subsection \<open>Base32\<close>

definition alphabet_at :: "32 word \<Rightarrow> char" where
  "alphabet_at w = BASE32_ALPHABET ! unat w"

text \<open>The inner loop of the encoder: as long as five bits are pending, write a character.\<close>

fun enc_emit :: "nat \<Rightarrow> 32 word \<Rightarrow> string \<Rightarrow> nat \<times> string" where
  "enc_emit bits v out =
     (if 5 \<le> bits
      then enc_emit (bits - 5) v (out @ [alphabet_at (drop_bit (bits - 5) v AND 31)])
      else (bits, out))"

declare enc_emit.simps [simp del]

definition enc_byte :: "nat \<times> 32 word \<times> string \<Rightarrow> byte \<Rightarrow> nat \<times> 32 word \<times> string" where
  "enc_byte st b =
     (let (bits, v, out) = st;
          v' = push_bit 8 v OR ucast b;
          (bits', out') = enc_emit (bits + 8) v' out
      in (bits', v', out'))"

definition base32Encode :: "byte list \<Rightarrow> string" where
  "base32Encode data =
     (let (bits, v, out) = foldl enc_byte (0, 0, []) data
      in if 0 < bits then out @ [alphabet_at (push_bit (5 - bits) v AND 31)] else out)"

definition base32_normalize :: "string \<Rightarrow> string" where
  "base32_normalize encoded =
     map upper_char (strip_spaces (rev (dropWhile (\<lambda>c. c = CHR ''='') (rev encoded))))"

definition dec_index :: "nat \<times> 32 word \<times> byte list \<Rightarrow> nat \<Rightarrow> nat \<times> 32 word \<times> byte list" where
  "dec_index st i =
     (let (bits, v, bytes) = st; v' = push_bit 5 v OR of_nat i; bits' = bits + 5
      in if 8 \<le> bits' then (bits' - 8, v', bytes @ [ucast (drop_bit (bits' - 8) v' AND 255)])
         else (bits', v', bytes))"

fun dec_chars :: "nat \<times> 32 word \<times> byte list \<Rightarrow> string \<Rightarrow> (byte list) result" where
  "dec_chars (bits, v, bytes) [] = Inr bytes"
| "dec_chars st (c # cs) =
     (case index_from 0 c BASE32_ALPHABET of
        None \<Rightarrow> Inl (ServerError ''Invalid base32 character in secret'')
      | Some i \<Rightarrow> dec_chars (dec_index st i) cs)"

definition base32Decode :: "string \<Rightarrow> (byte list) result" where
  "base32Decode encoded = dec_chars (0, 0, []) (base32_normalize encoded)"

subsection \<open>HOTP and TOTP\<close>

text \<open>Reading past the end of a buffer gives \<open>undefined\<close>, which the bit operators read as 0.\<close>

definition byte_at :: "byte list \<Rightarrow> nat \<Rightarrow> 32 word" where
  "byte_at d i = (if i < length d then ucast (d ! i) else 0)"

definition be32 :: "int \<Rightarrow> byte list" where
  "be32 n = map (\<lambda>k. of_int (n div 256 ^ k mod 256)) [3, 2, 1, 0]"

definition counter_message :: "int \<Rightarrow> byte list" where
  "counter_message counter = be32 (counter div 2 ^ 32) @ be32 (counter mod 2 ^ 32)"

definition truncated :: "byte list \<Rightarrow> 32 word" where
  "truncated digest =
     (let offset = unat (byte_at digest (length digest - 1) AND 15)
      in push_bit 24 (byte_at digest offset AND 127)
         OR push_bit 16 (byte_at digest (offset + 1) AND 255)
         OR push_bit 8 (byte_at digest (offset + 2) AND 255)
         OR (byte_at digest (offset + 3) AND 255))"

function decimal :: "int \<Rightarrow> string" where
  "decimal n = (if n < 10 then [char_of (48 + n)] else decimal (n div 10) @ [char_of (48 + n mod 10)])"
  by pat_completeness auto
termination
  by (relation "measure nat") auto

declare decimal.simps [simp del]

definition padStart :: "nat \<Rightarrow> string \<Rightarrow> string" where
  "padStart n s = replicate (n - length s) (CHR ''0'') @ s"

text \<open>\<open>writeUInt32BE\<close> refuses a value outside 32 bits.\<close>

definition hotp :: "(byte list \<Rightarrow> byte list \<Rightarrow> byte list) \<Rightarrow> byte list \<Rightarrow> int \<Rightarrow> nat \<Rightarrow> string result" where
  "hotp hmac secret counter digits =
     (if counter < 0 \<or> 2 ^ 64 \<le> counter then Inl (ServerError ''ERR_OUT_OF_RANGE'')
      else let binary = uint (truncated (hmac secret (counter_message counter)))
        in Inr (padStart digits (decimal (binary mod 10 ^ digits))))"

definition totp ::
  "(byte list \<Rightarrow> byte list \<Rightarrow> byte list) \<Rightarrow> string \<Rightarrow> instant \<Rightarrow> nat \<Rightarrow> int \<Rightarrow> string result" where
  "totp hmac base32Secret at digits stepSeconds =
     (let counter = at div (1000 * stepSeconds)
      in bind_result (base32Decode base32Secret) (\<lambda>key. hotp hmac key counter digits))"

definition is_digit :: "char \<Rightarrow> bool" where
  "is_digit c \<longleftrightarrow> 48 \<le> (of_char c :: nat) \<and> (of_char c :: nat) \<le> 57"

text \<open>The loop over the offsets from \<open>-windowSteps\<close> to \<open>windowSteps\<close>.\<close>

fun match_step ::
  "(byte list \<Rightarrow> byte list \<Rightarrow> byte list) \<Rightarrow> byte list \<Rightarrow> string \<Rightarrow> int list \<Rightarrow> (int option) result" where
  "match_step hmac secret submitted [] = Inr None"
| "match_step hmac secret submitted (s # ss) =
     bind_result (hotp hmac secret s (length submitted))
       (\<lambda>expected. if submitted = expected then Inr (Some s) else match_step hmac secret submitted ss)"

definition verifyTotp ::
  "(byte list \<Rightarrow> byte list \<Rightarrow> byte list) \<Rightarrow> string \<Rightarrow> string \<Rightarrow> instant \<Rightarrow> int \<Rightarrow> (int option) result" where
  "verifyTotp hmac base32Secret given at windowSteps =
     (let submitted = strip_spaces given
      in if submitted = [] \<or> \<not> list_all is_digit submitted then Inr None
         else bind_result (base32Decode base32Secret)
           (\<lambda>secret. let currentStep = at div (1000 * TOTP_STEP_SECONDS)
             in match_step hmac secret submitted
                  (map (\<lambda>offset. currentStep + offset) [- windowSteps..windowSteps])))"

subsection \<open>Base32 round trip\<close>

text \<open>
  The low \<open>n\<close> bits of a word, most significant first. Both loops are a change of grouping of
  one stream of bits, which is the invariant of each.
\<close>

definition wbits :: "nat \<Rightarrow> 'a::len word \<Rightarrow> bool list" where
  "wbits n w = map (\<lambda>i. bit w (n - 1 - i)) [0..<n]"

lemma length_wbits [simp]: "length (wbits n w) = n"
  by (simp add: wbits_def)

lemma nth_wbits: "i < n \<Longrightarrow> wbits n w ! i = bit w (n - 1 - i)"
  by (simp add: wbits_def)

definition byte_bits :: "byte list \<Rightarrow> bool list" where
  "byte_bits bs = concat (map (wbits 8) bs)"

lemma byte_bits_simps [simp]:
  "byte_bits [] = []" "byte_bits (b # bs) = wbits 8 b @ byte_bits bs"
  "byte_bits (xs @ ys) = byte_bits xs @ byte_bits ys"
  by (simp_all add: byte_bits_def)

lemma length_byte_bits [simp]: "length (byte_bits bs) = 8 * length bs"
  by (induction bs) simp_all

lemma wbits_8_inj: "wbits 8 a = wbits 8 (b :: byte) \<Longrightarrow> a = b"
proof (rule bit_eqI)
  fix n assume eq: "wbits 8 a = wbits 8 b" and n: "possible_bit TYPE(byte) n"
  then have "n < 8" by simp
  with arg_cong [OF eq, of "\<lambda>l. l ! (7 - n)"] show "bit a n = bit b n"
    by (simp add: nth_wbits)
qed

lemma byte_bits_inj: "byte_bits xs = byte_bits ys \<Longrightarrow> xs = ys"
proof (induction xs arbitrary: ys)
  case Nil
  then have "length (byte_bits ys) = 0" by simp
  then show ?case by simp
next
  case (Cons x xs)
  have "length (byte_bits (x # xs)) = length (byte_bits ys)" using Cons.prems by simp
  then obtain y ys' where ys: "ys = y # ys'" by (cases ys) simp_all
  from Cons.prems have "wbits 8 x = wbits 8 y \<and> byte_bits xs = byte_bits ys'"
    unfolding ys byte_bits_simps by (subst (asm) append_eq_append_conv) simp_all
  then show ?case using Cons.IH ys wbits_8_inj by blast
qed

lemma wbits_push_or:
  fixes v :: "32 word" and b :: "'a::len word"
  assumes "n + m \<le> 32"
  shows "wbits (n + m) (push_bit m v OR (take_bit m (ucast b))) = wbits n v @ wbits m (ucast b :: 32 word)"
proof (rule nth_equalityI)
  fix i assume "i < length (wbits (n + m) (push_bit m v OR (take_bit m (ucast b))))"
  then have i: "i < n + m" by simp
  show "wbits (n + m) (push_bit m v OR (take_bit m (ucast b))) ! i
      = (wbits n v @ wbits m (ucast b :: 32 word)) ! i"
  proof (cases "i < n")
    case True
    then have k: "m \<le> n + m - Suc i" "n + m - Suc i < 32" "n + m - Suc i - m = n - Suc i"
      using assms by simp_all
    then show ?thesis using True i assms
      by (simp add: nth_wbits nth_append bit_or_iff bit_push_bit_iff bit_take_bit_iff)
  next
    case False
    then obtain j where j: "i = n + j" "j < m" using i le_Suc_ex [of n i] by auto
    then have k: "n + m - Suc (n + j) = m - Suc j" by simp
    show ?thesis using j(2) assms
      by (auto simp: nth_wbits nth_append bit_or_iff bit_push_bit_iff bit_take_bit_iff j(1) k)
  qed
qed simp

lemma take_bit_ucast_byte: "take_bit 8 (ucast (b :: byte) :: 32 word) = ucast b"
  by (rule bit_eqI) (auto simp: bit_simps dest: bit_imp_le_length)

lemma wbits_8_ucast: "wbits 8 (ucast (b :: byte) :: 32 word) = wbits 8 b"
  by (rule nth_equalityI) (auto simp: nth_wbits bit_simps)

lemma wbits_push_byte:
  "n \<le> 24 \<Longrightarrow> wbits (n + 8) (push_bit 8 v OR ucast (b :: byte) :: 32 word) = wbits n v @ wbits 8 b"
  using wbits_push_or [of n 8 v b] by (simp add: take_bit_ucast_byte wbits_8_ucast)

lemma wbits_take: "k \<le> n \<Longrightarrow> n \<le> 32 \<Longrightarrow>
    wbits n (v :: 32 word) = wbits k (drop_bit (n - k) v) @ wbits (n - k) v"
  by (rule nth_equalityI) (auto simp: nth_wbits nth_append bit_simps)

lemma wbits_mask5: "wbits 5 (w AND 31 :: 32 word) = wbits 5 w"
proof -
  have m: "(31 :: 32 word) = mask 5" by (simp add: mask_eq_exp_minus_1)
  show ?thesis unfolding m by (rule nth_equalityI) (auto simp: nth_wbits bit_simps)
qed

text \<open>The five bits a character of the alphabet stands for.\<close>

definition char_bits :: "char \<Rightarrow> bool list" where
  "char_bits c = (case index_from 0 c BASE32_ALPHABET of
     None \<Rightarrow> [] | Some i \<Rightarrow> wbits 5 (of_nat i :: 32 word))"

lemma index_alphabet: "i < 32 \<Longrightarrow> index_from 0 (BASE32_ALPHABET ! i) BASE32_ALPHABET = Some i"
proof -
  assume i: "i < 32"
  have "list_all (\<lambda>i. index_from 0 (BASE32_ALPHABET ! i) BASE32_ALPHABET = Some i) [0..<32]"
    by code_simp
  with i show ?thesis by (simp add: list_all_iff)
qed

lemma unat_mask5: "unat (w AND 31 :: 32 word) < 32"
proof -
  have "w AND 31 = take_bit 5 w" by (simp add: take_bit_eq_mask mask_eq_exp_minus_1)
  then have "unat (w AND 31) = take_bit 5 (unat w)" by (simp add: unsigned_take_bit_eq)
  then show ?thesis using take_bit_nat_less_exp [of 5 "unat w"] by simp
qed

lemma char_bits_alphabet: "char_bits (alphabet_at (w AND 31)) = wbits 5 w"
  using index_alphabet [OF unat_mask5, of w]
  by (simp add: char_bits_def alphabet_at_def wbits_mask5)

definition text_bits :: "string \<Rightarrow> bool list" where
  "text_bits s = concat (map char_bits s)"

lemma text_bits_simps [simp]:
  "text_bits [] = []" "text_bits (c # s) = char_bits c @ text_bits s"
  "text_bits (s @ t) = text_bits s @ text_bits t"
  by (simp_all add: text_bits_def)

text \<open>Every character the encoder writes is one of the alphabet.\<close>

definition in_alphabet :: "string \<Rightarrow> bool" where
  "in_alphabet s \<longleftrightarrow> (\<forall>c\<in>set s. \<exists>i<32. c = BASE32_ALPHABET ! i)"

lemma in_alphabet_simps [simp]:
  "in_alphabet []" "in_alphabet (s @ t) \<longleftrightarrow> in_alphabet s \<and> in_alphabet t"
  "in_alphabet (c # s) \<longleftrightarrow> (\<exists>i<32. c = BASE32_ALPHABET ! i) \<and> in_alphabet s"
  by (auto simp: in_alphabet_def)

lemma alphabet_at_ex [simp]: "\<exists>i<32. alphabet_at (w AND 31) = BASE32_ALPHABET ! i"
  using unat_mask5 by (auto simp: alphabet_at_def)

lemma enc_emit_bits:
  "enc_emit bits v out = (bits', out') \<Longrightarrow> bits \<le> 32 \<Longrightarrow> in_alphabet out \<Longrightarrow>
     text_bits out' @ wbits bits' v = text_bits out @ wbits bits v \<and> bits' < 5 \<and> in_alphabet out'"
proof (induction bits v out arbitrary: bits' out' rule: enc_emit.induct)
  case (1 bits v out)
  show ?case
  proof (cases "5 \<le> bits")
    case True
    then have w: "wbits bits v = wbits 5 (drop_bit (bits - 5) v) @ wbits (bits - 5) v"
      using wbits_take [of 5 bits v] "1.prems"(2) by simp
    from True "1.prems" show ?thesis
      using "1.IH" [OF True, of bits' out'] by (simp add: enc_emit.simps [of bits] w char_bits_alphabet)
  next
    case False
    with "1.prems" show ?thesis by (auto simp: enc_emit.simps [of bits])
  qed
qed

lemma enc_byte_bits:
  assumes "enc_byte (bits, v, out) b = (bits', v', out')" and "bits < 5" and "in_alphabet out"
  shows "text_bits out' @ wbits bits' v' = text_bits out @ wbits bits v @ wbits 8 b
    \<and> bits' < 5 \<and> in_alphabet out'"
proof -
  let ?v = "push_bit 8 v OR ucast b :: 32 word"
  from assms(1) have e: "enc_emit (bits + 8) ?v out = (bits', out')" and v: "v' = ?v"
    by (auto simp: enc_byte_def Let_def split: prod.splits)
  have w: "wbits (bits + 8) ?v = wbits bits v @ wbits 8 b"
    using assms(2) by (intro wbits_push_byte) simp
  show ?thesis using enc_emit_bits [OF e] assms(2,3) by (simp add: v w)
qed

lemma enc_bits:
  "foldl enc_byte (bits, v, out) data = (bits', v', out') \<Longrightarrow> bits < 5 \<Longrightarrow> in_alphabet out \<Longrightarrow>
     text_bits out' @ wbits bits' v' = text_bits out @ wbits bits v @ byte_bits data
     \<and> bits' < 5 \<and> in_alphabet out'"
proof (induction data arbitrary: bits v out)
  case (Cons b data)
  obtain bits1 v1 out1 where s: "enc_byte (bits, v, out) b = (bits1, v1, out1)"
    by (cases "enc_byte (bits, v, out) b") auto
  from enc_byte_bits [OF s Cons.prems(2,3)] show ?case
    using Cons.IH [of bits1 v1 out1] Cons.prems(1) s by simp
qed simp

lemma wbits_pad: "bits < 5 \<Longrightarrow> wbits 5 (push_bit (5 - bits) v :: 32 word) = wbits bits v @ replicate (5 - bits) False"
  by (rule nth_equalityI) (auto simp: nth_wbits nth_append bit_simps)

lemma base32Encode_bits:
  "\<exists>p<5. text_bits (base32Encode data) = byte_bits data @ replicate p False
     \<and> in_alphabet (base32Encode data)"
proof -
  obtain bits v out where f: "foldl enc_byte (0, 0, []) data = (bits, v, out)"
    by (cases "foldl enc_byte (0, 0, []) data") auto
  have i: "text_bits out @ wbits bits v = byte_bits data" "bits < 5" "in_alphabet out"
    using enc_bits [OF f] by (simp_all add: wbits_def)
  show ?thesis
  proof (cases "0 < bits")
    case True
    then have "text_bits (base32Encode data) = byte_bits data @ replicate (5 - bits) False"
      using i by (simp add: base32Encode_def f char_bits_alphabet wbits_pad flip: i(1))
    moreover have "in_alphabet (base32Encode data)"
      using True i(3) by (simp add: base32Encode_def f)
    ultimately show ?thesis using True by (intro exI [of _ "5 - bits"]) simp
  next
    case False
    with i show ?thesis by (intro exI [of _ 0]) (simp add: base32Encode_def f wbits_def)
  qed
qed

lemma wbits_push_index:
  "n \<le> 27 \<Longrightarrow> i < 32 \<Longrightarrow>
     wbits (n + 5) (push_bit 5 v OR of_nat i :: 32 word) = wbits n v @ wbits 5 (of_nat i :: 32 word)"
proof -
  assume n: "n \<le> 27" and i: "i < 32"
  have "take_bit 5 (of_nat i :: 32 word) = of_nat i"
    using i by (simp add: take_bit_of_nat take_bit_nat_eq_self)
  then show ?thesis using wbits_push_or [of n 5 v "of_nat i :: 32 word"] n by simp
qed

lemma wbits_8_mask: "wbits 8 (ucast (w AND 255 :: 32 word) :: byte) = wbits 8 w"
proof -
  have m: "(255 :: 32 word) = mask 8" by (simp add: mask_eq_exp_minus_1)
  show ?thesis unfolding m by (rule nth_equalityI) (auto simp: nth_wbits bit_simps)
qed

lemma dec_index_bits:
  assumes "dec_index (bits, v, bytes) i = (bits', v', bytes')" and "bits < 8" and "i < 32"
  shows "byte_bits bytes' @ wbits bits' v' = byte_bits bytes @ wbits bits v @ wbits 5 (of_nat i :: 32 word)
    \<and> bits' < 8"
proof -
  let ?v = "push_bit 5 v OR of_nat i :: 32 word"
  have w: "wbits (bits + 5) ?v = wbits bits v @ wbits 5 (of_nat i :: 32 word)"
    using assms(2,3) by (intro wbits_push_index) simp_all
  show ?thesis
  proof (cases "8 \<le> bits + 5")
    case True
    then have "wbits (bits + 5) ?v = wbits 8 (drop_bit (bits + 5 - 8) ?v) @ wbits (bits + 5 - 8) ?v"
      using assms(2) by (intro wbits_take) simp_all
    with True w assms show ?thesis
      by (auto simp: dec_index_def Let_def wbits_8_mask)
  next
    case False
    with w assms show ?thesis by (auto simp: dec_index_def Let_def)
  qed
qed

lemma dec_chars_bits:
  "in_alphabet cs \<Longrightarrow> bits < 8 \<Longrightarrow>
     \<exists>out rest. dec_chars (bits, v, bytes) cs = Inr out \<and> length rest < 8
       \<and> byte_bits out @ rest = byte_bits bytes @ wbits bits v @ text_bits cs"
proof (induction cs arbitrary: bits v bytes)
  case Nil
  then show ?case by (auto intro!: exI [of _ "wbits bits v"])
next
  case (Cons c cs)
  then obtain i where i: "i < 32" "c = BASE32_ALPHABET ! i" "in_alphabet cs" by auto
  have idx: "index_from 0 c BASE32_ALPHABET = Some i" using i index_alphabet by simp
  obtain bits1 v1 bytes1 where s: "dec_index (bits, v, bytes) i = (bits1, v1, bytes1)"
    by (cases "dec_index (bits, v, bytes) i") auto
  from dec_index_bits [OF s Cons.prems(2) i(1)]
  have e: "byte_bits bytes1 @ wbits bits1 v1 = byte_bits bytes @ wbits bits v @ char_bits c"
    and lt: "bits1 < 8"
    by (simp_all add: idx char_bits_def)
  from Cons.IH [OF i(3) lt, of v1 bytes1] obtain out rest where
    o: "dec_chars (bits1, v1, bytes1) cs = Inr out" "length rest < 8"
       "byte_bits out @ rest = byte_bits bytes1 @ wbits bits1 v1 @ text_bits cs"
    by blast
  have "byte_bits out @ rest = byte_bits bytes @ wbits bits v @ text_bits (c # cs)"
    using o(3) e by (metis append.assoc text_bits_simps(2))
  with o(1,2) show ?case by (auto simp: idx s)
qed

lemma alphabet_clean:
  "i < 32 \<Longrightarrow> (let c = BASE32_ALPHABET ! i in c \<noteq> CHR ''='' \<and> \<not> is_space c \<and> upper_char c = c)"
proof -
  assume i: "i < 32"
  have "list_all (\<lambda>i. let c = BASE32_ALPHABET ! i in c \<noteq> CHR ''='' \<and> \<not> is_space c \<and> upper_char c = c) [0..<32]"
    by code_simp
  with i show ?thesis by (simp add: list_all_iff)
qed

lemma base32_normalize_alphabet: "in_alphabet s \<Longrightarrow> base32_normalize s = s"
proof -
  assume s: "in_alphabet s"
  have c: "c \<noteq> CHR ''='' \<and> \<not> is_space c \<and> upper_char c = c" if cs: "c \<in> set s" for c
  proof -
    from s cs obtain i where "i < 32" "c = BASE32_ALPHABET ! i" by (auto simp: in_alphabet_def)
    with alphabet_clean [of i] show ?thesis by (simp add: Let_def)
  qed
  have "dropWhile (\<lambda>c. c = CHR ''='') (rev s) = rev s"
    using hd_in_set [of "rev s"] c by (simp add: dropWhile_eq_self_iff) blast
  moreover have "filter (\<lambda>c. \<not> is_space c) s = s" using c by simp
  moreover have "map upper_char s = s" using c by (simp add: map_idI)
  ultimately show ?thesis by (simp add: base32_normalize_def strip_spaces_def)
qed

text \<open>
  C27: base32 is lossless: decoding what the encoder wrote gives back exactly the bytes, whatever
  their number, although the encoder's 32-bit accumulator overflows from the fifth byte on.
\<close>

theorem base32_roundtrip: "base32Decode (base32Encode data) = Inr data"
proof -
  obtain p where p: "p < 5" and bits: "text_bits (base32Encode data) = byte_bits data @ replicate p False"
      and al: "in_alphabet (base32Encode data)"
    using base32Encode_bits by blast
  obtain out rest where d: "dec_chars (0, 0, []) (base32Encode data) = Inr out"
      and rest: "length rest < 8" and eq: "byte_bits out @ rest = byte_bits data @ replicate p False"
    using dec_chars_bits [OF al, of 0 0 "[]"] bits by (auto simp: wbits_def)
  from arg_cong [OF eq, of length] p rest have "length out = length data" by simp
  then have "byte_bits out = byte_bits data"
    using eq by (simp add: append_eq_append_conv)
  then have "out = data" by (rule byte_bits_inj)
  with d show ?thesis by (simp add: base32Decode_def base32_normalize_alphabet [OF al])
qed

subsection \<open>One-time passwords\<close>

lemma bit_pushed_mask: "bit (push_bit k (w AND mask m) :: 32 word) n \<Longrightarrow> n < k + m"
  by (auto simp: bit_simps)

lemma truncated_lt: "unat (truncated d) < 2 ^ 31"
proof -
  have m7: "(127 :: 32 word) = mask 7" and m8: "(255 :: 32 word) = mask 8"
    by (simp_all add: mask_eq_exp_minus_1)
  have top: "n < 31" if "bit (truncated d) n" for n
    using that bit_pushed_mask [of 24 _ 7 n] bit_pushed_mask [of 16 _ 8 n]
      bit_pushed_mask [of 8 _ 8 n] bit_pushed_mask [of 0 _ 8 n]
    unfolding truncated_def Let_def m7 m8 bit_or_iff push_bit_0_id id_apply by fastforce
  have "take_bit 31 (truncated d) = truncated d"
    by (rule bit_eqI) (auto simp: bit_take_bit_iff dest: top)
  then have "unat (truncated d) = take_bit 31 (unat (truncated d))"
    by (metis unsigned_take_bit_eq)
  then show ?thesis by (metis take_bit_nat_less_exp)
qed

lemma is_digit_int: "is_digit c \<longleftrightarrow> 48 \<le> (of_char c :: int) \<and> (of_char c :: int) \<le> 57"
proof -
  have "(of_char c :: int) = int (of_char c)" by (simp add: of_nat_of_char)
  then show ?thesis by (simp add: is_digit_def)
qed

lemma decimal_digits: "0 \<le> n \<Longrightarrow> list_all is_digit (decimal n)"
proof (induction n rule: decimal.induct)
  case (1 n)
  have d: "is_digit (char_of (48 + k))" if "0 \<le> k" "k < 10" for k :: int
    using that by (simp add: is_digit_int)
  show ?case
  proof (cases "n < 10")
    case True
    then show ?thesis using d "1.prems" by (simp add: decimal.simps [of n])
  next
    case False
    then show ?thesis using 1 d [of "n mod 10"] by (simp add: decimal.simps [of n])
  qed
qed

lemma length_decimal: "0 \<le> n \<Longrightarrow> n < 10 ^ d \<Longrightarrow> 0 < d \<Longrightarrow> length (decimal n) \<le> d"
proof (induction d arbitrary: n)
  case (Suc d)
  show ?case
  proof (cases "n < 10")
    case True
    then show ?thesis by (simp add: decimal.simps [of n])
  next
    case False
    with Suc.prems have "0 < d" by (cases d) simp_all
    moreover have "n div 10 < 10 ^ d" using Suc.prems(2) by (simp add: div_less_iff_less_mult)
    moreover have "0 \<le> n div 10" using Suc.prems(1) by simp
    ultimately have "n div 10 < 10 ^ d" "0 < d" "0 \<le> n div 10" by simp_all
    with Suc.IH [of "n div 10"] False show ?thesis by (simp add: decimal.simps [of n])
  qed
qed simp

lemma hotp_shape:
  "hotp hmac k c d = Inr s \<Longrightarrow> 0 < d \<Longrightarrow> length s = d \<and> list_all is_digit s"
proof -
  assume h: "hotp hmac k c d = Inr s" and d: "0 < d"
  then obtain n :: int where s: "s = padStart d (decimal (n mod 10 ^ d))"
    by (auto simp: hotp_def Let_def split: if_splits)
  have "length (decimal (n mod 10 ^ d)) \<le> d" by (rule length_decimal) (simp_all add: d)
  then show ?thesis
    using decimal_digits [of "n mod 10 ^ d"] by (auto simp: s padStart_def list_all_iff is_digit_def)
qed

lemma hotp_defined: "0 \<le> c \<Longrightarrow> c < 2 ^ 64 \<Longrightarrow> \<exists>s. hotp hmac k c d = Inr s"
  by (simp add: hotp_def Let_def)

lemma match_step_Some:
  "match_step hmac key sub ss = Inr (Some s) \<Longrightarrow>
     \<exists>pre post. ss = pre @ s # post \<and> hotp hmac key s (length sub) = Inr sub
       \<and> (\<forall>x\<in>set pre. hotp hmac key x (length sub) \<noteq> Inr sub)"
proof (induction ss)
  case (Cons a ss)
  then obtain e where e: "hotp hmac key a (length sub) = Inr e"
    by (auto simp: bind_result_Inr_iff)
  show ?case
  proof (cases "sub = e")
    case True
    with Cons.prems e show ?thesis by (intro exI [of _ "[]"] exI [of _ ss]) simp
  next
    case False
    with Cons.prems e have "match_step hmac key sub ss = Inr (Some s)" by simp
    from Cons.IH [OF this] obtain pre post where
      "ss = pre @ s # post" "hotp hmac key s (length sub) = Inr sub"
      "\<forall>x\<in>set pre. hotp hmac key x (length sub) \<noteq> Inr sub" by blast
    with False e show ?thesis by (intro exI [of _ "a # pre"] exI [of _ post]) simp
  qed
qed simp

lemma match_step_complete:
  "(\<forall>x\<in>set ss. 0 \<le> x \<and> x < 2 ^ 64) \<Longrightarrow> s \<in> set ss \<Longrightarrow> hotp hmac key s (length sub) = Inr sub \<Longrightarrow>
     \<exists>s'. match_step hmac key sub ss = Inr (Some s')"
proof (induction ss)
  case (Cons a ss)
  then obtain e where e: "hotp hmac key a (length sub) = Inr e" using hotp_defined [of a hmac key "length sub"] by auto
  with Cons show ?case by (cases "sub = e") auto
qed simp

lemma verifyTotp_SomeD:
  assumes "verifyTotp hmac b32 given at w = Inr (Some s)"
  shows "\<exists>key. base32Decode b32 = Inr key \<and> strip_spaces given \<noteq> []
     \<and> match_step hmac key (strip_spaces given)
          (map (\<lambda>offset. at div 30000 + offset) [- w..w]) = Inr (Some s)"
  using assms by (auto simp: verifyTotp_def Let_def TOTP_STEP_SECONDS_def bind_result_Inr_iff split: if_splits)

text \<open>
  An accepted code is the one-time password of a step of the window, at most \<open>w\<close> steps from
  now, made of digits only, and the step reported is that step. With the window of one step the
  code is never older than a minute or more than thirty seconds early.
\<close>

theorem verifyTotp_sound:
  assumes "verifyTotp hmac b32 given at w = Inr (Some s)"
  shows "\<exists>key. base32Decode b32 = Inr key
     \<and> hotp hmac key s (length (strip_spaces given)) = Inr (strip_spaces given)
     \<and> list_all is_digit (strip_spaces given)
     \<and> at div 30000 - w \<le> s \<and> s \<le> at div 30000 + w
     \<and> at - (w + 1) * 30000 < s * 30000 \<and> s * 30000 \<le> at + w * 30000"
proof -
  obtain key where k: "base32Decode b32 = Inr key" and ne: "strip_spaces given \<noteq> []"
    and m: "match_step hmac key (strip_spaces given)
          (map (\<lambda>offset. at div 30000 + offset) [- w..w]) = Inr (Some s)"
    using verifyTotp_SomeD [OF assms] by blast
  from match_step_Some [OF m] have h: "hotp hmac key s (length (strip_spaces given)) = Inr (strip_spaces given)"
    and mem: "s \<in> set (map (\<lambda>offset. at div 30000 + offset) [- w..w])"
    by (metis in_set_conv_decomp)+
  from mem have b: "at div 30000 - w \<le> s" "s \<le> at div 30000 + w" by auto
  have "list_all is_digit (strip_spaces given)"
    using hotp_shape [OF h] ne by simp
  moreover have early: "30000 * (at div 30000) \<le> at" "at < 30000 * (at div 30000) + 30000"
    by simp_all
  moreover have "at - (w + 1) * 30000 < s * 30000"
    using b early(2) by (simp only: distrib_right)
  moreover have "s * 30000 \<le> at + w * 30000" using b early(1) by linarith
  ultimately show ?thesis using k h b by blast
qed

definition demo_hmac :: "byte list \<Rightarrow> byte list \<Rightarrow> byte list" where
  "demo_hmac k m = replicate 19 7 @ [last m]"

theorem verifyTotp_sound_witness:
  "verifyTotp demo_hmac ''ME======'' ''10 63'' 1000000 1 = Inr (Some 32)
   \<and> hotp demo_hmac [97] 32 4 = Inr ''1063''"
proof -
  have v: "verifyTotp demo_hmac ''ME======'' ''10 63'' 1000000 1 = Inr (Some 32)"
    by code_simp
  from verifyTotp_sound [OF v] have
    "\<exists>key. base32Decode ''ME======'' = Inr key \<and> hotp demo_hmac key 32 4 = Inr ''1063''"
    by (auto simp: strip_spaces_def is_space_def eval_nat_numeral)
  moreover have "base32Decode ''ME======'' = Inr [97]" by code_simp
  ultimately show ?thesis using v by simp
qed

subsection \<open>The submitted length decides the strength\<close>

text \<open>
  \<open>mfaCodeSchema\<close> of \<open>auth.schema.ts\<close>: trimmed, then between 6 and 20 characters. It counts the
  spaces inside the code, which \<open>verifyTotp\<close> then removes, and \<open>verifyTotp\<close> asks for as many
  digits as are left.
\<close>

definition trim :: "string \<Rightarrow> string" where
  "trim s = rev (dropWhile is_space (rev (dropWhile is_space s)))"

definition mfaCodeSchema :: "string \<Rightarrow> string option" where
  "mfaCodeSchema s = (let c = trim s in if 6 \<le> length c \<and> length c \<le> 20 then Some c else None)"

lemma digit_not_space: "is_digit c \<Longrightarrow> \<not> is_space c"
  by (auto simp: is_digit_def is_space_def)

lemma spaced_code:
  assumes "is_digit d" "is_digit e"
  shows "mfaCodeSchema (d # ''    '' @ [e]) = Some (d # ''    '' @ [e])"
    and "strip_spaces (d # ''    '' @ [e]) = [d, e]"
  using digit_not_space [OF assms(1)] digit_not_space [OF assms(2)]
  by (simp_all add: mfaCodeSchema_def trim_def strip_spaces_def) (simp add: is_space_def)

text \<open>
  C28: the request schema does not keep the code at six digits. For every secret and every time
  there is a submission that passes the schema, has two digits only, and is accepted as the second
  factor: one in a hundred guesses per step of the window, where six digits are one in a million.
\<close>

theorem two_digit_code_accepted:
  assumes "base32Decode b32 = Inr key" and "30000 \<le> at" and "at div 30000 + 1 < 2 ^ 64"
  shows "\<exists>given s. mfaCodeSchema given = Some given \<and> length (strip_spaces given) = 2
     \<and> verifyTotp hmac b32 given at TOTP_WINDOW_STEPS = Inr (Some s)"
proof -
  let ?t = "at div 30000"
  have t: "0 \<le> ?t - 1" "?t + 1 < 2 ^ 64" using assms(2,3) by simp_all
  then obtain h where h: "hotp hmac key ?t 2 = Inr h"
    using hotp_defined [of ?t hmac key 2] by auto
  from hotp_shape [OF h] obtain d e where de: "h = [d, e]" "is_digit d" "is_digit e"
    by (auto simp: numeral_2_eq_2 length_Suc_conv)
  define g where "g = d # ''    '' @ [e]"
  have strip: "strip_spaces g = [d, e]" unfolding g_def by (rule spaced_code(2) [OF de(2,3)])
  have schema: "mfaCodeSchema g = Some g" unfolding g_def by (rule spaced_code(1) [OF de(2,3)])
  have "?t \<in> set (map ((+) ?t) [-1..1])" by simp
  moreover have "\<forall>x\<in>set (map ((+) ?t) [-1..1]). 0 \<le> x \<and> x < 2 ^ 64" using t by auto
  moreover have "hotp hmac key ?t (length [d, e]) = Inr [d, e]" using h de(1) by (simp add: numeral_2_eq_2)
  ultimately obtain s where "match_step hmac key [d, e] (map ((+) ?t) [-1..1]) = Inr (Some s)"
    using match_step_complete by blast
  then have "verifyTotp hmac b32 g at TOTP_WINDOW_STEPS = Inr (Some s)"
    using de(2,3) assms(1)
    by (simp add: verifyTotp_def Let_def strip TOTP_STEP_SECONDS_def TOTP_WINDOW_STEPS_def)
  then show ?thesis using schema strip by (intro exI [of _ g] exI [of _ s]) simp
qed

theorem two_digit_code_accepted_witness:
  "\<exists>given s. length (strip_spaces given) = 2
     \<and> verifyTotp demo_hmac ''ME'' given 1000000 TOTP_WINDOW_STEPS = Inr (Some s)"
proof -
  have "base32Decode ''ME'' = Inr [97]" by code_simp
  from two_digit_code_accepted [OF this, of 1000000 demo_hmac] show ?thesis by auto
qed

end
