(* ===== verification/Otp.thy ===== *)
theory Otp
  imports Totp
begin

section \<open>E-mailed one-time codes\<close>

text \<open>
  \<open>modules/auth/otp.service.ts\<close>: the codes that verify an address at registration and the codes
  that reset a password. The state is the two tables the service writes and the mails it hands to
  the mailer. The random number behind a code, the identifier of a new row and the clock are
  arguments; bcrypt is the pair of parameters \<open>bhash\<close> and \<open>bcompare\<close>
  (\<open>common/utils/password.ts\<close>). Every operation is one request run alone.
\<close>

subsection \<open>State\<close>

datatype user_status = US_PENDING_VERIFICATION | US_ACTIVE | US_INVITED | US_SUSPENDED | US_DISABLED

datatype otp_purpose = EMAIL_VERIFICATION | PASSWORD_RESET

record email_otp =
  otp_id :: uuid
  otp_userId :: uuid
  otp_purpose :: otp_purpose
  otp_codeHash :: string
  otp_expiresAt :: instant
  otp_attempts :: nat
  otp_consumedAt :: "instant option"
  otp_createdAt :: instant

record app_user =
  au_id :: uuid
  au_email :: string
  au_status :: user_status
  emailVerifiedAt :: "instant option"

record otp_state =
  otps :: "email_otp list"
  app_users :: "app_user list"
  otp_mails :: "(string \<times> string) list"

record otp_env =
  OTP_CODE_LENGTH :: nat
  OTP_TTL_MS :: int
  ENV_OTP_MAX_ATTEMPTS :: nat
  OTP_RESEND_COOLDOWN_MS :: int
  OTP_RESEND_MAX_PER_HOUR :: nat
  PASSWORD_RESET_TTL_MS :: int

subsection \<open>Helpers\<close>

definition verifyPassword :: "(string \<Rightarrow> string \<Rightarrow> bool) \<Rightarrow> string \<Rightarrow> string option \<Rightarrow> bool" where
  "verifyPassword bcompare plain h =
     (case h of None \<Rightarrow> False | Some x \<Rightarrow> if x = [] then False else bcompare plain x)"

definition generateCode :: "nat \<Rightarrow> int \<Rightarrow> string" where
  "generateCode len rnd = padStart len (decimal rnd)"

definition live_otp :: "uuid \<Rightarrow> otp_purpose \<Rightarrow> email_otp \<Rightarrow> bool" where
  "live_otp u p r \<longleftrightarrow> otp_userId r = u \<and> otp_purpose r = p \<and> otp_consumedAt r = None"

definition set_otps :: "email_otp list \<Rightarrow> otp_state \<Rightarrow> otp_state" where
  "set_otps rows st = st\<lparr>otps := rows\<rparr>"

definition consume_live :: "uuid \<Rightarrow> otp_purpose \<Rightarrow> instant \<Rightarrow> email_otp list \<Rightarrow> email_otp list" where
  "consume_live u p now rows = update_where (live_otp u p) (\<lambda>r. r\<lparr>otp_consumedAt := Some now\<rparr>) rows"

definition consume_otp :: "uuid \<Rightarrow> instant \<Rightarrow> email_otp list \<Rightarrow> email_otp list" where
  "consume_otp i now rows = update_where (\<lambda>r. otp_id r = i) (\<lambda>r. r\<lparr>otp_consumedAt := Some now\<rparr>) rows"

definition bump_attempts :: "uuid \<Rightarrow> email_otp list \<Rightarrow> email_otp list" where
  "bump_attempts i rows = update_where (\<lambda>r. otp_id r = i) (\<lambda>r. r\<lparr>otp_attempts := Suc (otp_attempts r)\<rparr>) rows"

definition new_otp ::
  "(string \<Rightarrow> string) \<Rightarrow> uuid \<Rightarrow> uuid \<Rightarrow> otp_purpose \<Rightarrow> string \<Rightarrow> instant \<Rightarrow> instant \<Rightarrow> email_otp" where
  "new_otp bhash i u p given now expires =
     \<lparr>otp_id = i, otp_userId = u, otp_purpose = p, otp_codeHash = bhash given, otp_expiresAt = expires,
      otp_attempts = 0, otp_consumedAt = None, otp_createdAt = now\<rparr>"

subsection \<open>Issuing\<close>

definition issue ::
  "otp_env \<Rightarrow> (string \<Rightarrow> string) \<Rightarrow> uuid \<Rightarrow> int \<Rightarrow> uuid \<Rightarrow> instant \<Rightarrow> otp_state \<Rightarrow> string \<times> otp_state" where
  "issue env bhash i rnd userId now st =
     (let rows = consume_live userId EMAIL_VERIFICATION now (otps st);
          given = generateCode (OTP_CODE_LENGTH env) rnd;
          r = new_otp bhash i userId EMAIL_VERIFICATION given now (now + OTP_TTL_MS env)
      in (given, set_otps (rows @ [r]) st))"

definition sendOtpEmail :: "string \<Rightarrow> string \<Rightarrow> otp_state \<Rightarrow> otp_state" where
  "sendOtpEmail email given st = st\<lparr>otp_mails := otp_mails st @ [(email, given)]\<rparr>"

text \<open>The hourly cap and the cooldown, the same two checks in both places that send a code.\<close>

definition rate_limited :: "otp_env \<Rightarrow> uuid \<Rightarrow> otp_purpose \<Rightarrow> instant \<Rightarrow> email_otp list \<Rightarrow> app_error option" where
  "rate_limited env userId p now rows =
     (let hourAgo = now - 3600000;
          sentLastHour = count_where (\<lambda>r. otp_userId r = userId \<and> otp_purpose r = p \<and> hourAgo \<le> otp_createdAt r) rows;
          lastRow = latest_by otp_createdAt (filter (\<lambda>r. otp_userId r = userId \<and> otp_purpose r = p) rows)
      in if OTP_RESEND_MAX_PER_HOUR env \<le> sentLastHour then Some (AppError 429 OTP_RESEND_LIMIT None)
         else case lastRow of
                None \<Rightarrow> None
              | Some r \<Rightarrow> if now - otp_createdAt r < OTP_RESEND_COOLDOWN_MS env
                          then Some (AppError 429 OTP_COOLDOWN None) else None)"

definition resend ::
  "otp_env \<Rightarrow> (string \<Rightarrow> string) \<Rightarrow> uuid \<Rightarrow> int \<Rightarrow> uuid \<Rightarrow> instant \<Rightarrow> otp_state \<Rightarrow> int result \<times> otp_state" where
  "resend env bhash i rnd userId now st =
     (case find_row (\<lambda>u. au_id u = userId) (app_users st) of
        None \<Rightarrow> (Inl (ServerError ''No AppUser found''), st)
      | Some user \<Rightarrow>
          if emailVerifiedAt user \<noteq> None then (fail_with 409 EMAIL_ALREADY_VERIFIED, st)
          else case rate_limited env userId EMAIL_VERIFICATION now (otps st) of
                 Some e \<Rightarrow> (Inl e, st)
               | None \<Rightarrow>
                   let (given, st') = issue env bhash i rnd userId now st
                   in (Inr (OTP_RESEND_COOLDOWN_MS env), sendOtpEmail (au_email user) given st'))"

definition issuePasswordReset ::
  "otp_env \<Rightarrow> (string \<Rightarrow> string) \<Rightarrow> uuid \<Rightarrow> int \<Rightarrow> uuid \<Rightarrow> string \<Rightarrow> instant \<Rightarrow> otp_state
     \<Rightarrow> int result \<times> otp_state" where
  "issuePasswordReset env bhash i rnd userId email now st =
     (case rate_limited env userId PASSWORD_RESET now (otps st) of
        Some e \<Rightarrow> (Inl e, st)
      | None \<Rightarrow>
          let rows = consume_live userId PASSWORD_RESET now (otps st);
              given = generateCode (OTP_CODE_LENGTH env) rnd;
              r = new_otp bhash i userId PASSWORD_RESET given now (now + PASSWORD_RESET_TTL_MS env)
          in (Inr (OTP_RESEND_COOLDOWN_MS env),
              sendOtpEmail email given (set_otps (rows @ [r]) st)))"

subsection \<open>Verifying\<close>

definition current_otp :: "uuid \<Rightarrow> otp_purpose \<Rightarrow> email_otp list \<Rightarrow> email_otp option" where
  "current_otp userId p rows = latest_by otp_createdAt (filter (live_otp userId p) rows)"

text \<open>The common part of the two verifications, up to the comparison: the row whose code matched.\<close>

definition check_code ::
  "otp_env \<Rightarrow> (string \<Rightarrow> string \<Rightarrow> bool) \<Rightarrow> uuid \<Rightarrow> otp_purpose \<Rightarrow> string \<Rightarrow> instant \<Rightarrow> otp_state
     \<Rightarrow> email_otp result \<times> otp_state" where
  "check_code env bcompare userId p given now st =
     (case current_otp userId p (otps st) of
        None \<Rightarrow> (fail_with 400 OTP_INVALID, st)
      | Some otp \<Rightarrow>
          if otp_expiresAt otp < now then (fail_with 400 OTP_EXPIRED, st)
          else if ENV_OTP_MAX_ATTEMPTS env \<le> otp_attempts otp
            then (fail_with 429 OTP_MAX_ATTEMPTS, set_otps (consume_otp (otp_id otp) now (otps st)) st)
          else if \<not> verifyPassword bcompare given (Some (otp_codeHash otp))
            then (fail_with 400 OTP_INVALID, set_otps (bump_attempts (otp_id otp) (otps st)) st)
          else (Inr otp, st))"

definition verify ::
  "otp_env \<Rightarrow> (string \<Rightarrow> string \<Rightarrow> bool) \<Rightarrow> uuid \<Rightarrow> string \<Rightarrow> instant \<Rightarrow> otp_state \<Rightarrow> unit result \<times> otp_state" where
  "verify env bcompare userId given now st =
     (case check_code env bcompare userId EMAIL_VERIFICATION given now st of
        (Inl e, st') \<Rightarrow> (Inl e, st')
      | (Inr otp, st') \<Rightarrow>
          (case find_row (\<lambda>u. au_id u = userId) (app_users st') of
             None \<Rightarrow> (Inl (ServerError ''No AppUser found''), st')
           | Some user \<Rightarrow>
               (Inr (), (set_otps (consume_otp (otp_id otp) now (otps st')) st')
                 \<lparr>app_users := update_where (\<lambda>u. au_id u = userId)
                    (\<lambda>u. u\<lparr>emailVerifiedAt := Some now,
                           au_status := (if au_status user = US_PENDING_VERIFICATION then US_ACTIVE else au_status u)\<rparr>)
                    (app_users st')\<rparr>)))"

definition verifyPasswordReset ::
  "otp_env \<Rightarrow> (string \<Rightarrow> string \<Rightarrow> bool) \<Rightarrow> uuid \<Rightarrow> string \<Rightarrow> instant \<Rightarrow> otp_state \<Rightarrow> unit result \<times> otp_state" where
  "verifyPasswordReset env bcompare userId given now st =
     (case check_code env bcompare userId PASSWORD_RESET given now st of
        (Inl e, st') \<Rightarrow> (Inl e, st')
      | (Inr otp, st') \<Rightarrow> (Inr (), set_otps (consume_otp (otp_id otp) now (otps st')) st'))"

subsection \<open>The machine\<close>

text \<open>
  A request is one step. The database accepts a new row only with an identifier that is not taken
  and for a user that exists (the primary key and the foreign key of the table); a request whose
  row it would not accept is not a step.
\<close>

datatype otp_op =
    Op_Issue uuid int uuid instant
  | Op_Resend uuid int uuid instant
  | Op_IssueReset uuid int uuid string instant
  | Op_Verify uuid string instant
  | Op_VerifyReset uuid string instant

definition otp_rejected :: "uuid \<Rightarrow> uuid \<Rightarrow> otp_state \<Rightarrow> bool" where
  "otp_rejected i u st \<longleftrightarrow>
     list_ex (\<lambda>r. otp_id r = i) (otps st) \<or> \<not> list_ex (\<lambda>a. au_id a = u) (app_users st)"

fun otp_step ::
  "otp_env \<Rightarrow> (string \<Rightarrow> string) \<Rightarrow> (string \<Rightarrow> string \<Rightarrow> bool) \<Rightarrow> otp_state \<Rightarrow> otp_op \<Rightarrow> otp_state" where
  "otp_step env bhash bcompare st (Op_Issue i rnd u now) =
     (if otp_rejected i u st then st else snd (issue env bhash i rnd u now st))"
| "otp_step env bhash bcompare st (Op_Resend i rnd u now) =
     (if otp_rejected i u st then st else snd (resend env bhash i rnd u now st))"
| "otp_step env bhash bcompare st (Op_IssueReset i rnd u email now) =
     (if otp_rejected i u st then st else snd (issuePasswordReset env bhash i rnd u email now st))"
| "otp_step env bhash bcompare st (Op_Verify u given now) = snd (verify env bcompare u given now st)"
| "otp_step env bhash bcompare st (Op_VerifyReset u given now) =
     snd (verifyPasswordReset env bcompare u given now st)"

text \<open>The row a verification compares the submitted code with, when it gets that far.\<close>

definition compared :: "otp_env \<Rightarrow> uuid \<Rightarrow> otp_purpose \<Rightarrow> instant \<Rightarrow> otp_state \<Rightarrow> email_otp option" where
  "compared env userId p now st =
     (case current_otp userId p (otps st) of
        None \<Rightarrow> None
      | Some r \<Rightarrow> if now \<le> otp_expiresAt r \<and> otp_attempts r < ENV_OTP_MAX_ATTEMPTS env then Some r else None)"

fun compares :: "otp_env \<Rightarrow> uuid \<Rightarrow> otp_state \<Rightarrow> otp_op \<Rightarrow> bool" where
  "compares env k st (Op_Verify u given now) =
     (map_option otp_id (compared env u EMAIL_VERIFICATION now st) = Some k)"
| "compares env k st (Op_VerifyReset u given now) =
     (map_option otp_id (compared env u PASSWORD_RESET now st) = Some k)"
| "compares env k st x = False"

text \<open>A verification that is answered as a success by the row \<open>k\<close>.\<close>

fun redeems :: "otp_env \<Rightarrow> (string \<Rightarrow> string \<Rightarrow> bool) \<Rightarrow> uuid \<Rightarrow> otp_state \<Rightarrow> otp_op \<Rightarrow> bool" where
  "redeems env bcompare k st (Op_Verify u given now) =
     (fst (verify env bcompare u given now st) = Inr ()
      \<and> map_option otp_id (current_otp u EMAIL_VERIFICATION (otps st)) = Some k)"
| "redeems env bcompare k st (Op_VerifyReset u given now) =
     (fst (verifyPasswordReset env bcompare u given now st) = Inr ()
      \<and> map_option otp_id (current_otp u PASSWORD_RESET (otps st)) = Some k)"
| "redeems env bcompare k st x = False"

subsection \<open>What an operation does to one row\<close>

text \<open>
  No operation rewrites a row but to count an attempt or to consume it, and none removes one: the
  history of a row is a path along \<open>row_le\<close>.
\<close>

definition row_le :: "email_otp \<Rightarrow> email_otp \<Rightarrow> bool" where
  "row_le r r' \<longleftrightarrow> otp_id r' = otp_id r \<and> otp_userId r' = otp_userId r \<and> otp_purpose r' = otp_purpose r
     \<and> otp_codeHash r' = otp_codeHash r \<and> otp_expiresAt r' = otp_expiresAt r
     \<and> otp_createdAt r' = otp_createdAt r \<and> otp_attempts r \<le> otp_attempts r'
     \<and> (otp_consumedAt r \<noteq> None \<longrightarrow> otp_consumedAt r' \<noteq> None)"

lemma row_le_refl [simp]: "row_le r r"
  by (simp add: row_le_def)

lemma row_le_trans: "row_le r s \<Longrightarrow> row_le s t \<Longrightarrow> row_le r t"
  by (auto simp: row_le_def)

definition rows_le :: "email_otp list \<Rightarrow> email_otp list \<Rightarrow> bool" where
  "rows_le rows rows' \<longleftrightarrow> (\<exists>olds news. rows' = olds @ news \<and> list_all2 row_le rows olds)"

lemma rows_le_refl [simp]: "rows_le rows rows"
  unfolding rows_le_def by (rule exI [of _ rows], rule exI [of _ "[]"]) (simp add: list_all2_same)

lemma rows_le_trans: "rows_le a b \<Longrightarrow> rows_le b c \<Longrightarrow> rows_le a c"
proof -
  assume "rows_le a b" "rows_le b c"
  then obtain o1 n1 o2 n2 where b: "b = o1 @ n1" "list_all2 row_le a o1"
    and c: "c = o2 @ n2" "list_all2 row_le b o2" by (auto simp: rows_le_def)
  from c(2) b(1) obtain x y where o2: "o2 = x @ y" "list_all2 row_le o1 x"
    by (auto simp: list_all2_append1)
  have "list_all2 row_le a x" by (rule list_all2_trans [OF _ b(2) o2(2)]) (rule row_le_trans)
  with c(1) o2(1) show ?thesis by (auto simp: rows_le_def)
qed

lemma rows_le_update: "(\<And>r. P r \<Longrightarrow> row_le r (f r)) \<Longrightarrow> rows_le rows (update_where P f rows)"
  unfolding rows_le_def
  by (rule exI [of _ "update_where P f rows"], rule exI [of _ "[]"])
     (auto simp: update_where_def list_all2_conv_all_nth)

lemma rows_le_snoc: "rows_le rows rows' \<Longrightarrow> rows_le rows (rows' @ news)"
  unfolding rows_le_def by (metis append.assoc)

lemma rows_le_otp_ops [simp]:
  "rows_le rows (consume_live u p now rows)" "rows_le rows (consume_otp i now rows)"
  "rows_le rows (bump_attempts i rows)"
  unfolding consume_live_def consume_otp_def bump_attempts_def
  by (rule rows_le_update, simp add: row_le_def)+

lemma otps_set_otps [simp]: "otps (set_otps rows st) = rows" "otps (sendOtpEmail e c st) = otps st"
  "app_users (set_otps rows st) = app_users st"
  by (simp_all add: set_otps_def sendOtpEmail_def)

lemma check_code_rows: "check_code env bcompare u p given now st = (x, st') \<Longrightarrow> rows_le (otps st) (otps st')"
  by (auto simp: check_code_def split: option.splits if_splits)

lemma otp_step_rows: "rows_le (otps st) (otps (otp_step env bhash bcompare st x))"
proof (cases x)
  case (Op_Verify u given now)
  obtain y st' where c: "check_code env bcompare u EMAIL_VERIFICATION given now st = (y, st')" by fastforce
  note check_code_rows [OF c]
  with rows_le_trans [OF this rows_le_otp_ops(2)] show ?thesis
    by (auto simp: Op_Verify verify_def c split: sum.splits option.splits)
next
  case (Op_VerifyReset u given now)
  obtain y st' where c: "check_code env bcompare u PASSWORD_RESET given now st = (y, st')" by fastforce
  note check_code_rows [OF c]
  with rows_le_trans [OF this rows_le_otp_ops(2)] show ?thesis
    by (auto simp: Op_VerifyReset verifyPasswordReset_def c split: sum.splits)
qed (auto simp: issue_def resend_def issuePasswordReset_def Let_def intro: rows_le_snoc split: option.splits)

subsection \<open>Keys and lookups\<close>

abbreviation otp_keys :: "otp_state \<Rightarrow> bool" where
  "otp_keys st \<equiv> unique_key otp_id (otps st)"

lemma keys_otp_updates [simp]:
  "unique_key otp_id (consume_live u p now rows) = unique_key otp_id rows"
  "unique_key otp_id (consume_otp i now rows) = unique_key otp_id rows"
  "unique_key otp_id (bump_attempts i rows) = unique_key otp_id rows"
  by (simp_all add: consume_live_def consume_otp_def bump_attempts_def unique_key_update_where)

lemma ids_otp_updates [simp]:
  "otp_id ` set (consume_live u p now rows) = otp_id ` set rows"
proof -
  have "map otp_id (consume_live u p now rows) = map otp_id rows"
    by (simp add: consume_live_def update_where_def)
  then show ?thesis by (metis set_map)
qed

lemma otp_rejected_iff:
  "otp_rejected i u st \<longleftrightarrow> i \<in> otp_id ` set (otps st) \<or> u \<notin> au_id ` set (app_users st)"
  by (auto simp: otp_rejected_def list_ex_iff)

lemma new_otp_id [simp]: "otp_id (new_otp bhash i u p given now e) = i"
  by (simp add: new_otp_def)

lemma check_code_keys: "check_code env bcompare u p given now st = (x, st') \<Longrightarrow> otp_keys st' = otp_keys st"
  by (auto simp: check_code_def split: option.splits if_splits)

lemma otp_step_keys: "otp_keys st \<Longrightarrow> otp_keys (otp_step env bhash bcompare st x)"
proof (cases x)
  case (Op_Verify u given now)
  obtain y st' where c: "check_code env bcompare u EMAIL_VERIFICATION given now st = (y, st')" by fastforce
  assume "otp_keys st"
  with check_code_keys [OF c] show ?thesis
    by (auto simp: Op_Verify verify_def c split: sum.splits option.splits)
next
  case (Op_VerifyReset u given now)
  obtain y st' where c: "check_code env bcompare u PASSWORD_RESET given now st = (y, st')" by fastforce
  assume "otp_keys st"
  with check_code_keys [OF c] show ?thesis
    by (auto simp: Op_VerifyReset verifyPasswordReset_def c split: sum.splits)
qed (auto simp: issue_def resend_def issuePasswordReset_def Let_def unique_key_snoc otp_rejected_iff
       split: option.splits)

text \<open>The row with an identifier, and what a step makes of it.\<close>

definition otp_row :: "uuid \<Rightarrow> otp_state \<Rightarrow> email_otp option" where
  "otp_row k st = find_row (\<lambda>r. otp_id r = k) (otps st)"

lemma find_row_all2:
  "list_all2 row_le rows olds \<Longrightarrow> find_row (\<lambda>r. otp_id r = k) rows = Some r \<Longrightarrow>
     \<exists>r'. find_row (\<lambda>r. otp_id r = k) (olds @ news) = Some r' \<and> row_le r r'"
  by (induction rows olds rule: list_all2_induct) (auto simp: find_row_def row_le_def split: if_splits)

lemma otp_row_step:
  "otp_row k st = Some r \<Longrightarrow> \<exists>r'. otp_row k (otp_step env bhash bcompare st x) = Some r' \<and> row_le r r'"
  using otp_step_rows [of st env bhash bcompare x] find_row_all2 unfolding otp_row_def rows_le_def by metis

lemma current_otpD:
  "current_otp u p rows = Some r \<Longrightarrow>
     r \<in> set rows \<and> otp_userId r = u \<and> otp_purpose r = p \<and> otp_consumedAt r = None"
  using latest_by_mem [of otp_createdAt "filter (live_otp u p) rows" r]
  by (auto simp: current_otp_def live_otp_def)

lemma otp_row_mem: "otp_keys st \<Longrightarrow> r \<in> set (otps st) \<Longrightarrow> otp_row (otp_id r) st = Some r"
proof -
  assume u: "otp_keys st" and r: "r \<in> set (otps st)"
  then obtain q where q: "otp_row (otp_id r) st = Some q"
    by (cases "otp_row (otp_id r) st") (auto simp: otp_row_def find_row_None_iff)
  then have "q \<in> set (otps st)" "otp_id q = otp_id r" by (auto simp: otp_row_def dest: find_row_SomeD)
  with u r q show ?thesis by (auto dest: unique_keyD)
qed

lemma otp_row_SomeD: "otp_row k st = Some r \<Longrightarrow> r \<in> set (otps st) \<and> otp_id r = k"
  by (auto simp: otp_row_def dest: find_row_SomeD)

subsection \<open>The state the database keeps\<close>

text \<open>Row identifiers are unique and every code belongs to a user that exists.\<close>

definition otp_wf :: "otp_state \<Rightarrow> bool" where
  "otp_wf st \<longleftrightarrow> otp_keys st \<and> otp_userId ` set (otps st) \<subseteq> au_id ` set (app_users st)"

lemma otp_owners [simp]:
  "otp_userId ` set (consume_live u p now rows) = otp_userId ` set rows"
  "otp_userId ` set (consume_otp i now rows) = otp_userId ` set rows"
  "otp_userId ` set (bump_attempts i rows) = otp_userId ` set rows"
proof -
  have "map otp_userId (update_where P f rows) = map otp_userId rows"
    if "\<And>r. otp_userId (f r) = otp_userId r" for P and f :: "email_otp \<Rightarrow> email_otp"
    using that by (simp add: update_where_def)
  then have "otp_userId ` set (update_where P f rows) = otp_userId ` set rows"
    if "\<And>r. otp_userId (f r) = otp_userId r" for P and f :: "email_otp \<Rightarrow> email_otp"
    using that by (metis set_map)
  then show "otp_userId ` set (consume_live u p now rows) = otp_userId ` set rows"
    "otp_userId ` set (consume_otp i now rows) = otp_userId ` set rows"
    "otp_userId ` set (bump_attempts i rows) = otp_userId ` set rows"
    by (simp_all add: consume_live_def consume_otp_def bump_attempts_def)
qed

lemma user_ids_updated [simp]:
  "(\<And>a. au_id (f a) = au_id a) \<Longrightarrow> au_id ` set (update_where P f rows) = au_id ` set rows"
proof -
  assume "\<And>a. au_id (f a) = au_id a"
  then have "map au_id (update_where P f rows) = map au_id rows" by (simp add: update_where_def)
  then show ?thesis by (metis set_map)
qed

lemma new_otp_owner [simp]: "otp_userId (new_otp bhash i u p given now e) = u"
  by (simp add: new_otp_def)

lemma check_code_owners:
  "check_code env bcompare u p given now st = (x, st') \<Longrightarrow>
     otp_userId ` set (otps st') = otp_userId ` set (otps st) \<and> app_users st' = app_users st"
  by (auto simp: check_code_def split: option.splits if_splits) (metis image_eqI otp_owners)+

lemma otp_step_wf: "otp_wf st \<Longrightarrow> otp_wf (otp_step env bhash bcompare st x)"
proof -
  assume wf: "otp_wf st"
  have keys: "otp_keys (otp_step env bhash bcompare st x)"
    using wf by (simp add: otp_wf_def otp_step_keys)
  have "otp_userId ` set (otps (otp_step env bhash bcompare st x))
      \<subseteq> au_id ` set (app_users (otp_step env bhash bcompare st x))"
  proof (cases x)
    case (Op_Verify u given now)
    obtain y st' where c: "check_code env bcompare u EMAIL_VERIFICATION given now st = (y, st')" by fastforce
    with check_code_owners [OF c] wf show ?thesis
      by (auto simp: Op_Verify verify_def otp_wf_def split: sum.splits option.splits)
  next
    case (Op_VerifyReset u given now)
    obtain y st' where c: "check_code env bcompare u PASSWORD_RESET given now st = (y, st')" by fastforce
    with check_code_owners [OF c] wf show ?thesis
      by (auto simp: Op_VerifyReset verifyPasswordReset_def otp_wf_def split: sum.splits)
  next
    case (Op_Issue i rnd u now)
    with wf show ?thesis by (auto simp: issue_def Let_def otp_wf_def otp_rejected_iff)
  next
    case (Op_Resend i rnd u now)
    with wf show ?thesis
      by (auto simp: resend_def issue_def Let_def otp_wf_def otp_rejected_iff sendOtpEmail_def split: option.splits)
  next
    case (Op_IssueReset i rnd u email now)
    with wf show ?thesis
      by (auto simp: issuePasswordReset_def Let_def otp_wf_def otp_rejected_iff sendOtpEmail_def split: option.splits)
  qed
  with keys show ?thesis by (simp add: otp_wf_def)
qed

subsection \<open>A code is worth a bounded number of guesses and one success\<close>

definition guesses_left :: "otp_env \<Rightarrow> uuid \<Rightarrow> otp_state \<Rightarrow> nat" where
  "guesses_left env k st =
     (case otp_row k st of
        None \<Rightarrow> ENV_OTP_MAX_ATTEMPTS env
      | Some r \<Rightarrow> if otp_consumedAt r \<noteq> None then 0 else ENV_OTP_MAX_ATTEMPTS env - otp_attempts r)"

definition otp_spent :: "uuid \<Rightarrow> otp_state \<Rightarrow> bool" where
  "otp_spent k st = (case otp_row k st of None \<Rightarrow> False | Some r \<Rightarrow> otp_consumedAt r \<noteq> None)"

lemma otp_row_here:
  "(\<And>r. otp_id (f r) = otp_id r) \<Longrightarrow>
     find_row (\<lambda>r. otp_id r = k) (update_where (\<lambda>r. otp_id r = k) f rows)
       = map_option f (find_row (\<lambda>r. otp_id r = k) rows)"
  by (simp add: find_row_update_key)

lemma otp_row_consume: "otp_row k (set_otps (consume_otp k now (otps st)) st) = map_option (\<lambda>r. r\<lparr>otp_consumedAt := Some now\<rparr>) (otp_row k st)"
  by (simp add: otp_row_def consume_otp_def otp_row_here)

lemma otp_row_bump: "otp_row k (set_otps (bump_attempts k (otps st)) st) = map_option (\<lambda>r. r\<lparr>otp_attempts := Suc (otp_attempts r)\<rparr>) (otp_row k st)"
  by (simp add: otp_row_def bump_attempts_def otp_row_here)

lemma otp_row_users [simp]: "otp_row k (st\<lparr>app_users := us\<rparr>) = otp_row k st"
  by (simp add: otp_row_def)

lemma check_code_compared:
  "compared env u p now st = Some r \<Longrightarrow>
     check_code env bcompare u p given now st =
       (if verifyPassword bcompare given (Some (otp_codeHash r)) then (Inr r, st)
        else (fail_with 400 OTP_INVALID, set_otps (bump_attempts (otp_id r) (otps st)) st))"
  by (auto simp: compared_def check_code_def split: option.splits if_splits)

lemma check_code_Inr:
  "check_code env bcompare u p given now st = (Inr r, st') \<Longrightarrow>
     st' = st \<and> compared env u p now st = Some r \<and> current_otp u p (otps st) = Some r"
  by (auto simp: compared_def check_code_def split: option.splits if_splits)

lemma compared_row:
  "otp_wf st \<Longrightarrow> compared env u p now st = Some r \<Longrightarrow>
     otp_row (otp_id r) st = Some r \<and> otp_consumedAt r = None \<and> otp_attempts r < ENV_OTP_MAX_ATTEMPTS env
     \<and> (\<exists>user. find_row (\<lambda>a. au_id a = u) (app_users st) = Some user)"
proof -
  assume wf: "otp_wf st" and c: "compared env u p now st = Some r"
  then have cur: "current_otp u p (otps st) = Some r" and lt: "otp_attempts r < ENV_OTP_MAX_ATTEMPTS env"
    by (auto simp: compared_def split: option.splits if_splits)
  note m = current_otpD [OF cur]
  have "u \<in> au_id ` set (app_users st)" using wf m by (auto simp: otp_wf_def)
  then have "find_row (\<lambda>a. au_id a = u) (app_users st) \<noteq> None" by (auto simp: find_row_None_iff)
  with wf m lt show ?thesis by (auto simp: otp_wf_def otp_row_mem)
qed

lemma guesses_never_refilled: "guesses_left env k (otp_step env' bhash bcompare st x) \<le> guesses_left env k st"
proof (cases "otp_row k st")
  case None
  then show ?thesis by (auto simp: guesses_left_def split: option.splits)
next
  case (Some r)
  from otp_row_step [OF Some, of env' bhash bcompare x] show ?thesis
    by (auto simp: guesses_left_def Some row_le_def)
qed

lemma guess_costs:
  assumes "otp_wf st" and "compares env k st x"
  shows "guesses_left env k (otp_step env bhash bcompare st x) < guesses_left env k st"
proof (cases x)
  case (Op_Verify u given now)
  with assms(2) obtain r where c: "compared env u EMAIL_VERIFICATION now st = Some r" and k: "otp_id r = k" by auto
  from compared_row [OF assms(1) c] k show ?thesis
    by (auto simp: Op_Verify verify_def check_code_compared [OF c] guesses_left_def otp_row_consume otp_row_bump)
next
  case (Op_VerifyReset u given now)
  with assms(2) obtain r where c: "compared env u PASSWORD_RESET now st = Some r" and k: "otp_id r = k" by auto
  from compared_row [OF assms(1) c] k show ?thesis
    by (auto simp: Op_VerifyReset verifyPasswordReset_def check_code_compared [OF c] guesses_left_def otp_row_consume otp_row_bump)
qed (use assms in auto)

interpretation otp_guesses: budget "otp_step env bhash bcompare" otp_wf "compares env" "guesses_left env"
  for env bhash bcompare
  by unfold_locales (auto intro: otp_step_wf guess_costs guesses_never_refilled)

lemma redeems_cases:
  assumes "redeems env bcompare k st x"
  obtains u given now p r where "x = Op_Verify u given now \<and> p = EMAIL_VERIFICATION
        \<or> x = Op_VerifyReset u given now \<and> p = PASSWORD_RESET"
    and "check_code env bcompare u p given now st = (Inr r, st)" and "otp_id r = k"
    and "compared env u p now st = Some r"
proof (cases x)
  case (Op_Verify u given now)
  obtain y st' where c: "check_code env bcompare u EMAIL_VERIFICATION given now st = (y, st')" by fastforce
  with assms Op_Verify obtain r where "y = Inr r" by (cases y) (auto simp: verify_def)
  with c check_code_Inr [of env bcompare u EMAIL_VERIFICATION given now st r st'] assms Op_Verify that
  show ?thesis by auto
next
  case (Op_VerifyReset u given now)
  obtain y st' where c: "check_code env bcompare u PASSWORD_RESET given now st = (y, st')" by fastforce
  with assms Op_VerifyReset obtain r where "y = Inr r" by (cases y) (auto simp: verifyPasswordReset_def)
  with c check_code_Inr [of env bcompare u PASSWORD_RESET given now st r st'] assms Op_VerifyReset that
  show ?thesis by auto
qed (use assms in auto)

lemma redeem_spends:
  assumes "otp_wf st" and "redeems env bcompare k st x"
  shows "\<not> otp_spent k st \<and> otp_spent k (otp_step env bhash bcompare st x)"
proof -
  from assms(2) obtain u given now p r where x: "x = Op_Verify u given now \<and> p = EMAIL_VERIFICATION
        \<or> x = Op_VerifyReset u given now \<and> p = PASSWORD_RESET"
    and c: "check_code env bcompare u p given now st = (Inr r, st)" and k: "otp_id r = k"
    and cmp: "compared env u p now st = Some r"
    by (rule redeems_cases)
  from compared_row [OF assms(1) cmp] x c k show ?thesis
    by (auto simp: otp_spent_def verify_def verifyPasswordReset_def otp_row_consume)
qed

lemma otp_spent_stays: "otp_spent k st \<Longrightarrow> otp_spent k (otp_step env bhash bcompare st x)"
proof -
  assume "otp_spent k st"
  then obtain r where r: "otp_row k st = Some r" "otp_consumedAt r \<noteq> None"
    by (auto simp: otp_spent_def split: option.splits)
  from otp_row_step [OF r(1), of env bhash bcompare x] r(2) show ?thesis
    by (auto simp: otp_spent_def row_le_def)
qed

interpretation otp_redemption: single_use "otp_step env bhash bcompare" otp_wf "redeems env bcompare" otp_spent
  for env bhash bcompare
  by unfold_locales (auto dest: redeem_spends otp_spent_stays intro: otp_step_wf)

text \<open>
  A code that was e-mailed is worth a bounded number of guesses and one success. Whatever
  requests follow, of whatever kind and for whatever users, the submissions ever compared with the
  code of the row \<open>k\<close> are at most the configured attempts, at most one of them is accepted, and
  none once the row is consumed.
\<close>

theorem otp_guess_budget:
  assumes "otp_wf st"
  shows "count_uses (otp_step env bhash bcompare) (compares env) k st xs \<le> ENV_OTP_MAX_ATTEMPTS env
     \<and> count_uses (otp_step env bhash bcompare) (redeems env bcompare) k st xs \<le> 1
     \<and> (otp_spent k st \<longrightarrow> count_uses (otp_step env bhash bcompare) (compares env) k st xs = 0)"
proof (intro conjI impI)
  have "guesses_left env k st \<le> ENV_OTP_MAX_ATTEMPTS env" by (simp add: guesses_left_def split: option.splits)
  with otp_guesses.uses_bounded [OF assms, of env bhash bcompare k xs]
  show "count_uses (otp_step env bhash bcompare) (compares env) k st xs \<le> ENV_OTP_MAX_ATTEMPTS env"
    by (rule le_trans)
  show "count_uses (otp_step env bhash bcompare) (redeems env bcompare) k st xs \<le> 1"
    by (rule otp_redemption.spends_at_most_once [OF assms])
  assume "otp_spent k st"
  then have "guesses_left env k st = 0" by (auto simp: otp_spent_def guesses_left_def split: option.splits)
  then show "count_uses (otp_step env bhash bcompare) (compares env) k st xs = 0"
    by (rule otp_guesses.exhausted_never_again [OF assms])
qed

definition demo_otp_env :: otp_env where
  "demo_otp_env = \<lparr>OTP_CODE_LENGTH = 6, OTP_TTL_MS = 600000, ENV_OTP_MAX_ATTEMPTS = 2,
     OTP_RESEND_COOLDOWN_MS = 60000, OTP_RESEND_MAX_PER_HOUR = 2, PASSWORD_RESET_TTL_MS = 900000\<rparr>"

definition demo_otp_start :: otp_state where
  "demo_otp_start = \<lparr>otps = [], app_users =
     [\<lparr>au_id = ''u'', au_email = ''u@x'', au_status = US_PENDING_VERIFICATION, emailVerifiedAt = None\<rparr>],
     otp_mails = []\<rparr>"

theorem otp_guess_budget_witness:
  "let xs = Op_Issue ''k'' 42 ''u'' 0 # map (\<lambda>c. Op_Verify ''u'' c 1) [''1'', ''2'', ''000042'', ''000042'']
   in count_uses (otp_step demo_otp_env id (=)) (compares demo_otp_env) ''k'' demo_otp_start xs = 2
    \<and> count_uses (otp_step demo_otp_env id (=)) (redeems demo_otp_env (=)) ''k'' demo_otp_start xs \<le> 1"
proof -
  let ?xs = "Op_Issue ''k'' 42 ''u'' 0 # map (\<lambda>c. Op_Verify ''u'' c 1) [''1'', ''2'', ''000042'', ''000042'']"
  have wf: "otp_wf demo_otp_start" by code_simp
  have "count_uses (otp_step demo_otp_env id (=)) (compares demo_otp_env) ''k'' demo_otp_start ?xs = 2"
    by code_simp
  with otp_guess_budget [OF wf, of demo_otp_env id "(=)" "''k''" ?xs] show ?thesis by (simp only: Let_def)
qed

subsection \<open>Password-reset mails are rate limited\<close>

definition reset_row :: "uuid \<Rightarrow> email_otp \<Rightarrow> bool" where
  "reset_row u r \<longleftrightarrow> otp_userId r = u \<and> otp_purpose r = PASSWORD_RESET"

definition reset_times :: "uuid \<Rightarrow> otp_state \<Rightarrow> instant list" where
  "reset_times u st = map otp_createdAt (filter (reset_row u) (otps st))"

definition reset_rate_ok :: "otp_env \<Rightarrow> instant list \<Rightarrow> bool" where
  "reset_rate_ok env ts \<longleftrightarrow>
     (\<forall>a. length (filter (\<lambda>t. a \<le> t \<and> t \<le> a + 3600000) ts) \<le> OTP_RESEND_MAX_PER_HOUR env)
     \<and> sorted_wrt (\<lambda>s t. s + OTP_RESEND_COOLDOWN_MS env \<le> t) ts"

lemma reset_times_update [simp]:
  "map otp_createdAt (filter (reset_row u) (consume_live v p now rows)) = map otp_createdAt (filter (reset_row u) rows)"
  "map otp_createdAt (filter (reset_row u) (consume_otp i now rows)) = map otp_createdAt (filter (reset_row u) rows)"
  "map otp_createdAt (filter (reset_row u) (bump_attempts i rows)) = map otp_createdAt (filter (reset_row u) rows)"
  unfolding consume_live_def consume_otp_def bump_attempts_def
  by (induction rows) (simp_all add: table_simps reset_row_def)

lemma check_code_times:
  "check_code env bcompare v p given now st = (x, st') \<Longrightarrow> reset_times u st' = reset_times u st"
  by (auto simp: check_code_def reset_times_def split: option.splits if_splits)

lemma reset_times_consume [simp]:
  "reset_times u (set_otps (consume_otp i now (otps st)) st) = reset_times u st"
  "reset_times u (set_otps rows st) = map otp_createdAt (filter (reset_row u) rows)"
  "reset_times u (st\<lparr>app_users := us\<rparr>) = reset_times u st"
  "reset_times u (sendOtpEmail e c st) = reset_times u st"
  by (simp_all add: reset_times_def sendOtpEmail_def set_otps_def)

lemma other_step_times:
  "(\<And>i rnd v email now. x \<noteq> Op_IssueReset i rnd v email now) \<Longrightarrow>
     reset_times u (otp_step env bhash bcompare st x) = reset_times u st"
proof (cases x)
  case (Op_Verify v given now)
  obtain y st' where c: "check_code env bcompare v EMAIL_VERIFICATION given now st = (y, st')" by fastforce
  note check_code_times [OF c]
  then show ?thesis
    by (auto simp: Op_Verify verify_def c split: sum.splits option.splits) (simp_all add: reset_times_def)
next
  case (Op_VerifyReset v given now)
  obtain y st' where c: "check_code env bcompare v PASSWORD_RESET given now st = (y, st')" by fastforce
  note check_code_times [OF c]
  then show ?thesis
    by (auto simp: Op_VerifyReset verifyPasswordReset_def c split: sum.splits) (simp_all add: reset_times_def)
next
  case (Op_Issue i rnd v now)
  then show ?thesis by (simp add: issue_def Let_def new_otp_def reset_row_def) (simp add: reset_times_def reset_row_def)
next
  case (Op_Resend i rnd v now)
  then show ?thesis
    by (auto simp: resend_def issue_def Let_def new_otp_def reset_row_def split: option.splits)
       (simp add: reset_times_def reset_row_def)
qed blast

lemma count_reset_rows:
  "count_where (\<lambda>r. otp_userId r = u \<and> otp_purpose r = PASSWORD_RESET \<and> b \<le> otp_createdAt r) rows
     = length (filter (\<lambda>t. b \<le> t) (map otp_createdAt (filter (reset_row u) rows)))"
  by (induction rows) (simp_all add: table_simps reset_row_def)

lemma not_limited:
  assumes "rate_limited env u PASSWORD_RESET now (otps st) = None"
  shows "length (filter (\<lambda>t. now - 3600000 \<le> t) (reset_times u st)) < OTP_RESEND_MAX_PER_HOUR env
     \<and> (\<forall>t\<in>set (reset_times u st). t + OTP_RESEND_COOLDOWN_MS env \<le> now)"
proof
  show "length (filter (\<lambda>t. now - 3600000 \<le> t) (reset_times u st)) < OTP_RESEND_MAX_PER_HOUR env"
    using assms by (simp add: rate_limited_def Let_def count_reset_rows reset_times_def split: if_splits)
  have rows: "filter (\<lambda>r. otp_userId r = u \<and> otp_purpose r = PASSWORD_RESET) (otps st) = filter (reset_row u) (otps st)"
    by (rule filter_cong) (simp_all add: reset_row_def)
  show "\<forall>t\<in>set (reset_times u st). t + OTP_RESEND_COOLDOWN_MS env \<le> now"
  proof
    fix t assume "t \<in> set (reset_times u st)"
    then obtain r where r: "r \<in> set (filter (reset_row u) (otps st))" "t = otp_createdAt r"
      by (auto simp: reset_times_def)
    then have "filter (reset_row u) (otps st) \<noteq> []" by (metis empty_iff empty_set)
    then obtain l where l: "latest_by otp_createdAt (filter (reset_row u) (otps st)) = Some l"
      by (metis latest_by_None_iff not_None_eq)
    then have "otp_createdAt l + OTP_RESEND_COOLDOWN_MS env \<le> now"
      using assms by (simp add: rate_limited_def Let_def rows split: if_splits)
    with latest_by_max [OF l r(1)] r(2) show "t + OTP_RESEND_COOLDOWN_MS env \<le> now" by simp
  qed
qed

lemma reset_rate_snoc:
  assumes "reset_rate_ok env ts" and "length (filter (\<lambda>t. now - 3600000 \<le> t) ts) < OTP_RESEND_MAX_PER_HOUR env"
    and "\<forall>t\<in>set ts. t + OTP_RESEND_COOLDOWN_MS env \<le> now"
  shows "reset_rate_ok env (ts @ [now])"
proof -
  have window: "length (filter (\<lambda>t. a \<le> t \<and> t \<le> a + 3600000) (ts @ [now])) \<le> OTP_RESEND_MAX_PER_HOUR env" for a
  proof (cases "a \<le> now \<and> now \<le> a + 3600000")
    case True
    then have sub: "t \<in> set ts \<Longrightarrow> a \<le> t \<and> t \<le> a + 3600000 \<Longrightarrow> now - 3600000 \<le> t" for t by linarith
    have "length (filter (\<lambda>t. a \<le> t \<and> t \<le> a + 3600000) ts) \<le> length (filter (\<lambda>t. now - 3600000 \<le> t) ts)"
      by (rule length_filter_mono) (rule sub)
    with assms(2) True show ?thesis by simp
  next
    case False
    then have "filter (\<lambda>t. a \<le> t \<and> t \<le> a + 3600000) [now] = []" by simp
    then show ?thesis using assms(1) unfolding filter_append reset_rate_ok_def by simp
  qed
  have "sorted_wrt (\<lambda>s t. s + OTP_RESEND_COOLDOWN_MS env \<le> t) (ts @ [now])"
    using assms(1,3) by (simp add: reset_rate_ok_def sorted_wrt_append)
  with window show ?thesis unfolding reset_rate_ok_def by blast
qed

lemma reset_rate_step:
  "reset_rate_ok env (reset_times u st) \<Longrightarrow> reset_rate_ok env (reset_times u (otp_step env bhash bcompare st x))"
proof (cases "\<exists>i rnd v email now. x = Op_IssueReset i rnd v email now")
  case True
  then obtain i rnd v email now where x: "x = Op_IssueReset i rnd v email now" by blast
  assume ok: "reset_rate_ok env (reset_times u st)"
  show ?thesis
  proof (cases "rate_limited env v PASSWORD_RESET now (otps st) = None \<and> v = u")
    case True
    from not_limited [of env u now st] True ok show ?thesis
      by (auto simp: x issuePasswordReset_def Let_def new_otp_def reset_row_def)
         (auto simp: reset_times_def reset_row_def intro!: reset_rate_snoc)
  next
    case False
    with ok show ?thesis
      by (auto simp: x issuePasswordReset_def Let_def new_otp_def reset_row_def split: option.splits)
         (auto simp: reset_times_def reset_row_def)
  qed
next
  case False
  then show "reset_rate_ok env (reset_times u st) \<Longrightarrow> ?thesis" using other_step_times [of x u env bhash bcompare st] by auto
qed

interpretation reset_rate: op_machine "otp_step env bhash bcompare" "\<lambda>st. reset_rate_ok env (reset_times u st)"
  for env bhash bcompare u
  by unfold_locales (rule reset_rate_step)

text \<open>
  The reset flow cannot be used to flood an inbox. Whatever requests are made, in whatever
  order and at whatever times, the reset codes made for one user number at most the hourly cap in
  every window of an hour, and any two are at least the cooldown apart.
\<close>

theorem reset_mails_rate_limited:
  assumes "reset_times u st = []"
  shows "reset_rate_ok env (reset_times u (foldl (otp_step env bhash bcompare) st xs))"
proof (rule reset_rate.run_inv)
  show "reset_rate_ok env (reset_times u st)" by (simp add: assms reset_rate_ok_def)
qed

theorem reset_mails_rate_limited_witness:
  "let xs = map (\<lambda>(i, t). Op_IssueReset i 7 ''u'' ''u@x'' t)
       [(''a'', 0), (''b'', 30000), (''c'', 60000), (''d'', 120000), (''e'', 3700000)];
       st = foldl (otp_step demo_otp_env id (=)) demo_otp_start xs
   in reset_times ''u'' st = [0, 60000, 3700000] \<and> reset_rate_ok demo_otp_env (reset_times ''u'' st)"
proof -
  let ?xs = "map (\<lambda>(i, t). Op_IssueReset i 7 ''u'' ''u@x'' t)
       [(''a'', 0), (''b'', 30000), (''c'', 60000), (''d'', 120000), (''e'', 3700000)]"
  have "reset_times ''u'' demo_otp_start = []" by code_simp
  from reset_mails_rate_limited [OF this, of demo_otp_env id "(=)" ?xs]
  have "reset_rate_ok demo_otp_env (reset_times ''u'' (foldl (otp_step demo_otp_env id (=)) demo_otp_start ?xs))" .
  moreover have "reset_times ''u'' (foldl (otp_step demo_otp_env id (=)) demo_otp_start ?xs) = [0, 60000, 3700000]"
    by code_simp
  ultimately show ?thesis by (simp only: Let_def simp_thms)
qed

end
