(* ===== verification/Json.thy ===== *)
theory Json
  imports Errors
begin

section \<open>JSON values\<close>

text \<open>
  The values request bodies, stored responses and audit metadata are made of. An object is the
  list of its entries in the order \<open>Object.entries\<close> gives them; a number is one that JSON carries
  exactly, an integer.
\<close>

datatype json =
    JNull
  | JBool bool
  | JNum int
  | JStr string
  | JArr "json list"
  | JObj "(string \<times> json) list"

definition field :: "string \<Rightarrow> (string \<times> json) list \<Rightarrow> json option" where
  "field k entries = map_of entries k"

text \<open>\<open>JStr\<close> for a present optional string and \<open>JNull\<close> for an absent one.\<close>

definition jopt :: "string option \<Rightarrow> json" where
  "jopt v = (case v of None \<Rightarrow> JNull | Some s \<Rightarrow> JStr s)"

subsection \<open>Case-insensitive search\<close>

definition lower_char :: "char \<Rightarrow> char" where
  "lower_char c = (if 65 \<le> (of_char c :: nat) \<and> (of_char c :: nat) \<le> 90
     then char_of ((of_char c :: nat) + 32) else c)"

fun starts_with :: "string \<Rightarrow> string \<Rightarrow> bool" where
  "starts_with [] s = True"
| "starts_with (c # cs) [] = False"
| "starts_with (c # cs) (d # ds) = (c = d \<and> starts_with cs ds)"

fun occurs_in :: "string \<Rightarrow> string \<Rightarrow> bool" where
  "occurs_in w [] = (w = [])"
| "occurs_in w (c # cs) = (starts_with w (c # cs) \<or> occurs_in w cs)"

definition mentions_word :: "string list \<Rightarrow> string \<Rightarrow> bool" where
  "mentions_word ws s = list_ex (\<lambda>w. occurs_in w (map lower_char s)) ws"

lemma starts_with_iff: "starts_with p s \<longleftrightarrow> (\<exists>t. s = p @ t)"
  by (induction p s rule: starts_with.induct) auto

lemma starts_with_self: "starts_with p (p @ s)"
  by (auto simp: starts_with_iff)

lemma occurs_in_iff: "occurs_in w s \<longleftrightarrow> (\<exists>a b. s = a @ w @ b)"
proof (induction s)
  case (Cons c s)
  have "(\<exists>a b. c # s = a @ w @ b) \<longleftrightarrow> starts_with w (c # s) \<or> (\<exists>a b. s = a @ w @ b)"
  proof
    assume "\<exists>a b. c # s = a @ w @ b"
    then obtain a b where e: "c # s = a @ w @ b" by blast
    show "starts_with w (c # s) \<or> (\<exists>a b. s = a @ w @ b)"
    proof (cases a)
      case Nil
      with e show ?thesis by (auto simp: starts_with_iff)
    next
      case (Cons x xs)
      with e show ?thesis by auto
    qed
  next
    assume "starts_with w (c # s) \<or> (\<exists>a b. s = a @ w @ b)"
    then show "\<exists>a b. c # s = a @ w @ b"
      by (metis append_Cons append_Nil starts_with_iff)
  qed
  with Cons.IH show ?case by simp
qed auto

end
