(* ===== verification/Audit_Log.thy ===== *)
theory Audit_Log
  imports Json Roles "HOL-Library.Char_ord" "HOL-Library.List_Lexorder" "HOL-Library.Product_Lexorder"
begin

section \<open>The audit log\<close>

text \<open>
  \<open>modules/audit/audit.service.ts\<close>: recording an event, what a reader's role lets them see, the
  redaction of metadata, and the two readers, one page behind a cursor and the batched export.
  Every other component writes its events with \<open>record_event\<close>. The identifier and the creation
  time of a row are set by the database; they are arguments.
\<close>

subsection \<open>Events\<close>

datatype actor_type = AT_USER | AT_ADMIN | AT_SUPPORT | AT_SYSTEM | AT_PROVIDER | AT_AI_WORKER

record audit_event =
  ev_id :: uuid
  ev_tenantId :: uuid
  actorUserId :: "uuid option"
  actorType :: actor_type
  eventType :: string
  targetType :: "string option"
  targetId :: "uuid option"
  requestId :: "string option"
  ipAddress :: "string option"
  userAgent :: "string option"
  ev_metadata :: "json option"
  beforeHash :: "string option"
  afterHash :: "string option"
  ev_createdAt :: instant

record audit_input =
  in_tenantId :: uuid
  in_actorUserId :: "uuid option"
  in_actorType :: "actor_type option"
  in_eventType :: string
  in_targetType :: "string option"
  in_targetId :: "uuid option"
  in_requestId :: "string option"
  in_ipAddress :: "string option"
  in_userAgent :: "string option"
  in_metadata :: "json option"
  in_beforeHash :: "string option"
  in_afterHash :: "string option"

definition record_event :: "uuid \<Rightarrow> instant \<Rightarrow> audit_input \<Rightarrow> audit_event list \<Rightarrow> audit_event list" where
  "record_event i now x log = log @
     [\<lparr>ev_id = i, ev_tenantId = in_tenantId x, actorUserId = in_actorUserId x,
       actorType = (case in_actorType x of Some a \<Rightarrow> a
          | None \<Rightarrow> (case in_actorUserId x of None \<Rightarrow> AT_SYSTEM
              | Some u \<Rightarrow> if u = [] then AT_SYSTEM else AT_USER)),
       eventType = in_eventType x, targetType = in_targetType x, targetId = in_targetId x,
       requestId = in_requestId x, ipAddress = in_ipAddress x, userAgent = in_userAgent x,
       ev_metadata = in_metadata x, beforeHash = in_beforeHash x, afterHash = in_afterHash x,
       ev_createdAt = now\<rparr>]"

text \<open>
  The common form of a service's event: no request context, the identifier of the row from the
  supply \<open>newId\<close>.
\<close>

definition log_event ::
  "(nat \<Rightarrow> uuid) \<Rightarrow> instant \<Rightarrow> uuid \<Rightarrow> uuid option \<Rightarrow> actor_type option \<Rightarrow> string \<Rightarrow> string \<Rightarrow> uuid
     \<Rightarrow> json option \<Rightarrow> audit_event list \<Rightarrow> audit_event list" where
  "log_event newId now tenantId actor aty ty tgt tgtId md log =
     record_event (newId (length log)) now
       \<lparr>in_tenantId = tenantId, in_actorUserId = actor, in_actorType = aty, in_eventType = ty,
        in_targetType = Some tgt, in_targetId = Some tgtId, in_requestId = None, in_ipAddress = None,
        in_userAgent = None, in_metadata = md, in_beforeHash = None, in_afterHash = None\<rparr> log"

lemma log_event_prefix: "prefix log (log_event newId now tn ac aty ty tgt i md log)"
  by (simp add: log_event_def record_event_def)

lemma length_log_event [simp]: "length (log_event newId now tn ac aty ty tgt i md log) = Suc (length log)"
  by (simp add: log_event_def record_event_def)

lemma last_log_event:
  "eventType (last (log_event newId now tn ac aty ty tgt i md log)) = ty"
  "ev_tenantId (last (log_event newId now tn ac aty ty tgt i md log)) = tn"
  "targetId (last (log_event newId now tn ac aty ty tgt i md log)) = Some i"
  by (simp_all add: log_event_def record_event_def)

lemma record_event_prefix: "prefix log (record_event i now x log)"
  by (simp add: record_event_def)

interpretation audit_rows: append_only "\<lambda>log (i, now, x). record_event i now x log" id
  by unfold_locales (auto simp: record_event_def)

subsection \<open>Who reads what\<close>

definition ADMIN_AUDIT_EXCLUDED_PREFIXES :: "string list" where
  "ADMIN_AUDIT_EXCLUDED_PREFIXES =
     [''BILLING_'', ''PLAN_'', ''SUBSCRIPTION_'', ''INVOICE_'', ''TENANT_DELETION'',
      ''TENANT_SUSPENDED'', ''TENANT_OWNERSHIP'', ''OWNERSHIP_TRANSFER'']"

text \<open>A clause of the query as the predicate on rows it stands for; no clause is no restriction.\<close>

definition auditScopeFor :: "membership_role option \<Rightarrow> (audit_event \<Rightarrow> bool) option" where
  "auditScopeFor role =
     (if role \<noteq> Some ADMIN then None
      else Some (\<lambda>e. \<not> list_ex (\<lambda>p. starts_with p (eventType e)) ADMIN_AUDIT_EXCLUDED_PREFIXES))"

record audit_filters =
  f_eventType :: "string option"
  f_eventTypePrefix :: "string list option"
  f_actorType :: "actor_type option"
  f_actorUserId :: "uuid option"
  f_targetType :: "string option"
  f_targetId :: "uuid option"
  f_from :: "instant option"
  f_to :: "instant option"

definition if_given :: "'a option \<Rightarrow> ('a \<Rightarrow> bool) \<Rightarrow> bool" where
  "if_given v P = (case v of None \<Rightarrow> True | Some x \<Rightarrow> P x)"

definition scope_holds :: "(audit_event \<Rightarrow> bool) option \<Rightarrow> audit_event \<Rightarrow> bool" where
  "scope_holds sc e = (case sc of None \<Rightarrow> True | Some P \<Rightarrow> P e)"

definition auditWhere ::
  "uuid \<Rightarrow> audit_filters \<Rightarrow> membership_role option \<Rightarrow> audit_event \<Rightarrow> bool" where
  "auditWhere tenantId filters readerRole e \<longleftrightarrow>
     (let prefixes = (case f_eventTypePrefix filters of None \<Rightarrow> [] | Some ps \<Rightarrow> ps)
      in ev_tenantId e = tenantId
       \<and> if_given (f_eventType filters) (\<lambda>v. eventType e = v)
       \<and> if_given (f_actorType filters) (\<lambda>v. actorType e = v)
       \<and> (prefixes \<noteq> [] \<longrightarrow> list_ex (\<lambda>p. starts_with p (eventType e)) prefixes)
       \<and> if_given (f_actorUserId filters) (\<lambda>v. actorUserId e = Some v)
       \<and> if_given (f_targetType filters) (\<lambda>v. targetType e = Some v)
       \<and> if_given (f_targetId filters) (\<lambda>v. targetId e = Some v)
       \<and> if_given (f_from filters) (\<lambda>v. v \<le> ev_createdAt e)
       \<and> if_given (f_to filters) (\<lambda>v. ev_createdAt e \<le> v)
       \<and> scope_holds (auditScopeFor readerRole) e)"

subsection \<open>Redaction\<close>

definition sensitiveMetadataKey :: "string \<Rightarrow> bool" where
  "sensitiveMetadataKey k =
     mentions_word [''password'', ''token'', ''secret'', ''authorization'', ''cookie''] k"

fun redactMetadata :: "json \<Rightarrow> json" where
  "redactMetadata (JArr vs) = JArr (map redactMetadata vs)"
| "redactMetadata (JObj es) =
     JObj (map (\<lambda>(k, v). (k, if sensitiveMetadataKey k then JStr ''[REDACTED]'' else redactMetadata v)) es)"
| "redactMetadata v = v"

definition redact_event :: "audit_event \<Rightarrow> audit_event" where
  "redact_event e = e\<lparr>ev_metadata := map_option redactMetadata (ev_metadata e)\<rparr>"

subsection \<open>Reading\<close>

text \<open>
  \<open>orderBy: [createdAt desc, id desc]\<close>. The pair is the keyset; a cursor holds the pair of the
  last row of the page before.
\<close>

definition keyset :: "audit_event \<Rightarrow> instant \<times> uuid" where
  "keyset e = (ev_createdAt e, ev_id e)"

definition newest_first :: "audit_event list \<Rightarrow> audit_event list" where
  "newest_first rows = rev (sort_key keyset rows)"

definition after_cursor :: "(instant \<times> uuid) option \<Rightarrow> audit_event \<Rightarrow> bool" where
  "after_cursor cursor e =
     (case cursor of None \<Rightarrow> True
      | Some (t, i) \<Rightarrow> ev_createdAt e < t \<or> (ev_createdAt e = t \<and> ev_id e < i))"

definition fetch ::
  "(audit_event \<Rightarrow> bool) \<Rightarrow> (instant \<times> uuid) option \<Rightarrow> nat \<Rightarrow> audit_event list \<Rightarrow> audit_event list" where
  "fetch clause cursor n table =
     take n (newest_first (filter (\<lambda>e. clause e \<and> after_cursor cursor e) table))"

record audit_page =
  pg_events :: "audit_event list"
  pg_total :: nat
  pg_nextCursor :: "(instant \<times> uuid) option"

definition list_events ::
  "audit_event list \<Rightarrow> uuid \<Rightarrow> audit_filters \<Rightarrow> membership_role option
     \<Rightarrow> (instant \<times> uuid) option \<Rightarrow> nat \<Rightarrow> audit_page" where
  "list_events table tenantId filters readerRole cursor limit =
     (let clause = auditWhere tenantId filters readerRole;
          rows = fetch clause cursor (limit + 1) table;
          hasMore = limit < length rows;
          events = (if hasMore then take limit rows else rows)
      in \<lparr>pg_events = map redact_event events,
          pg_total = count_where clause table,
          pg_nextCursor = (if hasMore \<and> events \<noteq> [] then Some (keyset (last events)) else None)\<rparr>)"

text \<open>
  The export generator. The table a fetch reads is the one of its moment, so the run takes the
  list of the tables its fetches see; \<open>None\<close> is a run that has not returned when they run out.
\<close>

fun export_loop ::
  "(audit_event \<Rightarrow> bool) \<Rightarrow> nat \<Rightarrow> (instant \<times> uuid) option \<Rightarrow> audit_event list list
     \<Rightarrow> audit_event list list option" where
  "export_loop clause batchSize cursor [] = None"
| "export_loop clause batchSize cursor (table # tables) =
     (let page = fetch clause cursor batchSize table
      in if page = [] then Some []
         else if length page < batchSize then Some [map redact_event page]
         else map_option ((#) (map redact_event page))
                (export_loop clause batchSize (Some (keyset (last page))) tables))"

definition exportRows ::
  "uuid \<Rightarrow> audit_filters \<Rightarrow> membership_role option \<Rightarrow> nat \<Rightarrow> audit_event list list
     \<Rightarrow> audit_event list list option" where
  "exportRows tenantId filters readerRole batchSize tables =
     export_loop (auditWhere tenantId filters readerRole) batchSize None tables"

definition getById ::
  "audit_event list \<Rightarrow> uuid \<Rightarrow> uuid \<Rightarrow> membership_role option \<Rightarrow> audit_event option" where
  "getById table tenantId eventId readerRole =
     map_option redact_event
       (find_row (\<lambda>e. ev_id e = eventId \<and> ev_tenantId e = tenantId
          \<and> scope_holds (auditScopeFor readerRole) e) table)"

subsection \<open>Redaction is exact\<close>

fun json_at :: "string list \<Rightarrow> json \<Rightarrow> json option" where
  "json_at [] v = Some v"
| "json_at (k # ks) (JObj es) = (case field k es of None \<Rightarrow> None | Some v \<Rightarrow> json_at ks v)"
| "json_at (k # ks) v = None"

lemma field_redacted:
  "field k (map (\<lambda>(k, v). (k, if sensitiveMetadataKey k then JStr ''[REDACTED]'' else redactMetadata v)) es)
     = map_option (\<lambda>v. if sensitiveMetadataKey k then JStr ''[REDACTED]'' else redactMetadata v) (field k es)"
  by (induction es) (auto simp: field_def)

lemma json_at_redacted:
  "(\<forall>k\<in>set ks. \<not> sensitiveMetadataKey k) \<Longrightarrow>
     json_at ks (redactMetadata v) = map_option redactMetadata (json_at ks v)"
proof (induction ks v rule: json_at.induct)
  case (2 k ks es)
  then have k: "\<not> sensitiveMetadataKey k" by simp
  show ?case
  proof (cases "field k es")
    case None
    then show ?thesis by (simp add: field_redacted)
  next
    case (Some v)
    with 2 k show ?thesis by (simp add: field_redacted)
  qed
qed simp_all

lemma json_at_append: "json_at (ks @ ls) v = Option.bind (json_at ks v) (json_at ls)"
  by (induction ks v rule: json_at.induct) (auto split: option.splits)

lemma json_at_one_redacted:
  "sensitiveMetadataKey k \<Longrightarrow> json_at [k] v \<noteq> None \<Longrightarrow>
     json_at [k] (redactMetadata v) = Some (JStr ''[REDACTED]'')"
  by (cases v) (auto simp: field_redacted split: option.splits)

text \<open>
  Redaction is exact. Whatever the nesting, the value under a key that names a password, a
  token, a secret, an authorization or a cookie, in any case, is replaced by the marker; every
  other value is where it was; and redacting twice changes nothing more.
\<close>

theorem redaction_exact:
  assumes "\<forall>k\<in>set ks. \<not> sensitiveMetadataKey k"
  shows "json_at ks (redactMetadata v) = map_option redactMetadata (json_at ks v)
     \<and> (sensitiveMetadataKey k \<and> json_at (ks @ [k]) v \<noteq> None \<longrightarrow>
          json_at (ks @ [k]) (redactMetadata v) = Some (JStr ''[REDACTED]''))
     \<and> redactMetadata (redactMetadata v) = redactMetadata v"
proof (intro conjI impI)
  show at: "json_at ks (redactMetadata v) = map_option redactMetadata (json_at ks v)"
    using assms by (rule json_at_redacted)
  assume k: "sensitiveMetadataKey k \<and> json_at (ks @ [k]) v \<noteq> None"
  then obtain w where w: "json_at ks v = Some w" "json_at [k] w \<noteq> None"
    by (cases "json_at ks v") (auto simp: json_at_append simp del: json_at.simps)
  with at k json_at_one_redacted [of k w] show "json_at (ks @ [k]) (redactMetadata v) = Some (JStr ''[REDACTED]'')"
    by (simp add: json_at_append del: json_at.simps)
next
  show "redactMetadata (redactMetadata v) = redactMetadata v"
    by (induction v rule: redactMetadata.induct) auto
qed

theorem redaction_exact_witness:
  "let v = JObj [(''actor'', JObj [(''resetToken'', JStr ''abc''), (''name'', JStr ''Jo'')])]
   in json_at [''actor'', ''resetToken''] (redactMetadata v) = Some (JStr ''[REDACTED]'')
    \<and> json_at [''actor'', ''name''] (redactMetadata v) = Some (JStr ''Jo'')"
proof -
  let ?v = "JObj [(''actor'', JObj [(''resetToken'', JStr ''abc''), (''name'', JStr ''Jo'')])]"
  have a: "\<forall>k\<in>set [''actor'']. \<not> sensitiveMetadataKey k" by code_simp
  have b: "\<forall>k\<in>set [''actor'', ''name'']. \<not> sensitiveMetadataKey k" by code_simp
  have s: "sensitiveMetadataKey ''resetToken''" by code_simp
  have "json_at [''actor'', ''resetToken''] ?v \<noteq> None" by (simp add: field_def)
  with redaction_exact [OF a, of ?v "''resetToken''"] s
  have "json_at [''actor'', ''resetToken''] (redactMetadata ?v) = Some (JStr ''[REDACTED]'')" by simp
  moreover have "json_at [''actor'', ''name''] (redactMetadata ?v) = Some (JStr ''Jo'')"
    using redaction_exact [OF b, of ?v "''name''"] by (simp add: field_def)
  ultimately show ?thesis by (simp add: Let_def)
qed

subsection \<open>Pages are slices of one ordering\<close>

text \<open>Strictly newest first: no two rows of the list share a keyset.\<close>

abbreviation descending :: "audit_event list \<Rightarrow> bool" where
  "descending rows \<equiv> sorted_wrt (\<lambda>a b. keyset b < keyset a) rows"

lemma keyset_redact [simp]: "keyset (redact_event e) = keyset e"
  by (simp add: keyset_def redact_event_def)

lemma after_cursor_redact [simp]: "after_cursor c (redact_event e) = after_cursor c e"
  by (cases c) (auto simp: after_cursor_def redact_event_def)

lemma after_cursor_iff: "after_cursor (Some c) e \<longleftrightarrow> keyset e < c"
  by (cases c) (auto simp: after_cursor_def keyset_def less_prod_def)

lemma after_cursor_None [simp]: "after_cursor None e"
  by (simp add: after_cursor_def)

lemma set_newest_first [simp]: "set (newest_first rows) = set rows"
  by (simp add: newest_first_def)

lemma length_newest_first [simp]: "length (newest_first rows) = length rows"
  by (simp add: newest_first_def)

lemma filter_newest_first: "filter P (newest_first rows) = newest_first (filter P rows)"
  by (simp add: newest_first_def rev_filter [symmetric] filter_sort)

lemma descending_newest_first: "unique_key keyset rows \<Longrightarrow> descending (newest_first rows)"
proof -
  assume u: "unique_key keyset rows"
  have "sorted (map keyset (sort_key keyset rows))" by simp
  moreover have "distinct (map keyset (sort_key keyset rows))"
    using u by (simp add: unique_key_def distinct_map)
  ultimately have "sorted_wrt (<) (map keyset (sort_key keyset rows))"
    by (simp add: strict_sorted_iff)
  then show ?thesis by (simp add: newest_first_def sorted_wrt_rev sorted_wrt_map)
qed

lemma unique_key_filter: "unique_key k rows \<Longrightarrow> unique_key k (filter P rows)"
  by (simp add: unique_key_def distinct_map_filter)

lemma descending_after_take:
  assumes "descending rows" and "take n rows \<noteq> []"
  shows "filter (\<lambda>e. keyset e < keyset (last (take n rows))) rows = drop n rows"
proof -
  let ?l = "last (take n rows)"
  have split: "rows = take n rows @ drop n rows" by simp
  with assms(1) have d: "descending (take n rows @ drop n rows)" by simp
  have bl: "take n rows = butlast (take n rows) @ [?l]" using assms(2) by simp
  have "descending (take n rows)" using d by (simp only: sorted_wrt_append)
  then have "descending (butlast (take n rows) @ [?l])" using bl by simp
  then have above: "\<forall>e\<in>set (butlast (take n rows)). keyset ?l < keyset e"
    by (simp only: sorted_wrt_append) simp
  have "\<not> keyset e < keyset ?l" if "e \<in> set (take n rows)" for e
  proof -
    have "e \<in> set (butlast (take n rows) @ [?l])" using that bl by simp
    then have "e = ?l \<or> keyset ?l < keyset e" using above by auto
    then show ?thesis by auto
  qed
  then have "filter (\<lambda>e. keyset e < keyset ?l) (take n rows) = []" by (simp add: filter_empty_conv)
  moreover have "filter (\<lambda>e. keyset e < keyset ?l) (drop n rows) = drop n rows"
  proof (rule filter_True)
    show "\<forall>e\<in>set (drop n rows). keyset e < keyset ?l"
      using d [unfolded sorted_wrt_append] last_in_set [OF assms(2)] by blast
  qed
  ultimately show ?thesis by (metis append_Nil filter_append split)
qed

text \<open>The rows a query still has to deliver behind a cursor.\<close>

definition rest :: "(audit_event \<Rightarrow> bool) \<Rightarrow> (instant \<times> uuid) option \<Rightarrow> audit_event list \<Rightarrow> audit_event list" where
  "rest clause cursor table = filter (after_cursor cursor) (newest_first (filter clause table))"

lemma fetch_rest: "fetch clause cursor n table = take n (rest clause cursor table)"
  by (simp add: fetch_def rest_def filter_newest_first filter_filter conj_commute)

lemma set_rest: "set (rest clause cursor table) = {e \<in> set table. clause e \<and> after_cursor cursor e}"
  by (auto simp: rest_def)

lemma descending_rest: "unique_key keyset table \<Longrightarrow> descending (rest clause cursor table)"
  by (simp add: rest_def sorted_wrt_filter descending_newest_first unique_key_filter)

lemma rest_next:
  assumes "unique_key keyset table" and "take n (rest clause cursor table) \<noteq> []"
  shows "rest clause (Some (keyset (last (take n (rest clause cursor table))))) table
     = drop n (rest clause cursor table)"
proof -
  let ?r = "rest clause cursor table"
  let ?l = "last (take n ?r)"
  have "after_cursor cursor ?l"
    using assms(2) by (metis (mono_tags, lifting) in_set_takeD last_in_set mem_Collect_eq set_rest)
  then have imp: "after_cursor cursor e" if "keyset e < keyset ?l" for e
    using that by (cases cursor) (auto simp: after_cursor_iff simp del: split_paired_All intro: less_trans)
  have "rest clause (Some c) table = filter (\<lambda>e. keyset e < c) ?r"
    if "\<And>e. keyset e < c \<Longrightarrow> after_cursor cursor e" for c
    unfolding rest_def filter_filter by (rule filter_cong) (auto simp: after_cursor_iff dest: that)
  then have "rest clause (Some (keyset ?l)) table = filter (\<lambda>e. keyset e < keyset ?l) ?r"
    using imp by blast
  with descending_after_take [OF descending_rest [OF assms(1)] assms(2)] show ?thesis by simp
qed

subsection \<open>The export\<close>

lemma export_loop_static:
  assumes "unique_key keyset table" and "0 < b"
  shows "length (rest clause cursor table) div b < n \<Longrightarrow>
     \<exists>pages. export_loop clause b cursor (replicate n table) = Some pages
       \<and> concat pages = map redact_event (rest clause cursor table)"
proof (induction n arbitrary: cursor)
  case (Suc n)
  let ?r = "rest clause cursor table"
  show ?case
  proof (cases "length ?r < b")
    case True
    then show ?thesis by (auto simp: fetch_rest Let_def)
  next
    case False
    then have ne: "take b ?r \<noteq> []" and len: "length (take b ?r) = b" using assms(2) by auto
    let ?c = "Some (keyset (last (take b ?r)))"
    have next_rest: "rest clause ?c table = drop b ?r" by (rule rest_next [OF assms(1) ne])
    have "length (drop b ?r) div b < n"
      using False Suc.prems assms(2) by (simp add: le_div_geq)
    then obtain pages where "export_loop clause b ?c (replicate n table) = Some pages"
      and "concat pages = map redact_event (drop b ?r)"
      using Suc.IH [of ?c] next_rest by auto
    then show ?thesis using ne len
      by (auto simp: fetch_rest Let_def map_append [symmetric] simp del: map_append)
  qed
qed simp

lemma export_loop_growing:
  "0 < b \<Longrightarrow> \<forall>t\<in>set tables. unique_key keyset t \<Longrightarrow>
   sorted_wrt (\<lambda>s t. set s \<subseteq> set t) tables \<Longrightarrow>
   export_loop clause b cursor tables = Some pages \<Longrightarrow>
     descending (concat pages)
     \<and> (\<forall>e\<in>set (concat pages). after_cursor cursor e
          \<and> (\<exists>t\<in>set tables. \<exists>r\<in>set t. clause r \<and> e = redact_event r))
     \<and> (\<forall>r\<in>set (hd tables). clause r \<and> after_cursor cursor r \<longrightarrow> redact_event r \<in> set (concat pages))"
proof (induction tables arbitrary: cursor pages)
  case (Cons t ts)
  let ?r = "rest clause cursor t"
  have u: "unique_key keyset t" using Cons.prems(2) by simp
  note dr = descending_rest [OF u, of clause cursor]
  have in_rest: "e \<in> set ?r \<Longrightarrow> e \<in> set t \<and> clause e \<and> after_cursor cursor e" for e
    by (simp add: set_rest)
  show ?case
  proof (cases "length ?r < b")
    case True
    then have out: "pages = (if ?r = [] then [] else [map redact_event ?r])"
      using Cons.prems(4) by (auto simp: fetch_rest Let_def)
    then have "concat pages = map redact_event ?r" by simp
    then show ?thesis using dr by (auto simp: sorted_wrt_map set_rest)
  next
    case False
    then have ne: "take b ?r \<noteq> []" and len: "length (take b ?r) = b" using Cons.prems(1) by auto
    let ?l = "last (take b ?r)" and ?p = "take b ?r"
    obtain ps where ps: "export_loop clause b (Some (keyset ?l)) ts = Some ps"
      and pages: "pages = map redact_event ?p # ps"
      using Cons.prems(4) ne len by (auto simp: fetch_rest Let_def)
    then have tsne: "ts \<noteq> []" by (cases ts) simp_all
    note IH = Cons.IH [OF Cons.prems(1) _ _ ps]
    have ih: "descending (concat ps)"
      "\<forall>e\<in>set (concat ps). after_cursor (Some (keyset ?l)) e
          \<and> (\<exists>t\<in>set ts. \<exists>r\<in>set t. clause r \<and> e = redact_event r)"
      "\<forall>r\<in>set (hd ts). clause r \<and> after_cursor (Some (keyset ?l)) r \<longrightarrow> redact_event r \<in> set (concat ps)"
      using IH Cons.prems(2,3) by simp_all
    have lp: "?l \<in> set ?p" using ne by simp
    then have lr: "?l \<in> set ?r" by (rule in_set_takeD)
    have dp: "descending ?p" using dr by (metis append_take_drop_id sorted_wrt_append)
    have above: "keyset ?l \<le> keyset e" if "e \<in> set ?p" for e
    proof -
      have "e \<in> set (butlast ?p @ [?l])" using that ne by simp
      moreover have "descending (butlast ?p @ [?l])" using dp ne by simp
      ultimately show ?thesis by (auto simp: sorted_wrt_append)
    qed
    have "descending (concat pages)"
      unfolding pages concat.simps sorted_wrt_append
      using dp ih(1,2) above by (fastforce simp: sorted_wrt_map after_cursor_iff)
    moreover have "after_cursor cursor e \<and> (\<exists>t\<in>set (t # ts). \<exists>r\<in>set t. clause r \<and> e = redact_event r)"
      if "e \<in> set (concat pages)" for e
    proof (cases "e \<in> set (concat ps)")
      case True
      then have "keyset e < keyset ?l" "\<exists>t\<in>set ts. \<exists>r\<in>set t. clause r \<and> e = redact_event r"
        using ih(2) by (auto simp: after_cursor_iff)
      moreover have "after_cursor cursor ?l" using in_rest [OF lr] by simp
      ultimately show ?thesis by (cases cursor) (auto simp: after_cursor_iff simp del: split_paired_All)
    next
      case False
      with that pages obtain r where r: "r \<in> set ?p" "e = redact_event r" by auto
      with in_rest [of r] in_set_takeD [of r b ?r] show ?thesis by auto
    qed
    moreover have "redact_event r \<in> set (concat pages)"
      if "r \<in> set t" "clause r" "after_cursor cursor r" for r
    proof (cases "r \<in> set ?p")
      case True
      then show ?thesis by (simp add: pages)
    next
      case False
      have "r \<in> set ?r" using that by (simp add: set_rest)
      with False have "r \<in> set (drop b ?r)" by (metis Un_iff append_take_drop_id set_append)
      moreover have "descending (?p @ drop b ?r)" using dr by simp
      ultimately have "keyset r < keyset ?l"
        using lp unfolding sorted_wrt_append by blast
      moreover have "r \<in> set (hd ts)" using that(1) Cons.prems(3) tsne by (cases ts) auto
      ultimately have "redact_event r \<in> set (concat ps)" using ih(3) that(2) by (simp add: after_cursor_iff)
      then show ?thesis by (simp add: pages)
    qed
    ultimately show ?thesis by simp
  qed
qed simp

text \<open>
  The export neither repeats nor loses an event while the log is being written. Each fetch
  may see more rows than the one before; if the run returns, every event the reader may see that
  was there when it started is in the file, in strictly descending order of the keyset (so no
  event twice), and nothing is in the file that the same filters would not show.
\<close>

theorem export_under_concurrent_writes:
  assumes "0 < batchSize" and "\<forall>t\<in>set tables. unique_key keyset t"
    and "sorted_wrt (\<lambda>s t. set s \<subseteq> set t) tables"
    and "exportRows tenantId filters readerRole batchSize tables = Some pages"
  shows "sorted_wrt (\<lambda>a b. keyset b < keyset a) (concat pages)
     \<and> (\<forall>e\<in>set (concat pages). \<exists>t\<in>set tables. \<exists>r\<in>set t.
           auditWhere tenantId filters readerRole r \<and> e = redact_event r)
     \<and> (\<forall>r\<in>set (hd tables). auditWhere tenantId filters readerRole r \<longrightarrow>
           redact_event r \<in> set (concat pages))"
  using export_loop_growing [OF assms(1,2,3), of _ None pages] assms(4)
  unfolding exportRows_def by (auto simp del: set_concat)

definition demo_event :: "uuid \<Rightarrow> string \<Rightarrow> instant \<Rightarrow> audit_event" where
  "demo_event i ty t = hd (record_event i t
     \<lparr>in_tenantId = ''t1'', in_actorUserId = None, in_actorType = None, in_eventType = ty,
      in_targetType = None, in_targetId = None, in_requestId = None, in_ipAddress = None,
      in_userAgent = None, in_metadata = None, in_beforeHash = None, in_afterHash = None\<rparr> [])"

definition no_filters :: audit_filters where
  "no_filters = \<lparr>f_eventType = None, f_eventTypePrefix = None, f_actorType = None,
     f_actorUserId = None, f_targetType = None, f_targetId = None, f_from = None, f_to = None\<rparr>"

theorem export_under_concurrent_writes_witness:
  "let a = demo_event ''a'' ''LOGIN'' 5; b = demo_event ''b'' ''LOGIN'' 5; c = demo_event ''c'' ''LOGOUT'' 9
   in exportRows ''t1'' no_filters None 1 [[a, b], [a, b, c], [a, b, c]] = Some [[b], [a]]
    \<and> redact_event a \<in> set (concat [[b], [a]])"
proof -
  let ?a = "demo_event ''a'' ''LOGIN'' 5" and ?b = "demo_event ''b'' ''LOGIN'' 5"
    and ?c = "demo_event ''c'' ''LOGOUT'' 9"
  let ?ts = "[[?a, ?b], [?a, ?b, ?c], [?a, ?b, ?c]]"
  have run: "exportRows ''t1'' no_filters None 1 ?ts = Some [[?b], [?a]]" by code_simp
  have "\<forall>t\<in>set ?ts. unique_key keyset t" by code_simp
  moreover have "sorted_wrt (\<lambda>s t. set s \<subseteq> set t) ?ts" by auto
  moreover have "auditWhere ''t1'' no_filters None ?a" by code_simp
  ultimately have "redact_event ?a \<in> set (concat [[?b], [?a]])"
    using export_under_concurrent_writes [OF _ _ _ run] by (auto simp del: set_concat)
  with run show ?thesis by (simp add: Let_def)
qed



end
