(* ===== verification/Flags.thy ===== *)
theory Flags
  imports Errors
begin

section \<open>Feature flags and kill switches\<close>

text \<open>
  \<open>common/flags/flags.ts\<close>. The environment's global defaults are a function on the flags, the
  installed override resolver is an option (\<open>None\<close> before \<open>setFlagOverrideResolver\<close>), and a
  scope has one optional field per key.
\<close>

datatype flag_name =
    Connector_Gmail_Enabled | Connector_M365_Enabled | Ai_Extraction_Enabled
  | Ai_Drafting_Enabled | Hosted_Mail_Pilot_Enabled | Outbound_Sending_Enabled
  | Custom_Domain_Enabled | Provider_Callbacks_Accepting | Google_Login_Enabled
  | Mfa_Enforcement_Enabled

definition FLAGS :: "flag_name list" where
  "FLAGS =
     [Connector_Gmail_Enabled, Connector_M365_Enabled, Ai_Extraction_Enabled,
      Ai_Drafting_Enabled, Hosted_Mail_Pilot_Enabled, Outbound_Sending_Enabled,
      Custom_Domain_Enabled, Provider_Callbacks_Accepting, Google_Login_Enabled,
      Mfa_Enforcement_Enabled]"

datatype scope_key = Key_TenantId | Key_DomainId | Key_MailboxId | Key_Provider

record flag_scope =
  fs_tenantId :: "uuid option"
  fs_domainId :: "uuid option"
  fs_mailboxId :: "uuid option"
  fs_provider :: "string option"

definition whole_platform :: flag_scope where
  "whole_platform = \<lparr>fs_tenantId = None, fs_domainId = None, fs_mailboxId = None, fs_provider = None\<rparr>"

fun FLAG_SCOPES :: "flag_name \<Rightarrow> scope_key list" where
  "FLAG_SCOPES Connector_Gmail_Enabled = [Key_TenantId]"
| "FLAG_SCOPES Connector_M365_Enabled = [Key_TenantId]"
| "FLAG_SCOPES Ai_Extraction_Enabled = [Key_TenantId, Key_MailboxId]"
| "FLAG_SCOPES Ai_Drafting_Enabled = [Key_TenantId, Key_MailboxId]"
| "FLAG_SCOPES Hosted_Mail_Pilot_Enabled = [Key_TenantId]"
| "FLAG_SCOPES Outbound_Sending_Enabled = [Key_TenantId, Key_DomainId, Key_MailboxId]"
| "FLAG_SCOPES Custom_Domain_Enabled = [Key_TenantId]"
| "FLAG_SCOPES Provider_Callbacks_Accepting = [Key_Provider]"
| "FLAG_SCOPES Google_Login_Enabled = [Key_TenantId]"
| "FLAG_SCOPES Mfa_Enforcement_Enabled = []"

fun scope_at :: "flag_scope \<Rightarrow> scope_key \<Rightarrow> string option" where
  "scope_at sc Key_TenantId = fs_tenantId sc"
| "scope_at sc Key_DomainId = fs_domainId sc"
| "scope_at sc Key_MailboxId = fs_mailboxId sc"
| "scope_at sc Key_Provider = fs_provider sc"

type_synonym global_flags = "flag_name \<Rightarrow> bool"

type_synonym override_resolver = "flag_name \<Rightarrow> flag_scope \<Rightarrow> bool option"

text \<open>The environment, one variable per flag.\<close>

record flag_env =
  FLAG_CONNECTOR_GMAIL_ENABLED :: bool
  FLAG_CONNECTOR_M365_ENABLED :: bool
  FLAG_AI_EXTRACTION_ENABLED :: bool
  FLAG_AI_DRAFTING_ENABLED :: bool
  FLAG_HOSTED_MAIL_PILOT_ENABLED :: bool
  FLAG_OUTBOUND_SENDING_ENABLED :: bool
  FLAG_CUSTOM_DOMAIN_ENABLED :: bool
  FLAG_PROVIDER_CALLBACKS_ACCEPTING :: bool
  FLAG_GOOGLE_LOGIN_ENABLED :: bool
  FLAG_MFA_ENFORCEMENT_ENABLED :: bool

fun globalDefault :: "flag_env \<Rightarrow> flag_name \<Rightarrow> bool" where
  "globalDefault env Connector_Gmail_Enabled = FLAG_CONNECTOR_GMAIL_ENABLED env"
| "globalDefault env Connector_M365_Enabled = FLAG_CONNECTOR_M365_ENABLED env"
| "globalDefault env Ai_Extraction_Enabled = FLAG_AI_EXTRACTION_ENABLED env"
| "globalDefault env Ai_Drafting_Enabled = FLAG_AI_DRAFTING_ENABLED env"
| "globalDefault env Hosted_Mail_Pilot_Enabled = FLAG_HOSTED_MAIL_PILOT_ENABLED env"
| "globalDefault env Outbound_Sending_Enabled = FLAG_OUTBOUND_SENDING_ENABLED env"
| "globalDefault env Custom_Domain_Enabled = FLAG_CUSTOM_DOMAIN_ENABLED env"
| "globalDefault env Provider_Callbacks_Accepting = FLAG_PROVIDER_CALLBACKS_ACCEPTING env"
| "globalDefault env Google_Login_Enabled = FLAG_GOOGLE_LOGIN_ENABLED env"
| "globalDefault env Mfa_Enforcement_Enabled = FLAG_MFA_ENFORCEMENT_ENABLED env"

text \<open>The loop over the keys of the scope object; a key whose value is undefined is skipped.\<close>

definition assertScopeSupported :: "flag_name \<Rightarrow> flag_scope \<Rightarrow> unit result" where
  "assertScopeSupported name sc =
     (if list_ex (\<lambda>k. scope_at sc k \<noteq> None \<and> k \<notin> set (FLAG_SCOPES name))
           [Key_TenantId, Key_DomainId, Key_MailboxId, Key_Provider]
      then fail_with 500 INTERNAL_ERROR else Inr ())"

definition isFlagEnabled ::
  "flag_env \<Rightarrow> override_resolver option \<Rightarrow> flag_name \<Rightarrow> flag_scope \<Rightarrow> bool result" where
  "isFlagEnabled env resolver name sc =
     bind_result (assertScopeSupported name sc)
       (\<lambda>_. if \<not> globalDefault env name then Inr False
             else (case resolver of None \<Rightarrow> Inr True
                     | Some r \<Rightarrow> (case r name sc of None \<Rightarrow> Inr True | Some b \<Rightarrow> Inr b)))"

definition assertFlagEnabled ::
  "flag_env \<Rightarrow> override_resolver option \<Rightarrow> flag_name \<Rightarrow> flag_scope \<Rightarrow> unit result" where
  "assertFlagEnabled env resolver name sc =
     bind_result (isFlagEnabled env resolver name sc)
       (\<lambda>on. if on then Inr () else fail_with 403 FEATURE_DISABLED)"

definition narrowed :: "flag_scope \<Rightarrow> flag_name \<Rightarrow> flag_scope" where
  "narrowed sc name =
     (let keep = (\<lambda>k. if k \<in> set (FLAG_SCOPES name) then scope_at sc k else None)
      in \<lparr>fs_tenantId = keep Key_TenantId, fs_domainId = keep Key_DomainId,
          fs_mailboxId = keep Key_MailboxId, fs_provider = keep Key_Provider\<rparr>)"

fun snapshot_loop ::
  "flag_env \<Rightarrow> override_resolver option \<Rightarrow> flag_scope \<Rightarrow> flag_name list \<Rightarrow> ((flag_name \<times> bool) list) result" where
  "snapshot_loop env resolver sc [] = Inr []"
| "snapshot_loop env resolver sc (name # names) =
     bind_result (isFlagEnabled env resolver name (narrowed sc name))
       (\<lambda>on. bind_result (snapshot_loop env resolver sc names) (\<lambda>rest. Inr ((name, on) # rest)))"

definition flagSnapshot ::
  "flag_env \<Rightarrow> override_resolver option \<Rightarrow> flag_scope \<Rightarrow> ((flag_name \<times> bool) list) result" where
  "flagSnapshot env resolver sc = snapshot_loop env resolver sc FLAGS"

subsection \<open>What the flags guarantee\<close>

lemma FLAGS_all: "set FLAGS = UNIV"
proof -
  have "f \<in> set FLAGS" for f
    by (cases f) (simp_all add: FLAGS_def)
  then show ?thesis by blast
qed

lemma distinct_FLAGS: "distinct FLAGS"
  by (simp add: FLAGS_def)

lemma scope_supported_iff:
  "assertScopeSupported name sc = Inr u \<longleftrightarrow> (\<forall>k. scope_at sc k \<noteq> None \<longrightarrow> k \<in> set (FLAG_SCOPES name))"
proof -
  have all: "(\<forall>k. P k) \<longleftrightarrow> P Key_TenantId \<and> P Key_DomainId \<and> P Key_MailboxId \<and> P Key_Provider" for P
    by (metis scope_key.exhaust)
  show ?thesis by (subst all) (auto simp: assertScopeSupported_def)
qed

lemma scope_at_narrowed:
  "scope_at (narrowed sc name) k = (if k \<in> set (FLAG_SCOPES name) then scope_at sc k else None)"
  by (cases k) (simp_all add: narrowed_def)

lemma narrowed_supported: "assertScopeSupported name (narrowed sc name) = Inr ()"
  by (simp add: scope_supported_iff scope_at_narrowed)

lemma narrowed_id: "assertScopeSupported name sc = Inr () \<Longrightarrow> narrowed sc name = sc"
proof -
  assume "assertScopeSupported name sc = Inr ()"
  then have "k \<in> set (FLAG_SCOPES name) \<or> scope_at sc k = None" for k
    by (auto simp: scope_supported_iff)
  from this [of Key_TenantId] this [of Key_DomainId] this [of Key_MailboxId] this [of Key_Provider]
  show ?thesis by (auto simp: narrowed_def)
qed

lemma isFlagEnabled_supported:
  "assertScopeSupported name sc = Inr () \<Longrightarrow>
     isFlagEnabled env resolver name sc =
       Inr (globalDefault env name \<and> (\<forall>r. resolver = Some r \<longrightarrow> r name sc \<noteq> Some False))"
  by (auto simp: isFlagEnabled_def split: option.splits)

lemma snapshot_loop_eq:
  "snapshot_loop env resolver sc names =
     Inr (map (\<lambda>name. (name, globalDefault env name
       \<and> (\<forall>r. resolver = Some r \<longrightarrow> r name (narrowed sc name) \<noteq> Some False))) names)"
  by (induction names) (simp_all add: isFlagEnabled_supported narrowed_supported)

text \<open>
  A global off is a kill switch. Whatever resolver is installed and whatever scope is asked,
  a flag that is off globally is never answered as on and its guard never passes; a narrower scope
  can only stop what is on; and the snapshot the clients see never fails and says of every flag
  what the guard decides on the part of the scope the flag supports.
\<close>

theorem kill_switch:
  assumes "\<not> globalDefault env name"
  shows "isFlagEnabled env resolver name sc \<noteq> Inr True
     \<and> assertFlagEnabled env resolver name sc \<noteq> Inr ()
     \<and> (\<exists>snap. flagSnapshot env resolver sc' = Inr snap \<and> map fst snap = FLAGS
          \<and> map_of snap name = Some False
          \<and> (\<forall>f on. (f, on) \<in> set snap \<longrightarrow>
               (assertFlagEnabled env resolver f (narrowed sc' f) = Inr ()) = on))"
proof (intro conjI)
  show off: "isFlagEnabled env resolver name sc \<noteq> Inr True"
    using assms by (auto simp: isFlagEnabled_def bind_result_Inr_iff)
  then show "assertFlagEnabled env resolver name sc \<noteq> Inr ()"
    by (auto simp: assertFlagEnabled_def bind_result_Inr_iff split: if_splits)
  let ?on = "\<lambda>f. globalDefault env f \<and> (\<forall>r. resolver = Some r \<longrightarrow> r f (narrowed sc' f) \<noteq> Some False)"
  have snap: "flagSnapshot env resolver sc' = Inr (map (\<lambda>f. (f, ?on f)) FLAGS)"
    by (simp add: flagSnapshot_def snapshot_loop_eq)
  have "map_of (map (\<lambda>f. (f, ?on f)) FLAGS) name = Some (?on name)"
    by (simp add: map_of_graph FLAGS_all)
  moreover have "\<not> ?on name" using assms by simp
  moreover have "(assertFlagEnabled env resolver f (narrowed sc' f) = Inr ()) = ?on f" for f
    by (simp add: assertFlagEnabled_def isFlagEnabled_supported narrowed_supported)
  ultimately show "\<exists>snap. flagSnapshot env resolver sc' = Inr snap \<and> map fst snap = FLAGS
          \<and> map_of snap name = Some False
          \<and> (\<forall>f on. (f, on) \<in> set snap \<longrightarrow> (assertFlagEnabled env resolver f (narrowed sc' f) = Inr ()) = on)"
    using snap by (intro exI [of _ "map (\<lambda>f. (f, ?on f)) FLAGS"]) (auto simp: comp_def)
qed

theorem kill_switch_witness:
  "let env = \<lparr>FLAG_CONNECTOR_GMAIL_ENABLED = True, FLAG_CONNECTOR_M365_ENABLED = True,
     FLAG_AI_EXTRACTION_ENABLED = True, FLAG_AI_DRAFTING_ENABLED = True,
     FLAG_HOSTED_MAIL_PILOT_ENABLED = True, FLAG_OUTBOUND_SENDING_ENABLED = False,
     FLAG_CUSTOM_DOMAIN_ENABLED = True, FLAG_PROVIDER_CALLBACKS_ACCEPTING = True,
     FLAG_GOOGLE_LOGIN_ENABLED = True, FLAG_MFA_ENFORCEMENT_ENABLED = True\<rparr>
   in isFlagEnabled env (Some (\<lambda>_ _. Some True)) Outbound_Sending_Enabled
        (whole_platform\<lparr>fs_tenantId := Some ''t1''\<rparr>) = Inr False
    \<and> assertFlagEnabled env (Some (\<lambda>_ _. Some True)) Outbound_Sending_Enabled whole_platform \<noteq> Inr ()"
proof -
  let ?env = "\<lparr>FLAG_CONNECTOR_GMAIL_ENABLED = True, FLAG_CONNECTOR_M365_ENABLED = True,
     FLAG_AI_EXTRACTION_ENABLED = True, FLAG_AI_DRAFTING_ENABLED = True,
     FLAG_HOSTED_MAIL_PILOT_ENABLED = True, FLAG_OUTBOUND_SENDING_ENABLED = False,
     FLAG_CUSTOM_DOMAIN_ENABLED = True, FLAG_PROVIDER_CALLBACKS_ACCEPTING = True,
     FLAG_GOOGLE_LOGIN_ENABLED = True, FLAG_MFA_ENFORCEMENT_ENABLED = True\<rparr>"
  have off: "\<not> globalDefault ?env Outbound_Sending_Enabled" by simp
  have "isFlagEnabled ?env (Some (\<lambda>_ _. Some True)) Outbound_Sending_Enabled
        (whole_platform\<lparr>fs_tenantId := Some ''t1''\<rparr>) = Inr False" by code_simp
  then show ?thesis
    using kill_switch [OF off, of "Some (\<lambda>_ _. Some True)" whole_platform] by (simp add: Let_def)
qed

end
