(* ===== verification/Mfa.thy ===== *)
theory Mfa
  imports Totp Audit_Log Flags
begin

section \<open>The second factor\<close>

text \<open>
  \<open>modules/auth/mfa.service.ts\<close>. The state is the columns of the user table the service works on,
  the recovery codes, the memberships it reads and the audit log, which also is its lockout counter.
  The primitives of the crypto library (HMAC, AES-GCM on base64 texts, bcrypt) are the fields of
  the environment record, the random choices are arguments, and \<open>now\<close> is the one clock reading of
  a request.
\<close>

subsection \<open>State\<close>

record mfa_user =
  mu_id :: uuid
  mfaSecret :: "string option"
  mfaEnrolledAt :: "instant option"
  mfaLastUsedStep :: "int option"
  mu_platformRole :: platform_role

record recovery_code =
  rc_id :: uuid
  rc_userId :: uuid
  rc_codeHash :: string
  rc_usedAt :: "instant option"

record mfa_membership =
  mm_userId :: uuid
  mm_tenantId :: uuid
  mm_role :: membership_role
  mm_status :: membership_status

record mfa_state =
  mfa_users :: "mfa_user list"
  recovery_codes :: "recovery_code list"
  mfa_memberships :: "mfa_membership list"
  systemTenant :: bool
  mfa_log :: "audit_event list"

record mfa_env =
  e_hmac :: "byte list \<Rightarrow> byte list \<Rightarrow> byte list"
  e_seal :: "string \<Rightarrow> string \<Rightarrow> string \<times> string"
  e_open :: "string \<Rightarrow> string \<Rightarrow> string \<Rightarrow> string option"
  e_bhash :: "string \<Rightarrow> string"
  e_bcompare :: "string \<Rightarrow> string \<Rightarrow> bool"
  e_newId :: "nat \<Rightarrow> uuid"
  e_flags :: flag_env
  e_resolver :: "override_resolver option"

record actor_context =
  ax_requestId :: "string option"
  ax_ipAddress :: "string option"
  ax_userAgent :: "string option"

definition SYSTEM_TENANT_ID :: uuid where
  "SYSTEM_TENANT_ID = ''00000000-0000-4000-8000-000000000000''"

subsection \<open>Constants and secrets\<close>

definition MFA_REQUIRED_ROLES :: "membership_role list" where
  "MFA_REQUIRED_ROLES = [OWNER, ADMIN, SUPPORT]"

definition RECOVERY_CODE_COUNT :: nat where
  "RECOVERY_CODE_COUNT = 10"

definition MAX_FAILED_ATTEMPTS :: nat where
  "MAX_FAILED_ATTEMPTS = 5"

definition LOCKOUT_WINDOW_MS :: int where
  "LOCKOUT_WINDOW_MS = 15 * 60 * 1000"

definition roleRequiresMfa :: "membership_role \<Rightarrow> bool" where
  "roleRequiresMfa role \<longleftrightarrow> role \<in> set MFA_REQUIRED_ROLES"

definition mfaEnforcementEnabled :: "mfa_env \<Rightarrow> bool" where
  "mfaEnforcementEnabled env \<longleftrightarrow>
     isFlagEnabled (e_flags env) (e_resolver env) Mfa_Enforcement_Enabled whole_platform = Inr True"

fun split_colon :: "string \<Rightarrow> string list" where
  "split_colon [] = [[]]"
| "split_colon (c # cs) =
     (if c = CHR '':'' then [] # split_colon cs
      else (case split_colon cs of [] \<Rightarrow> [[c]] | p # ps \<Rightarrow> (c # p) # ps))"

definition encryptSecret :: "mfa_env \<Rightarrow> string \<Rightarrow> string \<Rightarrow> string" where
  "encryptSecret env iv plaintext =
     (let (tag, data) = e_seal env iv plaintext in iv @ '':'' @ tag @ '':'' @ data)"

definition decryptSecret :: "mfa_env \<Rightarrow> string \<Rightarrow> string result" where
  "decryptSecret env ciphertext =
     (case split_colon ciphertext of
        iv # tag # data # _ \<Rightarrow>
          if iv = [] \<or> tag = [] \<or> data = [] then Inl (ServerError ''Malformed MFA secret'')
          else (case e_open env iv tag data of
                  None \<Rightarrow> Inl (ServerError ''Unsupported state or unable to authenticate data'')
                | Some p \<Rightarrow> Inr p)
      | _ \<Rightarrow> Inl (ServerError ''Malformed MFA secret''))"

definition RECOVERY_ALPHABET :: string where
  "RECOVERY_ALPHABET = ''ABCDEFGHJKLMNPQRSTUVWXYZ23456789''"

text \<open>Ten random indices below the length of the alphabet.\<close>

definition newRecoveryCode :: "nat list \<Rightarrow> string" where
  "newRecoveryCode rnd =
     (let block = map (\<lambda>i. RECOVERY_ALPHABET ! i)
      in block (take 5 rnd) @ ''-'' @ block (take 5 (drop 5 rnd)))"

definition normalize_code :: "string \<Rightarrow> string" where
  "normalize_code s = map upper_char (trim s)"

definition hashRecoveryCode :: "mfa_env \<Rightarrow> string \<Rightarrow> string" where
  "hashRecoveryCode env c = e_bhash env (normalize_code c)"

subsection \<open>Audit\<close>

definition mfa_audit ::
  "mfa_env \<Rightarrow> uuid \<Rightarrow> string \<Rightarrow> actor_context \<Rightarrow> json option \<Rightarrow> instant \<Rightarrow> mfa_state \<Rightarrow> mfa_state" where
  "mfa_audit env userId ty ctx md now st =
     st\<lparr>systemTenant := True,
        mfa_log := record_event (e_newId env (length (mfa_log st))) now
          \<lparr>in_tenantId = SYSTEM_TENANT_ID, in_actorUserId = Some userId, in_actorType = None,
           in_eventType = ty, in_targetType = Some ''AppUser'', in_targetId = Some userId,
           in_requestId = ax_requestId ctx, in_ipAddress = ax_ipAddress ctx,
           in_userAgent = ax_userAgent ctx, in_metadata = md, in_beforeHash = None, in_afterHash = None\<rparr>
          (mfa_log st)\<rparr>"

definition because :: "string \<Rightarrow> json option" where
  "because r = Some (JObj [(''reason'', JStr r)])"

definition counted :: "string \<Rightarrow> nat \<Rightarrow> json option" where
  "counted k n = Some (JObj [(k, JNum (int n))])"

subsection \<open>Reading the account\<close>

definition mfa_user_of :: "uuid \<Rightarrow> mfa_state \<Rightarrow> mfa_user option" where
  "mfa_user_of userId st = find_row (\<lambda>u. mu_id u = userId) (mfa_users st)"

definition set_user :: "uuid \<Rightarrow> (mfa_user \<Rightarrow> mfa_user) \<Rightarrow> mfa_state \<Rightarrow> mfa_state" where
  "set_user userId f st = st\<lparr>mfa_users := update_where (\<lambda>u. mu_id u = userId) f (mfa_users st)\<rparr>"

definition missing_user :: app_error where
  "missing_user = ServerError ''No AppUser found''"

definition isEnrolled :: "uuid \<Rightarrow> mfa_state \<Rightarrow> bool" where
  "isEnrolled userId st =
     (case mfa_user_of userId st of None \<Rightarrow> False
      | Some u \<Rightarrow> mfaEnrolledAt u \<noteq> None \<and> mfaSecret u \<noteq> None \<and> mfaSecret u \<noteq> Some [])"

definition unused_codes :: "uuid \<Rightarrow> mfa_state \<Rightarrow> recovery_code list" where
  "unused_codes userId st = filter (\<lambda>r. rc_userId r = userId \<and> rc_usedAt r = None) (recovery_codes st)"

definition privileged_membership :: "uuid \<Rightarrow> mfa_state \<Rightarrow> mfa_membership option" where
  "privileged_membership userId st =
     find_row (\<lambda>m. mm_userId m = userId \<and> mm_status m = MS_ACTIVE \<and> mm_role m \<in> set MFA_REQUIRED_ROLES)
       (mfa_memberships st)"

definition recent_failures :: "uuid \<Rightarrow> instant \<Rightarrow> mfa_state \<Rightarrow> nat" where
  "recent_failures userId since st =
     count_where (\<lambda>e. actorUserId e = Some userId \<and> eventType e = ''MFA_CHALLENGE_FAILED''
       \<and> since \<le> ev_createdAt e) (mfa_log st)"

subsection \<open>Enrolment\<close>

definition beginEnrolment ::
  "mfa_env \<Rightarrow> string \<Rightarrow> string \<Rightarrow> uuid \<Rightarrow> actor_context \<Rightarrow> instant \<Rightarrow> mfa_state \<Rightarrow> string result \<times> mfa_state" where
  "beginEnrolment env secret iv userId ctx now st =
     (case mfa_user_of userId st of
        None \<Rightarrow> (Inl missing_user, st)
      | Some u \<Rightarrow>
          if mfaEnrolledAt u \<noteq> None then (fail_with 409 CONFLICT, st)
          else (Inr secret,
                mfa_audit env userId ''MFA_ENROLMENT_STARTED'' ctx None now
                  (set_user userId (\<lambda>u. u\<lparr>mfaSecret := Some (encryptSecret env iv secret), mfaLastUsedStep := None\<rparr>) st)))"

text \<open>The fresh codes with the identifiers of their rows.\<close>

definition replace_codes :: "mfa_env \<Rightarrow> uuid \<Rightarrow> (uuid \<times> string) list \<Rightarrow> mfa_state \<Rightarrow> mfa_state" where
  "replace_codes env userId fresh st = st\<lparr>recovery_codes :=
     delete_where (\<lambda>r. rc_userId r = userId) (recovery_codes st)
     @ map (\<lambda>(i, c). \<lparr>rc_id = i, rc_userId = userId, rc_codeHash = hashRecoveryCode env c, rc_usedAt = None\<rparr>) fresh\<rparr>"

definition confirmEnrolment ::
  "mfa_env \<Rightarrow> (uuid \<times> string) list \<Rightarrow> uuid \<Rightarrow> string \<Rightarrow> actor_context \<Rightarrow> instant \<Rightarrow> mfa_state
     \<Rightarrow> (string list) result \<times> mfa_state" where
  "confirmEnrolment env fresh userId given ctx now st =
     (case mfa_user_of userId st of
        None \<Rightarrow> (Inl missing_user, st)
      | Some u \<Rightarrow>
          if mfaEnrolledAt u \<noteq> None then (fail_with 409 CONFLICT, st)
          else if \<not> truthy (mfaSecret u) then (fail_because 409 CONFLICT ''NO_PENDING_ENROLMENT'', st)
          else (case bind_result (decryptSecret env (the (mfaSecret u)))
                       (\<lambda>sec. verifyTotp (e_hmac env) sec given now TOTP_WINDOW_STEPS) of
                  Inl e \<Rightarrow> (Inl e, st)
                | Inr None \<Rightarrow>
                    (fail_with 401 UNAUTHORIZED, mfa_audit env userId ''MFA_ENROLMENT_FAILED'' ctx None now st)
                | Inr (Some s) \<Rightarrow>
                    (Inr (map snd fresh),
                     mfa_audit env userId ''MFA_ENROLLED'' ctx (counted ''recoveryCodeCount'' (length fresh)) now
                       (replace_codes env userId fresh
                         (set_user userId (\<lambda>u. u\<lparr>mfaEnrolledAt := Some now, mfaLastUsedStep := Some s\<rparr>) st)))))"

subsection \<open>Answering a challenge\<close>

text \<open>
  The handler reads first and writes afterwards. \<open>challenge_decide\<close> is what it concludes from what
  it reads, \<open>challenge_apply\<close> what it then writes and answers; run alone, the handler is the two in
  sequence. \<open>Recovery (Some i) n\<close> is a submission that matches the unused recovery code \<open>i\<close>.
\<close>

datatype challenge_decision =
    Locked_Out nat
  | Challenge_Error app_error
  | Code_Replayed
  | Totp_Accepted int
  | Recovery "uuid option" nat

definition match_recovery :: "mfa_env \<Rightarrow> string \<Rightarrow> recovery_code list \<Rightarrow> uuid option" where
  "match_recovery env given candidates =
     map_option rc_id (find_row (\<lambda>r. e_bcompare env (normalize_code given) (rc_codeHash r)) candidates)"

definition challenge_decide :: "mfa_env \<Rightarrow> uuid \<Rightarrow> string \<Rightarrow> instant \<Rightarrow> mfa_state \<Rightarrow> challenge_decision" where
  "challenge_decide env userId given now st =
     (let failures = recent_failures userId (now - LOCKOUT_WINDOW_MS) st
      in if MAX_FAILED_ATTEMPTS \<le> failures then Locked_Out failures
         else case mfa_user_of userId st of
                None \<Rightarrow> Challenge_Error missing_user
              | Some u \<Rightarrow>
                  if mfaEnrolledAt u = None \<or> \<not> truthy (mfaSecret u)
                    then Challenge_Error (AppError 409 CONFLICT (Some ''MFA_NOT_ENROLLED''))
                  else (case bind_result (decryptSecret env (the (mfaSecret u)))
                               (\<lambda>sec. verifyTotp (e_hmac env) sec given now TOTP_WINDOW_STEPS) of
                          Inl e \<Rightarrow> Challenge_Error e
                        | Inr (Some s) \<Rightarrow>
                            (case mfaLastUsedStep u of
                               Some l \<Rightarrow> if s \<le> l then Code_Replayed else Totp_Accepted s
                             | None \<Rightarrow> Totp_Accepted s)
                        | Inr None \<Rightarrow>
                            Recovery (match_recovery env given (unused_codes userId st))
                              (length (unused_codes userId st))))"

definition refuse_code :: "mfa_env \<Rightarrow> uuid \<Rightarrow> actor_context \<Rightarrow> instant \<Rightarrow> mfa_state \<Rightarrow> (bool \<times> nat) result \<times> mfa_state" where
  "refuse_code env userId ctx now st =
     (fail_with 401 UNAUTHORIZED,
      mfa_audit env userId ''MFA_CHALLENGE_FAILED'' ctx (because ''INVALID_CODE'') now st)"

fun challenge_apply ::
  "mfa_env \<Rightarrow> uuid \<Rightarrow> actor_context \<Rightarrow> instant \<Rightarrow> challenge_decision \<Rightarrow> mfa_state
     \<Rightarrow> (bool \<times> nat) result \<times> mfa_state" where
  "challenge_apply env userId ctx now (Locked_Out failures) st =
     (fail_with 429 RATE_LIMIT_EXCEEDED,
      mfa_audit env userId ''MFA_CHALLENGE_LOCKED_OUT'' ctx (counted ''failures'' failures) now st)"
| "challenge_apply env userId ctx now (Challenge_Error e) st = (Inl e, st)"
| "challenge_apply env userId ctx now Code_Replayed st =
     (fail_because 401 UNAUTHORIZED ''CODE_ALREADY_USED'',
      mfa_audit env userId ''MFA_CHALLENGE_FAILED'' ctx (because ''CODE_ALREADY_USED'') now st)"
| "challenge_apply env userId ctx now (Totp_Accepted s) st =
     (let st' = mfa_audit env userId ''MFA_CHALLENGE_SUCCEEDED'' ctx
            (Some (JObj [(''method'', JStr ''TOTP'')])) now
            (set_user userId (\<lambda>u. u\<lparr>mfaLastUsedStep := Some s\<rparr>) st)
      in (Inr (False, length (unused_codes userId st')), st'))"
| "challenge_apply env userId ctx now (Recovery None n) st = refuse_code env userId ctx now st"
| "challenge_apply env userId ctx now (Recovery (Some i) n) st =
     (if count_where (\<lambda>r. rc_id r = i \<and> rc_usedAt r = None) (recovery_codes st) \<noteq> 1
      then refuse_code env userId ctx now st
      else let st' = st\<lparr>recovery_codes := update_where (\<lambda>r. rc_id r = i \<and> rc_usedAt r = None)
                         (\<lambda>r. r\<lparr>rc_usedAt := Some now\<rparr>) (recovery_codes st)\<rparr>;
               remaining = length (unused_codes userId st')
           in (Inr (True, remaining),
               mfa_audit env userId ''MFA_RECOVERY_CODE_USED'' ctx (counted ''remaining'' remaining) now st'))"

definition verifyChallenge ::
  "mfa_env \<Rightarrow> uuid \<Rightarrow> string \<Rightarrow> actor_context \<Rightarrow> instant \<Rightarrow> mfa_state \<Rightarrow> (bool \<times> nat) result \<times> mfa_state" where
  "verifyChallenge env userId given ctx now st =
     challenge_apply env userId ctx now (challenge_decide env userId given now st) st"

subsection \<open>Managing the factor\<close>

definition disable ::
  "mfa_env \<Rightarrow> uuid \<Rightarrow> string \<Rightarrow> actor_context \<Rightarrow> instant \<Rightarrow> mfa_state \<Rightarrow> unit result \<times> mfa_state" where
  "disable env userId given ctx now st =
     (case mfa_user_of userId st of
        None \<Rightarrow> (Inl missing_user, st)
      | Some staff \<Rightarrow>
          if mfaEnforcementEnabled env
             \<and> (privileged_membership userId st \<noteq> None \<or> mu_platformRole staff \<noteq> PR_NONE)
          then (fail_because 403 FORBIDDEN ''MFA_REQUIRED_FOR_ROLE'', st)
          else (case verifyChallenge env userId given ctx now st of
                  (Inl e, st') \<Rightarrow> (Inl e, st')
                | (Inr _, st') \<Rightarrow>
                    (Inr (),
                     mfa_audit env userId ''MFA_DISABLED'' ctx None now
                       (replace_codes env userId []
                         (set_user userId (\<lambda>u. u\<lparr>mfaSecret := None, mfaEnrolledAt := None, mfaLastUsedStep := None\<rparr>) st')))))"

definition regenerateRecoveryCodes ::
  "mfa_env \<Rightarrow> (uuid \<times> string) list \<Rightarrow> uuid \<Rightarrow> string \<Rightarrow> actor_context \<Rightarrow> instant \<Rightarrow> mfa_state
     \<Rightarrow> (string list) result \<times> mfa_state" where
  "regenerateRecoveryCodes env fresh userId given ctx now st =
     (case verifyChallenge env userId given ctx now st of
        (Inl e, st') \<Rightarrow> (Inl e, st')
      | (Inr _, st') \<Rightarrow>
          (Inr (map snd fresh),
           mfa_audit env userId ''MFA_RECOVERY_CODES_REGENERATED'' ctx
             (counted ''recoveryCodeCount'' (length fresh)) now (replace_codes env userId fresh st')))"

record mfa_status =
  st_enrolled :: bool
  st_enrolledAt :: "instant option"
  st_pending :: bool
  st_required :: bool
  st_requiredBecause :: "(membership_role + platform_role) option"
  st_remaining :: nat

definition mfa_status_of :: "mfa_env \<Rightarrow> uuid \<Rightarrow> mfa_state \<Rightarrow> mfa_status result" where
  "mfa_status_of env userId st =
     (case mfa_user_of userId st of
        None \<Rightarrow> Inl missing_user
      | Some u \<Rightarrow>
          Inr \<lparr>st_enrolled = (mfaEnrolledAt u \<noteq> None), st_enrolledAt = mfaEnrolledAt u,
               st_pending = (truthy (mfaSecret u) \<and> mfaEnrolledAt u = None),
               st_required = (mfaEnforcementEnabled env
                 \<and> (privileged_membership userId st \<noteq> None \<or> mu_platformRole u \<noteq> PR_NONE)),
               st_requiredBecause = (if \<not> mfaEnforcementEnabled env then None
                 else case privileged_membership userId st of
                        Some m \<Rightarrow> Some (Inl (mm_role m))
                      | None \<Rightarrow> if mu_platformRole u \<noteq> PR_NONE then Some (Inr (mu_platformRole u)) else None),
               st_remaining = length (unused_codes userId st)\<rparr>)"

subsection \<open>The machine of whole requests\<close>

datatype mfa_op =
    MBegin string string uuid actor_context instant
  | MConfirm "(uuid \<times> string) list" uuid string actor_context instant
  | MChallenge uuid string actor_context instant
  | MRegenerate "(uuid \<times> string) list" uuid string actor_context instant
  | MDisable uuid string actor_context instant

fun mfa_step :: "mfa_env \<Rightarrow> mfa_state \<Rightarrow> mfa_op \<Rightarrow> mfa_state" where
  "mfa_step env st (MBegin secret iv u ctx now) = snd (beginEnrolment env secret iv u ctx now st)"
| "mfa_step env st (MConfirm fresh u given ctx now) = snd (confirmEnrolment env fresh u given ctx now st)"
| "mfa_step env st (MChallenge u given ctx now) = snd (verifyChallenge env u given ctx now st)"
| "mfa_step env st (MRegenerate fresh u given ctx now) =
     snd (regenerateRecoveryCodes env fresh u given ctx now st)"
| "mfa_step env st (MDisable u given ctx now) = snd (disable env u given ctx now st)"

text \<open>The challenge a request answers on its way, if it gets that far.\<close>

fun challenge_of :: "mfa_env \<Rightarrow> mfa_state \<Rightarrow> mfa_op \<Rightarrow> (uuid \<times> string \<times> instant) option" where
  "challenge_of env st (MChallenge u given ctx now) = Some (u, given, now)"
| "challenge_of env st (MRegenerate fresh u given ctx now) = Some (u, given, now)"
| "challenge_of env st (MDisable u given ctx now) =
     (case mfa_user_of u st of
        None \<Rightarrow> None
      | Some staff \<Rightarrow>
          if mfaEnforcementEnabled env \<and> (privileged_membership u st \<noteq> None \<or> mu_platformRole staff \<noteq> PR_NONE)
          then None else Some (u, given, now))"
| "challenge_of env st x = None"

text \<open>How often the factor of an account was removed: each removal starts a new generation.\<close>

definition generation :: "uuid \<Rightarrow> mfa_state \<Rightarrow> nat" where
  "generation u st =
     count_where (\<lambda>e. actorUserId e = Some u \<and> eventType e = ''MFA_DISABLED'') (mfa_log st)"

text \<open>The request accepts, for the user and in the generation, the one-time password of step \<open>s\<close>.\<close>

fun accepts_step :: "mfa_env \<Rightarrow> uuid \<times> nat \<times> int \<Rightarrow> mfa_state \<Rightarrow> mfa_op \<Rightarrow> bool" where
  "accepts_step env (u, g, s) st x \<longleftrightarrow> generation u st = g \<and>
     ((case challenge_of env st x of
         Some (u', given, now) \<Rightarrow> u' = u \<and> challenge_decide env u given now st = Totp_Accepted s
       | None \<Rightarrow> False)
      \<or> (case x of MConfirm fresh u' given ctx now \<Rightarrow>
           u' = u \<and> (\<exists>codes. fst (confirmEnrolment env fresh u given ctx now st) = Inr codes)
             \<and> bind_result (decryptSecret env (the (Option.bind (mfa_user_of u st) mfaSecret)))
                 (\<lambda>sec. verifyTotp (e_hmac env) sec given now TOTP_WINDOW_STEPS) = Inr (Some s)
         | _ \<Rightarrow> False))"

definition step_spent :: "uuid \<times> nat \<times> int \<Rightarrow> mfa_state \<Rightarrow> bool" where
  "step_spent = (\<lambda>(u, g, s) st. g < generation u st \<or>
     (g = generation u st \<and> (case mfa_user_of u st of None \<Rightarrow> False
        | Some r \<Rightarrow> mfaEnrolledAt r \<noteq> None \<and> (case mfaLastUsedStep r of None \<Rightarrow> False | Some l \<Rightarrow> s \<le> l))))"

subsection \<open>What the writes change\<close>

lemma mfa_audit_simps [simp]:
  "mfa_users (mfa_audit env v ty ctx md now st) = mfa_users st"
  "recovery_codes (mfa_audit env v ty ctx md now st) = recovery_codes st"
  "mfa_memberships (mfa_audit env v ty ctx md now st) = mfa_memberships st"
  "mfa_user_of u (mfa_audit env v ty ctx md now st) = mfa_user_of u st"
  "unused_codes u (mfa_audit env v ty ctx md now st) = unused_codes u st"
  by (simp_all add: mfa_audit_def mfa_user_of_def unused_codes_def)

lemma other_writes [simp]:
  "mfa_log (set_user v f st) = mfa_log st" "mfa_log (replace_codes env v fresh st) = mfa_log st"
  "mfa_user_of u (replace_codes env v fresh st) = mfa_user_of u st"
  "generation u (set_user v f st) = generation u st"
  "generation u (replace_codes env v fresh st) = generation u st"
  "generation u (st\<lparr>recovery_codes := cs\<rparr>) = generation u st"
  "mfa_user_of u (st\<lparr>recovery_codes := cs\<rparr>) = mfa_user_of u st"
  by (simp_all add: set_user_def replace_codes_def mfa_user_of_def generation_def)

lemma mfa_user_set [simp]:
  assumes "\<And>r. mu_id (f r) = mu_id r"
  shows "mfa_user_of u (set_user v f st) = (if u = v then map_option f (mfa_user_of u st) else mfa_user_of u st)"
  using find_row_update_key [of mu_id f u v "mfa_users st", OF assms]
  by (simp add: mfa_user_of_def set_user_def)

lemma count_audit:
  "count_where P (mfa_log (mfa_audit env v ty ctx md now st)) =
     count_where P (mfa_log st) + (if P (last (mfa_log (mfa_audit env v ty ctx md now st))) then 1 else 0)"
  by (simp add: mfa_audit_def record_event_def table_simps)

lemma audit_last:
  "actorUserId (last (mfa_log (mfa_audit env v ty ctx md now st))) = Some v"
  "eventType (last (mfa_log (mfa_audit env v ty ctx md now st))) = ty"
  "ev_createdAt (last (mfa_log (mfa_audit env v ty ctx md now st))) = now"
  by (simp_all add: mfa_audit_def record_event_def)

lemma generation_audit [simp]:
  "generation u (mfa_audit env v ty ctx md now st) =
     generation u st + (if u = v \<and> ty = ''MFA_DISABLED'' then 1 else 0)"
  by (auto simp: generation_def count_audit audit_last)

lemma failures_audit [simp]:
  "recent_failures u since (mfa_audit env v ty ctx md now st) =
     recent_failures u since st + (if u = v \<and> ty = ''MFA_CHALLENGE_FAILED'' \<and> since \<le> now then 1 else 0)"
  by (auto simp: recent_failures_def count_audit audit_last)

lemma failures_other [simp]:
  "recent_failures u since (set_user v f st) = recent_failures u since st"
  "recent_failures u since (replace_codes env v fresh st) = recent_failures u since st"
  "recent_failures u since (st\<lparr>recovery_codes := cs\<rparr>) = recent_failures u since st"
  by (simp_all add: recent_failures_def set_user_def replace_codes_def)

subsection \<open>The log only grows\<close>

lemma mfa_audit_prefix: "prefix (mfa_log st) (mfa_log (mfa_audit env v ty ctx md now st))"
  by (simp add: mfa_audit_def record_event_prefix)

lemma challenge_apply_prefix: "prefix (mfa_log st) (mfa_log (snd (challenge_apply env u ctx now d st)))"
proof (cases d)
  case (Recovery i n)
  have "prefix (mfa_log st) (mfa_log (mfa_audit env u ty ctx md now (st\<lparr>recovery_codes := cs\<rparr>)))" for ty md cs
    using mfa_audit_prefix [of "st\<lparr>recovery_codes := cs\<rparr>"] by simp
  then show ?thesis by (cases i) (auto simp: Recovery Let_def refuse_code_def mfa_audit_prefix)
next
  case (Totp_Accepted s)
  show ?thesis using mfa_audit_prefix [of "set_user u f st" for f] by (simp add: Totp_Accepted Let_def)
qed (simp_all add: mfa_audit_prefix)

lemma mfa_step_prefix: "prefix (mfa_log st) (mfa_log (mfa_step env st x))"
proof -
  have audit: "prefix (mfa_log st) (mfa_log (mfa_audit env v ty ctx md now st'))"
    if "prefix (mfa_log st) (mfa_log st')" for st' v ty ctx md now
    using that mfa_audit_prefix prefix_order.trans by blast
  have chal: "prefix (mfa_log st) (mfa_log (snd (verifyChallenge env u given ctx now st)))" for u given ctx now
    by (simp add: verifyChallenge_def challenge_apply_prefix)
  have chal': "prefix (mfa_log st) (mfa_log st')" if "verifyChallenge env u given ctx now st = (r, st')"
    for u given ctx now r st'
    using chal [of u given ctx now] that by simp
  show ?thesis
    by (cases x)
       (auto simp: beginEnrolment_def confirmEnrolment_def disable_def regenerateRecoveryCodes_def chal
          intro!: audit dest: chal' split: option.splits sum.splits prod.splits)
qed

interpretation mfa_history: append_only "mfa_step env" mfa_log
  for env
  by unfold_locales (rule mfa_step_prefix)

subsection \<open>A one-time password is accepted once\<close>

lemma decide_acceptedD:
  assumes "challenge_decide env u given now st = Totp_Accepted s"
  shows "\<exists>r. mfa_user_of u st = Some r \<and> mfaEnrolledAt r \<noteq> None \<and> (\<forall>l. mfaLastUsedStep r = Some l \<longrightarrow> l < s)
     \<and> recent_failures u (now - LOCKOUT_WINDOW_MS) st < MAX_FAILED_ATTEMPTS"
  using assms by (auto simp: challenge_decide_def Let_def split: if_splits option.splits sum.splits)

text \<open>The user's row and generation after a challenge.\<close>

lemma challenge_user:
  "mfa_user_of u (snd (challenge_apply env v ctx now d st)) =
     (case d of Totp_Accepted s \<Rightarrow>
        if u = v then map_option (\<lambda>r. r\<lparr>mfaLastUsedStep := Some s\<rparr>) (mfa_user_of u st) else mfa_user_of u st
      | _ \<Rightarrow> mfa_user_of u st)"
proof (cases d)
  case (Recovery i n)
  then show ?thesis by (cases i) (auto simp: Let_def refuse_code_def)
qed (auto simp: Let_def)

lemma challenge_generation [simp]: "generation u (snd (challenge_apply env v ctx now d st)) = generation u st"
proof (cases d)
  case (Recovery i n)
  then show ?thesis by (cases i) (auto simp: Let_def refuse_code_def)
qed (auto simp: Let_def)

lemma verifyChallenge_accepts:
  "challenge_decide env u given now st = Totp_Accepted s \<Longrightarrow> \<exists>n. fst (verifyChallenge env u given ctx now st) = Inr (False, n)"
  by (simp add: verifyChallenge_def Let_def)

lemma step_spentI:
  "mfa_user_of u st = Some r \<Longrightarrow> mfaEnrolledAt r \<noteq> None \<Longrightarrow> mfaLastUsedStep r = Some l \<Longrightarrow> s \<le> l \<Longrightarrow>
     step_spent (u, generation u st, s) st"
  by (simp add: step_spent_def)

lemma step_spent_challenge:
  assumes "step_spent (u, g, s) st"
  shows "step_spent (u, g, s) (snd (verifyChallenge env v given ctx now st))"
proof (cases "v = u \<and> (\<exists>t. challenge_decide env v given now st = Totp_Accepted t)")
  case True
  then obtain t where "v = u" and t: "challenge_decide env u given now st = Totp_Accepted t" by blast
  with decide_acceptedD [OF t] assms show ?thesis
    by (auto simp: step_spent_def verifyChallenge_def challenge_user simp del: challenge_apply.simps split: option.splits)
next
  case False
  then have "mfa_user_of u (snd (verifyChallenge env v given ctx now st)) = mfa_user_of u st"
    by (auto simp: verifyChallenge_def challenge_user split: challenge_decision.splits)
  with assms show ?thesis by (simp add: step_spent_def verifyChallenge_def)
qed

lemma step_spent_cong:
  "generation u st' = generation u st \<Longrightarrow> mfa_user_of u st' = mfa_user_of u st \<Longrightarrow>
     step_spent (u, g, s) st' = step_spent (u, g, s) st"
  by (simp add: step_spent_def)

lemma step_spent_removed:
  "step_spent (u, g, s) st \<Longrightarrow>
     step_spent (u, g, s) (mfa_audit env v ''MFA_DISABLED'' ctx md now
       (replace_codes env v [] (set_user v (\<lambda>u. u\<lparr>mfaSecret := None, mfaEnrolledAt := None, mfaLastUsedStep := None\<rparr>) st)))"
  by (auto simp: step_spent_def split: option.splits)

lemma step_spent_stays: "step_spent (u, g, s) st \<Longrightarrow> step_spent (u, g, s) (mfa_step env st x)"
proof (cases x)
  case (MBegin secret iv v ctx now)
  assume sp: "step_spent (u, g, s) st"
  show ?thesis
  proof (cases "v = u \<and> (\<exists>r. mfa_user_of u st = Some r \<and> mfaEnrolledAt r = None)")
    case True
    with sp have "g < generation u st" by (auto simp: step_spent_def)
    with True show ?thesis by (auto simp: MBegin beginEnrolment_def step_spent_def)
  next
    case False
    with sp show ?thesis
      by (auto simp: MBegin beginEnrolment_def split: option.splits elim!: step_spent_cong [THEN iffD2, rotated 2])
  qed
next
  case (MConfirm fresh v given ctx now)
  assume sp: "step_spent (u, g, s) st"
  show ?thesis
  proof (cases "v = u \<and> (\<exists>r. mfa_user_of u st = Some r \<and> mfaEnrolledAt r = None)")
    case True
    with sp have "g < generation u st" by (auto simp: step_spent_def)
    then have "g < generation u (mfa_step env st x)"
      by (auto simp: MConfirm confirmEnrolment_def split: option.splits sum.splits)
    then show ?thesis by (simp add: step_spent_def)
  next
    case False
    with sp show ?thesis
      by (auto simp: MConfirm confirmEnrolment_def split: option.splits sum.splits
          elim!: step_spent_cong [THEN iffD2, rotated 2])
  qed
next
  case (MChallenge v given ctx now)
  assume "step_spent (u, g, s) st"
  then show ?thesis by (simp add: MChallenge step_spent_challenge)
next
  case (MRegenerate fresh v given ctx now)
  assume "step_spent (u, g, s) st"
  from step_spent_challenge [OF this, of env v given ctx now] show ?thesis
    by (auto simp: MRegenerate regenerateRecoveryCodes_def split: prod.splits sum.splits
        elim!: step_spent_cong [THEN iffD2, rotated 2])
next
  case (MDisable v given ctx now)
  assume sp: "step_spent (u, g, s) st"
  from step_spent_challenge [OF sp, of env v given ctx now] sp show ?thesis
    by (auto simp: MDisable disable_def step_spent_removed split: prod.splits sum.splits option.splits)
qed

lemma accepts_spends:
  assumes "accepts_step env (u, g, s) st x"
  shows "\<not> step_spent (u, g, s) st \<and> step_spent (u, g, s) (mfa_step env st x)"
proof (cases "challenge_of env st x")
  case None
  with assms obtain fresh given ctx now codes where x: "x = MConfirm fresh u given ctx now" and g: "generation u st = g"
    and ok: "fst (confirmEnrolment env fresh u given ctx now st) = Inr codes"
    and v: "bind_result (decryptSecret env (the (Option.bind (mfa_user_of u st) mfaSecret)))
       (\<lambda>sec. verifyTotp (e_hmac env) sec given now TOTP_WINDOW_STEPS) = Inr (Some s)"
    by (auto split: mfa_op.splits)
  from ok obtain r where r: "mfa_user_of u st = Some r" "mfaEnrolledAt r = None"
    by (auto simp: confirmEnrolment_def split: option.splits if_splits)
  with ok v have "mfa_user_of u (mfa_step env st x) = Some (r\<lparr>mfaEnrolledAt := Some now, mfaLastUsedStep := Some s\<rparr>)"
    "generation u (mfa_step env st x) = generation u st"
    by (auto simp: x confirmEnrolment_def split: if_splits)
  then show ?thesis using r g by (auto simp: step_spent_def)
next
  case (Some c)
  with assms obtain given now where c: "challenge_of env st x = Some (u, given, now)"
    and d: "challenge_decide env u given now st = Totp_Accepted s" and g: "generation u st = g"
    by (cases x) (auto split: if_splits option.splits)
  from decide_acceptedD [OF d] obtain r where r: "mfa_user_of u st = Some r" "mfaEnrolledAt r \<noteq> None"
    "\<forall>l. mfaLastUsedStep r = Some l \<longrightarrow> l < s" by blast
  have live: "\<not> step_spent (u, g, s) st"
    using r g by (auto simp: step_spent_def split: option.splits)
  have after: "step_spent (u, g, s) (snd (verifyChallenge env u given ctx now st))" for ctx
    using r g by (auto simp: step_spent_def verifyChallenge_def d challenge_user simp del: challenge_apply.simps)
  show ?thesis
  proof (cases x)
    case (MChallenge v given' ctx now')
    with c after live show ?thesis by simp
  next
    case (MRegenerate fresh v given' ctx now')
    with c after [of ctx] live show ?thesis
      by (auto simp: regenerateRecoveryCodes_def split: prod.splits sum.splits
        elim!: step_spent_cong [THEN iffD2, rotated 2])
  next
    case (MDisable v given' ctx now')
    with c after [of ctx] live show ?thesis
      by (auto simp: disable_def step_spent_removed split: prod.splits sum.splits option.splits if_splits)
  qed (use c in auto)
qed

interpretation totp_step: single_use "mfa_step env" "\<lambda>_. True" "accepts_step env" step_spent
  for env
proof unfold_locales
  fix s :: mfa_state and k and x
  show "accepts_step env k s x \<Longrightarrow> \<not> step_spent k s" by (cases k) (blast dest: accepts_spends)
  show "accepts_step env k s x \<Longrightarrow> step_spent k (mfa_step env s x)" by (cases k) (blast dest: accepts_spends)
  show "step_spent k s \<Longrightarrow> step_spent k (mfa_step env s x)" by (cases k) (blast dest: step_spent_stays)
qed auto

text \<open>
  C12: a one-time password of the authenticator is accepted at most once. Requests run one after the
  other; whatever they are and in whatever order, the password of the step \<open>s\<close> of the user is
  accepted at most once in a generation of the factor, counting the confirmation of the enrolment,
  the challenge, the regeneration of the recovery codes and the removal.
\<close>

theorem totp_step_single_use:
  "count_uses (mfa_step env) (accepts_step env) (u, g, s) st xs \<le> 1"
  by (rule totp_step.spends_at_most_once) simp

subsection \<open>Lockout\<close>

text \<open>A wrong submission: it was compared, and refused.\<close>

definition wrong_submission :: "mfa_env \<Rightarrow> uuid \<Rightarrow> string \<Rightarrow> instant \<Rightarrow> mfa_state \<Rightarrow> bool" where
  "wrong_submission env u given now st =
     (case challenge_decide env u given now st of
        Code_Replayed \<Rightarrow> True
      | Recovery None n \<Rightarrow> True
      | Recovery (Some i) n \<Rightarrow> count_where (\<lambda>r. rc_id r = i \<and> rc_usedAt r = None) (recovery_codes st) \<noteq> 1
      | _ \<Rightarrow> False)"

fun wrong_guess :: "mfa_env \<Rightarrow> uuid \<times> instant \<Rightarrow> mfa_state \<Rightarrow> mfa_op \<Rightarrow> bool" where
  "wrong_guess env (u, t0) st x =
     (case challenge_of env st x of
        None \<Rightarrow> False
      | Some (u', given, now) \<Rightarrow>
          u' = u \<and> t0 \<le> now \<and> now \<le> t0 + LOCKOUT_WINDOW_MS \<and> wrong_submission env u given now st)"

definition failures_left :: "uuid \<times> instant \<Rightarrow> mfa_state \<Rightarrow> nat" where
  "failures_left = (\<lambda>(u, t0) st. MAX_FAILED_ATTEMPTS - recent_failures u t0 st)"

lemma recent_failures_mono_log: "prefix (mfa_log st) (mfa_log st') \<Longrightarrow> recent_failures u t st \<le> recent_failures u t st'"
  by (auto simp: recent_failures_def prefix_def table_simps)

lemma recent_failures_antimono: "t \<le> t' \<Longrightarrow> recent_failures u t' st \<le> recent_failures u t st"
  unfolding recent_failures_def count_where_def by (rule length_filter_mono) auto

lemma decide_locked:
  "MAX_FAILED_ATTEMPTS \<le> recent_failures u (now - LOCKOUT_WINDOW_MS) st \<Longrightarrow>
     challenge_decide env u given now st = Locked_Out (recent_failures u (now - LOCKOUT_WINDOW_MS) st)"
  by (simp add: challenge_decide_def Let_def)

lemma decide_not_locked:
  "(\<And>n. challenge_decide env u given now st \<noteq> Locked_Out n) \<Longrightarrow>
     recent_failures u (now - LOCKOUT_WINDOW_MS) st < MAX_FAILED_ATTEMPTS"
  using decide_locked [of u now st env given] by (metis not_le)

lemma wrong_submission_logged:
  assumes "wrong_submission env u given now st"
  shows "(\<exists>e. fst (verifyChallenge env u given ctx now st) = Inl e)
     \<and> (\<forall>t. t \<le> now \<longrightarrow> recent_failures u t (snd (verifyChallenge env u given ctx now st)) = Suc (recent_failures u t st))
     \<and> recent_failures u (now - LOCKOUT_WINDOW_MS) st < MAX_FAILED_ATTEMPTS"
proof (cases "challenge_decide env u given now st")
  case (Recovery i n)
  with assms decide_not_locked [of env u given now st] show ?thesis
    by (cases i) (auto simp: wrong_submission_def verifyChallenge_def refuse_code_def)
qed (use assms decide_not_locked [of env u given now st] in \<open>auto simp: wrong_submission_def verifyChallenge_def\<close>)

lemma challenge_refused_step:
  assumes "challenge_of env st x = Some (u, given, now)"
  obtains ctx where "\<And>e. fst (verifyChallenge env u given ctx now st) = Inl e \<Longrightarrow>
      mfa_step env st x = snd (verifyChallenge env u given ctx now st)"
proof (cases x)
  case (MChallenge v g ctx n)
  with assms that [of ctx] show ?thesis by simp
next
  case (MRegenerate fresh v g ctx n)
  with assms that [of ctx] show ?thesis
    by (cases "verifyChallenge env u given ctx now st") (auto simp: regenerateRecoveryCodes_def)
next
  case (MDisable v g ctx n)
  with assms that [of ctx] show ?thesis
    by (cases "verifyChallenge env u given ctx now st") (auto simp: disable_def split: option.splits if_splits)
qed (use assms in auto)

lemma wrong_guess_costs:
  assumes "wrong_guess env k st x"
  shows "failures_left k (mfa_step env st x) < failures_left k st"
proof -
  obtain u t0 where k: "k = (u, t0)" by (cases k)
  with assms obtain given now where c: "challenge_of env st x = Some (u, given, now)"
    and t: "t0 \<le> now" "now \<le> t0 + LOCKOUT_WINDOW_MS" and w: "wrong_submission env u given now st"
    by (auto split: option.splits)
  obtain ctx where step: "\<And>e. fst (verifyChallenge env u given ctx now st) = Inl e \<Longrightarrow>
      mfa_step env st x = snd (verifyChallenge env u given ctx now st)"
    using challenge_refused_step [OF c] by blast
  from wrong_submission_logged [OF w, of ctx] t(1)
  have "recent_failures u t0 (mfa_step env st x) = Suc (recent_failures u t0 st)"
    and lt: "recent_failures u (now - LOCKOUT_WINDOW_MS) st < MAX_FAILED_ATTEMPTS"
    using step by auto
  moreover have "recent_failures u t0 st \<le> recent_failures u (now - LOCKOUT_WINDOW_MS) st"
    using t(2) by (intro recent_failures_antimono) simp
  ultimately show ?thesis by (simp add: k failures_left_def)
qed

interpretation mfa_lockout: budget "mfa_step env" "\<lambda>_. True" "wrong_guess env" failures_left
  for env
proof unfold_locales
  fix s :: mfa_state and k and x
  show "wrong_guess env k s x \<Longrightarrow> failures_left k (mfa_step env s x) < failures_left k s"
    by (rule wrong_guess_costs)
  show "failures_left k (mfa_step env s x) \<le> failures_left k s"
    by (auto simp: failures_left_def split: prod.split
        intro: diff_le_mono2 recent_failures_mono_log [OF mfa_step_prefix])
qed


subsection \<open>Two requests at once\<close>

text \<open>
  The handler awaits the database between what it reads and what it writes, so requests interleave.
  \<open>Arrive r\<close> is the reading half of the challenge request \<open>r\<close>, \<open>Finish r\<close> the writing half with
  the answer.
\<close>

record mfa_request =
  rq_id :: uuid
  rq_user :: uuid
  rq_context :: actor_context
  rq_now :: instant
  rq_decision :: challenge_decision

record race_state =
  rs_mfa :: mfa_state
  rs_pending :: "mfa_request list"
  rs_answers :: "(uuid \<times> (bool \<times> nat) result) list"

datatype race_op =
    Arrive uuid uuid string actor_context instant
  | Finish uuid

fun race_step :: "mfa_env \<Rightarrow> race_state \<Rightarrow> race_op \<Rightarrow> race_state" where
  "race_step env st (Arrive r u given ctx now) =
     st\<lparr>rs_pending := rs_pending st @
       [\<lparr>rq_id = r, rq_user = u, rq_context = ctx, rq_now = now,
         rq_decision = challenge_decide env u given now (rs_mfa st)\<rparr>]\<rparr>"
| "race_step env st (Finish r) =
     (case find_row (\<lambda>q. rq_id q = r) (rs_pending st) of
        None \<Rightarrow> st
      | Some q \<Rightarrow>
          (let (answer, st') = challenge_apply env (rq_user q) (rq_context q) (rq_now q) (rq_decision q) (rs_mfa st)
           in st\<lparr>rs_mfa := st', rs_pending := delete_where (\<lambda>q. rq_id q = r) (rs_pending st),
                 rs_answers := rs_answers st @ [(r, answer)]\<rparr>))"

text \<open>The writing half of a request that is let in by the recovery code \<open>i\<close>.\<close>

fun spends_recovery :: "mfa_env \<Rightarrow> uuid \<Rightarrow> race_state \<Rightarrow> race_op \<Rightarrow> bool" where
  "spends_recovery env i st (Finish r) =
     (case find_row (\<lambda>q. rq_id q = r) (rs_pending st) of
        None \<Rightarrow> False
      | Some q \<Rightarrow> (case rq_decision q of Recovery (Some j) n \<Rightarrow> j = i | _ \<Rightarrow> False)
          \<and> (case fst (challenge_apply env (rq_user q) (rq_context q) (rq_now q) (rq_decision q) (rs_mfa st)) of
               Inr _ \<Rightarrow> True | Inl _ \<Rightarrow> False))"
| "spends_recovery env i st x = False"

definition recovery_spent :: "uuid \<Rightarrow> race_state \<Rightarrow> bool" where
  "recovery_spent i st \<longleftrightarrow> count_where (\<lambda>r. rc_id r = i \<and> rc_usedAt r = None) (recovery_codes (rs_mfa st)) = 0"

lemma recovery_used:
  "count_where (\<lambda>r. rc_id r = i \<and> rc_usedAt r = None)
     (update_where (\<lambda>r. rc_id r = j \<and> rc_usedAt r = None) (\<lambda>r. r\<lparr>rc_usedAt := Some now\<rparr>) rows)
   = (if i = j then 0 else count_where (\<lambda>r. rc_id r = i \<and> rc_usedAt r = None) rows)"
  by (induction rows) (auto simp: table_simps)

lemma set_user_codes [simp]: "recovery_codes (set_user v f st) = recovery_codes st"
  by (simp add: set_user_def)

lemma challenge_codes:
  "recovery_codes (snd (challenge_apply env u ctx now d st)) =
     (case d of Recovery (Some j) n \<Rightarrow>
        if count_where (\<lambda>r. rc_id r = j \<and> rc_usedAt r = None) (recovery_codes st) = 1
        then update_where (\<lambda>r. rc_id r = j \<and> rc_usedAt r = None) (\<lambda>r. r\<lparr>rc_usedAt := Some now\<rparr>) (recovery_codes st)
        else recovery_codes st
      | _ \<Rightarrow> recovery_codes st)"
proof (cases d)
  case (Recovery i n)
  then show ?thesis by (cases i) (auto simp: Let_def refuse_code_def)
qed (auto simp: Let_def)

lemma challenge_keeps_spent:
  "count_where (\<lambda>r. rc_id r = i \<and> rc_usedAt r = None) (recovery_codes st) = 0 \<Longrightarrow>
     count_where (\<lambda>r. rc_id r = i \<and> rc_usedAt r = None)
       (recovery_codes (snd (challenge_apply env u ctx now d st))) = 0"
  by (simp add: challenge_codes recovery_used split: challenge_decision.split option.split)

lemma recovery_spent_stays: "recovery_spent i st \<Longrightarrow> recovery_spent i (race_step env st x)"
  by (cases x) (auto simp: recovery_spent_def Let_def split_beta challenge_keeps_spent
      simp del: challenge_apply.simps split: option.split)

lemma spends_recoveryD:
  assumes "spends_recovery env i st x"
  shows "\<not> recovery_spent i st \<and> recovery_spent i (race_step env st x)"
proof (cases x)
  case (Finish r)
  with assms obtain q n where q: "find_row (\<lambda>q. rq_id q = r) (rs_pending st) = Some q"
    and d: "rq_decision q = Recovery (Some i) n"
    and ok: "\<exists>y. fst (challenge_apply env (rq_user q) (rq_context q) (rq_now q) (rq_decision q) (rs_mfa st)) = Inr y"
    by (auto split: option.splits challenge_decision.splits sum.splits simp del: challenge_apply.simps)
  then have one: "count_where (\<lambda>r. rc_id r = i \<and> rc_usedAt r = None) (recovery_codes (rs_mfa st)) = 1"
    by (auto simp: refuse_code_def split: if_splits)
  moreover have "recovery_codes (rs_mfa (race_step env st x)) =
      update_where (\<lambda>r. rc_id r = i \<and> rc_usedAt r = None) (\<lambda>r. r\<lparr>rc_usedAt := Some (rq_now q)\<rparr>) (recovery_codes (rs_mfa st))"
    using one by (simp add: Finish q d Let_def)
  ultimately show ?thesis by (simp add: recovery_spent_def recovery_used)
qed (use assms in simp)

interpretation recovery_race: single_use "race_step env" "\<lambda>_. True" "spends_recovery env" recovery_spent
  for env
  by unfold_locales (auto dest: spends_recoveryD recovery_spent_stays)

text \<open>
  A recovery code lets one request in, however the requests interleave: of all the challenges
  that read and write in any order, at most one is answered with success by the code \<open>i\<close>, and none
  once no unused row carries it.
\<close>

theorem recovery_code_single_use:
  "count_uses (race_step env) (spends_recovery env) i st xs \<le> 1
   \<and> (recovery_spent i st \<longrightarrow> count_uses (race_step env) (spends_recovery env) i st xs = 0)"
  using recovery_race.spends_at_most_once [where s = st and env = env and k = i and xs = xs]
    recovery_race.spent_never_again [where s = st and env = env and k = i and xs = xs] by simp

text \<open>
  The one-time password is not protected that way. Whenever a submission is accepted as the
  password of a step, two requests that carry it and both read before either writes are both
  answered with success, although the same two requests one after the other are not: the second
  is refused as a code already used.
\<close>

theorem totp_accepted_twice_in_a_race:
  assumes "challenge_decide env u given now (rs_mfa st) = Totp_Accepted s"
    and "rs_pending st = []" and "a \<noteq> b"
  shows "(\<exists>n m. rs_answers (foldl (race_step env) st
           [Arrive a u given ctx now, Arrive b u given ctx now, Finish a, Finish b])
         = rs_answers st @ [(a, Inr (False, n)), (b, Inr (False, m))])
     \<and> (\<exists>n. rs_answers (foldl (race_step env) st
           [Arrive a u given ctx now, Finish a, Arrive b u given ctx now, Finish b])
         = rs_answers st @ [(a, Inr (False, n)), (b, fail_because 401 UNAUTHORIZED ''CODE_ALREADY_USED'')])"
proof
  show "\<exists>n m. rs_answers (foldl (race_step env) st
           [Arrive a u given ctx now, Arrive b u given ctx now, Finish a, Finish b])
         = rs_answers st @ [(a, Inr (False, n)), (b, Inr (False, m))]"
    using assms by (auto simp: table_simps Let_def delete_where_def)
  let ?st = "snd (challenge_apply env u ctx now (Totp_Accepted s) (rs_mfa st))"
  from decide_acceptedD [OF assms(1)] obtain r where r: "mfa_user_of u (rs_mfa st) = Some r" "mfaEnrolledAt r \<noteq> None"
    and f: "recent_failures u (now - LOCKOUT_WINDOW_MS) (rs_mfa st) < MAX_FAILED_ATTEMPTS" by blast
  have "mfa_user_of u ?st = Some (r\<lparr>mfaLastUsedStep := Some s\<rparr>)"
    using r by (simp add: challenge_user del: challenge_apply.simps)
  moreover have "recent_failures u (now - LOCKOUT_WINDOW_MS) ?st < MAX_FAILED_ATTEMPTS"
    using f by (simp add: Let_def)
  ultimately have "challenge_decide env u given now ?st = Code_Replayed"
    using assms(1) r f by (auto simp: challenge_decide_def Let_def split: if_splits option.splits sum.splits)
  then show "\<exists>n. rs_answers (foldl (race_step env) st
           [Arrive a u given ctx now, Finish a, Arrive b u given ctx now, Finish b])
         = rs_answers st @ [(a, Inr (False, n)), (b, fail_because 401 UNAUTHORIZED ''CODE_ALREADY_USED'')]"
    using assms by (auto simp: table_simps Let_def delete_where_def)
qed

subsection \<open>Concrete runs\<close>

definition demo_mfa_env :: mfa_env where
  "demo_mfa_env = \<lparr>e_hmac = demo_hmac, e_seal = (\<lambda>iv p. (''t'', p)), e_open = (\<lambda>iv t d. Some d),
     e_bhash = id, e_bcompare = (=), e_newId = (\<lambda>n. replicate n (CHR ''e'')),
     e_flags = \<lparr>FLAG_CONNECTOR_GMAIL_ENABLED = True, FLAG_CONNECTOR_M365_ENABLED = True,
       FLAG_AI_EXTRACTION_ENABLED = True, FLAG_AI_DRAFTING_ENABLED = True,
       FLAG_HOSTED_MAIL_PILOT_ENABLED = True, FLAG_OUTBOUND_SENDING_ENABLED = True,
       FLAG_CUSTOM_DOMAIN_ENABLED = True, FLAG_PROVIDER_CALLBACKS_ACCEPTING = True,
       FLAG_GOOGLE_LOGIN_ENABLED = True, FLAG_MFA_ENFORCEMENT_ENABLED = True\<rparr>,
     e_resolver = None\<rparr>"

definition demo_context :: actor_context where
  "demo_context = \<lparr>ax_requestId = None, ax_ipAddress = None, ax_userAgent = None\<rparr>"

definition demo_mfa :: mfa_state where
  "demo_mfa = \<lparr>mfa_users = [\<lparr>mu_id = ''u'', mfaSecret = Some ''i:t:ME'', mfaEnrolledAt = Some 0,
       mfaLastUsedStep = None, mu_platformRole = PR_NONE\<rparr>],
     recovery_codes = [\<lparr>rc_id = ''r1'', rc_userId = ''u'', rc_codeHash = ''ABCDE-FGHJK'', rc_usedAt = None\<rparr>],
     mfa_memberships = [], systemTenant = False, mfa_log = []\<rparr>"


definition demo_race :: race_state where
  "demo_race = \<lparr>rs_mfa = demo_mfa, rs_pending = [], rs_answers = []\<rparr>"

theorem recovery_code_single_use_witness:
  "let xs = [Arrive ''a'' ''u'' ''abcde-fghjk'' demo_context 1000000,
       Arrive ''b'' ''u'' ''abcde-fghjk'' demo_context 1000000, Finish ''a'', Finish ''b''];
       st = foldl (race_step demo_mfa_env) demo_race xs
   in count_uses (race_step demo_mfa_env) (spends_recovery demo_mfa_env) ''r1'' demo_race xs = 1
    \<and> recovery_spent ''r1'' st
    \<and> count_uses (race_step demo_mfa_env) (spends_recovery demo_mfa_env) ''r1'' st xs = 0"
proof -
  let ?xs = "[Arrive ''a'' ''u'' ''abcde-fghjk'' demo_context 1000000,
       Arrive ''b'' ''u'' ''abcde-fghjk'' demo_context 1000000, Finish ''a'', Finish ''b'']"
  let ?st = "foldl (race_step demo_mfa_env) demo_race ?xs"
  have sp: "recovery_spent ''r1'' ?st" by code_simp
  moreover have "count_uses (race_step demo_mfa_env) (spends_recovery demo_mfa_env) ''r1'' demo_race ?xs = 1"
    by code_simp
  moreover have "count_uses (race_step demo_mfa_env) (spends_recovery demo_mfa_env) ''r1'' ?st ?xs = 0"
    using recovery_code_single_use [of demo_mfa_env "''r1''" ?st ?xs] sp by blast
  ultimately show ?thesis by (simp only: Let_def simp_thms)
qed

theorem totp_accepted_twice_in_a_race_witness:
  "\<exists>n m. rs_answers (foldl (race_step demo_mfa_env) demo_race
     [Arrive ''a'' ''u'' ''10 63'' demo_context 1000000, Arrive ''b'' ''u'' ''10 63'' demo_context 1000000,
      Finish ''a'', Finish ''b'']) = [(''a'', Inr (False, n)), (''b'', Inr (False, m))]"
proof -
  have "challenge_decide demo_mfa_env ''u'' ''10 63'' 1000000 (rs_mfa demo_race) = Totp_Accepted 32" by code_simp
  moreover have "rs_pending demo_race = []" "rs_answers demo_race = []" by (simp_all add: demo_race_def)
  ultimately show ?thesis
    using totp_accepted_twice_in_a_race [of demo_mfa_env "''u''" "''10 63''" 1000000 demo_race 32 "''a''" "''b''" demo_context]
    by (simp del: race_step.simps foldl_Cons)
qed

end
