(* ===== verification/Idempotency.thy ===== *)
theory Idempotency
  imports Json Totp "HOL-Library.Multiset" "HOL-Library.Char_ord" "HOL-Library.List_Lexorder"
begin

section \<open>Idempotent writes\<close>

text \<open>
  \<open>common/middleware/idempotency.ts\<close>: the key a write is claimed with, the digest of its payload,
  the answer that is stored and said again, and what releases a key. The state is the table of
  claims with the requests whose handlers are running. SHA-256 is the parameter \<open>digest\<close> and the
  collation of \<open>localeCompare\<close> the parameter \<open>le\<close>. The clock only moves forward, by ticks.
\<close>

subsection \<open>The payload digest\<close>

fun insert_entry :: "(string \<Rightarrow> string \<Rightarrow> bool) \<Rightarrow> string \<times> 'v \<Rightarrow> (string \<times> 'v) list \<Rightarrow> (string \<times> 'v) list" where
  "insert_entry le e [] = [e]"
| "insert_entry le e (f # fs) = (if le (fst e) (fst f) then e # f # fs else f # insert_entry le e fs)"

definition sort_entries :: "(string \<Rightarrow> string \<Rightarrow> bool) \<Rightarrow> (string \<times> 'v) list \<Rightarrow> (string \<times> 'v) list" where
  "sort_entries le es = foldr (insert_entry le) es []"

fun canonical :: "(string \<Rightarrow> string \<Rightarrow> bool) \<Rightarrow> json \<Rightarrow> json" where
  "canonical le (JArr vs) = JArr (map (canonical le) vs)"
| "canonical le (JObj es) = JObj (sort_entries le (map (\<lambda>(k, v). (k, canonical le v)) es))"
| "canonical le v = v"

definition decimal_int :: "int \<Rightarrow> string" where
  "decimal_int n = (if n < 0 then ''-'' @ decimal (- n) else decimal n)"

definition hex_digit :: "nat \<Rightarrow> char" where
  "hex_digit n = ''0123456789abcdef'' ! n"

definition quote_char :: "char \<Rightarrow> string" where
  "quote_char c =
     (let n = (of_char c :: nat)
      in if c = CHR 0x22 then [CHR 0x5C, CHR 0x22]
         else if c = CHR 0x5C then [CHR 0x5C, CHR 0x5C]
         else if n = 8 then [CHR 0x5C, CHR ''b'']
         else if n = 9 then [CHR 0x5C, CHR ''t'']
         else if n = 10 then [CHR 0x5C, CHR ''n'']
         else if n = 12 then [CHR 0x5C, CHR ''f'']
         else if n = 13 then [CHR 0x5C, CHR ''r'']
         else if n < 32 then [CHR 0x5C, CHR ''u'', CHR ''0'', CHR ''0'', hex_digit (n div 16), hex_digit (n mod 16)]
         else [c])"

definition quote :: "string \<Rightarrow> string" where
  "quote s = [CHR 0x22] @ concat (map quote_char s) @ [CHR 0x22]"

definition joined :: "string list \<Rightarrow> string" where
  "joined ss = (case ss of [] \<Rightarrow> [] | t # ts \<Rightarrow> t @ concat (map (\<lambda>u. '','' @ u) ts))"

fun stringify :: "json \<Rightarrow> string" where
  "stringify JNull = ''null''"
| "stringify (JBool b) = (if b then ''true'' else ''false'')"
| "stringify (JNum n) = decimal_int n"
| "stringify (JStr s) = quote s"
| "stringify (JArr vs) = ''['' @ joined (map stringify vs) @ '']''"
| "stringify (JObj es) = ''{'' @ joined (map (\<lambda>(k, v). quote k @ '':'' @ stringify v) es) @ ''}''"

record tenant_context =
  tc_tenantId :: uuid
  tc_userId :: uuid

record http_request =
  hr_method :: string
  hr_baseUrl :: string
  hr_originalUrl :: string
  hr_key :: "string option"
  hr_isJson :: bool
  hr_body :: "json option"
  hr_contentType :: "string option"
  hr_contentLength :: "string option"
  hr_tenantContext :: "tenant_context option"

definition before_char :: "char \<Rightarrow> string \<Rightarrow> string" where
  "before_char c s = takeWhile (\<lambda>d. d \<noteq> c) s"

definition lower :: "string \<Rightarrow> string" where
  "lower s = map lower_char s"

definition payload_text :: "(string \<Rightarrow> string \<Rightarrow> bool) \<Rightarrow> http_request \<Rightarrow> string" where
  "payload_text le req =
     hr_method req @ [CHR 0x0A] @ before_char (CHR ''?'') (hr_originalUrl req) @ [CHR 0x0A]
     @ (if hr_isJson req \<and> hr_body req \<noteq> None then stringify (canonical le (the (hr_body req)))
        else (let mediaType = lower (trim (before_char (CHR '';'')
                     (case hr_contentType req of None \<Rightarrow> [] | Some t \<Rightarrow> t)))
              in mediaType @ '':'' @ (case hr_contentLength req of None \<Rightarrow> [] | Some l \<Rightarrow> l)))"

definition payloadHash :: "(string \<Rightarrow> string) \<Rightarrow> (string \<Rightarrow> string \<Rightarrow> bool) \<Rightarrow> http_request \<Rightarrow> string" where
  "payloadHash digest le req = digest (payload_text le req)"

subsection \<open>The scope of a key\<close>

definition TTL_MS :: int where
  "TTL_MS = 24 * 60 * 60 * 1000"

definition MIN_KEY_LENGTH :: nat where
  "MIN_KEY_LENGTH = 8"

definition MAX_KEY_LENGTH :: nat where
  "MAX_KEY_LENGTH = 200"

definition SAFE_METHODS :: "string list" where
  "SAFE_METHODS = [''GET'', ''HEAD'', ''OPTIONS'']"

fun segments :: "string \<Rightarrow> string list" where
  "segments [] = [[]]"
| "segments (c # cs) =
     (if c = CHR ''/'' then [] # segments cs
      else (case segments cs of [] \<Rightarrow> [[c]] | p # ps \<Rightarrow> (c # p) # ps))"

definition version_segment :: "string \<Rightarrow> bool" where
  "version_segment s = (case s of [] \<Rightarrow> False | c # ds \<Rightarrow> c = CHR ''v'' \<and> ds \<noteq> [] \<and> list_all is_digit ds)"

definition endpointFamily :: "http_request \<Rightarrow> string" where
  "endpointFamily req =
     (let path = before_char (CHR ''?'') (hr_originalUrl req);
          mounted = (if hr_baseUrl req \<noteq> [] then hr_baseUrl req else if path \<noteq> [] then path else ''/'');
          meaningful = filter (\<lambda>s. s \<noteq> ''api'' \<and> \<not> version_segment s) (filter (\<lambda>s. s \<noteq> []) (segments mounted))
      in case meaningful of [] \<Rightarrow> ''root'' | s # _ \<Rightarrow> s)"

record idem_scope =
  is_tenantId :: uuid
  is_actorUserId :: uuid
  is_family :: string
  is_key :: string

datatype idem_status = IN_PROGRESS | COMPLETED

record idem_row =
  ir_id :: uuid
  ir_scope :: idem_scope
  ir_hash :: string
  ir_status :: idem_status
  ir_responseStatus :: "nat option"
  ir_responseBody :: json
  ir_expiresAt :: instant

subsection \<open>Stored answers\<close>

definition strip_fields :: "string list \<Rightarrow> (string \<times> json) list \<Rightarrow> (string \<times> json) list" where
  "strip_fields fs es = filter (\<lambda>(k, v). k \<notin> set fs) es"

text \<open>The entries an object spread copies; of an array these are its indices.\<close>

fun spread :: "json \<Rightarrow> ((string \<times> json) list) option" where
  "spread (JObj es) = Some es"
| "spread (JArr vs) = Some (map (\<lambda>(i, v). (decimal (int i), v)) (enumerate 0 vs))"
| "spread v = None"

definition strip_data :: "string list \<Rightarrow> string \<times> json \<Rightarrow> string \<times> json" where
  "strip_data fs e =
     (case e of (k, v) \<Rightarrow> if k = ''data'' then (case v of JObj es \<Rightarrow> (k, JObj (strip_fields fs es)) | _ \<Rightarrow> (k, v)) else (k, v))"

definition redactForReplay :: "json \<Rightarrow> string list option \<Rightarrow> json" where
  "redactForReplay body marked =
     (case marked of
        None \<Rightarrow> body
      | Some fs \<Rightarrow>
          if fs = [] then body
          else (case spread body of
                  None \<Rightarrow> body
                | Some es \<Rightarrow> JObj (map (strip_data fs) (strip_fields fs es))))"

definition isSuccess :: "nat \<Rightarrow> bool" where
  "isSuccess status \<longleftrightarrow> 200 \<le> status \<and> status < 300"

subsection \<open>The middleware\<close>

record running =
  rn_id :: uuid
  rn_scope :: idem_scope
  rn_hash :: string
  rn_claimedAt :: instant

record idem_state =
  idem_rows :: "idem_row list"
  idem_running :: "running list"
  idem_clock :: instant

text \<open>What becomes of a request: it passes by, runs under a claim, is replayed, or is refused.\<close>

datatype idem_outcome = Pass | Run uuid | Replayed nat json | Refused app_error

definition scope_of :: "http_request \<Rightarrow> tenant_context \<Rightarrow> string \<Rightarrow> idem_scope" where
  "scope_of req ctx key =
     \<lparr>is_tenantId = tc_tenantId ctx, is_actorUserId = tc_userId ctx, is_family = endpointFamily req, is_key = key\<rparr>"

definition still_running :: app_error where
  "still_running = AppError 409 IDEMPOTENCY_REQUEST_IN_PROGRESS None"

function claim :: "uuid \<Rightarrow> idem_scope \<Rightarrow> string \<Rightarrow> bool \<Rightarrow> idem_state \<Rightarrow> idem_outcome \<times> idem_state" where
  "claim i sc h retried st =
     (case find_row (\<lambda>r. ir_scope r = sc) (idem_rows st) of
        None \<Rightarrow>
          (Run i, st\<lparr>idem_rows := idem_rows st @
             [\<lparr>ir_id = i, ir_scope = sc, ir_hash = h, ir_status = IN_PROGRESS, ir_responseStatus = None,
               ir_responseBody = JNull, ir_expiresAt = idem_clock st + TTL_MS\<rparr>],
             idem_running := idem_running st @ [\<lparr>rn_id = i, rn_scope = sc, rn_hash = h, rn_claimedAt = idem_clock st\<rparr>]\<rparr>)
      | Some existing \<Rightarrow>
          if ir_expiresAt existing \<le> idem_clock st
          then let st' = st\<lparr>idem_rows := delete_where (\<lambda>r. ir_id r = ir_id existing) (idem_rows st)\<rparr>
            in if retried then (Refused still_running, st') else claim i sc h True st'
          else if ir_hash existing \<noteq> h then (Refused (AppError 409 IDEMPOTENCY_PAYLOAD_MISMATCH None), st)
          else if ir_status existing = COMPLETED \<and> ir_responseStatus existing \<noteq> None
            then (Replayed (the (ir_responseStatus existing)) (ir_responseBody existing), st)
          else (Refused still_running, st))"
  by pat_completeness auto
termination
  by (relation "measure (\<lambda>(i, sc, h, retried, st). if retried then 0 else 1)") auto

declare claim.simps [simp del]

definition idempotency ::
  "(string \<Rightarrow> string) \<Rightarrow> (string \<Rightarrow> string \<Rightarrow> bool) \<Rightarrow> uuid \<Rightarrow> http_request \<Rightarrow> idem_state \<Rightarrow> idem_outcome \<times> idem_state" where
  "idempotency digest le i req st =
     (if hr_method req \<in> set SAFE_METHODS then (Pass, st)
      else case hr_tenantContext req of
             None \<Rightarrow> (Pass, st)
           | Some ctx \<Rightarrow>
               (let key = map_option trim (hr_key req)
                in if \<not> truthy key then (Refused (AppError 400 IDEMPOTENCY_KEY_REQUIRED None), st)
                   else if length (the key) < MIN_KEY_LENGTH \<or> MAX_KEY_LENGTH < length (the key)
                     then (Refused (AppError 400 VALIDATION_ERROR None), st)
                   else claim i (scope_of req ctx (the key)) (payloadHash digest le req) False st))"

text \<open>\<open>res.json\<close> of a running request, the first time it is called.\<close>

definition answer_request :: "uuid \<Rightarrow> nat \<Rightarrow> json \<Rightarrow> string list option \<Rightarrow> idem_state \<Rightarrow> idem_state" where
  "answer_request i status body redact st =
     (case find_row (\<lambda>q. rn_id q = i) (idem_running st) of
        None \<Rightarrow> st
      | Some q \<Rightarrow>
          st\<lparr>idem_running := delete_where (\<lambda>q. rn_id q = i) (idem_running st),
             idem_rows := (if isSuccess status
               then update_where (\<lambda>r. ir_id r = i)
                      (\<lambda>r. r\<lparr>ir_status := COMPLETED, ir_responseStatus := Some status,
                             ir_responseBody := redactForReplay body redact\<rparr>) (idem_rows st)
               else delete_where (\<lambda>r. ir_id r = i) (idem_rows st))\<rparr>)"

text \<open>The response closes without an answer.\<close>

definition close_request :: "uuid \<Rightarrow> idem_state \<Rightarrow> idem_state" where
  "close_request i st =
     (case find_row (\<lambda>q. rn_id q = i) (idem_running st) of
        None \<Rightarrow> st
      | Some q \<Rightarrow>
          st\<lparr>idem_running := delete_where (\<lambda>q. rn_id q = i) (idem_running st),
             idem_rows := delete_where (\<lambda>r. ir_id r = i \<and> ir_status r = IN_PROGRESS) (idem_rows st)\<rparr>)"

definition purgeExpiredIdempotencyRecords :: "idem_state \<Rightarrow> nat \<times> idem_state" where
  "purgeExpiredIdempotencyRecords st =
     (count_where (\<lambda>r. ir_expiresAt r \<le> idem_clock st) (idem_rows st),
      st\<lparr>idem_rows := delete_where (\<lambda>r. ir_expiresAt r \<le> idem_clock st) (idem_rows st)\<rparr>)"

datatype idem_op =
    IRequest uuid http_request
  | IAnswer uuid nat json "string list option"
  | IClose uuid
  | IPurge
  | ITick nat

text \<open>The identifier of a claim is made up by the database, so it is not one in use.\<close>

fun idem_step :: "(string \<Rightarrow> string) \<Rightarrow> (string \<Rightarrow> string \<Rightarrow> bool) \<Rightarrow> idem_state \<Rightarrow> idem_op \<Rightarrow> idem_state" where
  "idem_step digest le st (IRequest i req) =
     (if list_ex (\<lambda>r. ir_id r = i) (idem_rows st) \<or> list_ex (\<lambda>q. rn_id q = i) (idem_running st) then st
      else snd (idempotency digest le i req st))"
| "idem_step digest le st (IAnswer i status body redact) = answer_request i status body redact st"
| "idem_step digest le st (IClose i) = close_request i st"
| "idem_step digest le st IPurge = snd (purgeExpiredIdempotencyRecords st)"
| "idem_step digest le st (ITick d) = st\<lparr>idem_clock := idem_clock st + int d\<rparr>"

subsection \<open>The invariant of the table\<close>

text \<open>
  A claim in the table and the request that runs under it agree, and a request that is still
  within its day finds its claim in progress.
\<close>

definition claims :: "running \<Rightarrow> idem_row \<Rightarrow> bool" where
  "claims q r \<longleftrightarrow> ir_id r = rn_id q \<and> ir_scope r = rn_scope q \<and> ir_hash r = rn_hash q
     \<and> ir_status r = IN_PROGRESS \<and> ir_expiresAt r = rn_claimedAt q + TTL_MS"

definition idem_inv :: "idem_state \<Rightarrow> bool" where
  "idem_inv st \<longleftrightarrow> unique_key ir_id (idem_rows st) \<and> unique_key ir_scope (idem_rows st)
     \<and> unique_key rn_id (idem_running st)
     \<and> (\<forall>q\<in>set (idem_running st). \<forall>r\<in>set (idem_rows st). ir_id r = rn_id q \<longrightarrow> claims q r)
     \<and> (\<forall>q\<in>set (idem_running st). idem_clock st < rn_claimedAt q + TTL_MS \<longrightarrow>
          (\<exists>r\<in>set (idem_rows st). claims q r))"

lemma idem_invI:
  assumes "unique_key ir_id (idem_rows st)" "unique_key ir_scope (idem_rows st)"
    "unique_key rn_id (idem_running st)"
    "\<And>q r. q \<in> set (idem_running st) \<Longrightarrow> r \<in> set (idem_rows st) \<Longrightarrow> ir_id r = rn_id q \<Longrightarrow> claims q r"
    "\<And>q. q \<in> set (idem_running st) \<Longrightarrow> idem_clock st < rn_claimedAt q + TTL_MS \<Longrightarrow>
        \<exists>r\<in>set (idem_rows st). claims q r"
  shows "idem_inv st"
  using assms by (simp add: idem_inv_def)

text \<open>Deleting rows that have expired, and rows of no running request, keeps it.\<close>

lemma idem_inv_delete:
  assumes "idem_inv st"
    and "\<And>q r. q \<in> set (idem_running st) \<Longrightarrow> r \<in> set (idem_rows st) \<Longrightarrow> claims q r \<Longrightarrow> P r \<Longrightarrow>
        rn_claimedAt q + TTL_MS \<le> idem_clock st"
  shows "idem_inv (st\<lparr>idem_rows := delete_where P (idem_rows st)\<rparr>)"
proof (rule idem_invI)
  fix q
  assume q: "q \<in> set (idem_running (st\<lparr>idem_rows := delete_where P (idem_rows st)\<rparr>))"
    and c: "idem_clock (st\<lparr>idem_rows := delete_where P (idem_rows st)\<rparr>) < rn_claimedAt q + TTL_MS"
  then obtain r where r: "r \<in> set (idem_rows st)" "claims q r" using assms(1) by (auto simp: idem_inv_def)
  with assms(2) [of q r] q c have "\<not> P r" by auto
  with r show "\<exists>r\<in>set (idem_rows (st\<lparr>idem_rows := delete_where P (idem_rows st)\<rparr>)). claims q r"
    by (auto simp: table_simps)
qed (use assms(1) in \<open>auto simp: idem_inv_def unique_key_delete_where table_simps\<close>)

lemma claim_inv:
  "idem_inv st \<Longrightarrow> \<forall>r\<in>set (idem_rows st). ir_id r \<noteq> i \<Longrightarrow> \<forall>q\<in>set (idem_running st). rn_id q \<noteq> i \<Longrightarrow>
     idem_inv (snd (claim i sc h retried st))"
proof (induction i sc h retried st rule: claim.induct)
  case (1 i sc h retried st)
  show ?case
  proof (cases "find_row (\<lambda>r. ir_scope r = sc) (idem_rows st)")
    case None
    then have new: "sc \<notin> ir_scope ` set (idem_rows st)" by (auto simp: find_row_None_iff)
    have "0 < TTL_MS" by (simp add: TTL_MS_def)
    with None new 1(2-4) show ?thesis
      by (simp add: claim.simps [of i sc h retried st] idem_inv_def unique_key_snoc claims_def image_iff) blast
  next
    case (Some e)
    note e = find_row_SomeD [OF Some]
    show ?thesis
    proof (cases "ir_expiresAt e \<le> idem_clock st")
      case True
      let ?st = "st\<lparr>idem_rows := delete_where (\<lambda>r. ir_id r = ir_id e) (idem_rows st)\<rparr>"
      have "idem_inv ?st"
      proof (rule idem_inv_delete [OF 1(2)])
        fix q r
        assume "q \<in> set (idem_running st)" "r \<in> set (idem_rows st)" "claims q r" "ir_id r = ir_id e"
        moreover have "r = e" using calculation e 1(2) unique_keyD [of ir_id "idem_rows st" r e]
          by (simp add: idem_inv_def)
        ultimately show "rn_claimedAt q + TTL_MS \<le> idem_clock st" using True by (simp add: claims_def)
      qed
      with 1(1) [OF Some True refl] 1(3,4) show ?thesis
        by (simp add: claim.simps [of i sc h retried st] Some True Let_def table_simps)
    next
      case False
      with 1(2) show ?thesis by (simp add: claim.simps [of i sc h retried st] Some)
    qed
  qed
qed

lemma idem_running_find:
  "idem_inv st \<Longrightarrow> find_row (\<lambda>q. rn_id q = i) (idem_running st) = Some q \<Longrightarrow>
     q \<in> set (idem_running st) \<and> rn_id q = i
     \<and> (\<forall>p\<in>set (idem_running st). rn_id p = i \<longrightarrow> p = q)"
  using unique_keyD [of rn_id "idem_running st"] by (fastforce simp: idem_inv_def dest: find_row_SomeD)

lemma update_rows_keys:
  "unique_key ir_id (update_where P (\<lambda>r. r\<lparr>ir_status := a, ir_responseStatus := b, ir_responseBody := c\<rparr>) rows) = unique_key ir_id rows"
  "unique_key ir_scope (update_where P (\<lambda>r. r\<lparr>ir_status := a, ir_responseStatus := b, ir_responseBody := c\<rparr>) rows) = unique_key ir_scope rows"
  by (simp_all add: unique_key_update_where)

lemma settle_inv:
  assumes "idem_inv st" and "find_row (\<lambda>q. rn_id q = i) (idem_running st) = Some q"
    and "unique_key ir_id rows" "unique_key ir_scope rows"
    and "\<And>r. ir_id r \<noteq> i \<Longrightarrow> r \<in> set rows \<longleftrightarrow> r \<in> set (idem_rows st)"
  shows "idem_inv (st\<lparr>idem_running := delete_where (\<lambda>q. rn_id q = i) (idem_running st), idem_rows := rows\<rparr>)"
proof (rule idem_invI, goal_cases)
  case (4 p r)
  then show ?case using assms(1) assms(5) [of r] by (auto simp: idem_inv_def table_simps)
next
  case (5 p)
  then have p: "p \<in> set (idem_running st)" "rn_id p \<noteq> i" "idem_clock st < rn_claimedAt p + TTL_MS"
    by (auto simp: table_simps)
  then obtain r where "r \<in> set (idem_rows st)" "claims p r" using assms(1) by (auto simp: idem_inv_def)
  with p(2) assms(5) [of r] show ?case by (auto simp: claims_def)
qed (use assms in \<open>auto simp: idem_inv_def unique_key_delete_where\<close>)

lemma answer_inv: "idem_inv st \<Longrightarrow> idem_inv (answer_request i status body m st)"
proof (cases "find_row (\<lambda>q. rn_id q = i) (idem_running st)")
  case None
  then show "idem_inv st \<Longrightarrow> ?thesis" by (simp add: answer_request_def)
next
  case (Some q)
  assume inv: "idem_inv st"
  show ?thesis
    unfolding answer_request_def Some option.case
    by (rule settle_inv [OF inv Some])
       (use inv in \<open>auto simp: idem_inv_def unique_key_update_where unique_key_delete_where table_simps\<close>)
qed

lemma close_inv: "idem_inv st \<Longrightarrow> idem_inv (close_request i st)"
proof (cases "find_row (\<lambda>q. rn_id q = i) (idem_running st)")
  case None
  then show "idem_inv st \<Longrightarrow> ?thesis" by (simp add: close_request_def)
next
  case (Some q)
  assume inv: "idem_inv st"
  show ?thesis
    unfolding close_request_def Some option.case
    by (rule settle_inv [OF inv Some]) (use inv in \<open>auto simp: idem_inv_def unique_key_delete_where table_simps\<close>)
qed

lemma idem_step_inv: "idem_inv st \<Longrightarrow> idem_inv (idem_step digest le st x)"
proof (cases x)
  case (IRequest i req)
  assume inv: "idem_inv st"
  show ?thesis
  proof (cases "list_ex (\<lambda>r. ir_id r = i) (idem_rows st) \<or> list_ex (\<lambda>q. rn_id q = i) (idem_running st)")
    case False
    then have "\<forall>r\<in>set (idem_rows st). ir_id r \<noteq> i" "\<forall>q\<in>set (idem_running st). rn_id q \<noteq> i"
      by (auto simp: list_ex_iff)
    with claim_inv [OF inv] inv show ?thesis
      by (simp add: IRequest idempotency_def Let_def split: option.split)
  qed (use inv in \<open>simp add: IRequest\<close>)
next
  case IPurge
  assume "idem_inv st"
  then show ?thesis
    by (simp add: IPurge purgeExpiredIdempotencyRecords_def) (rule idem_inv_delete, auto simp: claims_def)
next
  case (ITick d)
  assume "idem_inv st"
  then show ?thesis by (simp add: ITick idem_inv_def)
qed (simp_all add: answer_inv close_inv)

subsection \<open>Completed claims stay until they expire\<close>

definition completed :: "idem_row \<Rightarrow> idem_state \<Rightarrow> bool" where
  "completed r st \<longleftrightarrow> ir_status r = COMPLETED \<and> r \<in> set (idem_rows st)"

lemma claim_keeps:
  "idem_inv st \<Longrightarrow> r \<in> set (idem_rows st) \<Longrightarrow> idem_clock st < ir_expiresAt r \<Longrightarrow>
     r \<in> set (idem_rows (snd (claim i sc h retried st)))"
proof (induction i sc h retried st rule: claim.induct)
  case (1 i sc h retried st)
  show ?case
  proof (cases "find_row (\<lambda>r. ir_scope r = sc) (idem_rows st)")
    case None
    with 1(3) show ?thesis by (simp add: claim.simps [of i sc h retried st])
  next
    case (Some e)
    note e = find_row_SomeD [OF Some]
    show ?thesis
    proof (cases "ir_expiresAt e \<le> idem_clock st")
      case True
      let ?P = "\<lambda>r. ir_id r = ir_id e"
      let ?st = "st\<lparr>idem_rows := delete_where ?P (idem_rows st)\<rparr>"
      have uniq: "p = e" if "p \<in> set (idem_rows st)" "ir_id p = ir_id e" for p
        using that e 1(2) unique_keyD [of ir_id "idem_rows st" p e] by (simp add: idem_inv_def)
      have inv: "idem_inv ?st"
        by (rule idem_inv_delete [OF 1(2)]) (use True uniq in \<open>auto simp: claims_def\<close>)
      have kept: "r \<in> set (idem_rows ?st)" using 1(3,4) True uniq [of r] by (auto simp: table_simps)
      from 1(1) [OF Some True refl] inv kept 1(4) show ?thesis
        by (simp add: claim.simps [of i sc h retried st] Some True Let_def)
    next
      case False
      with 1(3) show ?thesis by (simp add: claim.simps [of i sc h retried st] Some)
    qed
  qed
qed

lemma claim_clock [simp]: "idem_clock (snd (claim i sc h retried st)) = idem_clock st"
proof (induction i sc h retried st rule: claim.induct)
  case (1 i sc h retried st)
  then show ?case by (simp add: claim.simps [of i sc h retried st] Let_def split: option.split)
qed

lemma idem_clock_step: "idem_clock st \<le> idem_clock (idem_step digest le st x)"
  by (cases x) (simp_all add: idempotency_def Let_def answer_request_def close_request_def
      purgeExpiredIdempotencyRecords_def split: option.split)

text \<open>A running request's own row is in progress, so completed rows are not its.\<close>

lemma completed_not_running:
  "idem_inv st \<Longrightarrow> completed r st \<Longrightarrow> find_row (\<lambda>q. rn_id q = i) (idem_running st) = Some q \<Longrightarrow> ir_id r \<noteq> i"
  using find_row_SomeD by (fastforce simp: completed_def idem_inv_def claims_def)

lemma completed_step:
  assumes "idem_inv st" and "completed r st" and "idem_clock st < ir_expiresAt r"
  shows "completed r (idem_step digest le st x)"
proof (cases x)
  case (IRequest i req)
  with assms show ?thesis
    by (auto simp: completed_def idempotency_def Let_def intro: claim_keeps split: option.split)
next
  case (IAnswer i status body m)
  show ?thesis
  proof (cases "find_row (\<lambda>q. rn_id q = i) (idem_running st)")
    case (Some q)
    from completed_not_running [OF assms(1,2) Some] assms(2) show ?thesis
      by (simp add: IAnswer answer_request_def Some completed_def table_simps)
  qed (use assms in \<open>simp add: IAnswer answer_request_def\<close>)
next
  case (IClose i)
  with assms show ?thesis by (auto simp: close_request_def completed_def table_simps split: option.split)
next
  case IPurge
  with assms show ?thesis by (simp add: purgeExpiredIdempotencyRecords_def completed_def table_simps)
next
  case (ITick d)
  with assms show ?thesis by (simp add: completed_def)
qed

subsection \<open>One success per key and day\<close>

text \<open>
  A success for the scope: a running request that was claimed no earlier than \<open>t0\<close> is answered with
  a success before the day that starts at \<open>t0\<close> is over.
\<close>

fun idem_success :: "idem_scope \<times> instant \<Rightarrow> idem_state \<Rightarrow> idem_op \<Rightarrow> bool" where
  "idem_success (sc, t0) st (IAnswer i status body m) =
     (case find_row (\<lambda>q. rn_id q = i) (idem_running st) of
        None \<Rightarrow> False
      | Some q \<Rightarrow> rn_scope q = sc \<and> t0 \<le> rn_claimedAt q \<and> idem_clock st < t0 + TTL_MS \<and> isSuccess status)"
| "idem_success (sc, t0) st x = False"

definition idem_done :: "idem_scope \<times> instant \<Rightarrow> idem_state \<Rightarrow> bool" where
  "idem_done = (\<lambda>(sc, t0) st. t0 + TTL_MS \<le> idem_clock st
     \<or> (\<exists>r\<in>set (idem_rows st). ir_scope r = sc \<and> ir_status r = COMPLETED \<and> t0 + TTL_MS \<le> ir_expiresAt r))"

lemma idem_done_stays: "idem_inv st \<Longrightarrow> idem_done k st \<Longrightarrow> idem_done k (idem_step digest le st x)"
proof -
  assume inv: "idem_inv st" and d: "idem_done k st"
  obtain sc t0 where k: "k = (sc, t0)" by (cases k)
  note clock = idem_clock_step [of st digest le x]
  show ?thesis
  proof (cases "t0 + TTL_MS \<le> idem_clock st")
    case True
    with clock show ?thesis by (simp add: k idem_done_def)
  next
    case False
    with d obtain r where r: "r \<in> set (idem_rows st)" "ir_scope r = sc" "ir_status r = COMPLETED"
      "t0 + TTL_MS \<le> ir_expiresAt r" by (auto simp: k idem_done_def)
    with False have "completed r (idem_step digest le st x)"
      by (intro completed_step inv) (simp_all add: completed_def)
    with r show ?thesis by (auto simp: k idem_done_def completed_def)
  qed
qed

lemma idem_success_completes:
  assumes "idem_inv st" and "find_row (\<lambda>q. rn_id q = i) (idem_running st) = Some q"
    and "idem_clock st < rn_claimedAt q + TTL_MS" and "isSuccess status"
  shows "completed \<lparr>ir_id = i, ir_scope = rn_scope q, ir_hash = rn_hash q, ir_status = COMPLETED,
     ir_responseStatus = Some status, ir_responseBody = redactForReplay body m,
     ir_expiresAt = rn_claimedAt q + TTL_MS\<rparr> (answer_request i status body m st)"
proof -
  note q = find_row_SomeD [OF assms(2)]
  then obtain r where r: "r \<in> set (idem_rows st)" "claims q r" using assms(1,3) by (auto simp: idem_inv_def)
  let ?f = "\<lambda>r. r\<lparr>ir_status := COMPLETED, ir_responseStatus := Some status, ir_responseBody := redactForReplay body m\<rparr>"
  have "?f r = \<lparr>ir_id = i, ir_scope = rn_scope q, ir_hash = rn_hash q, ir_status = COMPLETED,
     ir_responseStatus = Some status, ir_responseBody = redactForReplay body m,
     ir_expiresAt = rn_claimedAt q + TTL_MS\<rparr>"
    using r(2) q by (simp add: claims_def)
  moreover have "?f r \<in> set (idem_rows (answer_request i status body m st))"
    using r q assms(4) by (auto simp: answer_request_def assms(2) table_simps claims_def)
  ultimately show ?thesis by (simp add: completed_def)
qed

lemma idem_success_spends:
  assumes "idem_inv st" and "idem_success k st x"
  shows "\<not> idem_done k st \<and> idem_done k (idem_step digest le st x)"
proof -
  obtain sc t0 where k: "k = (sc, t0)" by (cases k)
  with assms(2) obtain i status body m q where x: "x = IAnswer i status body m"
    and q: "find_row (\<lambda>q. rn_id q = i) (idem_running st) = Some q"
    and b: "rn_scope q = sc" "t0 \<le> rn_claimedAt q" "idem_clock st < t0 + TTL_MS" "isSuccess status"
    by (cases x) (auto split: option.splits)
  note qm = find_row_SomeD [OF q]
  then obtain r where r: "r \<in> set (idem_rows st)" "claims q r" using assms(1) b by (auto simp: idem_inv_def)
  have "ir_status p \<noteq> COMPLETED" if "p \<in> set (idem_rows st)" "ir_scope p = sc" for p
    using that r b(1) assms(1) unique_keyD [of ir_scope "idem_rows st" p r] by (auto simp: claims_def idem_inv_def)
  then have live: "\<not> idem_done k st" using b(3) by (auto simp: k idem_done_def)
  from idem_success_completes [OF assms(1) q _ b(4), of body m] b
  have "completed \<lparr>ir_id = i, ir_scope = rn_scope q, ir_hash = rn_hash q, ir_status = COMPLETED,
     ir_responseStatus = Some status, ir_responseBody = redactForReplay body m,
     ir_expiresAt = rn_claimedAt q + TTL_MS\<rparr> (idem_step digest le st x)" by (simp add: x)
  then have "idem_done k (idem_step digest le st x)" unfolding completed_def k idem_done_def using b by force
  with live show ?thesis ..
qed

interpretation idem_key: single_use "idem_step digest le" idem_inv idem_success idem_done
  for digest le
  by unfold_locales (auto dest: idem_success_spends intro: idem_step_inv idem_done_stays)


subsection \<open>Replays\<close>

definition remembers :: "idem_row \<Rightarrow> idem_state \<Rightarrow> bool" where
  "remembers r st \<longleftrightarrow> idem_inv st \<and> (ir_expiresAt r \<le> idem_clock st \<or> completed r st)"

lemma remembers_step: "remembers r st \<Longrightarrow> remembers r (idem_step digest le st x)"
proof -
  assume rem: "remembers r st"
  note clock = idem_clock_step [of st digest le x]
  from rem have inv: "idem_inv st" by (simp add: remembers_def)
  show ?thesis
  proof (cases "ir_expiresAt r \<le> idem_clock st")
    case True
    with clock have "ir_expiresAt r \<le> idem_clock (idem_step digest le st x)" by simp
    with idem_step_inv [OF inv] show ?thesis by (simp add: remembers_def)
  next
    case False
    with rem completed_step [OF inv] idem_step_inv [OF inv] show ?thesis by (simp add: remembers_def)
  qed
qed

interpretation idem_memory: op_machine "idem_step digest le" "remembers r"
  for digest le r
  by unfold_locales (rule remembers_step)

lemma claim_completed:
  assumes "idem_inv st" and "completed r st" and "idem_clock st < ir_expiresAt r" and "ir_responseStatus r = Some v"
  shows "claim i (ir_scope r) h retried st =
     (if h = ir_hash r then (Replayed v (ir_responseBody r), st)
      else (Refused (AppError 409 IDEMPOTENCY_PAYLOAD_MISMATCH None), st))"
proof -
  have r: "r \<in> set (idem_rows st)" "ir_status r = COMPLETED" using assms(2) by (simp_all add: completed_def)
  then obtain e where e: "find_row (\<lambda>p. ir_scope p = ir_scope r) (idem_rows st) = Some e"
    by (cases "find_row (\<lambda>p. ir_scope p = ir_scope r) (idem_rows st)") (auto simp: find_row_None_iff)
  have "e = r" using find_row_SomeD [OF e] r assms(1) unique_keyD [of ir_scope "idem_rows st" e r]
    by (simp add: idem_inv_def)
  with e r assms(3,4) show ?thesis by (simp add: claim.simps [of i _ h retried st])
qed

text \<open>A write that the middleware handles: not a safe method, with a tenant and an acceptable key.\<close>

definition keyed :: "http_request \<Rightarrow> idem_scope \<Rightarrow> bool" where
  "keyed req sc \<longleftrightarrow> hr_method req \<notin> set SAFE_METHODS \<and>
     (case (hr_tenantContext req, hr_key req) of
        (Some ctx, Some k) \<Rightarrow> MIN_KEY_LENGTH \<le> length (trim k) \<and> length (trim k) \<le> MAX_KEY_LENGTH
          \<and> sc = scope_of req ctx (trim k)
      | _ \<Rightarrow> False)"

lemma keyed_claim: "keyed req sc \<Longrightarrow> idempotency digest le i req st = claim i sc (payloadHash digest le req) False st"
  by (auto simp: keyed_def idempotency_def Let_def truthy_def MIN_KEY_LENGTH_def split: option.splits)

text \<open>
  A retry gets the first answer, and only that. When a running request is answered with success
  within its day, then whatever happens next, every later request of the day with the same key is
  answered from the record without running: with the stored status and the body less the fields
  the handler marked as secret if its payload has the same digest, and with a refusal if not. When
  it is answered with a failure, or its connection drops, its key is free at once and the next
  request with the key runs.
\<close>

theorem retry_gets_the_first_answer:
  assumes "idem_inv st" and "find_row (\<lambda>q. rn_id q = i) (idem_running st) = Some q"
    and "idem_clock st < rn_claimedAt q + TTL_MS" and "keyed req (rn_scope q)"
  shows "(let st' = foldl (idem_step digest le) (answer_request i status body marked st) xs
      in isSuccess status \<and> idem_clock st' < rn_claimedAt q + TTL_MS \<longrightarrow>
         idempotency digest le j req st' =
           ((if payloadHash digest le req = rn_hash q then Replayed status (redactForReplay body marked)
             else Refused (AppError 409 IDEMPOTENCY_PAYLOAD_MISMATCH None)), st'))
     \<and> (\<not> isSuccess status \<longrightarrow> fst (idempotency digest le j req (answer_request i status body marked st)) = Run j)
     \<and> fst (idempotency digest le j req (close_request i st)) = Run j"
proof (intro conjI impI)
  let ?r = "\<lparr>ir_id = i, ir_scope = rn_scope q, ir_hash = rn_hash q, ir_status = COMPLETED,
     ir_responseStatus = Some status, ir_responseBody = redactForReplay body marked,
     ir_expiresAt = rn_claimedAt q + TTL_MS\<rparr>"
  have "idempotency digest le j req st' =
           ((if payloadHash digest le req = rn_hash q then Replayed status (redactForReplay body marked)
             else Refused (AppError 409 IDEMPOTENCY_PAYLOAD_MISMATCH None)), st')"
    if st': "st' = foldl (idem_step digest le) (answer_request i status body marked st) xs"
      and ok: "isSuccess status" and c: "idem_clock st' < rn_claimedAt q + TTL_MS" for st'
  proof -
    have "completed ?r (answer_request i status body marked st)"
      by (rule idem_success_completes [OF assms(1-3) ok])
    then have "remembers ?r (answer_request i status body marked st)"
      by (simp add: remembers_def answer_inv assms(1))
    then have rem: "remembers ?r st'" unfolding st' by (rule idem_memory.run_inv)
    with c have "idem_inv st'" "completed ?r st'" by (auto simp: remembers_def)
    from claim_completed [OF this, of status j "payloadHash digest le req" False] c
    show ?thesis by (simp add: keyed_claim [OF assms(4)])
  qed
  then show "let st' = foldl (idem_step digest le) (answer_request i status body marked st) xs
      in isSuccess status \<and> idem_clock st' < rn_claimedAt q + TTL_MS \<longrightarrow>
         idempotency digest le j req st' =
           ((if payloadHash digest le req = rn_hash q then Replayed status (redactForReplay body marked)
             else Refused (AppError 409 IDEMPOTENCY_PAYLOAD_MISMATCH None)), st')"
    by (simp add: Let_def)
next
  note q = find_row_SomeD [OF assms(2)]
  then obtain r where r: "r \<in> set (idem_rows st)" "claims q r" using assms(1,3) by (auto simp: idem_inv_def)
  have only: "p = r" if "p \<in> set (idem_rows st)" "ir_scope p = rn_scope q" for p
    using that r assms(1) unique_keyD [of ir_scope "idem_rows st" p r] by (simp add: idem_inv_def claims_def)
  have free: "fst (idempotency digest le j req st') = Run j"
    if "\<forall>p\<in>set (idem_rows st'). ir_scope p \<noteq> rn_scope q" for st'
    using that find_row_None_iff [of "\<lambda>p. ir_scope p = rn_scope q" "idem_rows st'"]
    by (simp add: keyed_claim [OF assms(4)] claim.simps [of j])
  show "fst (idempotency digest le j req (answer_request i status body marked st)) = Run j" if "\<not> isSuccess status"
  proof (rule free, rule ballI)
    fix p assume "p \<in> set (idem_rows (answer_request i status body marked st))"
    then have p: "p \<in> set (idem_rows st)" "ir_id p \<noteq> i"
      using that by (simp_all add: answer_request_def assms(2) set_delete_where)
    show "ir_scope p \<noteq> rn_scope q"
    proof
      assume "ir_scope p = rn_scope q"
      with only p(1) have "p = r" by blast
      with p(2) r(2) q show False by (simp add: claims_def)
    qed
  qed
  show "fst (idempotency digest le j req (close_request i st)) = Run j"
  proof (rule free, rule ballI)
    fix p assume "p \<in> set (idem_rows (close_request i st))"
    then have p: "p \<in> set (idem_rows st)" "\<not> (ir_id p = i \<and> ir_status p = IN_PROGRESS)"
      by (simp_all add: close_request_def assms(2) set_delete_where)
    show "ir_scope p \<noteq> rn_scope q"
    proof
      assume "ir_scope p = rn_scope q"
      with only p(1) have "p = r" by blast
      with p(2) r(2) q show False by (simp add: claims_def)
    qed
  qed
qed

definition demo_request :: "string \<Rightarrow> http_request" where
  "demo_request body = \<lparr>hr_method = ''POST'', hr_baseUrl = ''/api/v1/mail'', hr_originalUrl = ''/api/v1/mail/send?x=1'',
     hr_key = Some '' key-12345 '', hr_isJson = True, hr_body = Some (JObj [(''to'', JStr body)]),
     hr_contentType = None, hr_contentLength = None,
     hr_tenantContext = Some \<lparr>tc_tenantId = ''t'', tc_userId = ''u''\<rparr>\<rparr>"

definition demo_idem :: idem_state where
  "demo_idem = \<lparr>idem_rows = [], idem_running = [], idem_clock = 0\<rparr>"


theorem retry_gets_the_first_answer_witness:
  "let st = idem_step id (\<le>) demo_idem (IRequest ''1'' (demo_request ''a''));
       st' = answer_request ''1'' 201 (JObj [(''link'', JStr ''s3cret''), (''id'', JNum 7)]) (Some [''link'']) st
   in fst (idempotency id (\<le>) ''2'' (demo_request ''a'') st') = Replayed 201 (JObj [(''id'', JNum 7)])
    \<and> fst (idempotency id (\<le>) ''2'' (demo_request ''b'') st') = Refused (AppError 409 IDEMPOTENCY_PAYLOAD_MISMATCH None)
    \<and> fst (idempotency id (\<le>) ''2'' (demo_request ''b'') (close_request ''1'' st)) = Run ''2''"
proof -
  let ?st = "idem_step id (\<le>) demo_idem (IRequest ''1'' (demo_request ''a''))"
  let ?sc = "scope_of (demo_request ''a'') \<lparr>tc_tenantId = ''t'', tc_userId = ''u''\<rparr> ''key-12345''"
  let ?q = "\<lparr>rn_id = ''1'', rn_scope = ?sc, rn_hash = payloadHash id (\<le>) (demo_request ''a''), rn_claimedAt = 0\<rparr>"
  let ?body = "JObj [(''link'', JStr ''s3cret''), (''id'', JNum 7)]"
  have inv: "idem_inv ?st"
    by (rule idem_step_inv) (simp add: idem_inv_def demo_idem_def unique_key_def)
  have q: "find_row (\<lambda>q. rn_id q = ''1'') (idem_running ?st) = Some ?q" by code_simp
  have c: "idem_clock ?st < rn_claimedAt ?q + TTL_MS" by code_simp
  have k: "keyed (demo_request ''a'') (rn_scope ?q)" "keyed (demo_request ''b'') (rn_scope ?q)" by code_simp+
  have h: "payloadHash id (\<le>) (demo_request ''b'') \<noteq> rn_hash ?q" by code_simp
  have s: "isSuccess 201" by code_simp
  have d: "idem_clock (answer_request ''1'' 201 ?body (Some [''link'']) ?st) < rn_claimedAt ?q + TTL_MS" by code_simp
  have r: "redactForReplay ?body (Some [''link'']) = JObj [(''id'', JNum 7)]" by code_simp
  from retry_gets_the_first_answer [OF inv q c k(1), where digest = id and le = "(\<le>)" and status = 201
      and body = ?body and marked = "Some [''link'']" and xs = "[]" and j = "''2''"]
  have "fst (idempotency id (\<le>) ''2'' (demo_request ''a'') (answer_request ''1'' 201 ?body (Some [''link'']) ?st))
      = Replayed 201 (JObj [(''id'', JNum 7)])"
    using s d r by (simp add: Let_def)
  moreover from retry_gets_the_first_answer [OF inv q c k(2), where digest = id and le = "(\<le>)" and status = 201
      and body = ?body and marked = "Some [''link'']" and xs = "[]" and j = "''2''"]
  have "fst (idempotency id (\<le>) ''2'' (demo_request ''b'') (answer_request ''1'' 201 ?body (Some [''link'']) ?st))
      = Refused (AppError 409 IDEMPOTENCY_PAYLOAD_MISMATCH None)
     \<and> fst (idempotency id (\<le>) ''2'' (demo_request ''b'') (close_request ''1'' ?st)) = Run ''2''"
    using s d h by (simp add: Let_def)
  ultimately show ?thesis by (simp add: Let_def)
qed

subsection \<open>The digest does not see the order of keys\<close>

text \<open>The same JSON value up to the order of the entries of its objects, at every level.\<close>

inductive same_json :: "json \<Rightarrow> json \<Rightarrow> bool" where
  same_refl: "same_json v v"
| same_arr: "list_all2 same_json vs ws \<Longrightarrow> same_json (JArr vs) (JArr ws)"
| same_obj: "list_all2 (rel_prod (=) same_json) es fs \<Longrightarrow> mset fs = mset gs \<Longrightarrow> same_json (JObj es) (JObj gs)"

fun keys_distinct :: "json \<Rightarrow> bool" where
  "keys_distinct (JArr vs) = list_all keys_distinct vs"
| "keys_distinct (JObj es) = (distinct (map fst es) \<and> list_all (\<lambda>(k, v). keys_distinct v) es)"
| "keys_distinct v = True"

definition total_collation :: "(string \<Rightarrow> string \<Rightarrow> bool) \<Rightarrow> bool" where
  "total_collation le \<longleftrightarrow> (\<forall>a b. le a b \<or> le b a) \<and> (\<forall>a b c. le a b \<and> le b c \<longrightarrow> le a c)
     \<and> (\<forall>a b. le a b \<and> le b a \<longrightarrow> a = b)"

lemma mset_insert_entry: "mset (insert_entry le e fs) = add_mset e (mset fs)"
  by (induction fs) auto

lemma mset_sort_entries: "mset (sort_entries le es) = mset es"
  unfolding sort_entries_def by (induction es) (simp_all add: mset_insert_entry)

lemma insert_entry_commute:
  "total_collation le \<Longrightarrow> fst e \<noteq> fst f \<Longrightarrow>
     insert_entry le e (insert_entry le f zs) = insert_entry le f (insert_entry le e zs)"
proof (induction zs)
  case Nil
  then have "le (fst e) (fst f) \<longleftrightarrow> \<not> le (fst f) (fst e)" unfolding total_collation_def by metis
  then show ?case by simp
next
  case (Cons z zs)
  then have ih: "insert_entry le e (insert_entry le f zs) = insert_entry le f (insert_entry le e zs)" by simp
  have one: "le (fst e) (fst f) \<longleftrightarrow> \<not> le (fst f) (fst e)"
    using Cons.prems unfolding total_collation_def by metis
  have t1: "le (fst e) (fst f) \<Longrightarrow> le (fst f) (fst z) \<Longrightarrow> le (fst e) (fst z)"
    and t2: "le (fst f) (fst e) \<Longrightarrow> le (fst e) (fst z) \<Longrightarrow> le (fst f) (fst z)"
    using Cons.prems(1) unfolding total_collation_def by metis+
  show ?case
    by (cases "le (fst e) (fst z)"; cases "le (fst f) (fst z)"; cases "le (fst f) (fst e)")
       (use one t1 t2 ih in simp_all)
qed

lemma sort_entries_front:
  "total_collation le \<Longrightarrow> fst e \<notin> fst ` set xs \<Longrightarrow> sort_entries le (xs @ e # ys) = insert_entry le e (sort_entries le (xs @ ys))"
proof (induction xs)
  case (Cons x xs)
  then have "sort_entries le (xs @ e # ys) = insert_entry le e (sort_entries le (xs @ ys))" by auto
  then have "sort_entries le ((x # xs) @ e # ys) = insert_entry le x (insert_entry le e (sort_entries le (xs @ ys)))"
    by (simp add: sort_entries_def)
  also have "\<dots> = insert_entry le e (insert_entry le x (sort_entries le (xs @ ys)))"
    using Cons.prems by (intro insert_entry_commute) auto
  finally show ?case by (simp add: sort_entries_def)
qed (simp add: sort_entries_def)

lemma sort_entries_perm:
  "total_collation le \<Longrightarrow> distinct (map fst xs) \<Longrightarrow> mset xs = mset ys \<Longrightarrow> sort_entries le xs = sort_entries le ys"
proof (induction xs arbitrary: ys)
  case (Cons x xs)
  then have "x \<in> set ys" by (metis list.set_intros(1) mset_eq_setD)
  then obtain y1 y2 where ys: "ys = y1 @ x # y2" by (meson split_list)
  then have m: "mset xs = mset (y1 @ y2)" using Cons.prems(3) by simp
  then have "set y1 \<subseteq> set xs" by (metis Un_upper1 mset_eq_setD set_append)
  then have "fst x \<notin> fst ` set y1" using Cons.prems(2) by auto
  then have "sort_entries le ys = insert_entry le x (sort_entries le (y1 @ y2))"
    unfolding ys by (rule sort_entries_front [OF Cons.prems(1)])
  moreover have "sort_entries le xs = sort_entries le (y1 @ y2)" using Cons m by simp
  moreover have "sort_entries le (x # xs) = insert_entry le x (sort_entries le xs)" by (simp add: sort_entries_def)
  ultimately show ?case by simp
qed simp

lemma canonical_same:
  assumes "total_collation le"
  shows "same_json v w \<Longrightarrow> keys_distinct v \<Longrightarrow> canonical le v = canonical le w"
proof (induction rule: same_json.induct)
  case (same_arr vs ws)
  then have "list_all2 (\<lambda>v w. canonical le v = canonical le w) vs ws"
    by (auto simp: list_all2_conv_all_nth list_all_length)
  then show ?case by (simp add: list_all2_conv_all_nth list_eq_iff_nth_eq)
next
  case (same_obj es fs gs)
  let ?c = "\<lambda>(k, v). (k, canonical le v)"
  have pair: "fst (es ! i) = fst (fs ! i) \<and> canonical le (snd (es ! i)) = canonical le (snd (fs ! i))"
    if "i < length es" for i
  proof -
    have "rel_prod (=) (\<lambda>v w. same_json v w \<and> (keys_distinct v \<longrightarrow> canonical le v = canonical le w)) (es ! i) (fs ! i)"
      using same_obj.IH that by (auto simp: list_all2_conv_all_nth)
    moreover have "keys_distinct (snd (es ! i))"
      using same_obj.prems that by (auto simp: list_all_length split_beta)
    ultimately show ?thesis by (cases "es ! i"; cases "fs ! i") auto
  qed
  have len: "length es = length fs" using same_obj.IH by (auto dest: list_all2_lengthD)
  have eq: "map ?c es = map ?c fs"
    using pair len by (auto intro!: nth_equalityI simp: split_beta)
  have "map fst es = map fst fs" using pair len by (auto intro!: nth_equalityI)
  then have "distinct (map fst (map ?c fs))"
    using same_obj.prems by (simp add: comp_def split_beta)
  moreover have "mset (map ?c fs) = mset (map ?c gs)" using same_obj.hyps by simp
  ultimately show ?case
    using eq sort_entries_perm [OF assms, of "map ?c fs" "map ?c gs"] by simp
qed simp

lemma same_canonical: "same_json v (canonical le v)"
proof (induction le v rule: canonical.induct)
  case (1 le vs)
  then show ?case by (auto intro!: same_arr simp: list_all2_conv_all_nth)
next
  case (2 le es)
  have "list_all2 (rel_prod (=) same_json) es (map (\<lambda>(k, v). (k, canonical le v)) es)"
    using 2 by (auto simp: list_all2_conv_all_nth rel_prod_conv split_beta) (metis nth_mem prod.collapse)
  then show ?case by (auto intro!: same_obj simp: mset_sort_entries)
qed (auto intro: same_refl)

text \<open>
  An honest retry is recognised. Two requests for the same route whose JSON bodies differ only
  in the order of keys, at whatever depth, have the same digest, provided the collation is a total
  order on the keys; and the canonical form of a body is that body up to the order of keys, so
  canonicalising loses nothing the digest could tell apart.
\<close>

theorem key_order_does_not_matter:
  assumes "total_collation le" and "same_json v w" and "keys_distinct v"
  shows "payloadHash digest le (req\<lparr>hr_isJson := True, hr_body := Some v\<rparr>)
       = payloadHash digest le (req\<lparr>hr_isJson := True, hr_body := Some w\<rparr>)
     \<and> same_json v (canonical le v)"
  using canonical_same [OF assms] by (intro conjI same_canonical) (simp add: payloadHash_def payload_text_def)

theorem key_order_does_not_matter_witness:
  "let v = JObj [(''to'', JStr ''x''), (''opts'', JArr [JObj [(''b'', JNum 1), (''a'', JNull)]])];
       w = JObj [(''opts'', JArr [JObj [(''a'', JNull), (''b'', JNum 1)]]), (''to'', JStr ''x'')]
   in payloadHash id (\<le>) ((demo_request ''a'')\<lparr>hr_isJson := True, hr_body := Some v\<rparr>)
        = payloadHash id (\<le>) ((demo_request ''a'')\<lparr>hr_isJson := True, hr_body := Some w\<rparr>)
      \<and> v \<noteq> w"
proof -
  let ?v = "JObj [(''to'', JStr ''x''), (''opts'', JArr [JObj [(''b'', JNum 1), (''a'', JNull)]])]"
  let ?w = "JObj [(''opts'', JArr [JObj [(''a'', JNull), (''b'', JNum 1)]]), (''to'', JStr ''x'')]"
  have le: "total_collation (\<le>)" by (auto simp: total_collation_def)
  have inner: "same_json (JObj [(''b'', JNum 1), (''a'', JNull)]) (JObj [(''a'', JNull), (''b'', JNum 1)])"
    by (rule same_obj [of _ "[(''b'', JNum 1), (''a'', JNull)]"]) (simp_all add: same_refl)
  have "same_json ?v ?w"
    by (rule same_obj [of _ "[(''to'', JStr ''x''), (''opts'', JArr [JObj [(''a'', JNull), (''b'', JNum 1)]])]"])
       (simp_all add: same_refl same_arr inner)
  moreover have "keys_distinct ?v" by simp
  ultimately show ?thesis
    using key_order_does_not_matter [OF le, of ?v ?w id "demo_request ''a''"] by (simp add: Let_def)
qed

end
