(* ===== verification/Sla.thy ===== *)
theory Sla
  imports Prelude
begin

section \<open>Response targets in working time\<close>

text \<open>
  \<open>modules/ticket/sla.ts\<close>. An instant is local time: milliseconds since a local midnight that
  began a Thursday (the first of January 1970), in a zone without daylight saving, so every day has
  24 hours. \<open>business_clock\<close> is the reference: the working time that has passed until an instant.
\<close>

datatype ticket_severity = URGENT | HIGH | MEDIUM | LOW

fun ELAPSED_MINUTES :: "ticket_severity \<Rightarrow> int option" where
  "ELAPSED_MINUTES URGENT = Some 15"
| "ELAPSED_MINUTES HIGH = Some 60"
| "ELAPSED_MINUTES _ = None"

fun BUSINESS_MINUTES :: "ticket_severity \<Rightarrow> int option" where
  "BUSINESS_MINUTES MEDIUM = Some (4 * 60)"
| "BUSINESS_MINUTES LOW = Some (8 * 60)"
| "BUSINESS_MINUTES _ = None"

definition BUSINESS_DAY_START_HOUR :: int where
  "BUSINESS_DAY_START_HOUR = 9"

definition BUSINESS_DAY_END_HOUR :: int where
  "BUSINESS_DAY_END_HOUR = 17"

definition BUSINESS_MINUTES_PER_DAY :: int where
  "BUSINESS_MINUTES_PER_DAY = (BUSINESS_DAY_END_HOUR - BUSINESS_DAY_START_HOUR) * 60"

subsection \<open>The calendar\<close>

definition getDay :: "instant \<Rightarrow> int" where
  "getDay t = (t div day_ms + 4) mod 7"

definition getHours :: "instant \<Rightarrow> int" where
  "getHours t = (t mod day_ms) div hour_ms"

text \<open>\<open>setHours(h, 0, 0, 0)\<close>, and the same on the next day (\<open>setDate(getDate() + 1)\<close> before it).\<close>

definition setHours :: "int \<Rightarrow> instant \<Rightarrow> instant" where
  "setHours h t = t div day_ms * day_ms + h * hour_ms"

definition nextDayAt :: "int \<Rightarrow> instant \<Rightarrow> instant" where
  "nextDayAt h t = (t div day_ms + 1) * day_ms + h * hour_ms"

definition isWorkingDay :: "instant \<Rightarrow> bool" where
  "isWorkingDay t \<longleftrightarrow> getDay t \<noteq> 0 \<and> getDay t \<noteq> 6"

subsection \<open>Working time\<close>

text \<open>The loop of \<open>intoWorkingHours\<close> with its guard, which counts down from 14.\<close>

fun into_loop :: "nat \<Rightarrow> instant \<Rightarrow> instant" where
  "into_loop 0 t = t"
| "into_loop (Suc n) t =
     (if \<not> isWorkingDay t then into_loop n (nextDayAt BUSINESS_DAY_START_HOUR t)
      else if getHours t < BUSINESS_DAY_START_HOUR then setHours BUSINESS_DAY_START_HOUR t
      else if BUSINESS_DAY_END_HOUR \<le> getHours t then into_loop n (nextDayAt BUSINESS_DAY_START_HOUR t)
      else t)"

definition intoWorkingHours :: "instant \<Rightarrow> instant" where
  "intoWorkingHours from = into_loop 14 from"

text \<open>\<open>Math.round\<close> of milliseconds over a minute: half a minute rounds up.\<close>

definition round_minutes :: "int \<Rightarrow> int" where
  "round_minutes ms = (ms + 30000) div 60000"

fun add_loop :: "nat \<Rightarrow> instant \<Rightarrow> int \<Rightarrow> instant" where
  "add_loop 0 t left = t"
| "add_loop (Suc n) t left =
     (if left \<le> 0 then t
      else let available = max 0 (round_minutes (setHours BUSINESS_DAY_END_HOUR t - t))
        in if left \<le> available then t + left * 60000
           else add_loop n (intoWorkingHours (nextDayAt BUSINESS_DAY_START_HOUR t)) (left - available))"

definition addBusinessMinutes :: "instant \<Rightarrow> int \<Rightarrow> instant" where
  "addBusinessMinutes from minutes = add_loop 400 (intoWorkingHours from) minutes"

definition slaFor :: "ticket_severity \<Rightarrow> instant \<Rightarrow> instant" where
  "slaFor severity from =
     (case ELAPSED_MINUTES severity of
        Some m \<Rightarrow> from + m * 60000
      | None \<Rightarrow>
          addBusinessMinutes from
            (case BUSINESS_MINUTES severity of Some m \<Rightarrow> m | None \<Rightarrow> BUSINESS_MINUTES_PER_DAY))"

fun SEVERITY_RESPONSE_TARGET :: "ticket_severity \<Rightarrow> string" where
  "SEVERITY_RESPONSE_TARGET URGENT = ''15 minutes''"
| "SEVERITY_RESPONSE_TARGET HIGH = ''1 hour''"
| "SEVERITY_RESPONSE_TARGET MEDIUM = ''4 business hours''"
| "SEVERITY_RESPONSE_TARGET LOW = ''1 business day''"

subsection \<open>The reference: a clock that runs in working time\<close>

text \<open>The working days before the day \<open>e\<close>, counted from a Sunday, and the working part of a day.\<close>

definition workdays_before :: "int \<Rightarrow> int" where
  "workdays_before e = 5 * (e div 7) + (if e mod 7 = 0 then 0 else e mod 7 - 1)"

definition worked_today :: "int \<Rightarrow> int" where
  "worked_today s = max 0 (min (8 * 3600000) (s - 9 * 3600000))"

definition business_clock :: "instant \<Rightarrow> int" where
  "business_clock t =
     (let e = t div day_ms + 4
      in workdays_before e * (8 * 3600000) + (if isWorkingDay t then worked_today (t mod day_ms) else 0))"

definition in_working_hours :: "instant \<Rightarrow> bool" where
  "in_working_hours t \<longleftrightarrow> isWorkingDay t \<and> 9 \<le> getHours t \<and> getHours t < 17"

lemmas sla_units = day_ms_def hour_ms_def minute_ms_def BUSINESS_DAY_START_HOUR_def BUSINESS_DAY_END_HOUR_def

subsection \<open>Days and times of day\<close>

lemma workdays_step:
  "workdays_before (e + 1) = workdays_before e + (if e mod 7 \<noteq> 0 \<and> e mod 7 \<noteq> 6 then 1 else 0)"
proof -
  have "e mod 7 = 0 \<or> e mod 7 = 1 \<or> e mod 7 = 2 \<or> e mod 7 = 3 \<or> e mod 7 = 4 \<or> e mod 7 = 5 \<or> e mod 7 = 6"
    by presburger
  moreover have "e = 7 * (e div 7) + e mod 7" by simp
  moreover have "(e + 1) div 7 = (if e mod 7 = 6 then e div 7 + 1 else e div 7)"
    "(e + 1) mod 7 = (if e mod 7 = 6 then 0 else e mod 7 + 1)" by presburger+
  ultimately show ?thesis unfolding workdays_before_def by auto
qed

lemma day_split:
  fixes s :: int
  assumes "0 \<le> s" "s < 86400000"
  shows "(d * 86400000 + s) div 86400000 = d" "(d * 86400000 + s) mod 86400000 = s"
  using assms by simp_all

lemma div_lt_iff: "(x :: int) div 3600000 < h \<longleftrightarrow> x < h * 3600000"
  by (rule iffI) linarith+

lemma hours_lt: "getHours t < h \<longleftrightarrow> t mod day_ms < h * 3600000"
  unfolding getHours_def sla_units by (simp add: div_lt_iff)

lemma hours_ge: "h \<le> getHours t \<longleftrightarrow> h * 3600000 \<le> t mod day_ms"
  using hours_lt [of t h] by linarith

lemma time_range: "0 \<le> t mod day_ms" "t mod day_ms < 86400000"
  by (simp_all add: sla_units)

text \<open>Moving to nine o'clock of the next day, from a time when no work is left in this one.\<close>

lemma next_day_parts:
  "nextDayAt 9 t div day_ms = t div day_ms + 1" "nextDayAt 9 t mod day_ms = 9 * 3600000"
proof -
  have e: "nextDayAt 9 t = (t div 86400000 + 1) * 86400000 + 32400000" by (simp add: nextDayAt_def sla_units)
  show "nextDayAt 9 t div day_ms = t div day_ms + 1" "nextDayAt 9 t mod day_ms = 9 * 3600000"
    unfolding e using day_split [of 32400000 "t div 86400000 + 1"] by (simp_all add: sla_units)
qed

lemma today_parts:
  "0 \<le> h \<Longrightarrow> h < 24 \<Longrightarrow> setHours h t div day_ms = t div day_ms \<and> setHours h t mod day_ms = h * 3600000"
proof -
  assume "0 \<le> h" "h < 24"
  then have "0 \<le> h * 3600000" "h * 3600000 < 86400000" by simp_all
  from day_split [OF this, of "t div 86400000"] show ?thesis by (simp add: setHours_def sla_units)
qed

lemma clock_next_day:
  "business_clock (nextDayAt 9 t) =
     (workdays_before (t div day_ms + 4) + (if isWorkingDay t then 1 else 0)) * (8 * 3600000)"
proof -
  have "workdays_before (t div day_ms + 1 + 4) =
      workdays_before (t div day_ms + 4) + (if isWorkingDay t then 1 else 0)"
    using workdays_step [of "t div day_ms + 4"] by (simp add: isWorkingDay_def getDay_def algebra_simps)
  then show ?thesis by (simp add: business_clock_def Let_def next_day_parts worked_today_def)
qed

lemma next_day_later: "t < nextDayAt 9 t"
proof -
  have "nextDayAt 9 t = 86400000 * (t div 86400000) + 86400000 + 32400000" by (simp add: nextDayAt_def sla_units)
  moreover have "t = 86400000 * (t div 86400000) + t mod 86400000" "t mod 86400000 < 86400000" by simp_all
  ultimately show ?thesis by linarith
qed

subsection \<open>Skipping to working time\<close>

text \<open>The days from \<open>t\<close> to the next working day.\<close>

definition days_off :: "instant \<Rightarrow> nat" where
  "days_off t = (if getDay t = 6 then 2 else if getDay t = 0 then 1 else 0)"

lemma getDay_next: "getDay (nextDayAt 9 t) = (if getDay t = 6 then 0 else getDay t + 1)"
proof -
  have "(e + 1) mod 7 = (if e mod 7 = 6 then 0 else e mod 7 + 1)" for e :: int by presburger
  from this [of "t div day_ms + 4"] show ?thesis by (simp add: getDay_def next_day_parts algebra_simps)
qed

lemma getDay_range: "0 \<le> getDay t \<and> getDay t < 7"
  by (simp add: getDay_def)

lemma days_off_next: "\<not> isWorkingDay t \<Longrightarrow> days_off (nextDayAt 9 t) < days_off t"
  by (auto simp: days_off_def isWorkingDay_def getDay_next)

lemma days_off_le: "days_off t \<le> 2"
  by (simp add: days_off_def)

definition ready :: "instant \<Rightarrow> instant \<Rightarrow> bool" where
  "ready t r \<longleftrightarrow> in_working_hours r \<and> business_clock r = business_clock t \<and> t \<le> r
     \<and> (t mod day_ms \<le> 9 * 3600000 \<longrightarrow> r mod day_ms = 9 * 3600000)
     \<and> (t mod 60000 = 0 \<longrightarrow> r mod 60000 = 0)"

lemma minute_of_day: "t mod 60000 = (t mod day_ms) mod 60000"
  by (simp add: sla_units mod_mod_cancel)

lemma nine_in_hours: "isWorkingDay t \<Longrightarrow> t mod day_ms = 9 * 3600000 \<Longrightarrow> in_working_hours t"
  using hours_lt [of t 17] hours_ge [of 9 t] by (simp add: in_working_hours_def)

lemma ready_at_nine:
  assumes "isWorkingDay t" and "getHours t < 9"
  shows "ready t (setHours 9 t)"
proof -
  from today_parts [of 9 t] have p: "setHours 9 t div day_ms = t div day_ms" "setHours 9 t mod day_ms = 9 * 3600000"
    by simp_all
  then have w: "isWorkingDay (setHours 9 t)" using assms(1) by (simp add: isWorkingDay_def getDay_def)
  have lt: "t mod day_ms < 9 * 3600000" using assms(2) by (simp only: hours_lt)
  have "setHours 9 t = t div day_ms * day_ms + 9 * 3600000" by (simp add: setHours_def sla_units)
  moreover have "t = t div day_ms * day_ms + t mod day_ms" by simp
  ultimately have "t \<le> setHours 9 t" using lt by linarith
  with w p lt assms(1) nine_in_hours [OF w p(2)] show ?thesis
    by (simp add: ready_def business_clock_def Let_def worked_today_def minute_of_day [of "setHours 9 t"])
qed

lemma into_loop_ready:
  "days_off t < n \<Longrightarrow> (isWorkingDay t \<longrightarrow> getHours t < 17) \<Longrightarrow> ready t (into_loop n t)"
proof (induction n arbitrary: t)
  case (Suc n)
  show ?case
  proof (cases "isWorkingDay t")
    case True
    then show ?thesis
    proof (cases "getHours t < 9")
      case True
      with \<open>isWorkingDay t\<close> ready_at_nine show ?thesis by (simp add: sla_units)
    next
      case False
      with True Suc.prems(2) have "ready t t"
        using hours_ge [of 9 t] by (auto simp: ready_def in_working_hours_def)
      with True False Suc.prems(2) show ?thesis by (simp add: sla_units)
    qed
  next
    case False
    let ?t = "nextDayAt 9 t"
    have "days_off ?t < n" using days_off_next [OF False] Suc.prems(1) by simp
    moreover have "getHours ?t < 17" using hours_lt [of ?t 17] by (simp add: next_day_parts)
    ultimately have r: "ready ?t (into_loop n ?t)" using Suc.IH by simp
    moreover have "business_clock ?t = business_clock t"
      using False by (simp add: clock_next_day) (simp add: business_clock_def Let_def)
    moreover have "?t mod 60000 = 0" by (simp add: minute_of_day [of ?t] next_day_parts)
    ultimately have "ready t (into_loop n ?t)"
      using next_day_later [of t] by (simp add: ready_def next_day_parts)
    with False show ?thesis by (simp add: sla_units)
  qed
qed simp

lemma into_ready: "ready t (intoWorkingHours t)"
proof (cases "isWorkingDay t \<and> 17 \<le> getHours t")
  case False
  then show ?thesis unfolding intoWorkingHours_def
    using days_off_le [of t] by (intro into_loop_ready) auto
next
  case True
  let ?t = "nextDayAt 9 t"
  have "getHours ?t < 17" using hours_lt [of ?t 17] by (simp add: next_day_parts)
  then have r: "ready ?t (into_loop 13 ?t)"
    using days_off_le [of ?t] by (intro into_loop_ready) auto
  have late: "17 * 3600000 \<le> t mod day_ms" using True hours_ge by blast
  then have clock: "business_clock ?t = business_clock t"
    using True by (simp add: clock_next_day) (simp add: business_clock_def Let_def worked_today_def algebra_simps)
  have "into_loop (Suc n) t = into_loop n ?t" for n
    using True by (simp add: BUSINESS_DAY_START_HOUR_def BUSINESS_DAY_END_HOUR_def)
  from this [of 13] have "intoWorkingHours t = into_loop 13 ?t" by (simp add: intoWorkingHours_def)
  with r clock late next_day_later [of t] minute_of_day [of ?t] show ?thesis
    by (simp add: ready_def next_day_parts)
qed

subsection \<open>Adding working minutes\<close>

definition minutes_today :: "instant \<Rightarrow> int" where
  "minutes_today t = (17 * 3600000 - t mod day_ms) div 60000"

lemma round_whole: "x mod 60000 = 0 \<Longrightarrow> round_minutes x = x div 60000"
proof -
  assume "x mod 60000 = 0"
  then have "60000 dvd x" by (simp add: mod_eq_0_iff_dvd)
  then obtain q where "x = 60000 * q" by (rule dvdE)
  moreover have "(60000 * q + 30000) div 60000 = q" for q :: int by simp
  ultimately show ?thesis by (simp add: round_minutes_def)
qed

lemma available_today:
  assumes "in_working_hours t" and "t mod 60000 = 0"
  shows "max 0 (round_minutes (setHours 17 t - t)) = minutes_today t"
    and "minutes_today t * 60000 = 17 * 3600000 - t mod day_ms"
    and "0 < minutes_today t" and "minutes_today t \<le> 480"
proof -
  let ?s = "t mod day_ms"
  have s: "9 * 3600000 \<le> ?s" "?s < 17 * 3600000"
    using assms(1) hours_ge [of 9 t] hours_lt [of t 17] by (simp_all add: in_working_hours_def)
  have "setHours 17 t = t div day_ms * day_ms + 17 * 3600000" by (simp add: setHours_def sla_units)
  moreover have "t = t div day_ms * day_ms + ?s" by simp
  ultimately have d: "setHours 17 t - t = 17 * 3600000 - ?s" by linarith
  have m: "?s mod 60000 = 0" using assms(2) by (simp add: minute_of_day [of t])
  then have dvd: "60000 dvd ?s" by (simp only: mod_eq_0_iff_dvd)
  then have dvd': "(60000 :: int) dvd 17 * 3600000 - ?s" by (simp add: dvd_diff)
  then show eq: "minutes_today t * 60000 = 17 * 3600000 - ?s" by (simp add: minutes_today_def)
  then show pos: "0 < minutes_today t" and "minutes_today t \<le> 480" using s by linarith+
  have "(17 * 3600000 - ?s) mod 60000 = 0" using dvd' by simp
  from round_whole [OF this] have "round_minutes (setHours 17 t - t) = minutes_today t"
    by (simp add: d minutes_today_def)
  with pos show "max 0 (round_minutes (setHours 17 t - t)) = minutes_today t" by simp
qed

lemma same_day_clock:
  assumes "in_working_hours t" and "0 \<le> k" and "t mod day_ms + k \<le> 17 * 3600000"
  shows "business_clock (t + k) = business_clock t + k" and "isWorkingDay (t + k)"
    and "(t + k) mod day_ms = t mod day_ms + k"
proof -
  let ?s = "t mod day_ms"
  have s: "9 * 3600000 \<le> ?s"
    using assms(1) hours_ge [of 9 t] by (simp add: in_working_hours_def)
  have t: "t = t div day_ms * 86400000 + ?s" by (simp add: sla_units)
  then have tk: "t + k = t div day_ms * 86400000 + (?s + k)" by linarith
  have r: "0 \<le> ?s + k" "?s + k < 86400000" using s assms(2,3) by linarith+
  have day: "day_ms = 86400000" by (simp add: sla_units)
  have d: "(t + k) div day_ms = t div day_ms"
    unfolding day by (rule trans [OF arg_cong [OF tk [unfolded day], where f = "\<lambda>x. x div 86400000"] day_split(1) [OF r [unfolded day]]])
  show m: "(t + k) mod day_ms = ?s + k"
    unfolding day by (rule trans [OF arg_cong [OF tk [unfolded day], where f = "\<lambda>x. x mod 86400000"] day_split(2) [OF r [unfolded day]]])
  show w: "isWorkingDay (t + k)" using assms(1) d by (simp add: in_working_hours_def isWorkingDay_def getDay_def)
  show "business_clock (t + k) = business_clock t + k"
    using w assms s m d by (simp add: business_clock_def Let_def worked_today_def in_working_hours_def)
qed

lemma clock_in_hours:
  assumes "in_working_hours t"
  shows "business_clock t = workdays_before (t div day_ms + 4) * (8 * 3600000) + (t mod day_ms - 9 * 3600000)"
  using assms hours_ge [of 9 t] hours_lt [of t 17]
  by (simp add: business_clock_def Let_def worked_today_def in_working_hours_def)

definition due_ok :: "instant \<Rightarrow> int \<Rightarrow> instant \<Rightarrow> bool" where
  "due_ok t left r \<longleftrightarrow> business_clock r = business_clock t + left * 60000 \<and> isWorkingDay r
     \<and> 9 * 3600000 < r mod day_ms \<and> r mod day_ms \<le> 17 * 3600000 \<and> t < r"

lemma add_loop_ok:
  "in_working_hours t \<Longrightarrow> t mod 60000 = 0 \<Longrightarrow> 0 < left \<Longrightarrow> left \<le> minutes_today t + 480 * int n \<Longrightarrow>
     due_ok t left (add_loop (Suc n) t left)"
proof (induction n arbitrary: t left)
  case 0
  note av = available_today [OF 0(1,2)]
  have "left * 60000 \<le> minutes_today t * 60000" using 0(4) by simp
  then have k: "t mod day_ms + left * 60000 \<le> 17 * 3600000" using av(2) by linarith
  have s: "9 * 3600000 \<le> t mod day_ms"
    using 0(1) hours_ge [of 9 t] by (simp add: in_working_hours_def)
  have "add_loop (Suc 0) t left = t + left * 60000"
    using 0(3,4) av(1) by (simp add: Let_def BUSINESS_DAY_END_HOUR_def)
  with same_day_clock [OF 0(1) _ k] k s 0(3) show ?case by (simp add: due_ok_def)
next
  case (Suc n)
  note av = available_today [OF Suc.prems(1,2)]
  have s: "9 * 3600000 \<le> t mod day_ms"
    using Suc.prems(1) hours_ge [of 9 t] by (simp add: in_working_hours_def)
  show ?case
  proof (cases "left \<le> minutes_today t")
    case True
    then have "left * 60000 \<le> minutes_today t * 60000" by simp
    then have k: "t mod day_ms + left * 60000 \<le> 17 * 3600000" using av(2) by linarith
    have "add_loop (Suc (Suc n)) t left = t + left * 60000"
      using Suc.prems(3) True av(1) by (simp add: Let_def BUSINESS_DAY_END_HOUR_def del: add_loop.simps(2) add: add_loop.simps(2) [of "Suc n"])
    with same_day_clock [OF Suc.prems(1) _ k] k s Suc.prems(3) show ?thesis by (simp add: due_ok_def)
  next
    case False
    let ?next = "nextDayAt 9 t"
    let ?t = "intoWorkingHours ?next"
    have r: "ready ?next ?t" by (rule into_ready)
    have m: "?next mod 60000 = 0" by (simp add: minute_of_day [of ?next] next_day_parts)
    have nine: "?t mod day_ms = 9 * 3600000" using r by (simp add: ready_def next_day_parts)
    then have full: "minutes_today ?t = 480" by (simp add: minutes_today_def)
    have step: "add_loop (Suc (Suc n)) t left = add_loop (Suc n) ?t (left - minutes_today t)"
      using Suc.prems(3) False av(1)
      by (simp add: Let_def BUSINESS_DAY_END_HOUR_def BUSINESS_DAY_START_HOUR_def
          del: add_loop.simps(2) add: add_loop.simps(2) [of "Suc n"])
    define due where "due = add_loop (Suc n) ?t (left - minutes_today t)"
    have "due_ok ?t (left - minutes_today t) due"
      unfolding due_def using r m False Suc.prems(4) full by (intro Suc.IH) (simp_all add: ready_def)
    moreover have "business_clock ?t = business_clock t + minutes_today t * 60000"
    proof -
      have "business_clock ?t = business_clock ?next" using r by (simp add: ready_def)
      also have "\<dots> = business_clock t + (17 * 3600000 - t mod day_ms)"
        using Suc.prems(1) unfolding clock_next_day clock_in_hours [OF Suc.prems(1)]
        by (simp add: in_working_hours_def)
      finally show ?thesis using av(2) by simp
    qed
    moreover have "t < ?t" using next_day_later [of t] r by (simp add: ready_def)
    ultimately have "due_ok t left due" by (simp add: due_ok_def left_diff_distrib)
    then show ?thesis unfolding step due_def .
  qed
qed



end
