(* ===== verification/Tickets.thy ===== *)
theory Tickets
  imports Audit_Log Sla Otp
begin

section \<open>Support tickets\<close>

text \<open>
  \<open>modules/ticket/ticket.service.ts\<close>: the tenant's side and the staff's side of a ticket. The state
  is the ticket and comment tables, the tenants and users they join, the ticket number sequence
  and the audit log. Clock readings of one request are one instant.
\<close>

subsection \<open>State\<close>

datatype ticket_status = TS_OPEN | TS_IN_PROGRESS | TS_WAITING_TENANT | TS_RESOLVED | TS_CLOSED

datatype ticket_category = TC_DELIVERY | TC_DOMAIN | TC_BILLING | TC_ACCOUNT | TC_SECURITY | TC_OTHER

datatype author_type = BY_TENANT | BY_STAFF

record ticket =
  tk_id :: uuid
  tk_tenantId :: uuid
  ticketNumber :: nat
  tk_subject :: string
  tk_description :: string
  tk_category :: ticket_category
  tk_severity :: ticket_severity
  tk_status :: ticket_status
  assignedStaffId :: "uuid option"
  openedByUserId :: uuid
  openedByType :: author_type
  slaDueAt :: "instant option"
  resolvedAt :: "instant option"
  closedAt :: "instant option"
  tk_createdAt :: instant
  tk_updatedAt :: instant

record ticket_comment =
  cm_id :: uuid
  cm_ticketId :: uuid
  cm_authorUserId :: uuid
  cm_authorType :: author_type
  cm_body :: string
  cm_internal :: bool
  cm_createdAt :: instant

record ticket_user =
  tu_id :: uuid
  tu_email :: string
  tu_displayName :: string
  tu_platformRole :: platform_role
  tu_status :: user_status

record ticket_state =
  tickets :: "ticket list"
  ticket_comments :: "ticket_comment list"
  ticket_tenants :: "(uuid \<times> string) list"
  ticket_users :: "ticket_user list"
  ticket_seq :: nat
  ticket_log :: "audit_event list"

record tenant_caller =
  tcl_tenantId :: uuid
  tcl_userId :: uuid
  tcl_role :: membership_role
  tcl_platformRole :: platform_role

definition isStaffRole :: "platform_role \<Rightarrow> bool" where
  "isStaffRole r \<longleftrightarrow> r = PR_SUPPORT \<or> r = PR_SUPER_ADMIN"

subsection \<open>What a reader is shown\<close>

record comment_view =
  cv_id :: uuid
  cv_authorType :: author_type
  cv_internal :: bool
  cv_body :: string
  cv_createdAt :: instant
  cv_author :: "(uuid \<times> string \<times> string) option"

record ticket_view =
  tv_id :: uuid
  tv_number :: nat
  tv_tenantId :: uuid
  tv_tenantName :: "string option"
  tv_subject :: string
  tv_description :: string
  tv_category :: ticket_category
  tv_severity :: ticket_severity
  tv_status :: ticket_status
  tv_openedBy :: "(uuid \<times> string \<times> string) option"
  tv_openedByType :: author_type
  tv_assignedStaff :: "(uuid \<times> string \<times> string) option"
  tv_slaDueAt :: "instant option"
  tv_slaTarget :: string
  tv_resolvedAt :: "instant option"
  tv_closedAt :: "instant option"
  tv_createdAt :: instant
  tv_updatedAt :: instant
  tv_comments :: "comment_view list"

definition author_of :: "ticket_state \<Rightarrow> uuid \<Rightarrow> (uuid \<times> string \<times> string) option" where
  "author_of st u = map_option (\<lambda>a. (tu_id a, tu_email a, tu_displayName a))
     (find_row (\<lambda>a. tu_id a = u) (ticket_users st))"

definition serializeComment :: "ticket_state \<Rightarrow> ticket_comment \<Rightarrow> comment_view" where
  "serializeComment st c =
     \<lparr>cv_id = cm_id c, cv_authorType = cm_authorType c, cv_internal = cm_internal c, cv_body = cm_body c,
      cv_createdAt = cm_createdAt c, cv_author = author_of st (cm_authorUserId c)\<rparr>"

definition comments_of :: "ticket_state \<Rightarrow> uuid \<Rightarrow> ticket_comment list" where
  "comments_of st i = sort_key cm_createdAt (filter (\<lambda>c. cm_ticketId c = i) (ticket_comments st))"

definition serializeTicket :: "ticket_state \<Rightarrow> bool \<Rightarrow> ticket \<Rightarrow> ticket_view" where
  "serializeTicket st includeInternal t =
     \<lparr>tv_id = tk_id t, tv_number = ticketNumber t, tv_tenantId = tk_tenantId t,
      tv_tenantName = map_of (ticket_tenants st) (tk_tenantId t), tv_subject = tk_subject t,
      tv_description = tk_description t, tv_category = tk_category t, tv_severity = tk_severity t,
      tv_status = tk_status t, tv_openedBy = author_of st (openedByUserId t), tv_openedByType = openedByType t,
      tv_assignedStaff = Option.bind (assignedStaffId t) (author_of st), tv_slaDueAt = slaDueAt t,
      tv_slaTarget = SEVERITY_RESPONSE_TARGET (tk_severity t), tv_resolvedAt = resolvedAt t,
      tv_closedAt = closedAt t, tv_createdAt = tk_createdAt t, tv_updatedAt = tk_updatedAt t,
      tv_comments = map (serializeComment st)
        (filter (\<lambda>c. if includeInternal then True else \<not> cm_internal c) (comments_of st (tk_id t)))\<rparr>"

subsection \<open>The tenant's side\<close>

text \<open>\<open>contains\<close> with \<open>mode: insensitive\<close>; a query of white space only is no query.\<close>

definition contains_ci :: "string \<Rightarrow> string \<Rightarrow> bool" where
  "contains_ci q s = occurs_in (map lower_char q) (map lower_char s)"

definition query_of :: "string option \<Rightarrow> string option" where
  "query_of q = (case q of None \<Rightarrow> None | Some s \<Rightarrow> if trim s = [] then None else Some (trim s))"

definition recent_first :: "nat \<Rightarrow> ticket list \<Rightarrow> ticket list" where
  "recent_first n ts = take n (rev (sort_key tk_updatedAt ts))"

definition page_limit :: "nat option \<Rightarrow> nat" where
  "page_limit l = min (case l of None \<Rightarrow> 50 | Some n \<Rightarrow> n) 200"

definition listTenant ::
  "tenant_caller \<Rightarrow> ticket_status option \<Rightarrow> string option \<Rightarrow> nat option \<Rightarrow> ticket_state
     \<Rightarrow> (ticket_status \<times> nat) list \<times> ticket_view list" where
  "listTenant caller status q limit st =
     (let visible = filter (\<lambda>t. tk_tenantId t = tcl_tenantId caller
            \<and> (tcl_role caller = MEMBER \<longrightarrow> openedByUserId t = tcl_userId caller)
            \<and> (case status of None \<Rightarrow> True | Some s \<Rightarrow> tk_status t = s)
            \<and> (case query_of q of None \<Rightarrow> True
                 | Some s \<Rightarrow> contains_ci s (tk_subject t) \<or> contains_ci s (tk_description t))) (tickets st);
          counted = (\<lambda>s. count_where (\<lambda>t. tk_tenantId t = tcl_tenantId caller \<and> tk_status t = s) (tickets st))
      in (filter (\<lambda>(s, n). 0 < n)
            (map (\<lambda>s. (s, counted s)) [TS_OPEN, TS_IN_PROGRESS, TS_WAITING_TENANT, TS_RESOLVED, TS_CLOSED]),
          map (serializeTicket st False) (recent_first (page_limit limit) visible)))"

definition getTenantTicket :: "uuid \<Rightarrow> tenant_caller \<Rightarrow> ticket_state \<Rightarrow> ticket_view result" where
  "getTenantTicket ticketId caller st =
     (case find_row (\<lambda>t. tk_id t = ticketId \<and> tk_tenantId t = tcl_tenantId caller) (tickets st) of
        None \<Rightarrow> not_found
      | Some t \<Rightarrow>
          if tcl_role caller = MEMBER \<and> openedByUserId t \<noteq> tcl_userId caller then fail_with 403 FORBIDDEN
          else Inr (serializeTicket st (isStaffRole (tcl_platformRole caller)) t))"

text \<open>What opening a ticket asks for.\<close>

record ticket_input =
  ti_subject :: string
  ti_description :: string
  ti_category :: ticket_category
  ti_severity :: ticket_severity

definition category_name :: "ticket_category \<Rightarrow> string" where
  "category_name c = (case c of TC_DELIVERY \<Rightarrow> ''DELIVERY'' | TC_DOMAIN \<Rightarrow> ''DOMAIN'' | TC_BILLING \<Rightarrow> ''BILLING''
     | TC_ACCOUNT \<Rightarrow> ''ACCOUNT'' | TC_SECURITY \<Rightarrow> ''SECURITY'' | TC_OTHER \<Rightarrow> ''OTHER'')"

definition severity_name :: "ticket_severity \<Rightarrow> string" where
  "severity_name v = (case v of URGENT \<Rightarrow> ''URGENT'' | HIGH \<Rightarrow> ''HIGH'' | MEDIUM \<Rightarrow> ''MEDIUM'' | LOW \<Rightarrow> ''LOW'')"

definition ticket_status_name :: "ticket_status \<Rightarrow> string" where
  "ticket_status_name s = (case s of TS_OPEN \<Rightarrow> ''OPEN'' | TS_IN_PROGRESS \<Rightarrow> ''IN_PROGRESS''
     | TS_WAITING_TENANT \<Rightarrow> ''WAITING_TENANT'' | TS_RESOLVED \<Rightarrow> ''RESOLVED'' | TS_CLOSED \<Rightarrow> ''CLOSED'')"

definition ticket_event ::
  "(nat \<Rightarrow> uuid) \<Rightarrow> instant \<Rightarrow> uuid \<Rightarrow> uuid \<Rightarrow> string \<Rightarrow> uuid \<Rightarrow> (string \<times> json) list \<Rightarrow> ticket_state \<Rightarrow> ticket_state" where
  "ticket_event newId now tenantId actor ty i md st =
     st\<lparr>ticket_log := log_event newId now tenantId (Some actor) None ty ''SupportTicket'' i (Some (JObj md)) (ticket_log st)\<rparr>"

definition open_ticket ::
  "(nat \<Rightarrow> uuid) \<Rightarrow> uuid \<Rightarrow> instant \<Rightarrow> uuid \<Rightarrow> uuid \<Rightarrow> author_type \<Rightarrow> uuid option \<Rightarrow> string \<Rightarrow> ticket_input
     \<Rightarrow> ticket_state \<Rightarrow> ticket \<times> ticket_state" where
  "open_ticket newId i now tenantId actor aut assigned source x st =
     (let t = \<lparr>tk_id = i, tk_tenantId = tenantId, ticketNumber = ticket_seq st, tk_subject = ti_subject x,
               tk_description = ti_description x, tk_category = ti_category x, tk_severity = ti_severity x,
               tk_status = TS_OPEN, assignedStaffId = assigned, openedByUserId = actor, openedByType = aut,
               slaDueAt = Some (slaFor (ti_severity x) now), resolvedAt = None, closedAt = None,
               tk_createdAt = now, tk_updatedAt = now\<rparr>
      in (t, ticket_event newId now tenantId actor ''TICKET_OPENED'' i
               [(''subject'', JStr (ti_subject x)), (''category'', JStr (category_name (ti_category x))),
                (''severity'', JStr (severity_name (ti_severity x))), (''source'', JStr source)]
               (st\<lparr>tickets := tickets st @ [t], ticket_seq := Suc (ticket_seq st)\<rparr>)))"

definition createTenant ::
  "(nat \<Rightarrow> uuid) \<Rightarrow> uuid \<Rightarrow> instant \<Rightarrow> ticket_input \<Rightarrow> tenant_caller \<Rightarrow> ticket_state \<Rightarrow> ticket_view \<times> ticket_state" where
  "createTenant newId i now x caller st =
     (let (t, st') = open_ticket newId i now (tcl_tenantId caller) (tcl_userId caller) BY_TENANT None ''tenant'' x st
      in (serializeTicket st' False t, st'))"

definition add_comment ::
  "(nat \<Rightarrow> uuid) \<Rightarrow> uuid \<Rightarrow> instant \<Rightarrow> ticket \<Rightarrow> uuid \<Rightarrow> author_type \<Rightarrow> string \<Rightarrow> bool \<Rightarrow> (string \<times> json) list
     \<Rightarrow> ticket_state \<Rightarrow> comment_view \<times> ticket_state" where
  "add_comment newId i now t actor aut body internal md st =
     (let c = \<lparr>cm_id = i, cm_ticketId = tk_id t, cm_authorUserId = actor, cm_authorType = aut, cm_body = body,
               cm_internal = internal, cm_createdAt = now\<rparr>;
          st' = st\<lparr>ticket_comments := ticket_comments st @ [c],
                   tickets := update_where (\<lambda>t'. tk_id t' = tk_id t) (\<lambda>t'. t'\<lparr>tk_updatedAt := now\<rparr>) (tickets st)\<rparr>
      in (serializeComment st c,
          ticket_event newId now (tk_tenantId t) actor ''TICKET_COMMENTED'' (tk_id t)
            (md @ [(''commentId'', JStr i)]) st'))"

definition commentTenant ::
  "(nat \<Rightarrow> uuid) \<Rightarrow> uuid \<Rightarrow> instant \<Rightarrow> uuid \<Rightarrow> string \<Rightarrow> tenant_caller \<Rightarrow> ticket_state
     \<Rightarrow> comment_view result \<times> ticket_state" where
  "commentTenant newId i now ticketId body caller st =
     (case find_row (\<lambda>t. tk_id t = ticketId \<and> tk_tenantId t = tcl_tenantId caller) (tickets st) of
        None \<Rightarrow> (not_found, st)
      | Some t \<Rightarrow>
          if tk_status t = TS_CLOSED then (fail_with 409 CONFLICT, st)
          else if tcl_role caller = MEMBER \<and> openedByUserId t \<noteq> tcl_userId caller then (fail_with 403 FORBIDDEN, st)
          else let (v, st') = add_comment newId i now t (tcl_userId caller) BY_TENANT body False
                     [(''authorType'', JStr ''TENANT'')] st
            in (Inr v, st'))"

subsection \<open>The staff's side\<close>

definition listPlatform ::
  "uuid option \<Rightarrow> ticket_status option \<Rightarrow> ticket_severity option \<Rightarrow> bool \<Rightarrow> string option \<Rightarrow> nat option \<Rightarrow> ticket_state
     \<Rightarrow> ticket_view list" where
  "listPlatform tenantId status severity unassigned q limit st =
     map (serializeTicket st True) (recent_first (page_limit limit) (filter (\<lambda>t.
        (case tenantId of None \<Rightarrow> True | Some i \<Rightarrow> tk_tenantId t = i)
        \<and> (case status of None \<Rightarrow> True | Some s \<Rightarrow> tk_status t = s)
        \<and> (case severity of None \<Rightarrow> True | Some v \<Rightarrow> tk_severity t = v)
        \<and> (case query_of q of None \<Rightarrow> True
             | Some s \<Rightarrow> contains_ci s (tk_subject t) \<or> contains_ci s (tk_description t)
                 \<or> (case map_of (ticket_tenants st) (tk_tenantId t) of None \<Rightarrow> False | Some n \<Rightarrow> contains_ci s n)
                 \<or> (case author_of st (openedByUserId t) of None \<Rightarrow> False | Some (u, e, d) \<Rightarrow> contains_ci s e))
        \<and> (unassigned \<longrightarrow> assignedStaffId t = None)) (tickets st)))"

definition listPlatformMine :: "uuid \<Rightarrow> ticket_state \<Rightarrow> ticket_view list" where
  "listPlatformMine userId st =
     map (serializeTicket st True) (recent_first 100 (filter (\<lambda>t. assignedStaffId t = Some userId) (tickets st)))"

definition ticket_by_id :: "uuid \<Rightarrow> ticket_state \<Rightarrow> ticket option" where
  "ticket_by_id i st = find_row (\<lambda>t. tk_id t = i) (tickets st)"

definition getPlatformTicket :: "uuid \<Rightarrow> ticket_state \<Rightarrow> ticket_view result" where
  "getPlatformTicket ticketId st =
     (case ticket_by_id ticketId st of None \<Rightarrow> not_found | Some t \<Rightarrow> Inr (serializeTicket st True t))"

definition assertStaff :: "uuid \<Rightarrow> ticket_state \<Rightarrow> unit result" where
  "assertStaff userId st =
     (case find_row (\<lambda>u. tu_id u = userId \<and> isStaffRole (tu_platformRole u) \<and> tu_status u = US_ACTIVE) (ticket_users st) of
        None \<Rightarrow> fail_with 400 VALIDATION_ERROR
      | Some u \<Rightarrow> Inr ())"

definition assert_assignee :: "uuid option \<Rightarrow> ticket_state \<Rightarrow> unit result" where
  "assert_assignee a st = (if truthy a then assertStaff (the a) st else Inr ())"

definition createPlatform ::
  "(nat \<Rightarrow> uuid) \<Rightarrow> uuid \<Rightarrow> instant \<Rightarrow> uuid \<Rightarrow> ticket_input \<Rightarrow> uuid option \<Rightarrow> uuid \<Rightarrow> ticket_state
     \<Rightarrow> ticket_view result \<times> ticket_state" where
  "createPlatform newId i now tenantId x assigned actor st =
     (if map_of (ticket_tenants st) tenantId = None then (not_found, st)
      else case assert_assignee assigned st of
             Inl e \<Rightarrow> (Inl e, st)
           | Inr _ \<Rightarrow>
               let (t, st') = open_ticket newId i now tenantId actor BY_STAFF assigned ''support-console'' x st
               in (Inr (serializeTicket st' True t), st'))"

text \<open>A patch field that is undefined leaves the column; the assignee can also be set to null.\<close>

record ticket_patch =
  tp_status :: "ticket_status option"
  tp_severity :: "ticket_severity option"
  tp_assignedStaffId :: "(uuid option) option"

definition patch_severity :: "instant \<Rightarrow> ticket_severity option \<Rightarrow> ticket \<Rightarrow> ticket \<times> (string \<times> (string \<times> json) list) list" where
  "patch_severity now p t =
     (case p of
        Some v \<Rightarrow> if v \<noteq> tk_severity t
          then (t\<lparr>tk_severity := v, slaDueAt := Some (slaFor v now)\<rparr>,
                [(''TICKET_SEVERITY_UPDATED'',
                  [(''from'', JStr (severity_name (tk_severity t))), (''to'', JStr (severity_name v))])])
          else (t, [])
      | None \<Rightarrow> (t, []))"

definition patch_status :: "instant \<Rightarrow> ticket_status option \<Rightarrow> ticket \<Rightarrow> ticket \<times> (string \<times> (string \<times> json) list) list" where
  "patch_status now p t =
     (case p of
        Some s \<Rightarrow> if s \<noteq> tk_status t
          then (let t1 = t\<lparr>tk_status := s\<rparr>;
                    t2 = (if s = TS_RESOLVED then t1\<lparr>resolvedAt := Some now\<rparr> else t1);
                    t3 = (if s = TS_CLOSED then t2\<lparr>closedAt := Some now\<rparr> else t2);
                    t4 = (if s = TS_OPEN \<or> s = TS_IN_PROGRESS \<or> s = TS_WAITING_TENANT
                          then t3\<lparr>resolvedAt := None, closedAt := None\<rparr> else t3)
                in (t4, [(''TICKET_STATUS_UPDATED'',
                     [(''from'', JStr (ticket_status_name (tk_status t))), (''to'', JStr (ticket_status_name s))])]))
          else (t, [])
      | None \<Rightarrow> (t, []))"

definition patch_assignee :: "(uuid option) option \<Rightarrow> ticket \<Rightarrow> ticket \<times> (string \<times> (string \<times> json) list) list" where
  "patch_assignee p t =
     (case p of
        Some a \<Rightarrow> if a \<noteq> assignedStaffId t
          then (t\<lparr>assignedStaffId := a\<rparr>,
                [(case a of None \<Rightarrow> (''TICKET_UNASSIGNED'', []) | Some u \<Rightarrow> (''TICKET_ASSIGNED'', [(''to'', JStr u)]))])
          else (t, [])
      | None \<Rightarrow> (t, []))"

definition ticket_events ::
  "(nat \<Rightarrow> uuid) \<Rightarrow> instant \<Rightarrow> uuid \<Rightarrow> uuid \<Rightarrow> uuid \<Rightarrow> (string \<times> (string \<times> json) list) list \<Rightarrow> ticket_state \<Rightarrow> ticket_state" where
  "ticket_events newId now tenantId actor i es st =
     fold (\<lambda>(ty, md). ticket_event newId now tenantId actor ty i md) es st"

definition updatePlatform ::
  "(nat \<Rightarrow> uuid) \<Rightarrow> instant \<Rightarrow> uuid \<Rightarrow> ticket_patch \<Rightarrow> uuid \<Rightarrow> ticket_state \<Rightarrow> ticket_view result \<times> ticket_state" where
  "updatePlatform newId now ticketId patch actor st =
     (case ticket_by_id ticketId st of
        None \<Rightarrow> (not_found, st)
      | Some current \<Rightarrow>
          (case assert_assignee (Option.bind (tp_assignedStaffId patch) id) st of
             Inl e \<Rightarrow> (Inl e, st)
           | Inr _ \<Rightarrow>
               let (t1, a1) = patch_severity now (tp_severity patch) current;
                   (t2, a2) = patch_status now (tp_status patch) t1;
                   (t3, a3) = patch_assignee (tp_assignedStaffId patch) t2;
                   audit = a1 @ a2 @ a3
               in if audit = [] then (Inr (serializeTicket st True current), st)
                  else let t = t3\<lparr>tk_updatedAt := now\<rparr>;
                           st1 = st\<lparr>tickets := update_where (\<lambda>t'. tk_id t' = ticketId) (\<lambda>_. t) (tickets st)\<rparr>;
                           st2 = ticket_events newId now (tk_tenantId t) actor ticketId audit st1
                    in (Inr (serializeTicket st2 True t), st2)))"

definition commentPlatform ::
  "(nat \<Rightarrow> uuid) \<Rightarrow> uuid \<Rightarrow> instant \<Rightarrow> uuid \<Rightarrow> string \<Rightarrow> bool \<Rightarrow> uuid \<Rightarrow> ticket_state
     \<Rightarrow> comment_view result \<times> ticket_state" where
  "commentPlatform newId i now ticketId body internal actor st =
     (case ticket_by_id ticketId st of
        None \<Rightarrow> (not_found, st)
      | Some t \<Rightarrow>
          if tk_status t = TS_CLOSED then (fail_with 409 CONFLICT, st)
          else let (v, st') = add_comment newId i now t actor BY_STAFF body internal
                     [(''authorType'', JStr ''STAFF''), (''internal'', JBool internal)] st
            in (Inr v, st'))"

definition listStaff :: "ticket_state \<Rightarrow> (uuid \<times> string \<times> string) list" where
  "listStaff st = map (\<lambda>u. (tu_id u, tu_email u, tu_displayName u))
     (sort_key tu_displayName (filter (\<lambda>u. isStaffRole (tu_platformRole u) \<and> tu_status u = US_ACTIVE) (ticket_users st)))"

subsection \<open>The machine\<close>

datatype ticket_op =
    TOpen uuid instant ticket_input tenant_caller
  | TComment uuid instant uuid string tenant_caller
  | SOpen uuid instant uuid ticket_input "uuid option" uuid
  | SUpdate instant uuid ticket_patch uuid
  | SComment uuid instant uuid string bool uuid

text \<open>The identifiers of new rows are primary keys: the database takes no identifier twice.\<close>

definition ticket_id_taken :: "uuid \<Rightarrow> ticket_state \<Rightarrow> bool" where
  "ticket_id_taken i st \<longleftrightarrow> list_ex (\<lambda>t. tk_id t = i) (tickets st) \<or> list_ex (\<lambda>c. cm_id c = i) (ticket_comments st)"

fun ticket_step :: "(nat \<Rightarrow> uuid) \<Rightarrow> ticket_state \<Rightarrow> ticket_op \<Rightarrow> ticket_state" where
  "ticket_step newId st (TOpen i now x caller) =
     (if ticket_id_taken i st then st else snd (createTenant newId i now x caller st))"
| "ticket_step newId st (TComment i now k body caller) =
     (if ticket_id_taken i st then st else snd (commentTenant newId i now k body caller st))"
| "ticket_step newId st (SOpen i now tn x a actor) =
     (if ticket_id_taken i st then st else snd (createPlatform newId i now tn x a actor st))"
| "ticket_step newId st (SUpdate now k patch actor) = snd (updatePlatform newId now k patch actor st)"
| "ticket_step newId st (SComment i now k body internal actor) =
     (if ticket_id_taken i st then st else snd (commentPlatform newId i now k body internal actor st))"

subsection \<open>History is kept\<close>

lemma ticket_event_simps [simp]:
  "tickets (ticket_event newId now tn a ty i md st) = tickets st"
  "ticket_comments (ticket_event newId now tn a ty i md st) = ticket_comments st"
  "ticket_users (ticket_event newId now tn a ty i md st) = ticket_users st"
  "ticket_tenants (ticket_event newId now tn a ty i md st) = ticket_tenants st"
  by (simp_all add: ticket_event_def)

lemma ticket_event_prefix: "prefix (ticket_log st) (ticket_log (ticket_event newId now tn a ty i md st))"
  by (simp add: ticket_event_def log_event_prefix)

lemma ticket_events_keep:
  "tickets (ticket_events newId now tn a i es st) = tickets st"
  "ticket_comments (ticket_events newId now tn a i es st) = ticket_comments st"
  unfolding ticket_events_def by (induction es arbitrary: st) auto

lemma ticket_events_log: "prefix (ticket_log st) (ticket_log (ticket_events newId now tn a i es st))"
proof (induction es arbitrary: st)
  case (Cons e es)
  obtain ty md where e: "e = (ty, md)" by (cases e)
  have "prefix (ticket_log st) (ticket_log (ticket_event newId now tn a ty i md st))" by (rule ticket_event_prefix)
  also have "prefix \<dots> (ticket_log (ticket_events newId now tn a i es (ticket_event newId now tn a ty i md st)))"
    by (rule Cons.IH)
  finally show ?case by (simp add: ticket_events_def e)
qed (simp add: ticket_events_def)

text \<open>What a request does to the tables, in one of three ways.\<close>

datatype ticket_effect = No_Effect | New_Ticket ticket | New_Comment ticket_comment instant | Patched uuid ticket

fun apply_effect :: "ticket_effect \<Rightarrow> ticket list \<times> ticket_comment list \<Rightarrow> ticket list \<times> ticket_comment list" where
  "apply_effect No_Effect s = s"
| "apply_effect (New_Ticket t) (ts, cs) = (ts @ [t], cs)"
| "apply_effect (New_Comment c now) (ts, cs) =
     (update_where (\<lambda>t. tk_id t = cm_ticketId c) (\<lambda>t. t\<lparr>tk_updatedAt := now\<rparr>) ts, cs @ [c])"
| "apply_effect (Patched k t) (ts, cs) = (update_where (\<lambda>t'. tk_id t' = k) (\<lambda>_. t) ts, cs)"

definition patched :: "instant \<Rightarrow> ticket_patch \<Rightarrow> ticket \<Rightarrow> ticket" where
  "patched now p t = (fst (patch_assignee (tp_assignedStaffId p)
     (fst (patch_status now (tp_status p) (fst (patch_severity now (tp_severity p) t))))))\<lparr>tk_updatedAt := now\<rparr>"

definition effect_ok :: "ticket_state \<Rightarrow> ticket_effect \<Rightarrow> bool" where
  "effect_ok st e = (case e of
       No_Effect \<Rightarrow> True
     | New_Ticket t \<Rightarrow> \<not> ticket_id_taken (tk_id t) st \<and> tk_status t = TS_OPEN \<and> resolvedAt t = None \<and> closedAt t = None
     | New_Comment c now \<Rightarrow> \<not> ticket_id_taken (cm_id c) st \<and>
         (\<exists>t. t \<in> set (tickets st) \<and> tk_id t = cm_ticketId c \<and> tk_status t \<noteq> TS_CLOSED)
     | Patched k t \<Rightarrow> (\<exists>now p t0. t0 \<in> set (tickets st) \<and> tk_id t0 = k \<and> t = patched now p t0))"

lemma add_comment_effect:
  "(tickets (snd (add_comment newId i now t a aut body internal md st)),
    ticket_comments (snd (add_comment newId i now t a aut body internal md st))) =
     apply_effect (New_Comment \<lparr>cm_id = i, cm_ticketId = tk_id t, cm_authorUserId = a, cm_authorType = aut,
        cm_body = body, cm_internal = internal, cm_createdAt = now\<rparr> now) (tickets st, ticket_comments st)"
  by (simp add: add_comment_def Let_def)

lemma add_comment_log: "prefix (ticket_log st) (ticket_log (snd (add_comment newId i now t a aut body internal md st)))"
proof -
  have "prefix (ticket_log st) (ticket_log (ticket_event newId now tn a ty k md (st\<lparr>ticket_comments := cs, tickets := ts\<rparr>)))"
    for tn ty k md cs ts
    using ticket_event_prefix [of "st\<lparr>ticket_comments := cs, tickets := ts\<rparr>"] by simp
  then show ?thesis by (simp add: add_comment_def Let_def)
qed

lemma open_ticket_log: "prefix (ticket_log st) (ticket_log (snd (open_ticket newId i now tn a aut asg src x st)))"
  by (simp add: open_ticket_def Let_def ticket_event_def log_event_prefix)

lemma ticket_step_log: "prefix (ticket_log st) (ticket_log (ticket_step newId st x))"
proof (cases x)
  case (SUpdate now k patch actor)
  have "prefix (ticket_log st) (ticket_log (ticket_events newId now tn a i es (st\<lparr>tickets := ts\<rparr>)))"
    for tn a i es ts
    using ticket_events_log [of "st\<lparr>tickets := ts\<rparr>"] by simp
  then show ?thesis
    by (simp add: SUpdate updatePlatform_def Let_def split_beta split: option.split sum.split)
qed (simp_all add: createTenant_def createPlatform_def commentTenant_def commentPlatform_def split_beta Let_def
      open_ticket_log add_comment_log split: option.split sum.split)

lemma ticket_step_effect:
  "\<exists>e. effect_ok st e \<and> (tickets (ticket_step newId st x), ticket_comments (ticket_step newId st x))
     = apply_effect e (tickets st, ticket_comments st)"
proof -
  have none: ?thesis if "tickets (ticket_step newId st x) = tickets st" "ticket_comments (ticket_step newId st x) = ticket_comments st"
    using that by (intro exI [of _ No_Effect]) (simp add: effect_ok_def)
  have opened: "\<exists>e. effect_ok st e \<and> (tickets (snd (open_ticket newId i now tn a aut asg src y st)),
      ticket_comments (snd (open_ticket newId i now tn a aut asg src y st))) = apply_effect e (tickets st, ticket_comments st)"
    if "\<not> ticket_id_taken i st" for i now tn a aut asg src y
    using that by (intro exI [of _ "New_Ticket (fst (open_ticket newId i now tn a aut asg src y st))"])
      (simp add: effect_ok_def open_ticket_def Let_def)
  have commented: "\<exists>e. effect_ok st e \<and> (tickets (snd (add_comment newId i now t a aut body internal md st)),
      ticket_comments (snd (add_comment newId i now t a aut body internal md st))) = apply_effect e (tickets st, ticket_comments st)"
    if "\<not> ticket_id_taken i st" "t \<in> set (tickets st)" "tk_status t \<noteq> TS_CLOSED" for i now t a aut body internal md
    unfolding add_comment_effect by (rule exI, rule conjI [OF _ refl]) (use that in \<open>auto simp: effect_ok_def\<close>)
  show ?thesis
  proof (cases x)
    case (TOpen i now y caller)
    then show ?thesis using none opened [of i] by (simp add: createTenant_def split_beta)
  next
    case (TComment i now k body caller)
    then show ?thesis using none commented [of i]
      by (simp add: commentTenant_def split_beta split: option.split) (blast dest: find_row_SomeD)
  next
    case (SOpen i now tn y a actor)
    then show ?thesis using none opened [of i] by (simp add: createPlatform_def split_beta split: sum.split)
  next
    case (SComment i now k body internal actor)
    then show ?thesis using none commented [of i]
      by (simp add: commentPlatform_def ticket_by_id_def split_beta split: option.split) (blast dest: find_row_SomeD)
  next
    case (SUpdate now k p actor)
    show ?thesis
    proof (cases "tickets (ticket_step newId st x) = tickets st")
      case True
      then show ?thesis using none
        by (simp add: SUpdate updatePlatform_def Let_def split_beta ticket_events_keep split: option.split sum.split)
    next
      case False
      then obtain t0 where t0: "find_row (\<lambda>t. tk_id t = k) (tickets st) = Some t0"
        by (auto simp: SUpdate updatePlatform_def ticket_by_id_def split: option.splits)
      with False have "(tickets (ticket_step newId st x), ticket_comments (ticket_step newId st x))
          = apply_effect (Patched k (patched now p t0)) (tickets st, ticket_comments st)"
        by (auto simp: SUpdate updatePlatform_def ticket_by_id_def Let_def split_beta ticket_events_keep patched_def
            split: if_splits sum.splits)
      moreover have "effect_ok st (Patched k (patched now p t0))"
        using find_row_SomeD [OF t0] by (auto simp: effect_ok_def)
      ultimately show ?thesis by blast
    qed
  qed
qed

interpretation ticket_history: append_only "ticket_step newId" ticket_log
  for newId
  by unfold_locales (rule ticket_step_log)

lemma ticket_step_comments: "prefix (ticket_comments st) (ticket_comments (ticket_step newId st x))"
proof -
  obtain e where "(tickets (ticket_step newId st x), ticket_comments (ticket_step newId st x))
     = apply_effect e (tickets st, ticket_comments st)" using ticket_step_effect by blast
  then show ?thesis by (cases e) auto
qed

interpretation ticket_thread: append_only "ticket_step newId" ticket_comments
  for newId
  by unfold_locales (rule ticket_step_comments)

subsection \<open>The stamps follow the status\<close>

definition stamps_ok :: "ticket \<Rightarrow> bool" where
  "stamps_ok t \<longleftrightarrow>
     (tk_status t \<in> {TS_OPEN, TS_IN_PROGRESS, TS_WAITING_TENANT} \<longrightarrow> resolvedAt t = None \<and> closedAt t = None)
     \<and> (tk_status t = TS_RESOLVED \<longrightarrow> resolvedAt t \<noteq> None) \<and> (tk_status t = TS_CLOSED \<longrightarrow> closedAt t \<noteq> None)"

lemma patch_severity_stamps:
  "tk_status (fst (patch_severity now p t)) = tk_status t" "resolvedAt (fst (patch_severity now p t)) = resolvedAt t"
  "closedAt (fst (patch_severity now p t)) = closedAt t" "tk_id (fst (patch_severity now p t)) = tk_id t"
  by (simp_all add: patch_severity_def split: option.split)

lemma patch_assignee_stamps:
  "tk_status (fst (patch_assignee p t)) = tk_status t" "resolvedAt (fst (patch_assignee p t)) = resolvedAt t"
  "closedAt (fst (patch_assignee p t)) = closedAt t" "tk_id (fst (patch_assignee p t)) = tk_id t"
  by (simp_all add: patch_assignee_def split: option.split)

lemma patch_status_stamps:
  "stamps_ok t \<Longrightarrow> stamps_ok (fst (patch_status now p t))" "tk_id (fst (patch_status now p t)) = tk_id t"
  by (auto simp: patch_status_def stamps_ok_def Let_def split: option.split)

lemma patched_stamps: "stamps_ok t \<Longrightarrow> stamps_ok (patched now p t)" and patched_id: "tk_id (patched now p t) = tk_id t"
proof -
  show "tk_id (patched now p t) = tk_id t"
    by (simp add: patched_def patch_assignee_stamps patch_status_stamps patch_severity_stamps)
  assume "stamps_ok t"
  then have "stamps_ok (fst (patch_status now (tp_status p) (fst (patch_severity now (tp_severity p) t))))"
    by (intro patch_status_stamps) (simp add: stamps_ok_def patch_severity_stamps)
  then show "stamps_ok (patched now p t)" by (simp add: patched_def stamps_ok_def patch_assignee_stamps)
qed

definition ticket_inv :: "ticket_state \<Rightarrow> bool" where
  "ticket_inv st \<longleftrightarrow> unique_key tk_id (tickets st) \<and> (\<forall>t\<in>set (tickets st). stamps_ok t)
     \<and> cm_ticketId ` set (ticket_comments st) \<subseteq> tk_id ` set (tickets st)"

lemma ticket_ids_update:
  assumes "\<And>t. t \<in> set ts \<Longrightarrow> P t \<Longrightarrow> tk_id (f t) = tk_id t"
  shows "map tk_id (update_where P f ts) = map tk_id ts"
  using assms by (simp add: update_where_def)

lemma ticket_id_taken_iff: "ticket_id_taken i st \<longleftrightarrow> i \<in> tk_id ` set (tickets st) \<or> i \<in> cm_id ` set (ticket_comments st)"
  by (auto simp: ticket_id_taken_def list_ex_iff)

lemma ticket_step_inv: "ticket_inv st \<Longrightarrow> ticket_inv (ticket_step newId st x)"
proof -
  assume inv: "ticket_inv st"
  obtain e where ok: "effect_ok st e"
    and e: "(tickets (ticket_step newId st x), ticket_comments (ticket_step newId st x))
     = apply_effect e (tickets st, ticket_comments st)" using ticket_step_effect by blast
  show ?thesis
  proof (cases e)
    case No_Effect
    with e inv show ?thesis by (simp add: ticket_inv_def)
  next
    case (New_Ticket t)
    with e inv ok show ?thesis
      by (auto simp: ticket_inv_def effect_ok_def unique_key_snoc ticket_id_taken_iff stamps_ok_def)
  next
    case (New_Comment c now)
    let ?ts = "update_where (\<lambda>t. tk_id t = cm_ticketId c) (\<lambda>t. t\<lparr>tk_updatedAt := now\<rparr>) (tickets st)"
    have ids: "map tk_id ?ts = map tk_id (tickets st)" by (rule ticket_ids_update) simp
    then have "tk_id ` set ?ts = tk_id ` set (tickets st)" by (metis set_map)
    moreover have "\<forall>t\<in>set ?ts. stamps_ok t"
      using inv by (auto simp: ticket_inv_def set_update_where stamps_ok_def)
    moreover have "cm_ticketId c \<in> tk_id ` set (tickets st)" using ok New_Comment by (force simp: effect_ok_def)
    ultimately show ?thesis using New_Comment e inv ids by (simp add: ticket_inv_def unique_key_def)
  next
    case (Patched k t)
    with ok obtain now p t0 where t0: "t0 \<in> set (tickets st)" "tk_id t0 = k" "t = patched now p t0"
      by (auto simp: effect_ok_def)
    let ?ts = "update_where (\<lambda>t'. tk_id t' = k) (\<lambda>_. t) (tickets st)"
    have ids: "map tk_id ?ts = map tk_id (tickets st)"
      by (rule ticket_ids_update) (simp add: t0 patched_id)
    then have "tk_id ` set ?ts = tk_id ` set (tickets st)" by (metis set_map)
    moreover have "stamps_ok t" using inv t0 by (simp add: ticket_inv_def patched_stamps)
    then have "\<forall>t\<in>set ?ts. stamps_ok t" using inv by (auto simp: ticket_inv_def set_update_where)
    moreover note calculation
    ultimately show ?thesis using Patched e inv ids by (simp add: ticket_inv_def unique_key_def)
  qed
qed

interpretation ticket_wf: op_machine "ticket_step newId" ticket_inv
  for newId
  by unfold_locales (rule ticket_step_inv)


subsection \<open>What a tenant can see\<close>

definition shown_to :: "tenant_caller \<Rightarrow> ticket_state \<Rightarrow> ticket_view \<Rightarrow> bool" where
  "shown_to caller st v \<longleftrightarrow> tv_tenantId v = tcl_tenantId caller
     \<and> (\<exists>t\<in>set (tickets st). tk_id t = tv_id v \<and> tk_tenantId t = tcl_tenantId caller
          \<and> (tcl_role caller = MEMBER \<longrightarrow> openedByUserId t = tcl_userId caller))"

lemma serialize_public: "c \<in> set (tv_comments (serializeTicket st False t)) \<Longrightarrow> \<not> cv_internal c"
  by (auto simp: serializeTicket_def serializeComment_def)

text \<open>
  C34: a tenant never sees another tenant's ticket, a member never sees a colleague's, and the
  internal comments of the support staff reach no tenant session that is not itself staff: the
  list never carries one, and a single ticket carries one only when the caller holds a platform
  support role. What a tenant writes is never marked internal.
\<close>

theorem tenant_view_confined:
  assumes "v \<in> set (snd (listTenant caller status q limit st))
      \<or> getTenantTicket i caller st = Inr v"
  shows "shown_to caller st v
     \<and> ((\<exists>c\<in>set (tv_comments v). cv_internal c) \<longrightarrow>
          isStaffRole (tcl_platformRole caller) \<and> getTenantTicket i caller st = Inr v)
     \<and> (\<forall>newId j now k body w st'. commentTenant newId j now k body caller st = (Inr w, st') \<longrightarrow> \<not> cv_internal w)"
proof (intro conjI impI allI)
  from assms show "shown_to caller st v"
  proof
    assume "v \<in> set (snd (listTenant caller status q limit st))"
    then show ?thesis
      by (auto simp: listTenant_def Let_def recent_first_def shown_to_def serializeTicket_def dest!: in_set_takeD)
  next
    assume "getTenantTicket i caller st = Inr v"
    then show ?thesis
      by (auto simp: getTenantTicket_def shown_to_def serializeTicket_def split: option.splits if_splits dest!: find_row_SomeD)
  qed
next
  assume int: "\<exists>c\<in>set (tv_comments v). cv_internal c"
  have no: "v \<notin> set (snd (listTenant caller status q limit st))"
    using int by (auto simp: listTenant_def Let_def dest: serialize_public)
  with assms show get: "getTenantTicket i caller st = Inr v" by blast
  show "isStaffRole (tcl_platformRole caller)"
  proof (rule ccontr)
    assume "\<not> isStaffRole (tcl_platformRole caller)"
    with get obtain t where "v = serializeTicket st False t"
      by (auto simp: getTenantTicket_def split: option.splits if_splits)
    with int serialize_public show False by blast
  qed
next
  fix newId j now k body w st'
  assume "commentTenant newId j now k body caller st = (Inr w, st')"
  then show "\<not> cv_internal w"
    by (auto simp: commentTenant_def add_comment_def Let_def serializeComment_def split: option.splits if_splits)
qed

definition demo_tickets :: ticket_state where
  "demo_tickets = \<lparr>tickets = [], ticket_comments = [], ticket_tenants = [(''t1'', ''Acme'')],
     ticket_users = [\<lparr>tu_id = ''s'', tu_email = ''s@zoiko'', tu_displayName = ''S'', tu_platformRole = PR_SUPPORT, tu_status = US_ACTIVE\<rparr>],
     ticket_seq = 1, ticket_log = []\<rparr>"

definition demo_member :: tenant_caller where
  "demo_member = \<lparr>tcl_tenantId = ''t1'', tcl_userId = ''m'', tcl_role = MEMBER, tcl_platformRole = PR_NONE\<rparr>"

definition demo_ticket_ops :: "ticket_op list" where
  "demo_ticket_ops =
     [TOpen ''k'' 0 \<lparr>ti_subject = ''Mail'', ti_description = ''late'', ti_category = TC_DELIVERY, ti_severity = HIGH\<rparr> demo_member,
      SComment ''c1'' 1 ''k'' ''seen'' True ''s'', TComment ''c2'' 2 ''k'' ''thanks'' demo_member,
      SUpdate 3 ''k'' \<lparr>tp_status = Some TS_CLOSED, tp_severity = None, tp_assignedStaffId = Some (Some ''s'')\<rparr> ''s'',
      TComment ''c3'' 4 ''k'' ''again'' demo_member]"

definition demo_newId :: "nat \<Rightarrow> uuid" where
  "demo_newId n = replicate n (CHR ''e'')"


theorem tenant_view_confined_witness:
  "let st = foldl (ticket_step demo_newId) demo_tickets demo_ticket_ops;
       v = serializeTicket st False (hd (tickets st))
   in getTenantTicket ''k'' demo_member st = Inr v \<and> shown_to demo_member st v
    \<and> map cv_id (tv_comments v) = [''c2'']"
proof -
  let ?st = "foldl (ticket_step demo_newId) demo_tickets demo_ticket_ops"
  let ?v = "serializeTicket ?st False (hd (tickets ?st))"
  have get: "getTenantTicket ''k'' demo_member ?st = Inr ?v" by code_simp
  then have "shown_to demo_member ?st ?v"
    using tenant_view_confined [of ?v demo_member None None None ?st "''k''"] by blast
  moreover have "map cv_id (tv_comments ?v) = [''c2'']" by code_simp
  ultimately show ?thesis using get by (simp only: Let_def simp_thms)
qed

end
