(* ===== verification/Dns_Records.thy ===== *)
theory Dns_Records
  imports Totp Json
begin

section \<open>The DNS records a customer domain publishes\<close>

text \<open>
  \<open>modules/domain/dns.records.ts\<close>: the records derived from a domain's own configuration and the
  platform's infrastructure, the splitting of TXT values and the zone file. Host names, tags and
  policies are ASCII, so \<open>toLowerCase\<close> is \<open>lower_char\<close> on every character.
\<close>

subsection \<open>Text\<close>

fun split_on :: "char \<Rightarrow> string \<Rightarrow> string list" where
  "split_on c [] = [[]]"
| "split_on c (d # ds) =
     (if d = c then [] # split_on c ds
      else (case split_on c ds of [] \<Rightarrow> [[d]] | w # ws \<Rightarrow> (d # w) # ws))"

fun join_with :: "string \<Rightarrow> string list \<Rightarrow> string" where
  "join_with sep [] = []"
| "join_with sep [w] = w"
| "join_with sep (w # v # ws) = w @ sep @ join_with sep (v # ws)"

definition lowercase :: "string \<Rightarrow> string" where
  "lowercase s = map lower_char s"

definition ends_with :: "string \<Rightarrow> string \<Rightarrow> bool" where
  "ends_with w s = starts_with (rev w) (rev s)"

text \<open>\<open>Number\<close> of a string of digits.\<close>

definition to_number :: "string \<Rightarrow> int" where
  "to_number s = foldl (\<lambda>n c. 10 * n + (of_char c - 48)) 0 s"

text \<open>\<open>[...new Set(xs)]\<close>: the first occurrence of each element, in order.\<close>

definition dedupe :: "'a list \<Rightarrow> 'a list" where
  "dedupe xs = rev (remdups (rev xs))"

lemma set_dedupe [simp]: "set (dedupe xs) = set xs"
  by (simp add: dedupe_def)

lemma split_on_not_Nil [simp]: "split_on c s \<noteq> []"
  by (induction s) (auto split: list.splits)

lemma split_on_no_sep: "c \<notin> set s \<Longrightarrow> split_on c s = [s]"
  by (induction s) auto

lemma split_on_append: "c \<notin> set w \<Longrightarrow> split_on c (w @ c # s) = w # split_on c s"
  by (induction w) auto

subsection \<open>The platform's own configuration\<close>

record mx_host =
  mx_host :: string
  mx_priority :: int

record dns_env =
  DNS_MX_HOSTS :: string
  DNS_SPF_INCLUDE :: string
  DNS_SPF_ALL :: string
  DNS_DMARC_RUA :: "string option"
  DNS_AUTOCONFIG_HOST :: "string option"
  DNS_RECORD_TTL :: int

record platform_dns_config =
  mxHosts :: "mx_host list"
  spfInclude :: string
  spfAll :: string
  dmarcRua :: "string option"
  autoconfigHost :: "string option"
  cfg_ttl :: int

definition normalizeHost :: "string \<Rightarrow> string" where
  "normalizeHost host =
     (let h = lowercase (trim host)
      in if h \<noteq> [] \<and> last h = CHR ''.'' then butlast h else h)"

definition platformDnsConfig :: "dns_env \<Rightarrow> platform_dns_config" where
  "platformDnsConfig env =
     \<lparr>mxHosts = map (\<lambda>pair. let parts = split_on (CHR '':'') pair
          in \<lparr>mx_host = normalizeHost (hd parts), mx_priority = to_number (parts ! 1)\<rparr>)
        (split_on (CHR '','') (DNS_MX_HOSTS env)),
      spfInclude = lowercase (DNS_SPF_INCLUDE env), spfAll = DNS_SPF_ALL env,
      dmarcRua = DNS_DMARC_RUA env,
      autoconfigHost = (case DNS_AUTOCONFIG_HOST env of None \<Rightarrow> None
         | Some h \<Rightarrow> if h = [] then None else Some (normalizeHost h)),
      cfg_ttl = DNS_RECORD_TTL env\<rparr>"

subsection \<open>Records\<close>

datatype record_purpose = OWNERSHIP | MX | SPF | DKIM | DMARC | AUTODISCOVER | AUTOCONFIG

datatype record_type = T_TXT | T_MX | T_CNAME

datatype dkim_status = DK_PENDING | DK_ACTIVE | DK_RETIRING | DK_RETIRED

datatype dmarc_policy = P_NONE | P_QUARANTINE | P_REJECT

record dns_spec =
  recordKey :: string
  purpose :: record_purpose
  rtype :: record_type
  rname :: string
  fqdn :: string
  rvalue :: string
  priority :: "int option"
  ttl :: int
  required :: bool
  dkimKeyId :: "uuid option"

record domain_dns_input =
  i_domainName :: string
  i_verificationToken :: string
  i_receivingEnabled :: bool
  i_dmarcPolicy :: dmarc_policy
  i_dmarcReportEmail :: "string option"

record dkim_key_input =
  k_id :: uuid
  k_selector :: string
  k_publicKey :: string
  k_status :: dkim_status

definition fqdnFor :: "string \<Rightarrow> string \<Rightarrow> string" where
  "fqdnFor name domainName = (if name = ''@'' then domainName else name @ ''.'' @ domainName)"

definition spfValue :: "platform_dns_config \<Rightarrow> string" where
  "spfValue config = ''v=spf1 include:'' @ spfInclude config @ '' '' @ spfAll config"

definition dkimValue :: "string \<Rightarrow> string" where
  "dkimValue publicKey = ''v=DKIM1; k=rsa; p='' @ publicKey"

fun policy_name :: "dmarc_policy \<Rightarrow> string" where
  "policy_name P_NONE = ''none''"
| "policy_name P_QUARANTINE = ''quarantine''"
| "policy_name P_REJECT = ''reject''"

definition dmarcValue :: "dmarc_policy \<Rightarrow> string option \<Rightarrow> string" where
  "dmarcValue policy reportEmail =
     join_with ''; ''
       ([''v=DMARC1'', ''p='' @ policy_name policy]
        @ (if truthy reportEmail then [''rua=mailto:'' @ the reportEmail] else [])
        @ [''adkim=r'', ''aspf=r''])"

text \<open>The local \<open>record\<close>: what a record has unless it says otherwise.\<close>

definition spec_for ::
  "string \<Rightarrow> platform_dns_config \<Rightarrow> string \<Rightarrow> record_purpose \<Rightarrow> record_type \<Rightarrow> string \<Rightarrow> string \<Rightarrow> bool
     \<Rightarrow> dns_spec" where
  "spec_for d config key pur ty nm v req =
     \<lparr>recordKey = key, purpose = pur, rtype = ty, rname = nm, fqdn = fqdnFor nm d, rvalue = v,
      priority = None, ttl = cfg_ttl config, required = req, dkimKeyId = None\<rparr>"

definition expectedRecords ::
  "domain_dns_input \<Rightarrow> dkim_key_input list \<Rightarrow> platform_dns_config \<Rightarrow> dns_spec list" where
  "expectedRecords dmn keys config =
     (let d = i_domainName dmn; mk = spec_for d config
      in [mk ''OWNERSHIP'' OWNERSHIP T_TXT ''@'' (i_verificationToken dmn) True]
       @ (if i_receivingEnabled dmn
          then map (\<lambda>mx. (mk (''MX:'' @ mx_host mx) MX T_MX ''@'' (mx_host mx) True)
                       \<lparr>priority := Some (mx_priority mx)\<rparr>) (mxHosts config)
          else [])
       @ [mk ''SPF'' SPF T_TXT ''@'' (spfValue config) True]
       @ map (\<lambda>key. (mk (''DKIM:'' @ k_selector key) DKIM T_TXT (k_selector key @ ''._domainkey'')
                       (dkimValue (k_publicKey key)) (k_status key = DK_ACTIVE))
                     \<lparr>dkimKeyId := Some (k_id key)\<rparr>)
             (filter (\<lambda>key. k_status key \<noteq> DK_RETIRED) keys)
       @ [mk ''DMARC'' DMARC T_TXT ''_dmarc''
            (dmarcValue (i_dmarcPolicy dmn)
               (case i_dmarcReportEmail dmn of Some e \<Rightarrow> Some e | None \<Rightarrow> dmarcRua config)) True]
       @ (if i_receivingEnabled dmn \<and> truthy (autoconfigHost config)
          then [mk ''AUTODISCOVER'' AUTODISCOVER T_CNAME ''autodiscover'' (the (autoconfigHost config)) False,
                mk ''AUTOCONFIG'' AUTOCONFIG T_CNAME ''autoconfig'' (the (autoconfigHost config)) False]
          else []))"

definition last_two :: "'a list \<Rightarrow> 'a list" where
  "last_two xs = drop (length xs - 2) xs"

definition platformOwnedDomains :: "platform_dns_config \<Rightarrow> string list" where
  "platformOwnedDomains config =
     (let registrable = (\<lambda>host. join_with ''.'' (last_two (split_on (CHR ''.'') host)));
          inc = spfInclude config;
          hosts = map mx_host (mxHosts config)
            @ [if starts_with ''_spf.'' inc then drop 5 inc else inc]
            @ (if truthy (autoconfigHost config) then [the (autoconfigHost config)] else [])
      in dedupe (map registrable hosts))"

subsection \<open>TXT values and the zone file\<close>

text \<open>The loop advances by 255 characters until the value is used up.\<close>

function txt_pieces :: "string \<Rightarrow> string list" where
  "txt_pieces v = (if v = [] then [] else take 255 v # txt_pieces (drop 255 v))"
  by pat_completeness auto
termination
  by (relation "measure length") auto

declare txt_pieces.simps [simp del]

definition txtChunks :: "string \<Rightarrow> string list" where
  "txtChunks v = (let chunks = txt_pieces v in if chunks \<noteq> [] then chunks else [[]])"

fun escape_text :: "string \<Rightarrow> string" where
  "escape_text [] = []"
| "escape_text (c # cs) =
     (if c = CHR 0x5C \<or> c = CHR 0x22 then [CHR 0x5C, c] else [c]) @ escape_text cs"

definition quote_text :: "string \<Rightarrow> string" where
  "quote_text s = [CHR 0x22] @ escape_text s @ [CHR 0x22]"

definition txt_field :: "string \<Rightarrow> string" where
  "txt_field v = join_with '' '' (map quote_text (txtChunks v))"

definition zone_line :: "dns_spec \<Rightarrow> string" where
  "zone_line r =
     (let tab = [CHR 0x09];
          lead = rname r @ tab @ decimal (ttl r) @ tab @ ''IN'' @ tab
      in case rtype r of
           T_TXT \<Rightarrow> lead @ ''TXT'' @ tab @ txt_field (rvalue r)
         | T_MX \<Rightarrow> lead @ ''MX'' @ tab
             @ decimal (case priority r of Some p \<Rightarrow> p | None \<Rightarrow> 10) @ tab @ rvalue r @ ''.''
         | T_CNAME \<Rightarrow> lead @ ''CNAME'' @ tab @ rvalue r @ ''.'')"

definition zoneFile :: "string \<Rightarrow> dns_spec list \<Rightarrow> string \<Rightarrow> string" where
  "zoneFile domainName records generatedAt =
     (let nl = [CHR 0x0A];
          lines = [''; Zoiko Mail DNS records for '' @ domainName,
                   ''; Generated '' @ generatedAt
                     @ ''. Import into your DNS host, or add each record by hand.'',
                   ''$ORIGIN '' @ domainName @ ''.''] @ map zone_line records
      in join_with nl lines @ nl)"

text \<open>
  The specification the zone file is written for: a master file's character strings, each between
  double quotes with the backslash as escape, separated by a space.
\<close>

fun read_string :: "string \<Rightarrow> string \<times> string" where
  "read_string [] = ([], [])"
| "read_string [c] = (if c = CHR 0x22 \<or> c = CHR 0x5C then ([], []) else ([c], []))"
| "read_string (c # d # cs) =
     (if c = CHR 0x22 then ([], d # cs)
      else if c = CHR 0x5C then (d # fst (read_string cs), snd (read_string cs))
      else (c # fst (read_string (d # cs)), snd (read_string (d # cs))))"

lemma read_string_shorter: "length (snd (read_string s)) \<le> length s"
  by (induction s rule: read_string.induct) auto

function read_strings :: "string \<Rightarrow> string list" where
  "read_strings [] = []"
| "read_strings (c # cs) =
     (if c = CHR 0x22 then fst (read_string cs) # read_strings (snd (read_string cs))
      else read_strings cs)"
  by pat_completeness auto
termination
  by (relation "measure length") (auto simp: le_imp_less_Suc read_string_shorter)

lemma read_string_Cons:
  assumes "c \<noteq> CHR 0x22" "c \<noteq> CHR 0x5C"
  shows "read_string (c # s) = (c # fst (read_string s), snd (read_string s))"
  using assms by (cases s) auto

lemma read_string_end: "read_string (CHR 0x22 # s) = ([], s)"
  by (cases s) auto

lemma read_string_escape: "read_string (escape_text s @ CHR 0x22 # rest) = (s, rest)"
  by (induction s) (auto simp: read_string_Cons read_string_end)

lemma read_strings_quote: "read_strings (quote_text s @ rest) = s # read_strings rest"
  by (simp add: quote_text_def read_string_escape)

lemma read_strings_join: "read_strings (join_with '' '' (map quote_text ws)) = ws"
proof (induction ws rule: induct_list012)
  case (2 w)
  show ?case using read_strings_quote [of w "[]"] by simp
next
  case (3 v w ws)
  then show ?case by (simp add: read_strings_quote)
qed simp

lemma txt_pieces_concat: "concat (txt_pieces v) = v"
proof (induction v rule: txt_pieces.induct)
  case (1 v)
  then show ?case by (simp add: txt_pieces.simps [of v])
qed

lemma txt_pieces_short: "list_all (\<lambda>c. length c \<le> 255) (txt_pieces v)"
proof (induction v rule: txt_pieces.induct)
  case (1 v)
  then show ?case by (simp add: txt_pieces.simps [of v])
qed

text \<open>The TXT field of a zone file line, read as a master file is read, is the pieces of the
  value; there is at least one, none is longer than the 255 characters a DNS string holds, and
  together they are the value, whatever quotes and backslashes it contains.\<close>

theorem zone_txt_roundtrip:
  "read_strings (txt_field v) = txtChunks v \<and> txtChunks v \<noteq> []
   \<and> concat (txtChunks v) = v \<and> list_all (\<lambda>c. length c \<le> 255) (txtChunks v)"
  by (simp add: txt_field_def read_strings_join txtChunks_def Let_def txt_pieces_concat
        txt_pieces_short) (metis concat.simps(1) txt_pieces_concat)

end
