(* ===== verification/Dns_Verifier.thy ===== *)
theory Dns_Verifier
  imports Dns_Records
begin

section \<open>Checking the records against DNS\<close>

text \<open>
  \<open>modules/domain/dns.verifier.ts\<close>, and the outcomes of \<open>dns.resolver.ts\<close> it reads. The resolver
  itself is a parameter: a function from a name to an outcome for each type of lookup. A diagnosis
  is a value of \<open>diagnosis\<close>, one constructor per message with what the message quotes.
\<close>

subsection \<open>Outcomes of a lookup\<close>

datatype record_state =
  RS_PENDING | RS_VERIFIED | RS_MISSING | RS_MISMATCH | RS_CONFLICT | RS_LOOKUP_ERROR

record mx_answer =
  exchange :: string
  mx_prio :: int

datatype fail_kind = ABSENT | ERROR

datatype dns_outcome =
    Texts "string list"
  | Exchanges "mx_answer list"
  | LookupFailed fail_kind string

record dns_lookup =
  txt_lookup :: "string \<Rightarrow> dns_outcome"
  mx_lookup :: "string \<Rightarrow> dns_outcome"
  cname_lookup :: "string \<Rightarrow> dns_outcome"

definition ABSENT_CODES :: "string list" where
  "ABSENT_CODES = [''ENOTFOUND'', ''ENODATA'', ''NXDOMAIN'']"

text \<open>\<open>attempt\<close>, given what the resolver answered or the code of what it threw.\<close>

definition attempt :: "string + dns_outcome \<Rightarrow> dns_outcome" where
  "attempt r = (case r of Inr answer \<Rightarrow> answer
     | Inl c \<Rightarrow> LookupFailed (if c \<in> set ABSENT_CODES then ABSENT else ERROR) c)"

text \<open>The casts of \<open>outcome.values\<close>: the type of a record fixes which kind of answer it has.\<close>

fun texts_of :: "dns_outcome \<Rightarrow> string list" where
  "texts_of (Texts vs) = vs"
| "texts_of _ = []"

fun exchanges_of :: "dns_outcome \<Rightarrow> mx_answer list" where
  "exchanges_of (Exchanges as) = as"
| "exchanges_of _ = []"

datatype diagnosis =
    OtherTxtOnly | NoTxtYet
  | NoSpf | ManySpf nat | PlusAll | IncludeMissing string
  | NoDkimAt string | RevokedKey | ForeignKey
  | NoDmarc | ManyDmarc nat | NoPolicy | StricterPolicy string string
  | ExpectedValue string
  | RoutedElsewhere "string list" string | NoMx | DeliveredFirst "string list"
  | PointsElsewhere "string list" string | NoCname string
  | NotLookedUp | LookupMessage string string

record record_evaluation =
  e_recordKey :: string
  e_state :: record_state
  observed :: "string list"
  diagnosis :: "diagnosis option"
  errorCode :: "string option"

subsection \<open>Looking everything up\<close>

type_synonym lookup_results = "((record_type \<times> string) \<times> dns_outcome) list"

definition lookupKey :: "dns_spec \<Rightarrow> record_type \<times> string" where
  "lookupKey spec = (rtype spec, fqdn spec)"

definition run_lookup :: "dns_lookup \<Rightarrow> dns_spec \<Rightarrow> dns_outcome" where
  "run_lookup lk spec = (case rtype spec of
      T_MX \<Rightarrow> mx_lookup lk (fqdn spec)
    | T_CNAME \<Rightarrow> cname_lookup lk (fqdn spec)
    | T_TXT \<Rightarrow> txt_lookup lk (fqdn spec))"

definition lookupAll :: "dns_spec list \<Rightarrow> dns_lookup \<Rightarrow> lookup_results" where
  "lookupAll specs lk =
     foldl (\<lambda>pending spec. if map_of pending (lookupKey spec) \<noteq> None then pending
                           else pending @ [(lookupKey spec, run_lookup lk spec)]) [] specs"

definition outcomeFor :: "lookup_results \<Rightarrow> dns_spec \<Rightarrow> dns_outcome option" where
  "outcomeFor results spec = map_of results (lookupKey spec)"

subsection \<open>Reading the values\<close>

definition eval_result ::
  "dns_spec \<Rightarrow> record_state \<Rightarrow> string list \<Rightarrow> diagnosis option \<Rightarrow> string option \<Rightarrow> record_evaluation" where
  "eval_result spec st obs diag ec =
     \<lparr>e_recordKey = recordKey spec, e_state = st, observed = obs, diagnosis = diag, errorCode = ec\<rparr>"

definition parse_tag :: "(string \<rightharpoonup> string) \<Rightarrow> string \<Rightarrow> (string \<rightharpoonup> string)" where
  "parse_tag tags part = (case index_from 0 (CHR ''='') part of
      None \<Rightarrow> tags
    | Some i \<Rightarrow> tags(lowercase (trim (take i part)) \<mapsto> trim (drop (i + 1) part)))"

definition parseTags :: "string \<Rightarrow> (string \<rightharpoonup> string)" where
  "parseTags r = foldl parse_tag Map.empty (split_on (CHR '';'') r)"

text \<open>A test at the start of a string, ignoring the case of the letters.\<close>

definition starts_ci :: "string \<Rightarrow> string \<Rightarrow> bool" where
  "starts_ci w s = starts_with (lowercase w) (lowercase s)"

definition ends_or_space :: "string \<Rightarrow> bool" where
  "ends_or_space s \<longleftrightarrow> s = [] \<or> is_space (hd s)"

definition isSpf :: "string \<Rightarrow> bool" where
  "isSpf v = (let t = trim v in starts_ci ''v=spf1'' t \<and> ends_or_space (drop 6 t))"

definition isDmarc :: "string \<Rightarrow> bool" where
  "isDmarc v = (let t = trim v; rest = dropWhile is_space (drop 8 t)
     in starts_ci ''v=dmarc1'' t \<and> (rest = [] \<or> hd rest = CHR '';''))"

text \<open>
  The two patterns \<open>(^|\s)\+?w(\s|$)\<close>: the word \<open>w\<close>, with or without a plus sign, between white
  space or the ends of the record.
\<close>

definition word_here :: "string \<Rightarrow> string \<Rightarrow> bool" where
  "word_here w s = (starts_ci w s \<and> ends_or_space (drop (length w) s))"

definition term_here :: "string \<Rightarrow> string \<Rightarrow> bool" where
  "term_here w s = (word_here w s \<or> (s \<noteq> [] \<and> hd s = CHR ''+'' \<and> word_here w (tl s)))"

fun has_term :: "string \<Rightarrow> bool \<Rightarrow> string \<Rightarrow> bool" where
  "has_term w start [] = (start \<and> term_here w [])"
| "has_term w start (c # cs) = ((start \<and> term_here w (c # cs)) \<or> has_term w (is_space c) cs)"

fun include_in :: "string \<Rightarrow> string" where
  "include_in [] = []"
| "include_in (c # cs) =
     (let arg = takeWhile (\<lambda>c. \<not> is_space c) (drop 8 (c # cs))
      in if starts_ci ''include:'' (c # cs) \<and> arg \<noteq> [] then arg else include_in cs)"

definition includeOf :: "dns_spec \<Rightarrow> string" where
  "includeOf spec = include_in (rvalue spec)"

definition spfIncludes :: "string \<Rightarrow> string \<Rightarrow> bool" where
  "spfIncludes r inc = has_term (''include:'' @ inc) True r"

definition key_of :: "string \<Rightarrow> string" where
  "key_of v = (case parseTags v ''p'' of Some k \<Rightarrow> strip_spaces k | None \<Rightarrow> [])"

subsection \<open>Verdicts\<close>

definition evaluateTxt :: "dns_spec \<Rightarrow> string list \<Rightarrow> record_evaluation" where
  "evaluateTxt spec vals = (case purpose spec of
      OWNERSHIP \<Rightarrow>
        if rvalue spec \<in> set vals then eval_result spec RS_VERIFIED vals None None
        else eval_result spec RS_MISSING vals (Some (if vals \<noteq> [] then OtherTxtOnly else NoTxtYet)) None
    | SPF \<Rightarrow>
        (let spf = filter isSpf vals in
         if length spf = 0 then eval_result spec RS_MISSING vals (Some NoSpf) None
         else if 1 < length spf then eval_result spec RS_CONFLICT spf (Some (ManySpf (length spf))) None
         else if has_term ''all'' True (hd spf) then eval_result spec RS_MISMATCH spf (Some PlusAll) None
         else if spfIncludes (hd spf) (includeOf spec) then eval_result spec RS_VERIFIED spf None None
         else eval_result spec RS_MISMATCH spf (Some (IncludeMissing (includeOf spec))) None)
    | DKIM \<Rightarrow>
        (let want = key_of (rvalue spec);
             candidates = filter (\<lambda>v. parseTags v ''p'' \<noteq> None) vals;
             found = map key_of candidates in
         if candidates = [] then eval_result spec RS_MISSING vals (Some (NoDkimAt (fqdn spec))) None
         else if want \<in> set found then eval_result spec RS_VERIFIED candidates None None
         else if list_all (\<lambda>k. k = []) found
           then eval_result spec RS_MISMATCH candidates (Some RevokedKey) None
         else eval_result spec RS_MISMATCH candidates (Some ForeignKey) None)
    | DMARC \<Rightarrow>
        (let dmarc = filter isDmarc vals in
         if length dmarc = 0 then eval_result spec RS_MISSING vals (Some NoDmarc) None
         else if 1 < length dmarc
           then eval_result spec RS_CONFLICT dmarc (Some (ManyDmarc (length dmarc))) None
         else (case map_option lowercase (parseTags (hd dmarc) ''p'') of
             None \<Rightarrow> eval_result spec RS_MISMATCH dmarc (Some NoPolicy) None
           | Some policy \<Rightarrow>
               if policy \<notin> set [''none'', ''quarantine'', ''reject'']
               then eval_result spec RS_MISMATCH dmarc (Some NoPolicy) None
               else eval_result spec RS_VERIFIED dmarc
                 (case map_option lowercase (parseTags (rvalue spec) ''p'') of
                    None \<Rightarrow> None
                  | Some configured \<Rightarrow>
                      if configured \<noteq> [] \<and> configured \<noteq> policy
                      then Some (StricterPolicy policy configured) else None) None))
    | _ \<Rightarrow>
        if rvalue spec \<in> set vals then eval_result spec RS_VERIFIED vals None None
        else eval_result spec (if vals \<noteq> [] then RS_MISMATCH else RS_MISSING) vals
               (Some (ExpectedValue (rvalue spec))) None)"

definition evaluateMx :: "dns_spec \<Rightarrow> mx_answer list \<Rightarrow> string list \<Rightarrow> record_evaluation" where
  "evaluateMx spec answers platformMxHosts =
     (let obs = map (\<lambda>a. decimal (mx_prio a) @ '' '' @ normalizeHost (exchange a)) answers
      in case List.find (\<lambda>a. normalizeHost (exchange a) = rvalue spec) answers of
           None \<Rightarrow> eval_result spec (if answers \<noteq> [] then RS_MISMATCH else RS_MISSING) obs
             (Some (if answers \<noteq> [] then RoutedElsewhere obs (rvalue spec) else NoMx)) None
         | Some ours \<Rightarrow>
             (let ahead = filter (\<lambda>a. mx_prio a < mx_prio ours
                     \<and> normalizeHost (exchange a) \<notin> set platformMxHosts) answers
              in if ahead \<noteq> []
                 then eval_result spec RS_CONFLICT obs
                   (Some (DeliveredFirst (map (\<lambda>a. normalizeHost (exchange a)) ahead))) None
                 else eval_result spec RS_VERIFIED obs None None))"

definition evaluateCname :: "dns_spec \<Rightarrow> string list \<Rightarrow> record_evaluation" where
  "evaluateCname spec targets =
     (let obs = map normalizeHost targets
      in if rvalue spec \<in> set obs then eval_result spec RS_VERIFIED obs None None
         else eval_result spec (if obs \<noteq> [] then RS_MISMATCH else RS_MISSING) obs
           (Some (if obs \<noteq> [] then PointsElsewhere obs (rvalue spec) else NoCname (fqdn spec))) None)"

definition evaluateRecord ::
  "dns_spec \<Rightarrow> dns_outcome option \<Rightarrow> record_state \<Rightarrow> string list \<Rightarrow> record_evaluation" where
  "evaluateRecord spec out previous platformMxHosts = (case out of
      None \<Rightarrow> eval_result spec previous [] (Some NotLookedUp) (Some ''NOT_LOOKED_UP'')
    | Some (LookupFailed ERROR ec) \<Rightarrow>
        eval_result spec (if previous = RS_PENDING then RS_LOOKUP_ERROR else previous) []
          (Some (LookupMessage ec (fqdn spec))) (Some ec)
    | Some (LookupFailed ABSENT ec) \<Rightarrow>
        (let none = (if rtype spec = T_MX then evaluateMx spec [] platformMxHosts else evaluateTxt spec [])
         in none\<lparr>errorCode := Some ec,
                 diagnosis := (case diagnosis none of Some d \<Rightarrow> Some d
                    | None \<Rightarrow> Some (LookupMessage ec (fqdn spec)))\<rparr>)
    | Some found \<Rightarrow>
        (if rtype spec = T_MX then evaluateMx spec (exchanges_of found) platformMxHosts
         else if rtype spec = T_CNAME then evaluateCname spec (texts_of found)
         else evaluateTxt spec (texts_of found)))"

definition isDefinitiveFailure :: "record_state \<Rightarrow> bool" where
  "isDefinitiveFailure st \<longleftrightarrow> st = RS_MISSING \<or> st = RS_MISMATCH \<or> st = RS_CONFLICT"

end
