(* ===== verification/Domain_Lifecycle.thy ===== *)
theory Domain_Lifecycle
  imports Dns_Verifier
begin

section \<open>The state machine of a custom domain\<close>

text \<open>
  \<open>modules/domain/domain.lifecycle.ts\<close>: readiness from the verdicts on the records, the
  transition of a domain after a check, and when to check again. All three are pure.
\<close>

datatype lifecycle_status = DL_PENDING | DL_VERIFIED | DL_ACTIVE | DL_DEGRADED | DL_FAILED

definition SENDING_PURPOSES :: "record_purpose list" where
  "SENDING_PURPOSES = [OWNERSHIP, SPF, DKIM, DMARC]"

record record_verdict =
  v_purpose :: record_purpose
  v_required :: bool
  v_state :: record_state

record readiness =
  ownershipVerified :: bool
  sendReady :: bool
  fullyReady :: bool
  definitiveFailure :: bool
  blocking :: "record_purpose list"

definition readiness_of :: "record_verdict list \<Rightarrow> readiness" where
  "readiness_of records =
     (let req = filter v_required records;
          ownership = List.find (\<lambda>r. v_purpose r = OWNERSHIP) req;
          sending = filter (\<lambda>r. v_purpose r \<in> set SENDING_PURPOSES) req;
          hasDkim = list_ex (\<lambda>r. v_purpose r = DKIM) sending;
          ok = (\<lambda>r. v_state r = RS_VERIFIED)
      in \<lparr>ownershipVerified = (case ownership of None \<Rightarrow> False | Some r \<Rightarrow> ok r),
          sendReady = (hasDkim \<and> 0 < length sending \<and> list_all ok sending),
          fullyReady = (0 < length req \<and> list_all ok req \<and> hasDkim),
          definitiveFailure = list_ex (\<lambda>r. isDefinitiveFailure (v_state r)) req,
          blocking = dedupe (map v_purpose (filter (\<lambda>r. \<not> ok r) req))\<rparr>)"

datatype lifecycle_event =
    LE_VERIFIED | LE_AUTO_ACTIVATED | LE_AT_RISK | LE_SUSPENDED | LE_RESUMED
  | LE_VERIFICATION_FAILED | LE_VERIFICATION_LOST

record transition_input =
  t_status :: lifecycle_status
  t_sendingEnabled :: bool
  t_suspendedByDns :: bool
  t_autoActivateSending :: bool
  t_consecutiveFailures :: nat
  t_readiness :: readiness
  t_now :: instant
  t_graceUntil :: "instant option"
  t_verificationDeadlineAt :: "instant option"
  t_threshold :: nat

record transition_result =
  r_status :: lifecycle_status
  r_sendingEnabled :: bool
  r_consecutiveFailures :: nat
  r_events :: "lifecycle_event list"

definition moved :: "lifecycle_status \<Rightarrow> bool \<Rightarrow> nat \<Rightarrow> lifecycle_event list \<Rightarrow> transition_result" where
  "moved st on n evs =
     \<lparr>r_status = st, r_sendingEnabled = on, r_consecutiveFailures = n, r_events = evs\<rparr>"

definition transition :: "transition_input \<Rightarrow> transition_result" where
  "transition x =
     (let ready = t_readiness x;
          inGrace = (case t_graceUntil x of None \<Rightarrow> False | Some g \<Rightarrow> t_now x < g);
          n = t_consecutiveFailures x
      in if t_sendingEnabled x then
           (if sendReady ready then moved DL_ACTIVE True 0 []
            else if \<not> definitiveFailure ready then moved DL_ACTIVE True n []
            else if inGrace \<or> n + 1 < t_threshold x then moved DL_ACTIVE True (n + 1) [LE_AT_RISK]
            else moved DL_DEGRADED False (n + 1) [LE_SUSPENDED])
         else if t_suspendedByDns x then
           (if sendReady ready then moved DL_ACTIVE True 0 [LE_RESUMED]
            else moved DL_DEGRADED False (if definitiveFailure ready then n + 1 else n) [])
         else if sendReady ready then
           (if t_autoActivateSending x
            then moved DL_ACTIVE True 0
              (if t_status x = DL_VERIFIED then [LE_AUTO_ACTIVATED] else [LE_VERIFIED, LE_AUTO_ACTIVATED])
            else moved DL_VERIFIED False 0 (if t_status x = DL_VERIFIED then [] else [LE_VERIFIED]))
         else
           (let failures = (if definitiveFailure ready then n + 1 else n);
                pastDeadline = (case t_verificationDeadlineAt x of None \<Rightarrow> False | Some d \<Rightarrow> d \<le> t_now x)
            in if \<not> ownershipVerified ready \<and> pastDeadline \<and> definitiveFailure ready
               then moved DL_FAILED False failures
                 (if t_status x = DL_FAILED then [] else [LE_VERIFICATION_FAILED])
               else if t_status x = DL_FAILED \<and> \<not> ownershipVerified ready
               then moved DL_FAILED False failures []
               else moved DL_PENDING False failures
                 (if t_status x = DL_VERIFIED \<and> definitiveFailure ready then [LE_VERIFICATION_LOST] else [])))"

record schedule_input =
  s_status :: lifecycle_status
  s_fullyReady :: bool
  s_lookupErrors :: bool
  s_rotationPending :: bool
  s_createdAt :: instant
  s_now :: instant
  s_verifiedIntervalMs :: int

definition nextCheckDelayMs :: "schedule_input \<Rightarrow> int" where
  "nextCheckDelayMs x =
     (if s_lookupErrors x then 5 * minute_ms
      else if s_rotationPending x then 10 * minute_ms
      else case s_status x of
          DL_ACTIVE \<Rightarrow> if s_fullyReady x then s_verifiedIntervalMs x else 10 * minute_ms
        | DL_VERIFIED \<Rightarrow> if s_fullyReady x then s_verifiedIntervalMs x else 10 * minute_ms
        | DL_DEGRADED \<Rightarrow> 10 * minute_ms
        | DL_FAILED \<Rightarrow> 24 * hour_ms
        | DL_PENDING \<Rightarrow>
            (let age = s_now x - s_createdAt x
             in if age < hour_ms then 2 * minute_ms
                else if age < 24 * hour_ms then 10 * minute_ms else hour_ms))"

subsection \<open>What the verdicts say\<close>

text \<open>A resolver failure is no evidence: with every required record merely unknown, nothing is a
  definitive failure.\<close>

lemma readiness_simps:
  "sendReady (readiness_of rs) \<longleftrightarrow>
     (\<exists>r\<in>set rs. v_required r \<and> v_purpose r = DKIM)
     \<and> (\<forall>r\<in>set rs. v_required r \<and> v_purpose r \<in> set SENDING_PURPOSES \<longrightarrow> v_state r = RS_VERIFIED)"
  "definitiveFailure (readiness_of rs) \<longleftrightarrow> (\<exists>r\<in>set rs. v_required r \<and> isDefinitiveFailure (v_state r))"
  "set (blocking (readiness_of rs)) = {v_purpose r |r. r \<in> set rs \<and> v_required r \<and> v_state r \<noteq> RS_VERIFIED}"
  by (auto simp: readiness_of_def Let_def list_ex_iff list_all_iff SENDING_PURPOSES_def filter_empty_conv)

lemma fullyReady_sendReady: "fullyReady (readiness_of rs) \<Longrightarrow> sendReady (readiness_of rs)"
  by (auto simp: readiness_of_def Let_def list_ex_iff list_all_iff SENDING_PURPOSES_def filter_empty_conv)

lemma fullyReady_no_blocking: "fullyReady (readiness_of rs) \<Longrightarrow> blocking (readiness_of rs) = []"
  by (auto simp: readiness_of_def Let_def list_all_iff dedupe_def filter_empty_conv)

subsection \<open>One transition\<close>

lemmas transition_simps = transition_def Let_def moved_def

lemma transition_sending_active:
  "r_sendingEnabled (transition x) = (r_status (transition x) = DL_ACTIVE)"
  by (simp add: transition_simps split: option.split)

lemma transition_suspends_iff:
  "LE_SUSPENDED \<in> set (r_events (transition x)) \<longleftrightarrow>
     t_sendingEnabled x \<and> \<not> sendReady (t_readiness x) \<and> definitiveFailure (t_readiness x)
     \<and> \<not> (case t_graceUntil x of None \<Rightarrow> False | Some g \<Rightarrow> t_now x < g)
     \<and> t_threshold x \<le> t_consecutiveFailures x + 1"
  by (auto simp: transition_simps split: option.split)

lemma transition_stops_sending_iff:
  "t_sendingEnabled x \<Longrightarrow> \<not> r_sendingEnabled (transition x) \<longleftrightarrow> LE_SUSPENDED \<in> set (r_events (transition x))"
  by (auto simp: transition_simps split: option.split)

lemma transition_failures_le: "r_consecutiveFailures (transition x) \<le> t_consecutiveFailures x + 1"
  by (simp add: transition_simps split: option.split)

lemma transition_no_evidence:
  assumes "\<not> sendReady (t_readiness x)" "\<not> definitiveFailure (t_readiness x)"
  shows "r_consecutiveFailures (transition x) = t_consecutiveFailures x"
    and "t_sendingEnabled x \<Longrightarrow> r_status (transition x) = DL_ACTIVE \<and> r_sendingEnabled (transition x)
      \<and> r_events (transition x) = []"
  using assms by (simp_all add: transition_simps split: option.split)

end
