(* ===== verification/Domains.thy ===== *)
theory Domains
  imports Domain_Lifecycle Audit_Log
begin

section \<open>Custom domains\<close>

text \<open>
  \<open>modules/domain/domain.service.ts\<close>, the selector choice of \<open>dkim.service.ts\<close> and the scheduler
  of \<open>domain.sync.ts\<close>. A domain row carries its record rows and its DKIM keys, in the order they were
  created; a record is identified by its key, which is unique within the domain. A request is
  atomic and reads the clock once. What lies outside (the resolver, the DNS host, the key generator) is a
  parameter of each request, the record \<open>outside\<close>.
\<close>

subsection \<open>Rows\<close>

datatype dns_provider = MANUAL | CLOUDFLARE | GODADDY

datatype publish_state = PB_NOT_APPLICABLE | PB_PENDING | PB_PUBLISHED | PB_FAILED

datatype legacy_record_status = RL_PENDING | RL_VALID | RL_INVALID

datatype verification_status = VS_PENDING | VS_VERIFIED | VS_FAILED

datatype check_trigger = CT_CREATED | CT_MANUAL | CT_SCHEDULED | CT_CONFIG_CHANGE | CT_PUBLISH

record dns_record = dns_spec +
  rec_state :: record_state
  rec_observed :: "string list option"
  rec_diagnosis :: "diagnosis option"
  lastErrorCode :: "string option"
  rec_lastCheckedAt :: "instant option"
  rec_lastVerifiedAt :: "instant option"
  publishState :: publish_state
  publishedAt :: "instant option"
  publishError :: "string option"

record dkim_key =
  key_id :: uuid
  key_selector :: string
  keyBits :: nat
  publicKey :: string
  privateKeySecretRef :: string
  key_status :: dkim_status
  key_activatedAt :: "instant option"
  retiringAt :: "instant option"
  retiredAt :: "instant option"

record mail_domain =
  d_id :: uuid
  d_tenantId :: uuid
  d_domainName :: string
  d_custom :: bool
  d_token :: string
  d_verification :: verification_status
  d_mx :: legacy_record_status
  d_spf :: legacy_record_status
  d_dkim :: legacy_record_status
  d_dmarc :: legacy_record_status
  d_firstCheckedAt :: "instant option"
  d_lastCheckedAt :: "instant option"
  d_errorDetails :: "(string \<times> string) list"
  d_sendingEnabled :: bool
  d_activatedAt :: "instant option"
  d_status :: lifecycle_status
  d_provider :: dns_provider
  d_credentialId :: "uuid option"
  d_receivingEnabled :: bool
  d_replaceExistingMx :: bool
  d_autoActivate :: bool
  d_dmarcPolicy :: dmarc_policy
  d_dmarcReportEmail :: "string option"
  d_configVersion :: nat
  d_nextCheckAt :: "instant option"
  d_lastVerifiedAt :: "instant option"
  d_lastPublishedAt :: "instant option"
  d_lastSyncError :: "string option"
  d_failures :: nat
  d_graceUntil :: "instant option"
  d_deadlineAt :: "instant option"
  d_suspendedAt :: "instant option"
  d_suspension :: "record_purpose list option"
  d_createdAt :: instant
  d_records :: "dns_record list"
  d_keys :: "dkim_key list"

record dns_check =
  c_domainId :: uuid
  c_trigger :: check_trigger
  c_resultStatus :: lifecycle_status
  c_results :: "(string \<times> record_state) list"
  c_checkedAt :: instant

record member =
  m_tenantId :: uuid
  m_userId :: uuid
  m_role :: membership_role
  m_active :: bool

record domain_notice =
  n_tenantId :: uuid
  n_userId :: uuid
  n_type :: string
  n_event :: lifecycle_event

record domain_db =
  domains :: "mail_domain list"
  checks :: "dns_check list"
  notices :: "domain_notice list"
  members :: "member list"
  secrets :: "string list"
  mailbox_rows :: "(uuid \<times> uuid) list"
  domain_log :: "audit_event list"

record domain_env =
  platform :: platform_dns_config
  selectorPrefix :: string
  dkimKeyBits :: nat
  failureThreshold :: nat
  windowHours :: int
  graceHours :: int
  retireGraceMs :: int
  recheckVerifiedMs :: int
  cooldownMs :: int

datatype publish_outcome = PUBLISHED "string option" | SKIPPED string | FAILED string

record outside =
  lookups :: dns_lookup
  generatedKey :: string
  keyRowId :: uuid
  zoneFor :: "mail_domain \<Rightarrow> string option"
  publishRecord :: "dns_spec \<Rightarrow> publish_outcome"
  unpublishRecord :: "dns_spec \<Rightarrow> string option"
  credentialUsable :: "uuid \<Rightarrow> dns_provider \<Rightarrow> app_error option"

text \<open>Who asks and when: the audit context of a request.\<close>

record audit_ctx =
  cx_tenantId :: uuid
  cx_userId :: "uuid option"
  cx_now :: instant
  cx_newId :: "nat \<Rightarrow> uuid"

text \<open>An event of the pipeline before it is written: who acted, its type and its metadata.\<close>

type_synonym pipeline_event = "actor_type \<times> string \<times> json"

definition by_user :: "audit_ctx \<Rightarrow> actor_type" where
  "by_user cx = (if truthy (cx_userId cx) then AT_ADMIN else AT_SYSTEM)"

definition strs :: "string list \<Rightarrow> json" where
  "strs xs = JArr (map JStr xs)"

definition toSpec :: "dns_record \<Rightarrow> dns_spec" where
  "toSpec r = dns_spec.truncate r"

definition legacyStatus :: "record_state list \<Rightarrow> legacy_record_status" where
  "legacyStatus states =
     (if states = [] \<or> list_all (\<lambda>s. s = RS_PENDING) states then RL_PENDING
      else if list_all (\<lambda>s. s = RS_VERIFIED) states then RL_VALID else RL_INVALID)"

definition errorKey :: "dns_record \<Rightarrow> string" where
  "errorKey r = (case purpose r of
      OWNERSHIP \<Rightarrow> ''txt'' | SPF \<Rightarrow> ''txt'' | MX \<Rightarrow> ''mx''
    | DKIM \<Rightarrow> if required r then ''dkim'' else lowercase (recordKey r)
    | DMARC \<Rightarrow> ''dmarc''
    | _ \<Rightarrow> lowercase (recordKey r))"

fun EVENT_AUDIT :: "lifecycle_event \<Rightarrow> string" where
  "EVENT_AUDIT LE_VERIFIED = ''DOMAIN_VERIFIED''"
| "EVENT_AUDIT LE_AUTO_ACTIVATED = ''DOMAIN_SENDING_ACTIVATED''"
| "EVENT_AUDIT LE_AT_RISK = ''DOMAIN_SENDING_AT_RISK''"
| "EVENT_AUDIT LE_SUSPENDED = ''DOMAIN_SENDING_SUSPENDED''"
| "EVENT_AUDIT LE_RESUMED = ''DOMAIN_SENDING_RESUMED''"
| "EVENT_AUDIT LE_VERIFICATION_FAILED = ''DOMAIN_VERIFICATION_FAILED''"
| "EVENT_AUDIT LE_VERIFICATION_LOST = ''DOMAIN_VERIFICATION_LOST''"

fun purpose_name :: "record_purpose \<Rightarrow> string" where
  "purpose_name OWNERSHIP = ''OWNERSHIP''"
| "purpose_name MX = ''MX''"
| "purpose_name SPF = ''SPF''"
| "purpose_name DKIM = ''DKIM''"
| "purpose_name DMARC = ''DMARC''"
| "purpose_name AUTODISCOVER = ''AUTODISCOVER''"
| "purpose_name AUTOCONFIG = ''AUTOCONFIG''"

subsection \<open>DKIM keys\<close>

text \<open>The UTC year and month of an instant, as \<open>getUTCFullYear\<close> and \<open>getUTCMonth\<close> read them.\<close>

definition year_month :: "instant \<Rightarrow> int \<times> int" where
  "year_month t =
     (let z = t div day_ms + 719468; era = z div 146097; doe = z mod 146097;
          yoe = (doe - doe div 1460 + doe div 36524 - doe div 146096) div 365;
          doy = doe - (365 * yoe + yoe div 4 - yoe div 100);
          mp = (5 * doy + 2) div 153;
          m = (if mp < 10 then mp + 3 else mp - 9)
      in (yoe + era * 400 + (if m \<le> 2 then 1 else 0), m))"

function base36 :: "int \<Rightarrow> string" where
  "base36 n =
     (let digit = (\<lambda>d. char_of (if d < 10 then 48 + d else 87 + d))
      in if n < 36 then [digit n] else base36 (n div 36) @ [digit (n mod 36)])"
  by pat_completeness auto
termination
  by (relation "measure nat") auto

declare base36.simps [simp del]

definition dkimSecretRef :: "uuid \<Rightarrow> string \<Rightarrow> string" where
  "dkimSecretRef domainId selector = ''domain-dkim/'' @ domainId @ ''/'' @ selector"

definition nextSelector :: "string \<Rightarrow> string list \<Rightarrow> instant \<Rightarrow> string" where
  "nextSelector pre existing now =
     (let stamp = pre @ decimal (fst (year_month now)) @ padStart 2 (decimal (snd (year_month now)))
      in if stamp \<notin> set existing then stamp
         else (case List.find (\<lambda>candidate. candidate \<notin> set existing)
                 (map (\<lambda>c. stamp @ [char_of c]) [98..<123 :: nat]) of
             Some candidate \<Rightarrow> candidate
           | None \<Rightarrow> stamp @ base36 now))"

text \<open>The loop of \<open>generate\<close>: \<open>n\<close> more attempts at a selector nobody uses.\<close>

fun free_selector :: "nat \<Rightarrow> string \<Rightarrow> instant \<Rightarrow> (string \<Rightarrow> bool) \<Rightarrow> string list \<Rightarrow> string \<Rightarrow> string" where
  "free_selector 0 pre now inUse taken selector = selector"
| "free_selector (Suc n) pre now inUse taken selector =
     (if inUse selector
      then free_selector n pre now inUse (taken @ [selector]) (nextSelector pre (taken @ [selector]) now)
      else selector)"

definition selectorInUse :: "dns_lookup \<Rightarrow> string \<Rightarrow> string \<Rightarrow> bool" where
  "selectorInUse lk domainName selector =
     (case txt_lookup lk (selector @ ''._domainkey.'' @ domainName) of
        Texts vals \<Rightarrow> vals \<noteq> [] | _ \<Rightarrow> False)"

text \<open>\<open>generate\<close> and \<open>createRow\<close>: the row of the key generated in this request.\<close>

definition generate_key ::
  "domain_env \<Rightarrow> outside \<Rightarrow> audit_ctx \<Rightarrow> uuid \<Rightarrow> string \<Rightarrow> string list \<Rightarrow> bool \<Rightarrow> dkim_key" where
  "generate_key env ext cx domainId domainName existing active =
     (let pre = selectorPrefix env; now = cx_now cx;
          selector = free_selector 27 pre now (selectorInUse (lookups ext) domainName) existing
            (nextSelector pre existing now)
      in \<lparr>key_id = keyRowId ext, key_selector = selector, keyBits = dkimKeyBits env,
          publicKey = generatedKey ext, privateKeySecretRef = dkimSecretRef domainId selector,
          key_status = (if active then DK_ACTIVE else DK_PENDING),
          key_activatedAt = (if active then Some now else None), retiringAt = None, retiredAt = None\<rparr>)"

text \<open>What \<open>load\<close> includes: the keys that are not retired.\<close>

definition live_keys :: "mail_domain \<Rightarrow> dkim_key list" where
  "live_keys d = filter (\<lambda>k. key_status k \<noteq> DK_RETIRED) (d_keys d)"

definition key_expired :: "domain_env \<Rightarrow> instant \<Rightarrow> dkim_key \<Rightarrow> bool" where
  "key_expired env now k \<longleftrightarrow> key_status k = DK_RETIRING
     \<and> (case retiringAt k of None \<Rightarrow> False | Some t \<Rightarrow> t \<le> now - retireGraceMs env)"

definition retireExpiredKeys ::
  "domain_env \<Rightarrow> instant \<Rightarrow> mail_domain \<Rightarrow> mail_domain \<times> pipeline_event list \<times> string list" where
  "retireExpiredKeys env now d =
     (let expired = filter (key_expired env now) (live_keys d)
      in if expired = [] then (d, [], [])
         else (d\<lparr>d_keys := map (\<lambda>k. if key_expired env now k
                    then k\<lparr>key_status := DK_RETIRED, retiredAt := Some now\<rparr> else k) (d_keys d)\<rparr>,
               [(AT_SYSTEM, ''DOMAIN_DKIM_KEY_RETIRED'',
                 JObj [(''selectors'', strs (map key_selector expired))])],
               map privateKeySecretRef expired))"

subsection \<open>Reconciliation\<close>

definition fresh_record :: "bool \<Rightarrow> dns_spec \<Rightarrow> dns_record" where
  "fresh_record auto spec = dns_spec.extend spec
     (dns_record.fields RS_PENDING None None None None None
        (if auto then PB_PENDING else PB_NOT_APPLICABLE) None None)"

definition content_changed :: "dns_record \<Rightarrow> dns_spec \<Rightarrow> bool" where
  "content_changed cur spec \<longleftrightarrow> rvalue cur \<noteq> rvalue spec \<or> rtype cur \<noteq> rtype spec
     \<or> fqdn cur \<noteq> fqdn spec \<or> priority cur \<noteq> priority spec"

definition meta_changed :: "dns_record \<Rightarrow> dns_spec \<Rightarrow> bool" where
  "meta_changed cur spec \<longleftrightarrow> required cur \<noteq> required spec \<or> ttl cur \<noteq> ttl spec
     \<or> dkimKeyId cur \<noteq> dkimKeyId spec \<or> rname cur \<noteq> rname spec"

definition next_publish_state :: "bool \<Rightarrow> dns_record \<Rightarrow> dns_spec \<Rightarrow> publish_state" where
  "next_publish_state auto cur spec =
     (if \<not> auto then PB_NOT_APPLICABLE
      else if content_changed cur spec \<or> publishState cur = PB_NOT_APPLICABLE then PB_PENDING
      else publishState cur)"

text \<open>The body of the loop for a record that is stored already.\<close>

definition merge_record :: "bool \<Rightarrow> dns_record \<Rightarrow> dns_spec \<Rightarrow> dns_record" where
  "merge_record auto cur spec =
     (let ps = next_publish_state auto cur spec
      in if \<not> content_changed cur spec \<and> \<not> meta_changed cur spec \<and> ps = publishState cur then cur
         else if content_changed cur spec
         then dns_spec.extend spec (dns_record.fields RS_PENDING None None None
                (rec_lastCheckedAt cur) None ps None None)
         else dns_spec.extend spec (dns_record.fields (rec_state cur) (rec_observed cur)
                (rec_diagnosis cur) (lastErrorCode cur) (rec_lastCheckedAt cur)
                (rec_lastVerifiedAt cur) ps (publishedAt cur) (publishError cur)))"

text \<open>
  The loop over the expected records and the removal of what is left over. Keys are unique on
  both sides, so a stored record meets at most one expected record: the stored ones are merged or
  removed where they stand and the new ones follow.
\<close>

definition reconcile_records :: "bool \<Rightarrow> dns_record list \<Rightarrow> dns_spec list \<Rightarrow> dns_record list" where
  "reconcile_records auto stored specs =
     List.map_filter (\<lambda>cur. map_option (merge_record auto cur)
         (find_row (\<lambda>s. recordKey s = recordKey cur) specs)) stored
     @ map (fresh_record auto)
         (filter (\<lambda>s. find_row (\<lambda>cur. recordKey cur = recordKey s) stored = None) specs)"

definition domain_input :: "mail_domain \<Rightarrow> domain_dns_input" where
  "domain_input d = \<lparr>i_domainName = d_domainName d, i_verificationToken = d_token d,
     i_receivingEnabled = d_receivingEnabled d, i_dmarcPolicy = d_dmarcPolicy d,
     i_dmarcReportEmail = d_dmarcReportEmail d\<rparr>"

definition key_input :: "dkim_key \<Rightarrow> dkim_key_input" where
  "key_input k = \<lparr>k_id = key_id k, k_selector = key_selector k, k_publicKey = publicKey k,
     k_status = key_status k\<rparr>"

definition expected_for :: "domain_env \<Rightarrow> mail_domain \<Rightarrow> dns_spec list" where
  "expected_for env d = expectedRecords (domain_input d) (map key_input (live_keys d)) (platform env)"

text \<open>
  \<open>reconcile\<close>: the domain after it, the specifications of the removed records, its events and the
  references of the secrets it stored. Inserting a key whose identifier or selector the domain
  already has violates a unique index: the transaction fails and the new secret is discarded.
\<close>

definition needs_key :: "mail_domain \<Rightarrow> bool" where
  "needs_key d \<longleftrightarrow> d_custom d
     \<and> \<not> list_ex (\<lambda>k. key_status k = DK_ACTIVE \<or> key_status k = DK_PENDING) (live_keys d)"

definition add_key :: "dkim_key \<Rightarrow> mail_domain \<Rightarrow> mail_domain result" where
  "add_key k d =
     (if key_id k \<in> set (map key_id (d_keys d)) \<or> key_selector k \<in> set (map key_selector (d_keys d))
      then Inl (ServerError ''P2002'')
      else Inr (d\<lparr>d_keys := d_keys d @ [k]\<rparr>))"

definition reconcile_with ::
  "domain_env \<Rightarrow> audit_ctx \<Rightarrow> dkim_key option \<Rightarrow> mail_domain
     \<Rightarrow> mail_domain \<times> dns_spec list \<times> pipeline_event list" where
  "reconcile_with env cx generated d =
     (let specs = expected_for env d; stored = d_records d; auto = (d_provider d \<noteq> MANUAL);
          created = filter (\<lambda>s. find_row (\<lambda>cur. recordKey cur = recordKey s) stored = None) specs;
          changed = filter (\<lambda>s. case find_row (\<lambda>cur. recordKey cur = recordKey s) stored of
              None \<Rightarrow> False | Some cur \<Rightarrow> content_changed cur s) specs;
          removed = filter (\<lambda>cur. find_row (\<lambda>s. recordKey s = recordKey cur) specs = None) stored;
          touchedRequired = list_ex required (created @ changed);
          firstGeneration = (stored = []);
          d' = d\<lparr>d_records := reconcile_records auto stored specs\<rparr>
      in if created = [] \<and> changed = [] \<and> removed = [] then (d', [], [])
         else (d'\<lparr>d_configVersion := d_configVersion d + (if firstGeneration then 0 else 1),
                  d_graceUntil := (if touchedRequired \<and> d_sendingEnabled d \<and> 0 < graceHours env
                     then Some (cx_now cx + graceHours env * hour_ms) else d_graceUntil d)\<rparr>,
               map toSpec removed,
               [(by_user cx,
                 if firstGeneration then ''DOMAIN_DNS_RECORDS_GENERATED'' else ''DOMAIN_DNS_RECORDS_UPDATED'',
                 JObj ([(''created'', strs (map recordKey created)),
                        (''changed'', strs (map recordKey changed)),
                        (''removed'', strs (map recordKey removed))]
                   @ (case generated of None \<Rightarrow> []
                      | Some k \<Rightarrow> [(''dkimSelector'', JStr (key_selector k))])))]))"

definition reconcile ::
  "domain_env \<Rightarrow> outside \<Rightarrow> audit_ctx \<Rightarrow> mail_domain
     \<Rightarrow> (mail_domain \<times> dns_spec list \<times> pipeline_event list \<times> string list) result" where
  "reconcile env ext cx d =
     (if needs_key d then
        (let k = generate_key env ext cx (d_id d) (d_domainName d) (map key_selector (d_keys d)) True
         in bind_result (add_key k d) (\<lambda>d1.
              let (d2, removed, evs) = reconcile_with env cx (Some k) d1
              in Inr (d2, removed, evs, [privateKeySecretRef k])))
      else (let (d2, removed, evs) = reconcile_with env cx None d in Inr (d2, removed, evs, [])))"

subsection \<open>Publication\<close>

datatype publish_mode = PM_pending | PM_all

definition publish_targets :: "publish_mode \<Rightarrow> mail_domain \<Rightarrow> dns_record list" where
  "publish_targets mode d = filter (\<lambda>r. mode = PM_all
      \<or> ((publishState r = PB_PENDING \<or> publishState r = PB_FAILED) \<and> rec_state r \<noteq> RS_VERIFIED))
    (d_records d)"

text \<open>The outcome for each target: with no zone, every one fails with the provider's message.\<close>

definition publish_error :: "outside \<Rightarrow> mail_domain \<Rightarrow> dns_record \<Rightarrow> string option" where
  "publish_error ext d r = (case zoneFor ext d of
      Some message \<Rightarrow> Some message
    | None \<Rightarrow> (case publishRecord ext (toSpec r) of FAILED e \<Rightarrow> Some e | _ \<Rightarrow> None))"

definition mark_published :: "outside \<Rightarrow> instant \<Rightarrow> mail_domain \<Rightarrow> dns_record \<Rightarrow> dns_record" where
  "mark_published ext now d r = (let e = publish_error ext d r in
     if truthy e then r\<lparr>publishState := PB_FAILED, publishError := Some (take 1000 (the e))\<rparr>
     else r\<lparr>publishState := PB_PUBLISHED, publishedAt := Some now, publishError := None\<rparr>)"

definition failure_json :: "string \<times> string \<Rightarrow> json" where
  "failure_json f = JObj [(''recordKey'', JStr (fst f)), (''error'', JStr (snd f))]"

definition publish_note :: "outside \<Rightarrow> dns_record \<Rightarrow> json list" where
  "publish_note ext r = (case publishRecord ext (toSpec r) of
      PUBLISHED (Some n) \<Rightarrow> if n = [] then [] else [JObj [(''recordKey'', JStr (recordKey r)), (''note'', JStr n)]]
    | SKIPPED n \<Rightarrow> if n = [] then [] else [JObj [(''recordKey'', JStr (recordKey r)), (''note'', JStr n)]]
    | _ \<Rightarrow> [])"

fun provider_name :: "dns_provider \<Rightarrow> string" where
  "provider_name MANUAL = ''MANUAL''"
| "provider_name CLOUDFLARE = ''CLOUDFLARE''"
| "provider_name GODADDY = ''GODADDY''"

definition publishRecords ::
  "outside \<Rightarrow> audit_ctx \<Rightarrow> publish_mode \<Rightarrow> mail_domain
     \<Rightarrow> mail_domain \<times> pipeline_event list \<times> string list \<times> (string \<times> string) list" where
  "publishRecords ext cx mode d =
     (let targets = publish_targets mode d; now = cx_now cx;
          failed = List.map_filter (\<lambda>r. map_option (\<lambda>e. (recordKey r, e)) (publish_error ext d r)) targets;
          published = map recordKey (filter (\<lambda>r. publish_error ext d r = None) targets);
          notes = concat (map (publish_note ext) (filter (\<lambda>r. publish_error ext d r = None) targets))
      in if d_provider d = MANUAL \<or> \<not> truthy (d_credentialId d) \<or> targets = [] then (d, [], [], [])
         else (d\<lparr>d_records := update_where (\<lambda>r. recordKey r \<in> set (map recordKey targets))
                    (mark_published ext now d) (d_records d),
                 d_lastPublishedAt := (if published \<noteq> [] then Some now else d_lastPublishedAt d),
                 d_lastSyncError := (if failed \<noteq> []
                    then Some (take 1000 (''Publishing failed: '' @ snd (hd failed))) else None),
                 d_nextCheckAt := (if published \<noteq> [] then Some (now + 60000) else d_nextCheckAt d)\<rparr>,
               [(by_user cx, if failed \<noteq> [] then ''DOMAIN_DNS_PUBLISH_FAILED'' else ''DOMAIN_DNS_PUBLISHED'',
                 JObj [(''provider'', JStr (provider_name (d_provider d))),
                       (''mode'', JStr (if mode = PM_all then ''all'' else ''pending'')),
                       (''published'', strs published), (''failed'', JArr (map failure_json failed)),
                       (''notes'', JArr notes)])],
               published, failed))"

definition unpublishSpecs ::
  "outside \<Rightarrow> audit_ctx \<Rightarrow> mail_domain \<Rightarrow> dns_spec list \<Rightarrow> string
     \<Rightarrow> pipeline_event list \<times> string list \<times> (string \<times> string) list" where
  "unpublishSpecs ext cx d specs why =
     (if d_provider d = MANUAL \<or> \<not> truthy (d_credentialId d) \<or> specs = [] then ([], [], [])
      else (let err = (\<lambda>s. case zoneFor ext d of Some message \<Rightarrow> Some message
                                                | None \<Rightarrow> unpublishRecord ext s);
                removed = map recordKey (filter (\<lambda>s. err s = None) specs);
                failed = List.map_filter (\<lambda>s. map_option (\<lambda>e. (recordKey s, e)) (err s)) specs
            in ([(by_user cx, ''DOMAIN_DNS_UNPUBLISHED'',
                 JObj [(''reason'', JStr why), (''removed'', strs removed),
                       (''failed'', JArr (map failure_json failed))])], removed, failed)))"

subsection \<open>One check\<close>

text \<open>The new key and the keys it replaces, once the record of the new key is live.\<close>

definition find_pending :: "mail_domain \<Rightarrow> dkim_key option" where
  "find_pending d = find_row (\<lambda>k. key_status k = DK_PENDING) (d_keys d)"

definition evaluate_all :: "domain_env \<Rightarrow> lookup_results \<Rightarrow> mail_domain \<Rightarrow> dns_record \<Rightarrow> record_evaluation" where
  "evaluate_all env results d r = evaluateRecord (toSpec r) (outcomeFor results (toSpec r)) (rec_state r)
     (map mx_host (mxHosts (platform env)))"

definition find_promotion ::
  "(dns_record \<Rightarrow> record_evaluation) \<Rightarrow> mail_domain \<Rightarrow> (dkim_key \<times> dkim_key list) option" where
  "find_promotion eval d = (case find_pending d of
      None \<Rightarrow> None
    | Some k \<Rightarrow> (case find_row (\<lambda>r. dkimKeyId r = Some (key_id k)) (d_records d) of
        None \<Rightarrow> None
      | Some r \<Rightarrow> if e_state (eval r) = RS_VERIFIED
          then Some (k, filter (\<lambda>k. key_status k = DK_ACTIVE) (d_keys d)) else None))"

definition requiredFor :: "(dkim_key \<times> dkim_key list) option \<Rightarrow> dns_record \<Rightarrow> bool" where
  "requiredFor promotion r = (case promotion of
      None \<Rightarrow> required r
    | Some (newKey, oldKeys) \<Rightarrow>
        if purpose r \<noteq> DKIM then required r
        else if dkimKeyId r = Some (key_id newKey) then True
        else if list_ex (\<lambda>k. dkimKeyId r = Some (key_id k)) oldKeys then False
        else required r)"

definition verdicts ::
  "(dns_record \<Rightarrow> record_evaluation) \<Rightarrow> (dkim_key \<times> dkim_key list) option \<Rightarrow> mail_domain
     \<Rightarrow> record_verdict list" where
  "verdicts eval promotion d = map (\<lambda>r. \<lparr>v_purpose = purpose r, v_required = requiredFor promotion r,
     v_state = e_state (eval r)\<rparr>) (d_records d)"

definition is_suspended :: "mail_domain \<Rightarrow> bool" where
  "is_suspended d \<longleftrightarrow> \<not> d_sendingEnabled d \<and> d_status d = DL_DEGRADED \<and> d_suspendedAt d \<noteq> None"

definition next_state :: "domain_env \<Rightarrow> instant \<Rightarrow> readiness \<Rightarrow> mail_domain \<Rightarrow> transition_result" where
  "next_state env now ready d = transition
     \<lparr>t_status = d_status d, t_sendingEnabled = d_sendingEnabled d,
      t_suspendedByDns = is_suspended d, t_autoActivateSending = d_autoActivate d,
      t_consecutiveFailures = d_failures d, t_readiness = ready, t_now = now,
      t_graceUntil = d_graceUntil d, t_verificationDeadlineAt = d_deadlineAt d,
      t_threshold = failureThreshold env\<rparr>"

definition reported_events :: "mail_domain \<Rightarrow> transition_result \<Rightarrow> lifecycle_event list" where
  "reported_events d nxt = filter (\<lambda>e. e \<noteq> LE_AT_RISK \<or> d_failures d = 0) (r_events nxt)"

text \<open>The columns of the records and of the keys after the check.\<close>

definition checked_record ::
  "(dns_record \<Rightarrow> record_evaluation) \<Rightarrow> (dkim_key \<times> dkim_key list) option \<Rightarrow> instant \<Rightarrow> dns_record
     \<Rightarrow> dns_record" where
  "checked_record eval promotion now r =
     (let e = eval r;
          live = (e_state e = RS_VERIFIED);
          unpublished = (publishState r = PB_PENDING \<or> publishState r = PB_FAILED)
      in r\<lparr>rec_state := e_state e, rec_observed := Some (observed e), rec_diagnosis := diagnosis e,
           lastErrorCode := errorCode e, rec_lastCheckedAt := Some now,
           required := requiredFor promotion r,
           rec_lastVerifiedAt := (if live then Some now else rec_lastVerifiedAt r),
           publishState := (if live \<and> unpublished then PB_PUBLISHED else publishState r),
           publishError := (if live \<and> unpublished then None else publishError r),
           publishedAt := (if live \<and> unpublished
              then (case publishedAt r of Some t \<Rightarrow> Some t | None \<Rightarrow> Some now) else publishedAt r)\<rparr>)"

definition promote_keys :: "(dkim_key \<times> dkim_key list) option \<Rightarrow> instant \<Rightarrow> dkim_key list \<Rightarrow> dkim_key list" where
  "promote_keys promotion now keys = (case promotion of
      None \<Rightarrow> keys
    | Some (newKey, oldKeys) \<Rightarrow>
        update_where (\<lambda>k. key_id k \<in> set (map key_id oldKeys))
          (\<lambda>k. k\<lparr>key_status := DK_RETIRING, retiringAt := Some now\<rparr>)
          (update_where (\<lambda>k. key_id k = key_id newKey)
             (\<lambda>k. k\<lparr>key_status := DK_ACTIVE, key_activatedAt := Some now\<rparr>) keys))"

definition states_for ::
  "(dns_record \<Rightarrow> record_evaluation) \<Rightarrow> (dkim_key \<times> dkim_key list) option \<Rightarrow> mail_domain \<Rightarrow> record_purpose
     \<Rightarrow> record_state list" where
  "states_for eval promotion d p = map (\<lambda>r. e_state (eval r))
     (filter (\<lambda>r. purpose r = p \<and> requiredFor promotion r) (d_records d))"

definition ownership_status :: "record_state list \<Rightarrow> verification_status" where
  "ownership_status states =
     (let ownership = (case states of [] \<Rightarrow> RS_PENDING | s # _ \<Rightarrow> s)
      in if ownership = RS_VERIFIED then VS_VERIFIED
         else if ownership = RS_PENDING then VS_PENDING else VS_FAILED)"

text \<open>\<open>errorDetails\<close>: the first failed lookup under each legacy key.\<close>

definition error_details :: "lookup_results \<Rightarrow> dns_record list \<Rightarrow> (string \<times> string) list" where
  "error_details results records =
     foldl (\<lambda>det r. case outcomeFor results (toSpec r) of
         Some (LookupFailed _ ec) \<Rightarrow>
           (if map_of det (errorKey r) = None then det @ [(errorKey r, ec)] else det)
       | _ \<Rightarrow> det) [] records"

definition is_lookup_error :: "dns_outcome \<Rightarrow> bool" where
  "is_lookup_error out = (case out of LookupFailed ERROR _ \<Rightarrow> True | _ \<Rightarrow> False)"

text \<open>The row of the domain after the check.\<close>

definition checked_domain ::
  "domain_env \<Rightarrow> lookup_results \<Rightarrow> instant \<Rightarrow> mail_domain \<Rightarrow> mail_domain" where
  "checked_domain env results now d =
     (let eval = evaluate_all env results d;
          promotion = find_promotion eval d;
          ready = readiness_of (verdicts eval promotion d);
          nxt = next_state env now ready d;
          events = reported_events d nxt;
          states = states_for eval promotion d;
          delay = nextCheckDelayMs \<lparr>s_status = r_status nxt, s_fullyReady = fullyReady ready,
            s_lookupErrors = list_ex (\<lambda>(k, out). is_lookup_error out) results,
            s_rotationPending = (find_pending d \<noteq> None \<and> promotion = None),
            s_createdAt = d_createdAt d, s_now = now, s_verifiedIntervalMs = recheckVerifiedMs env\<rparr>;
          suspended = (LE_SUSPENDED \<in> set events);
          resumed = (LE_RESUMED \<in> set events \<or> LE_AUTO_ACTIVATED \<in> set events)
      in d\<lparr>d_records := map (checked_record eval promotion now) (d_records d),
           d_keys := promote_keys promotion now (d_keys d),
           d_verification := ownership_status (states OWNERSHIP),
           d_mx := (if d_receivingEnabled d then legacyStatus (states MX) else RL_PENDING),
           d_spf := legacyStatus (states SPF), d_dkim := legacyStatus (states DKIM),
           d_dmarc := legacyStatus (states DMARC),
           d_status := r_status nxt, d_sendingEnabled := r_sendingEnabled nxt,
           d_failures := r_consecutiveFailures nxt,
           d_errorDetails := error_details results (d_records d),
           d_firstCheckedAt := (case d_firstCheckedAt d of Some t \<Rightarrow> Some t | None \<Rightarrow> Some now),
           d_lastCheckedAt := Some now, d_nextCheckAt := Some (now + delay),
           d_lastVerifiedAt := (if sendReady ready then Some now else d_lastVerifiedAt d),
           d_lastSyncError := (if list_all (\<lambda>r. publishState r \<noteq> PB_FAILED
                \<or> e_state (eval r) = RS_VERIFIED) (d_records d) then None else d_lastSyncError d),
           d_suspendedAt := (if resumed then None else if suspended then Some now else d_suspendedAt d),
           d_suspension := (if resumed then None else if suspended then Some (blocking ready)
             else d_suspension d),
           d_activatedAt := (if resumed then Some now else if suspended then None
             else d_activatedAt d)\<rparr>)"

fun state_name :: "record_state \<Rightarrow> string" where
  "state_name RS_PENDING = ''PENDING''"
| "state_name RS_VERIFIED = ''VERIFIED''"
| "state_name RS_MISSING = ''MISSING''"
| "state_name RS_MISMATCH = ''MISMATCH''"
| "state_name RS_CONFLICT = ''CONFLICT''"
| "state_name RS_LOOKUP_ERROR = ''LOOKUP_ERROR''"

fun status_name :: "lifecycle_status \<Rightarrow> string" where
  "status_name DL_PENDING = ''PENDING_VERIFICATION''"
| "status_name DL_VERIFIED = ''VERIFIED''"
| "status_name DL_ACTIVE = ''ACTIVE''"
| "status_name DL_DEGRADED = ''DEGRADED''"
| "status_name DL_FAILED = ''FAILED''"

fun trigger_name :: "check_trigger \<Rightarrow> string" where
  "trigger_name CT_CREATED = ''CREATED''"
| "trigger_name CT_MANUAL = ''MANUAL''"
| "trigger_name CT_SCHEDULED = ''SCHEDULED''"
| "trigger_name CT_CONFIG_CHANGE = ''CONFIG_CHANGE''"
| "trigger_name CT_PUBLISH = ''PUBLISH''"

text \<open>The events of the check, in the order they are written.\<close>

definition check_events ::
  "domain_env \<Rightarrow> lookup_results \<Rightarrow> instant \<Rightarrow> check_trigger \<Rightarrow> mail_domain \<Rightarrow> pipeline_event list" where
  "check_events env results now trigger d =
     (let eval = evaluate_all env results d;
          promotion = find_promotion eval d;
          ready = readiness_of (verdicts eval promotion d);
          nxt = next_state env now ready d;
          changes = map (\<lambda>r. JObj [(''recordKey'', JStr (recordKey r)),
                (''from'', JStr (state_name (rec_state r))), (''to'', JStr (state_name (e_state (eval r))))])
              (filter (\<lambda>r. rec_state r \<noteq> e_state (eval r)) (d_records d))
      in (if trigger = CT_MANUAL
          then [(AT_ADMIN, ''DOMAIN_DNS_CHECKED'',
                 JObj [(''readyForSending'', JBool (sendReady ready)),
                       (''status'', JStr (status_name (r_status nxt))), (''changes'', JArr changes)])]
          else if changes \<noteq> []
          then [(AT_SYSTEM, ''DOMAIN_DNS_RECORD_CHANGED'',
                 JObj [(''trigger'', JStr (trigger_name trigger)), (''changes'', JArr changes)])]
          else [])
       @ (case promotion of None \<Rightarrow> []
          | Some (newKey, oldKeys) \<Rightarrow>
              [(AT_SYSTEM, ''DOMAIN_DKIM_ROTATED'',
                JObj [(''activeSelector'', JStr (key_selector newKey)),
                      (''retiringSelectors'', strs (map key_selector oldKeys))])])
       @ map (\<lambda>e. (AT_SYSTEM, EVENT_AUDIT e,
            JObj [(''automatic'', JBool True), (''blocking'', strs (map purpose_name (blocking ready))),
                  (''consecutiveFailures'', JNum (int (r_consecutiveFailures nxt))),
                  (''trigger'', JStr (trigger_name trigger))])) (reported_events d nxt))"

fun notice_type :: "lifecycle_event \<Rightarrow> string" where
  "notice_type LE_AUTO_ACTIVATED = ''INFO''"
| "notice_type LE_VERIFIED = ''INFO''"
| "notice_type LE_AT_RISK = ''WARNING''"
| "notice_type LE_SUSPENDED = ''WARNING''"
| "notice_type LE_RESUMED = ''INFO''"
| "notice_type LE_VERIFICATION_FAILED = ''ACTION_REQUIRED''"
| "notice_type LE_VERIFICATION_LOST = ''WARNING''"

definition notifyForEvent :: "member list \<Rightarrow> mail_domain \<Rightarrow> lifecycle_event \<Rightarrow> domain_notice list" where
  "notifyForEvent mems d e =
     map (\<lambda>m. \<lparr>n_tenantId = d_tenantId d, n_userId = m_userId m, n_type = notice_type e, n_event = e\<rparr>)
       (filter (\<lambda>m. m_tenantId m = d_tenantId d \<and> m_active m \<and> m_role m \<in> {OWNER, ADMIN}) mems)"

definition check_notices :: "domain_env \<Rightarrow> lookup_results \<Rightarrow> instant \<Rightarrow> member list \<Rightarrow> mail_domain \<Rightarrow> domain_notice list" where
  "check_notices env results now mems d =
     (let eval = evaluate_all env results d;
          ready = readiness_of (verdicts eval (find_promotion eval d) d);
          events = reported_events d (next_state env now ready d)
      in concat (map (notifyForEvent mems d)
           (filter (\<lambda>e. \<not> (e = LE_VERIFIED \<and> LE_AUTO_ACTIVATED \<in> set events)) events)))"

subsection \<open>The service\<close>

definition write_events :: "audit_ctx \<Rightarrow> uuid \<Rightarrow> pipeline_event list \<Rightarrow> domain_db \<Rightarrow> domain_db" where
  "write_events cx domainId evs db = db\<lparr>domain_log :=
     foldl (\<lambda>log (aty, ty, md). log_event (cx_newId cx) (cx_now cx) (cx_tenantId cx)
         (if aty = AT_ADMIN then cx_userId cx else None) (Some aty) ty ''MailDomain'' domainId
         (if md = JNull then None else Some md) log)
       (domain_log db) evs\<rparr>"

definition save_domain :: "mail_domain \<Rightarrow> domain_db \<Rightarrow> domain_db" where
  "save_domain d db = db\<lparr>domains := update_where (\<lambda>x. d_id x = d_id d) (\<lambda>_. d) (domains db)\<rparr>"

definition discard_secrets :: "string list \<Rightarrow> domain_db \<Rightarrow> domain_db" where
  "discard_secrets refs db = db\<lparr>secrets := filter (\<lambda>s. s \<notin> set refs) (secrets db)\<rparr>"

definition load_domain :: "uuid \<Rightarrow> uuid \<Rightarrow> domain_db \<Rightarrow> mail_domain result" where
  "load_domain domainId tenantId db =
     (case find_row (\<lambda>d. d_id d = domainId \<and> d_tenantId d = tenantId) (domains db) of
        Some d \<Rightarrow> Inr d | None \<Rightarrow> not_found)"

text \<open>The steps of \<open>synchronize\<close> up to the lookups.\<close>

definition prepare_domain ::
  "outside \<Rightarrow> audit_ctx \<Rightarrow> mail_domain \<Rightarrow> pipeline_event list \<Rightarrow> dns_spec list
     \<Rightarrow> mail_domain \<times> pipeline_event list" where
  "prepare_domain ext cx d2 evs2 removed =
     (let ev3 = fst (unpublishSpecs ext cx d2 removed ''Records no longer expected'');
          (d4, evs4, published, failed) =
            (if d_provider d2 \<noteq> MANUAL
                \<and> list_ex (\<lambda>r. publishState r = PB_PENDING \<or> publishState r = PB_FAILED) (d_records d2)
             then publishRecords ext cx PM_pending d2 else (d2, [], [], []))
      in (d4, evs2 @ ev3 @ evs4))"

definition synchronize ::
  "domain_env \<Rightarrow> outside \<Rightarrow> audit_ctx \<Rightarrow> check_trigger \<Rightarrow> uuid \<Rightarrow> domain_db
     \<Rightarrow> mail_domain result \<times> domain_db" where
  "synchronize env ext cx trigger domainId db =
     (case load_domain domainId (cx_tenantId cx) db of
        Inl e \<Rightarrow> (Inl e, db)
      | Inr d0 \<Rightarrow>
          if \<not> d_custom d0 then (Inr d0, save_domain (d0\<lparr>d_nextCheckAt := None\<rparr>) db)
          else
            (let now = cx_now cx;
                 (d1, evs1, gone) = retireExpiredKeys env now d0;
                 db1 = discard_secrets gone (write_events cx domainId evs1 (save_domain d1 db))
             in case reconcile env ext cx d1 of
                  Inl e \<Rightarrow> (Inl e, db1)
                | Inr (d2, removed, evs2, stored) \<Rightarrow>
                    (let (d4, evs4) = prepare_domain ext cx d2 evs2 removed;
                         results = lookupAll (map toSpec (d_records d4)) (lookups ext);
                         d5 = checked_domain env results now d4;
                         eval = evaluate_all env results d4;
                         evs5 = check_events env results now trigger d4;
                         db2 = write_events cx domainId (evs4 @ evs5) (save_domain d5 db1)
                     in (Inr d5, db2\<lparr>secrets := secrets db2 @ stored,
                           checks := checks db2 @ [\<lparr>c_domainId = domainId, c_trigger = trigger,
                              c_resultStatus = d_status d5,
                              c_results = map (\<lambda>r. (recordKey r, e_state (eval r))) (d_records d4),
                              c_checkedAt = now\<rparr>],
                           notices := notices db2
                              @ check_notices env results now (members db2) d4\<rparr>))))"

definition diagnostics ::
  "domain_env \<Rightarrow> outside \<Rightarrow> audit_ctx \<Rightarrow> uuid \<Rightarrow> domain_db \<Rightarrow> mail_domain result \<times> domain_db" where
  "diagnostics env ext cx domainId db =
     (case load_domain domainId (cx_tenantId cx) db of
        Inl e \<Rightarrow> (Inl e, db)
      | Inr d \<Rightarrow>
          if 0 < cooldownMs env
             \<and> (case d_lastCheckedAt d of None \<Rightarrow> False | Some t \<Rightarrow> cx_now cx - t < cooldownMs env)
          then (fail_with 429 RATE_LIMIT_EXCEEDED, db)
          else
            (let db1 = (if d_status d = DL_FAILED
                then write_events cx domainId
                  [(AT_ADMIN, ''DOMAIN_VERIFICATION_RESTARTED'',
                    JObj [(''windowHours'', JNum (windowHours env))])]
                  (save_domain (d\<lparr>d_status := DL_PENDING,
                     d_deadlineAt := Some (cx_now cx + windowHours env * hour_ms)\<rparr>) db)
                else db)
             in synchronize env ext cx CT_MANUAL domainId db1))"

definition rotateDkim ::
  "domain_env \<Rightarrow> outside \<Rightarrow> audit_ctx \<Rightarrow> uuid \<Rightarrow> domain_db \<Rightarrow> mail_domain result \<times> domain_db" where
  "rotateDkim env ext cx domainId db =
     (case load_domain domainId (cx_tenantId cx) db of
        Inl e \<Rightarrow> (Inl e, db)
      | Inr d \<Rightarrow>
          if \<not> d_custom d then (fail_with 409 CONFLICT, db)
          else if find_pending d \<noteq> None then (fail_with 409 CONFLICT, db)
          else
            (let k = generate_key env ext cx (d_id d) (d_domainName d) (map key_selector (d_keys d)) False
             in case add_key k d of
                  Inl e \<Rightarrow> (Inl e, db)
                | Inr d1 \<Rightarrow>
                    (let d2 = d1\<lparr>d_nextCheckAt := Some (cx_now cx)\<rparr>;
                         ev = (AT_ADMIN, ''DOMAIN_DKIM_ROTATION_STARTED'',
                            JObj [(''selector'', JStr (key_selector k)), (''keyBits'', JNum (int (keyBits k)))]);
                         db1 = write_events cx domainId [ev] (save_domain d2 db);
                         db2 = db1\<lparr>secrets := secrets db1 @ [privateKeySecretRef k]\<rparr>
                     in case reconcile env ext cx d2 of
                          Inl e \<Rightarrow> (Inl e, db2)
                        | Inr (d3, removed, evs3, stored) \<Rightarrow>
                            (let (d4, evs4, published, failed) =
                               (if d_provider d3 \<noteq> MANUAL then publishRecords ext cx PM_pending d3
                                else (d3, [], [], []))
                             in (Inr d4, (write_events cx domainId (evs3 @ evs4) (save_domain d4 db2))
                                   \<lparr>secrets := secrets db2 @ stored\<rparr>)))))"

definition activate :: "audit_ctx \<Rightarrow> uuid \<Rightarrow> domain_db \<Rightarrow> mail_domain result \<times> domain_db" where
  "activate cx domainId db =
     (case load_domain domainId (cx_tenantId cx) db of
        Inl e \<Rightarrow> (Inl e, db)
      | Inr d \<Rightarrow>
          if d_verification d \<noteq> VS_VERIFIED \<or> d_spf d \<noteq> RL_VALID
             \<or> d_dkim d \<noteq> RL_VALID \<or> \<not> list_ex (\<lambda>k. key_status k = DK_ACTIVE) (d_keys d)
             \<or> d_dmarc d \<noteq> RL_VALID
          then (fail_with 409 CONFLICT, db)
          else
            (let d' = d\<lparr>d_sendingEnabled := True, d_activatedAt := Some (cx_now cx), d_status := DL_ACTIVE,
                        d_failures := 0, d_suspendedAt := None, d_suspension := None\<rparr>
             in (Inr d', write_events cx domainId
                   [(AT_ADMIN, ''DOMAIN_SENDING_ACTIVATED'', JObj [(''automatic'', JBool False)])]
                   (save_domain d' db))))"

definition deactivate :: "audit_ctx \<Rightarrow> uuid \<Rightarrow> domain_db \<Rightarrow> mail_domain result \<times> domain_db" where
  "deactivate cx domainId db =
     (case load_domain domainId (cx_tenantId cx) db of
        Inl e \<Rightarrow> (Inl e, db)
      | Inr d \<Rightarrow>
          if \<not> d_sendingEnabled d \<and> d_status d \<noteq> DL_DEGRADED then (fail_with 409 CONFLICT, db)
          else
            (let d' = d\<lparr>d_sendingEnabled := False, d_autoActivate := False, d_activatedAt := None,
                        d_suspendedAt := None, d_suspension := None,
                        d_status := (if d_verification d = VS_VERIFIED then DL_VERIFIED else DL_PENDING)\<rparr>
             in (Inr d', write_events cx domainId
                   [(AT_ADMIN, ''DOMAIN_SENDING_DEACTIVATED'', JNull)] (save_domain d' db))))"

definition remove_domain ::
  "outside \<Rightarrow> audit_ctx \<Rightarrow> uuid \<Rightarrow> domain_db \<Rightarrow> uuid result \<times> domain_db" where
  "remove_domain ext cx domainId db =
     (case load_domain domainId (cx_tenantId cx) db of
        Inl e \<Rightarrow> (Inl e, db)
      | Inr d \<Rightarrow>
          if d_sendingEnabled d then (fail_with 409 CONFLICT, db)
          else if (cx_tenantId cx, domainId) \<in> set (mailbox_rows db) then (fail_with 409 CONFLICT, db)
          else
            (let (evs, removed, failed) = unpublishSpecs ext cx d (map toSpec (d_records d)) ''Domain removed'';
                 ev = (AT_ADMIN, ''DOMAIN_REMOVED'',
                    JObj [(''domainName'', JStr (d_domainName d)),
                          (''unpublished'', JNum (int (length removed))),
                          (''unpublishFailures'', JArr (map failure_json failed))]);
                 db1 = write_events cx domainId (evs @ [ev])
                   (db\<lparr>domains := delete_where (\<lambda>x. d_id x = domainId) (domains db),
                       checks := delete_where (\<lambda>c. c_domainId c = domainId) (checks db)\<rparr>)
             in (Inr domainId, discard_secrets (map privateKeySecretRef (d_keys d)) db1)))"

subsection \<open>Adding and configuring\<close>

record add_input =
  a_domainName :: string
  a_provider :: "dns_provider option"
  a_credentialId :: "uuid option"
  a_receiving :: "bool option"
  a_replaceMx :: "bool option"
  a_autoActivate :: "bool option"
  a_dmarcPolicy :: "dmarc_policy option"
  a_dmarcEmail :: "string option"

definition given :: "'a option \<Rightarrow> 'a \<Rightarrow> 'a" where
  "given v x = (case v of Some y \<Rightarrow> y | None \<Rightarrow> x)"

definition assertProvider :: "outside \<Rightarrow> dns_provider \<Rightarrow> uuid option \<Rightarrow> unit result" where
  "assertProvider ext p credentialId =
     (if p = MANUAL then Inr ()
      else if \<not> truthy credentialId then fail_with 400 VALIDATION_ERROR
      else (case credentialUsable ext (the credentialId) p of Some e \<Rightarrow> Inl e | None \<Rightarrow> Inr ()))"

definition new_domain ::
  "domain_env \<Rightarrow> audit_ctx \<Rightarrow> uuid \<Rightarrow> string \<Rightarrow> add_input \<Rightarrow> mail_domain" where
  "new_domain env cx newDomainId token x =
     (let p = given (a_provider x) MANUAL
      in \<lparr>d_id = newDomainId, d_tenantId = cx_tenantId cx, d_domainName = a_domainName x, d_custom = True,
          d_token = ''zoiko-mail-verification='' @ token, d_verification = VS_PENDING,
          d_mx = RL_PENDING, d_spf = RL_PENDING, d_dkim = RL_PENDING, d_dmarc = RL_PENDING,
          d_firstCheckedAt = None, d_lastCheckedAt = None, d_errorDetails = [],
          d_sendingEnabled = False, d_activatedAt = None, d_status = DL_PENDING, d_provider = p,
          d_credentialId = (if p = MANUAL then None else a_credentialId x),
          d_receivingEnabled = given (a_receiving x) True,
          d_replaceExistingMx = given (a_replaceMx x) False,
          d_autoActivate = given (a_autoActivate x) True,
          d_dmarcPolicy = given (a_dmarcPolicy x) P_NONE, d_dmarcReportEmail = a_dmarcEmail x,
          d_configVersion = 1, d_nextCheckAt = Some (cx_now cx), d_lastVerifiedAt = None,
          d_lastPublishedAt = None, d_lastSyncError = None, d_failures = 0, d_graceUntil = None,
          d_deadlineAt = Some (cx_now cx + windowHours env * hour_ms), d_suspendedAt = None,
          d_suspension = None, d_createdAt = cx_now cx, d_records = [], d_keys = []\<rparr>)"

definition owned_by_platform :: "platform_dns_config \<Rightarrow> string \<Rightarrow> bool" where
  "owned_by_platform config domainName =
     list_ex (\<lambda>root. domainName = root \<or> ends_with (''.'' @ root) domainName) (platformOwnedDomains config)"

definition add_domain ::
  "domain_env \<Rightarrow> outside \<Rightarrow> audit_ctx \<Rightarrow> uuid \<Rightarrow> string \<Rightarrow> add_input \<Rightarrow> domain_db
     \<Rightarrow> mail_domain result \<times> domain_db" where
  "add_domain env ext cx newDomainId token x db =
     (if owned_by_platform (platform env) (a_domainName x) then (fail_with 400 VALIDATION_ERROR, db)
      else if list_ex (\<lambda>d. d_tenantId d = cx_tenantId cx \<and> d_domainName d = a_domainName x) (domains db)
      then (fail_with 409 CONFLICT, db)
      else if list_ex (\<lambda>d. d_domainName d = a_domainName x \<and> d_tenantId d \<noteq> cx_tenantId cx
                  \<and> d_verification d = VS_VERIFIED) (domains db)
      then (fail_with 409 CONFLICT, db)
      else (case assertProvider ext (given (a_provider x) MANUAL)
              (if given (a_provider x) MANUAL = MANUAL then None else a_credentialId x) of
          Inl e \<Rightarrow> (Inl e, db)
        | Inr u \<Rightarrow>
            if newDomainId \<in> d_id ` set (domains db) then (fail_with 409 CONFLICT, db)
            else (let d = new_domain env cx newDomainId token x;
                 k = generate_key env ext cx newDomainId (a_domainName x) [] True;
                 d1 = d\<lparr>d_keys := [k]\<rparr>;
                 auto = (d_provider d \<noteq> MANUAL);
                 specs = expected_for env d1;
                 d2 = d1\<lparr>d_records := map (fresh_record auto) specs\<rparr>;
                 evs = [(AT_ADMIN, ''DOMAIN_ADDED'',
                          JObj [(''domainName'', JStr (a_domainName x)),
                                (''dnsProvider'', JStr (provider_name (d_provider d)))]),
                        (AT_ADMIN, ''DOMAIN_DNS_RECORDS_GENERATED'',
                          JObj [(''records'', strs (map recordKey specs)),
                                (''dkimSelector'', JStr (key_selector k)),
                                (''keyBits'', JNum (int (keyBits k)))])];
                 (d3, evs3, published, failed) =
                   (if auto then publishRecords ext cx PM_pending d2 else (d2, [], [], []))
             in (Inr d3, (write_events cx newDomainId (evs @ evs3) (db\<lparr>domains := domains db @ [d3]\<rparr>))
                   \<lparr>secrets := secrets db @ [privateKeySecretRef k]\<rparr>))))"

record config_patch =
  p_provider :: "dns_provider option"
  p_credentialId :: "uuid option option"
  p_receiving :: "bool option"
  p_replaceMx :: "bool option"
  p_autoActivate :: "bool option"
  p_dmarcPolicy :: "dmarc_policy option"
  p_dmarcEmail :: "string option option"

definition patched :: "config_patch \<Rightarrow> mail_domain \<Rightarrow> mail_domain" where
  "patched x d =
     (let p = given (p_provider x) (d_provider d)
      in d\<lparr>d_provider := p,
           d_credentialId := (if p = MANUAL then None else given (p_credentialId x) (d_credentialId d)),
           d_receivingEnabled := given (p_receiving x) (d_receivingEnabled d),
           d_replaceExistingMx := given (p_replaceMx x) (d_replaceExistingMx d),
           d_autoActivate := given (p_autoActivate x) (d_autoActivate d),
           d_dmarcPolicy := given (p_dmarcPolicy x) (d_dmarcPolicy d),
           d_dmarcReportEmail := given (p_dmarcEmail x) (d_dmarcReportEmail d)\<rparr>)"

text \<open>\<open>configSnapshot\<close>, in the order of its entries.\<close>

definition configSnapshot :: "mail_domain \<Rightarrow> (string \<times> json) list" where
  "configSnapshot d =
     [(''dnsProvider'', JStr (provider_name (d_provider d))),
      (''dnsCredentialId'', jopt (d_credentialId d)),
      (''receivingEnabled'', JBool (d_receivingEnabled d)),
      (''replaceExistingMx'', JBool (d_replaceExistingMx d)),
      (''autoActivateSending'', JBool (d_autoActivate d)),
      (''dmarcPolicy'', JStr (map upper_char (policy_name (d_dmarcPolicy d)))),
      (''dmarcReportEmail'', jopt (d_dmarcReportEmail d))]"

definition changed_entries :: "mail_domain \<Rightarrow> mail_domain \<Rightarrow> (string \<times> json) list" where
  "changed_entries d d' = filter (\<lambda>(k, v). map_of (configSnapshot d') k \<noteq> Some v) (configSnapshot d)"

definition updateConfig ::
  "domain_env \<Rightarrow> outside \<Rightarrow> audit_ctx \<Rightarrow> uuid \<Rightarrow> config_patch \<Rightarrow> domain_db
     \<Rightarrow> mail_domain result \<times> domain_db" where
  "updateConfig env ext cx domainId x db =
     (case load_domain domainId (cx_tenantId cx) db of
        Inl e \<Rightarrow> (Inl e, db)
      | Inr d \<Rightarrow>
          if \<not> d_custom d then (fail_with 409 CONFLICT, db)
          else (let d1 = patched x d; changed = map fst (changed_entries d d1) in
            case assertProvider ext (d_provider d1) (d_credentialId d1) of
              Inl e \<Rightarrow> (Inl e, db)
            | Inr u \<Rightarrow>
                if changed = [] then (Inr d, db)
                else
                  (let d2 = d1\<lparr>d_configVersion := d_configVersion d + 1, d_nextCheckAt := Some (cx_now cx)\<rparr>;
                       ev = (AT_ADMIN, ''DOMAIN_CONFIG_UPDATED'',
                          JObj [(''changed'', strs changed),
                                (''before'', JObj (changed_entries d d1)),
                                (''after'', JObj (changed_entries d1 d))]);
                       db1 = write_events cx domainId [ev] (save_domain d2 db)
                   in case reconcile env ext cx d2 of
                        Inl e \<Rightarrow> (Inl e, db1)
                      | Inr (d3, removed, evs3, stored) \<Rightarrow>
                          (let ev4 = fst (unpublishSpecs ext cx d3 removed ''Records no longer expected'');
                               rewrite = list_ex (\<lambda>k. k \<in> set [''replaceExistingMx'', ''dnsProvider'',
                                    ''dnsCredentialId'']) changed;
                               (d4, evs5, published, failed) =
                                 (if d_provider d3 \<noteq> MANUAL
                                  then publishRecords ext cx (if rewrite then PM_all else PM_pending) d3
                                  else (d3, [], [], []))
                           in (Inr d4, (write_events cx domainId (evs3 @ ev4 @ evs5) (save_domain d4 db1))
                                 \<lparr>secrets := secrets db1 @ stored\<rparr>)))))"

definition publish_domain ::
  "outside \<Rightarrow> audit_ctx \<Rightarrow> uuid \<Rightarrow> domain_db \<Rightarrow> mail_domain result \<times> domain_db" where
  "publish_domain ext cx domainId db =
     (case load_domain domainId (cx_tenantId cx) db of
        Inl e \<Rightarrow> (Inl e, db)
      | Inr d \<Rightarrow>
          if d_provider d = MANUAL then (fail_with 409 CONFLICT, db)
          else (let (d', evs, published, failed) = publishRecords ext cx PM_all d
                in (Inr d', write_events cx domainId evs (save_domain d' db))))"

subsection \<open>The scheduler\<close>

definition LEASE_MINUTES :: int where
  "LEASE_MINUTES = 10"

definition is_due :: "instant \<Rightarrow> mail_domain \<Rightarrow> bool" where
  "is_due now d \<longleftrightarrow> d_custom d \<and> (case d_nextCheckAt d of None \<Rightarrow> False | Some t \<Rightarrow> t \<le> now)"

definition due_ids :: "nat \<Rightarrow> instant \<Rightarrow> mail_domain list \<Rightarrow> uuid list" where
  "due_ids limit now ds =
     map d_id (take limit (sort_key (\<lambda>d. the (d_nextCheckAt d)) (filter (is_due now) ds)))"

definition claimDueDomains :: "nat \<Rightarrow> instant \<Rightarrow> domain_db \<Rightarrow> (uuid \<times> uuid) list \<times> domain_db" where
  "claimDueDomains limit now db =
     (let ids = due_ids limit now (domains db)
      in (map (\<lambda>d. (d_id d, d_tenantId d)) (filter (\<lambda>d. d_id d \<in> set ids) (domains db)),
          db\<lparr>domains := update_where (\<lambda>d. d_id d \<in> set ids)
               (\<lambda>d. d\<lparr>d_nextCheckAt := Some (now + LEASE_MINUTES * minute_ms)\<rparr>) (domains db)\<rparr>))"

record sync_run =
  sr_claimed :: nat
  sr_synchronized :: nat
  sr_failed :: nat

text \<open>A synchronization that throws leaves its reason on the row and is tried again in five minutes.\<close>

definition sync_one ::
  "domain_env \<Rightarrow> (uuid \<Rightarrow> outside) \<Rightarrow> (nat \<Rightarrow> uuid) \<Rightarrow> instant \<Rightarrow> uuid \<times> uuid
     \<Rightarrow> nat \<times> nat \<times> domain_db \<Rightarrow> nat \<times> nat \<times> domain_db" where
  "sync_one env ext newId now target acc =
     (let (domainId, tenantId) = target; (done_n, failed_n, db) = acc;
          cx = \<lparr>cx_tenantId = tenantId, cx_userId = None, cx_now = now, cx_newId = newId\<rparr>
      in case synchronize env (ext domainId) cx CT_SCHEDULED domainId db of
           (Inr d, db') \<Rightarrow> (done_n + 1, failed_n, db')
         | (Inl e, db') \<Rightarrow> (done_n, failed_n + 1,
             db'\<lparr>domains := update_where (\<lambda>d. d_id d = domainId \<and> d_tenantId d = tenantId)
               (\<lambda>d. d\<lparr>d_lastSyncError := Some (case e of ServerError m \<Rightarrow> m | AppError _ _ _ \<Rightarrow> []),
                      d_nextCheckAt := Some (now + 5 * 60000)\<rparr>) (domains db')\<rparr>))"

definition runDueDomainSyncs ::
  "domain_env \<Rightarrow> (uuid \<Rightarrow> outside) \<Rightarrow> (nat \<Rightarrow> uuid) \<Rightarrow> nat \<Rightarrow> instant \<Rightarrow> domain_db \<Rightarrow> sync_run \<times> domain_db" where
  "runDueDomainSyncs env ext newId limit now db =
     (let (due, db1) = claimDueDomains limit now db;
          (ok, bad, db2) = fold (sync_one env ext newId now) due (0, 0, db1)
      in (\<lparr>sr_claimed = length due, sr_synchronized = ok, sr_failed = bad\<rparr>, db2))"

end
