(* ===== verification/Domain_Safety.thy ===== *)
theory Domain_Safety
  imports Domains
begin

section \<open>The custom domains as a machine\<close>

text \<open>
  Every request and every run of the scheduler is a step. The invariant: sending is on exactly in
  the state \<open>ACTIVE\<close>, a suspension is recorded exactly in the state \<open>DEGRADED\<close>, a domain has at most
  one active and one pending DKIM key, and its records, keys and selectors are unique.
\<close>

subsection \<open>The invariant of a row\<close>

definition status_ok :: "mail_domain \<Rightarrow> bool" where
  "status_ok d \<longleftrightarrow> (d_sendingEnabled d \<longleftrightarrow> d_status d = DL_ACTIVE)
     \<and> (d_status d = DL_DEGRADED \<longleftrightarrow> d_suspendedAt d \<noteq> None)"

definition count_status :: "dkim_status \<Rightarrow> dkim_key list \<Rightarrow> nat" where
  "count_status st keys = count_where (\<lambda>k. key_status k = st) keys"

definition keys_ok :: "dkim_key list \<Rightarrow> bool" where
  "keys_ok keys \<longleftrightarrow> count_status DK_ACTIVE keys \<le> 1 \<and> count_status DK_PENDING keys \<le> 1
     \<and> unique_key key_id keys \<and> unique_key key_selector keys"

text \<open>The key of a record says what it is for.\<close>

definition key_purpose :: "string \<Rightarrow> record_purpose" where
  "key_purpose k =
     (if starts_with ''MX:'' k then MX else if starts_with ''DKIM:'' k then DKIM
      else if k = ''SPF'' then SPF else if k = ''DMARC'' then DMARC
      else if k = ''AUTODISCOVER'' then AUTODISCOVER else if k = ''AUTOCONFIG'' then AUTOCONFIG
      else OWNERSHIP)"

definition records_ok :: "dns_record list \<Rightarrow> bool" where
  "records_ok rs \<longleftrightarrow> unique_key recordKey rs \<and> list_all (\<lambda>r. purpose r = key_purpose (recordKey r)) rs"

definition domain_ok :: "mail_domain \<Rightarrow> bool" where
  "domain_ok d \<longleftrightarrow> status_ok d \<and> keys_ok (d_keys d) \<and> records_ok (d_records d)"

definition same_domain :: "mail_domain \<Rightarrow> mail_domain \<Rightarrow> bool" where
  "same_domain d d' \<longleftrightarrow> d_id d' = d_id d \<and> d_tenantId d' = d_tenantId d
     \<and> d_domainName d' = d_domainName d \<and> d_custom d' = d_custom d"

lemmas domain_ok_defs = domain_ok_def status_ok_def same_domain_def

lemma count_where_update_le:
  "(\<And>r. r \<in> set rows \<Longrightarrow> Q (f r) \<Longrightarrow> P r \<Longrightarrow> Q r) \<Longrightarrow> count_where Q (update_where P f rows) \<le> count_where Q rows"
  by (induction rows) (auto simp: table_simps intro: le_SucI)

lemma map_if_update_where: "map (\<lambda>k. if P k then f k else k) ks = update_where P f ks"
  by (simp add: update_where_def)

lemma retire_ok:
  assumes "retireExpiredKeys env now d = (d', evs, gone)" "domain_ok d"
  shows "domain_ok d' \<and> same_domain d d'"
proof -
  have "keys_ok (update_where (key_expired env now)
      (\<lambda>k. k\<lparr>key_status := DK_RETIRED, retiredAt := Some now\<rparr>) (d_keys d))"
    using assms(2) unfolding domain_ok_def keys_ok_def count_status_def
    by (auto simp: unique_key_update_where intro: order_trans [OF count_where_update_le])
  then show ?thesis
    using assms unfolding retireExpiredKeys_def map_if_update_where
    by (auto simp: domain_ok_defs Let_def split: if_splits)
qed

subsection \<open>Keys of the expected records\<close>

lemma recordKey_spec_for [simp]: "recordKey (spec_for d c key p ty nm v r) = key"
  by (simp add: spec_for_def)

definition hosts_distinct :: "platform_dns_config \<Rightarrow> bool" where
  "hosts_distinct config = distinct (map mx_host (mxHosts config))"

lemma expected_keys_distinct:
  assumes "hosts_distinct config"
    and "distinct (map k_selector (filter (\<lambda>k. k_status k \<noteq> DK_RETIRED) keys))"
  shows "distinct (map recordKey (expectedRecords dmn keys config))"
proof -
  have mx: "distinct (map (\<lambda>mx. ''MX:'' @ mx_host mx) (mxHosts config))"
    using assms(1) by (auto simp: hosts_distinct_def distinct_map inj_on_def)
  have dk: "distinct (map (\<lambda>k. ''DKIM:'' @ k_selector k) (filter (\<lambda>k. k_status k \<noteq> DK_RETIRED) keys))"
    using assms(2) by (auto simp: distinct_map inj_on_def)
  show ?thesis using mx dk
    by (auto simp: expectedRecords_def Let_def comp_def)
qed

lemma selectors_live: "map k_selector (filter (\<lambda>k. k_status k \<noteq> DK_RETIRED) (map key_input ks))
    = map key_selector (filter (\<lambda>k. key_status k \<noteq> DK_RETIRED) ks)"
  by (induction ks) (auto simp: key_input_def)

lemma expected_for_distinct:
  assumes "hosts_distinct (platform env)" "unique_key key_selector (d_keys d)"
  shows "distinct (map recordKey (expected_for env d))"
  unfolding expected_for_def
proof (rule expected_keys_distinct [OF assms(1)])
  have "distinct (map key_selector (filter (\<lambda>k. key_status k \<noteq> DK_RETIRED) (live_keys d)))"
    using assms(2) unfolding unique_key_def live_keys_def by (intro distinct_map_filter)
  then show "distinct (map k_selector (filter (\<lambda>k. k_status k \<noteq> DK_RETIRED) (map key_input (live_keys d))))"
    by (simp add: selectors_live)
qed

subsection \<open>Reconciliation makes the records the expected ones\<close>

lemma recordKey_fresh [simp]: "recordKey (fresh_record auto s) = recordKey s"
  by (simp add: fresh_record_def dns_spec.extend_def)

lemma recordKey_merge: "recordKey s = recordKey cur \<Longrightarrow> recordKey (merge_record auto cur s) = recordKey cur"
  by (simp add: merge_record_def Let_def dns_spec.extend_def)

lemma map_filter_Cons: "List.map_filter f (x # xs) =
    (case f x of None \<Rightarrow> List.map_filter f xs | Some y \<Rightarrow> y # List.map_filter f xs)"
  by (simp add: List.map_filter_def split: option.split)

lemma map_filter_Nil: "List.map_filter f [] = []"
  by (simp add: List.map_filter_def)

lemma merged_keys:
  "map recordKey (List.map_filter (\<lambda>cur. map_option (merge_record auto cur)
      (find_row (\<lambda>s. recordKey s = recordKey cur) specs)) stored)
   = filter (\<lambda>k. k \<in> recordKey ` set specs) (map recordKey stored)"
proof (induction stored)
  case (Cons cur stored)
  show ?case
  proof (cases "find_row (\<lambda>s. recordKey s = recordKey cur) specs")
    case None
    then have "recordKey cur \<notin> recordKey ` set specs"
      by (auto simp: find_row_None_iff)
    with None Cons show ?thesis by (simp add: map_filter_Cons)
  next
    case (Some s)
    from find_row_SomeD [OF Some] have s: "recordKey s = recordKey cur" "s \<in> set specs" by auto
    then have "recordKey cur \<in> recordKey ` set specs" by (metis imageI)
    with Some Cons s show ?thesis by (simp add: map_filter_Cons recordKey_merge)
  qed
qed (simp add: map_filter_Nil)

lemma reconcile_keys_distinct:
  assumes "unique_key recordKey stored" "distinct (map recordKey specs)"
  shows "unique_key recordKey (reconcile_records auto stored specs)"
proof -
  have new: "map recordKey (map (fresh_record auto) (filter Q specs)) = map recordKey (filter Q specs)" for Q
    by simp
  have d1: "distinct (filter (\<lambda>k. k \<in> recordKey ` set specs) (map recordKey stored))"
    using assms(1) by (simp add: unique_key_def)
  have d2: "distinct (map recordKey
      (filter (\<lambda>s. find_row (\<lambda>cur. recordKey cur = recordKey s) stored = None) specs))"
    using assms(2) by (simp add: distinct_map_filter)
  have dis: "set (filter (\<lambda>k. k \<in> recordKey ` set specs) (map recordKey stored))
      \<inter> recordKey ` {s \<in> set specs. find_row (\<lambda>cur. recordKey cur = recordKey s) stored = None} = {}"
    by (auto simp: find_row_None_iff)
  show ?thesis
    unfolding unique_key_def reconcile_records_def map_append merged_keys new distinct_append
    using d1 d2 dis by simp
qed

lemma purpose_spec_for [simp]: "purpose (spec_for d c key p ty nm v r) = p"
  by (simp add: spec_for_def)

lemma expected_purpose: "s \<in> set (expectedRecords dmn keys config) \<Longrightarrow> purpose s = key_purpose (recordKey s)"
  by (auto simp: expectedRecords_def Let_def key_purpose_def split: if_splits)

lemma toSpec_extend: "toSpec (dns_spec.extend s xs) = s"
  by (cases s) (simp add: toSpec_def dns_spec.extend_def dns_spec.truncate_def)

lemma toSpec_fields:
  "recordKey (toSpec r) = recordKey r" "purpose (toSpec r) = purpose r" "rtype (toSpec r) = rtype r"
  "rname (toSpec r) = rname r" "fqdn (toSpec r) = fqdn r" "rvalue (toSpec r) = rvalue r"
  "priority (toSpec r) = priority r" "ttl (toSpec r) = ttl r" "required (toSpec r) = required r"
  "dkimKeyId (toSpec r) = dkimKeyId r"
  by (simp_all add: toSpec_def dns_spec.truncate_def)

lemma toSpec_eqI:
  assumes "recordKey s = recordKey cur" "purpose s = purpose cur"
    "\<not> content_changed cur s" "\<not> meta_changed cur s"
  shows "toSpec cur = s"
  using assms by (cases s) (auto simp: toSpec_def dns_spec.truncate_def content_changed_def meta_changed_def)

lemma toSpec_merge:
  assumes "recordKey s = recordKey cur" "purpose s = purpose cur"
  shows "toSpec (merge_record auto cur s) = s"
  using toSpec_eqI [OF assms] by (simp add: merge_record_def Let_def toSpec_extend)

lemma toSpec_fresh: "toSpec (fresh_record auto s) = s"
  by (simp add: fresh_record_def toSpec_extend)

lemma set_map_filter: "set (List.map_filter f xs) = {y. \<exists>x\<in>set xs. f x = Some y}"
  by (induction xs) (auto simp: map_filter_Cons map_filter_Nil split: option.splits)

lemma find_row_key:
  assumes "distinct (map k rows)" "r \<in> set rows"
  shows "find_row (\<lambda>x. k x = k r) rows = Some r"
  using assms by (induction rows) (auto simp: table_simps image_iff)

lemma set_reconcile:
  assumes "distinct (map recordKey specs)"
    and "\<And>cur s. cur \<in> set stored \<Longrightarrow> s \<in> set specs \<Longrightarrow> recordKey s = recordKey cur \<Longrightarrow> purpose s = purpose cur"
  shows "toSpec ` set (reconcile_records auto stored specs) = set specs"
proof (intro equalityI subsetI)
  fix x assume "x \<in> toSpec ` set (reconcile_records auto stored specs)"
  then obtain r where r: "x = toSpec r" "r \<in> set (reconcile_records auto stored specs)" by auto
  from r(2) consider
      cur s where "cur \<in> set stored" "find_row (\<lambda>s. recordKey s = recordKey cur) specs = Some s"
        "r = merge_record auto cur s"
    | s where "s \<in> set specs" "r = fresh_record auto s"
    by (auto simp: reconcile_records_def set_map_filter)
  then show "x \<in> set specs"
  proof cases
    case 1
    from find_row_SomeD [OF 1(2)] have "recordKey s = recordKey cur" "s \<in> set specs" by auto
    then show ?thesis using r(1) 1 toSpec_merge [of s cur auto] assms(2) [OF 1(1)] by simp
  next
    case 2
    then show ?thesis using r(1) by (simp add: toSpec_fresh)
  qed
next
  fix s assume s: "s \<in> set specs"
  show "s \<in> toSpec ` set (reconcile_records auto stored specs)"
  proof (cases "find_row (\<lambda>cur. recordKey cur = recordKey s) stored")
    case None
    with s have "fresh_record auto s \<in> set (reconcile_records auto stored specs)"
      by (simp add: reconcile_records_def)
    then show ?thesis using toSpec_fresh [of auto s] by (metis imageI)
  next
    case (Some cur)
    from find_row_SomeD [OF this] have cur: "recordKey cur = recordKey s" "cur \<in> set stored" by auto
    have f: "find_row (\<lambda>x. recordKey x = recordKey cur) specs = Some s"
      using find_row_key [OF assms(1) s] cur(1) by simp
    then have "merge_record auto cur s \<in> set (reconcile_records auto stored specs)"
      using cur(2) by (auto simp: reconcile_records_def set_map_filter)
    moreover have "toSpec (merge_record auto cur s) = s"
      using toSpec_merge [of s cur auto] assms(2) [OF cur(2) s] cur(1) by simp
    ultimately show ?thesis by (metis imageI)
  qed
qed

lemma reconciled_records_ok:
  assumes "records_ok stored" "distinct (map recordKey specs)"
    and "\<And>s. s \<in> set specs \<Longrightarrow> purpose s = key_purpose (recordKey s)"
  shows "records_ok (reconcile_records auto stored specs)
    \<and> toSpec ` set (reconcile_records auto stored specs) = set specs"
proof -
  have p: "purpose s = purpose cur" if "cur \<in> set stored" "s \<in> set specs" "recordKey s = recordKey cur" for cur s
    using assms(1,3) that by (auto simp: records_ok_def list_all_iff)
  have st: "toSpec ` set (reconcile_records auto stored specs) = set specs"
    by (rule set_reconcile [OF assms(2) p])
  have "purpose r = key_purpose (recordKey r)" if "r \<in> set (reconcile_records auto stored specs)" for r
  proof -
    from that st have "toSpec r \<in> set specs" by blast
    from assms(3) [OF this] show ?thesis by (simp add: toSpec_fields)
  qed
  then show ?thesis
    using st reconcile_keys_distinct [OF _ assms(2)] assms(1) by (simp add: records_ok_def list_all_iff)
qed

text \<open>A second pass finds nothing to do.\<close>

lemma merge_settled:
  assumes "toSpec r = s" "publishState r = next_publish_state auto r s"
  shows "merge_record auto r s = r"
proof -
  have "\<not> content_changed r s" "\<not> meta_changed r s"
    using assms(1) by (auto simp: content_changed_def meta_changed_def toSpec_fields)
  then show ?thesis using assms(2) by (simp add: merge_record_def)
qed

definition settled :: "bool \<Rightarrow> dns_record \<Rightarrow> bool" where
  "settled auto r \<longleftrightarrow> (auto \<longleftrightarrow> publishState r \<noteq> PB_NOT_APPLICABLE)"

lemma publishState_merge: "publishState (merge_record auto cur s) = next_publish_state auto cur s"
  by (simp add: merge_record_def Let_def dns_spec.extend_def dns_record.fields_def)

lemma publishState_fresh: "publishState (fresh_record auto s) = (if auto then PB_PENDING else PB_NOT_APPLICABLE)"
  by (simp add: fresh_record_def dns_spec.extend_def dns_record.fields_def)

lemma settled_reconcile:
  assumes "r \<in> set (reconcile_records auto stored specs)"
  shows "settled auto r"
proof -
  from assms consider cur s where "r = merge_record auto cur s" | s where "r = fresh_record auto s"
    by (auto simp: reconcile_records_def set_map_filter)
  then show ?thesis
    by cases (auto simp: settled_def publishState_merge publishState_fresh next_publish_state_def)
qed

lemma map_filter_id: "(\<And>x. x \<in> set xs \<Longrightarrow> f x = Some x) \<Longrightarrow> List.map_filter f xs = xs"
  by (induction xs) (auto simp: map_filter_Cons map_filter_Nil)

lemma reconcile_settled:
  assumes "distinct (map recordKey specs)" "toSpec ` set rows = set specs"
    and "\<And>r. r \<in> set rows \<Longrightarrow> settled auto r"
  shows "reconcile_records auto rows specs = rows"
proof -
  have "map_option (merge_record auto r) (find_row (\<lambda>s. recordKey s = recordKey r) specs) = Some r"
    if "r \<in> set rows" for r
  proof -
    have m: "toSpec r \<in> set specs" using assms(2) that by blast
    have "find_row (\<lambda>s. recordKey s = recordKey r) specs = Some (toSpec r)"
      using find_row_key [OF assms(1) m] by (simp add: toSpec_fields)
    moreover have "publishState r = next_publish_state auto r (toSpec r)"
      using assms(3) [OF that] by (auto simp: settled_def next_publish_state_def content_changed_def toSpec_fields)
    ultimately show ?thesis by (simp add: merge_settled)
  qed
  then have "List.map_filter (\<lambda>cur. map_option (merge_record auto cur)
      (find_row (\<lambda>s. recordKey s = recordKey cur) specs)) rows = rows"
    by (rule map_filter_id)
  moreover have "filter (\<lambda>s. find_row (\<lambda>cur. recordKey cur = recordKey s) rows = None) specs = []"
  proof -
    have "find_row (\<lambda>cur. recordKey cur = recordKey s) rows \<noteq> None" if "s \<in> set specs" for s
    proof -
      from that assms(2) obtain r where "r \<in> set rows" "s = toSpec r" by auto
      then show ?thesis by (auto simp: find_row_None_iff toSpec_fields)
    qed
    then show ?thesis by (auto simp: filter_empty_conv)
  qed
  ultimately show ?thesis by (simp add: reconcile_records_def)
qed

subsection \<open>The steps keep the invariant of the row\<close>

lemma records_ok_map:
  assumes "\<And>r. recordKey (f r) = recordKey r" "\<And>r. purpose (f r) = purpose r"
  shows "records_ok (map f rs) = records_ok rs"
  using assms by (simp add: records_ok_def unique_key_def comp_def list.pred_map)

lemma records_ok_update_where:
  assumes "\<And>r. recordKey (f r) = recordKey r" "\<And>r. purpose (f r) = purpose r"
  shows "records_ok (update_where P f rs) = records_ok rs"
  unfolding update_where_def by (rule records_ok_map) (simp_all add: assms)

lemma count_status_snoc: "count_status st (ks @ [k]) = count_status st ks + (if key_status k = st then 1 else 0)"
  by (simp add: count_status_def table_simps)

lemma count_status_0: "count_status st ks = 0 \<longleftrightarrow> (\<forall>k\<in>set ks. key_status k \<noteq> st)"
  by (simp add: count_status_def count_where_0_iff)

lemma add_key_ok:
  assumes "add_key k d = Inr d'" "domain_ok d"
    and "key_status k = DK_ACTIVE \<and> count_status DK_ACTIVE (d_keys d) = 0
      \<or> key_status k = DK_PENDING \<and> count_status DK_PENDING (d_keys d) = 0"
  shows "domain_ok d' \<and> same_domain d d'"
proof -
  have new: "key_selector k \<notin> key_selector ` set (d_keys d)" "key_id k \<notin> key_id ` set (d_keys d)"
    and d': "d' = d\<lparr>d_keys := d_keys d @ [k]\<rparr>"
    using assms(1) by (auto simp: add_key_def split: if_splits)
  have "keys_ok (d_keys d @ [k])"
    using assms(2,3) new unfolding keys_ok_def domain_ok_def
    by (auto simp: count_status_snoc unique_key_snoc)
  then show ?thesis using assms(2) by (simp add: d' domain_ok_defs)
qed

lemma reconcile_with_records:
  "d_records (fst (reconcile_with env cx g d)) =
     reconcile_records (d_provider d \<noteq> MANUAL) (d_records d) (expected_for env d)"
  "d_keys (fst (reconcile_with env cx g d)) = d_keys d"
  "status_ok (fst (reconcile_with env cx g d)) = status_ok d"
  "same_domain d (fst (reconcile_with env cx g d))"
  "domain_input (fst (reconcile_with env cx g d)) = domain_input d"
  "d_provider (fst (reconcile_with env cx g d)) = d_provider d"
  by (simp_all add: reconcile_with_def Let_def status_ok_def same_domain_def domain_input_def)

lemma expected_for_purpose: "s \<in> set (expected_for env d) \<Longrightarrow> purpose s = key_purpose (recordKey s)"
  unfolding expected_for_def by (rule expected_purpose)

lemma reconcile_with_ok:
  assumes "reconcile_with env cx g d = (d', removed, evs)" "domain_ok d" "hosts_distinct (platform env)"
  shows "domain_ok d' \<and> same_domain d d' \<and> toSpec ` set (d_records d') = set (expected_for env d')"
proof -
  have f: "d' = fst (reconcile_with env cx g d)" by (simp add: assms(1))
  note r = reconcile_with_records [where env = env and cx = cx and g = g and d = d, folded f]
  have e: "expected_for env d' = expected_for env d"
    using r by (simp add: expected_for_def live_keys_def)
  have "distinct (map recordKey (expected_for env d))"
    using assms(2) by (intro expected_for_distinct assms(3)) (simp add: domain_ok_def keys_ok_def)
  from reconciled_records_ok [OF _ this expected_for_purpose, of "d_records d"]
  show ?thesis using assms(2) r by (auto simp: domain_ok_def e)
qed

lemma generate_key_simps [simp]:
  "key_id (generate_key env ext cx i n ex act) = keyRowId ext"
  "key_status (generate_key env ext cx i n ex act) = (if act then DK_ACTIVE else DK_PENDING)"
  by (simp_all add: generate_key_def Let_def)

lemma needs_key_no_active: "needs_key d \<Longrightarrow> count_status DK_ACTIVE (d_keys d) = 0"
  by (auto simp: needs_key_def live_keys_def list_ex_iff count_status_0)

lemma reconcile_ok:
  assumes "reconcile env ext cx d = Inr (d', removed, evs, stored)" "domain_ok d"
    "hosts_distinct (platform env)"
  shows "domain_ok d' \<and> same_domain d d' \<and> toSpec ` set (d_records d') = set (expected_for env d')"
proof (cases "needs_key d")
  case False
  then obtain r where "reconcile_with env cx None d = (d', r)"
    using assms(1) by (auto simp: reconcile_def split: prod.splits)
  then show ?thesis using reconcile_with_ok assms(2,3) by (metis prod.collapse)
next
  case True
  define k where "k = generate_key env ext cx (d_id d) (d_domainName d) (map key_selector (d_keys d)) True"
  from True assms(1) obtain d1 where d1: "add_key k d = Inr d1"
      and f: "d' = fst (reconcile_with env cx (Some k) d1)"
    by (auto simp: reconcile_def k_def Let_def bind_result_Inr_iff case_prod_beta)
  define r where "r = snd (reconcile_with env cx (Some k) d1)"
  have r: "reconcile_with env cx (Some k) d1 = (d', r)" by (simp add: f r_def)
  have "domain_ok d1 \<and> same_domain d d1"
    by (rule add_key_ok [OF d1 assms(2)]) (use needs_key_no_active [OF True] in \<open>simp_all add: k_def\<close>)
  moreover from this reconcile_with_ok [of env cx "Some k" d1 d' "fst r" "snd r"] r assms(3)
  have "domain_ok d' \<and> same_domain d1 d' \<and> toSpec ` set (d_records d') = set (expected_for env d')" by simp
  ultimately show ?thesis by (auto simp: same_domain_def)
qed

lemma publishRecords_ok:
  assumes "publishRecords ext cx mode d = (d', evs, pub, failed)" "domain_ok d"
  shows "domain_ok d' \<and> same_domain d d'"
proof -
  have "records_ok (update_where P (mark_published ext now d) (d_records d)) = records_ok (d_records d)" for P now
    by (rule records_ok_update_where) (simp_all add: mark_published_def Let_def)
  then have "domain_ok (fst (publishRecords ext cx mode d)) = domain_ok d
      \<and> same_domain d (fst (publishRecords ext cx mode d))"
    by (simp add: publishRecords_def Let_def domain_ok_defs)
  then show ?thesis using assms by simp
qed

subsection \<open>The check keeps it too\<close>

lemma unique_key_map:
  assumes "\<And>x. k (f x) = k x"
  shows "unique_key k (map f xs) = unique_key k xs"
  by (simp add: unique_key_def comp_def assms)

lemma count_where_map: "count_where P (map f xs) = count_where (\<lambda>x. P (f x)) xs"
  by (simp add: count_where_def filter_map comp_def)

lemma count_where_key_le_1:
  assumes "unique_key k xs" "\<And>x. x \<in> set xs \<Longrightarrow> P x \<Longrightarrow> k x = i"
  shows "count_where P xs \<le> 1"
  using assms
proof (induction xs)
  case (Cons a xs)
  have u: "unique_key k xs" "k a \<notin> k ` set xs" using Cons.prems(1) by (auto simp: unique_key_def)
  show ?case
  proof (cases "P a")
    case True
    then have "k a = i" using Cons.prems(2) by simp
    then have "count_where P xs = 0"
      using u(2) Cons.prems(2) by (auto simp: count_where_0_iff) (metis imageI)
    with True show ?thesis by (simp add: table_simps)
  next
    case False
    with Cons u show ?thesis by (simp add: table_simps)
  qed
qed (simp add: table_simps)

lemma promote_keys_map:
  "promote_keys (Some (k, olds)) now keys = map (\<lambda>x.
     if key_id x \<in> set (map key_id olds) then
       (if key_id x = key_id k then x\<lparr>key_status := DK_ACTIVE, key_activatedAt := Some now\<rparr> else x)
         \<lparr>key_status := DK_RETIRING, retiringAt := Some now\<rparr>
     else if key_id x = key_id k then x\<lparr>key_status := DK_ACTIVE, key_activatedAt := Some now\<rparr> else x) keys"
  by (auto simp: promote_keys_def update_where_def)

lemma promote_ok:
  assumes "keys_ok keys" "olds = filter (\<lambda>k. key_status k = DK_ACTIVE) keys"
  shows "keys_ok (promote_keys (Some (k, olds)) now keys)"
proof -
  have u: "unique_key key_id keys" "unique_key key_selector keys" using assms(1) by (auto simp: keys_ok_def)
  have a: "count_status DK_ACTIVE (promote_keys (Some (k, olds)) now keys) \<le> 1"
    unfolding count_status_def promote_keys_map count_where_map
    by (rule count_where_key_le_1 [OF u(1), of _ "key_id k"]) (auto simp: assms(2) split: if_splits)
  have p: "count_status DK_PENDING (promote_keys (Some (k, olds)) now keys) \<le> count_status DK_PENDING keys"
    unfolding count_status_def promote_keys_map count_where_map
    unfolding count_where_def by (rule length_filter_mono) (auto split: if_splits)
  show ?thesis
    using assms(1) a p unfolding keys_ok_def promote_keys_map
    by (auto simp: unique_key_map)
qed

lemma find_promotion_SomeD: "find_promotion eval d = Some (k, olds) \<Longrightarrow>
    find_pending d = Some k \<and> olds = filter (\<lambda>k. key_status k = DK_ACTIVE) (d_keys d)
    \<and> (\<exists>r\<in>set (d_records d). dkimKeyId r = Some (key_id k) \<and> e_state (eval r) = RS_VERIFIED)"
  by (auto simp: find_promotion_def split: option.splits if_splits dest: find_row_SomeD)

text \<open>The transition leaves the row coherent.\<close>

lemma next_state_coherent:
  fixes env now ready d
  assumes "status_ok d"
  defines "nxt \<equiv> next_state env now ready d"
  defines "evs \<equiv> reported_events d nxt"
  defines "susp \<equiv> (if LE_RESUMED \<in> set evs \<or> LE_AUTO_ACTIVATED \<in> set evs then None
      else if LE_SUSPENDED \<in> set evs then Some now else d_suspendedAt d)"
  shows "r_sendingEnabled nxt \<longleftrightarrow> r_status nxt = DL_ACTIVE"
    and "r_status nxt = DL_DEGRADED \<longleftrightarrow> susp \<noteq> None"
proof -
  show "r_sendingEnabled nxt \<longleftrightarrow> r_status nxt = DL_ACTIVE"
    unfolding nxt_def next_state_def by (rule transition_sending_active)
  show "r_status nxt = DL_DEGRADED \<longleftrightarrow> susp \<noteq> None"
    using assms(1) unfolding susp_def evs_def nxt_def next_state_def reported_events_def status_ok_def
      is_suspended_def transition_def Let_def moved_def
    by (cases "d_graceUntil d"; cases "d_deadlineAt d"; cases "d_status d") auto
qed

lemma checked_domain_ok:
  assumes "domain_ok d"
  shows "domain_ok (checked_domain env results now d) \<and> same_domain d (checked_domain env results now d)"
proof -
  define eval where "eval = evaluate_all env results d"
  define pr where "pr = find_promotion eval d"
  define ready where "ready = readiness_of (verdicts eval pr d)"
  have recs: "records_ok (map (checked_record eval pr now) (d_records d))"
    using assms by (subst records_ok_map) (simp_all add: checked_record_def Let_def domain_ok_def)
  have keys: "keys_ok (promote_keys pr now (d_keys d))"
  proof (cases pr)
    case None
    then show ?thesis using assms by (simp add: promote_keys_def domain_ok_def)
  next
    case (Some p)
    then obtain k olds where p: "pr = Some (k, olds)" by (cases p) auto
    from find_promotion_SomeD [OF p [unfolded pr_def]]
    show ?thesis unfolding p using assms by (intro promote_ok) (auto simp: domain_ok_def)
  qed
  have st: "status_ok d" using assms by (simp add: domain_ok_def)
  show ?thesis
    using recs keys next_state_coherent [OF st, of env now ready]
    by (simp add: checked_domain_def Let_def domain_ok_defs eval_def pr_def ready_def)
qed

subsection \<open>The invariant of the tables\<close>

definition domains_ok :: "domain_env \<Rightarrow> domain_db \<Rightarrow> bool" where
  "domains_ok env db \<longleftrightarrow> hosts_distinct (platform env) \<and> unique_key d_id (domains db)
     \<and> unique_key (\<lambda>d. (d_tenantId d, d_domainName d)) (domains db) \<and> list_all domain_ok (domains db)"

lemma same_domain_refl [simp]: "same_domain d d"
  by (simp add: same_domain_def)

lemma same_domain_trans: "same_domain a b \<Longrightarrow> same_domain b c \<Longrightarrow> same_domain a c"
  by (simp add: same_domain_def)

lemma domains_write_events [simp]: "domains (write_events cx i evs db) = domains db"
  by (simp add: write_events_def)

lemma domains_discard [simp]: "domains (discard_secrets refs db) = domains db"
  by (simp add: discard_secrets_def)

lemma domains_ok_cong: "domains db' = domains db \<Longrightarrow> domains_ok env db' = domains_ok env db"
  by (simp add: domains_ok_def)

lemma load_domain_InrD: "load_domain i tn db = Inr d \<Longrightarrow> d \<in> set (domains db) \<and> d_id d = i \<and> d_tenantId d = tn"
  by (auto simp: load_domain_def split: option.splits dest: find_row_SomeD)

lemma loaded_ok: "load_domain i tn db = Inr d \<Longrightarrow> domains_ok env db \<Longrightarrow> domain_ok d"
  by (auto simp: domains_ok_def list_all_iff dest: load_domain_InrD)

lemma save_domain_ok:
  assumes "domains_ok env db" "d \<in> set (domains db)" "same_domain d d'" "domain_ok d'"
  shows "domains_ok env (save_domain d' db)"
proof -
  have one: "x = d" if "x \<in> set (domains db)" "d_id x = d_id d'" for x
    using assms(1-3) that by (auto simp: domains_ok_def same_domain_def dest: unique_keyD)
  have id: "map d_id (domains (save_domain d' db)) = map d_id (domains db)"
    by (auto simp: save_domain_def update_where_def)
  have nm: "map (\<lambda>d. (d_tenantId d, d_domainName d)) (domains (save_domain d' db))
      = map (\<lambda>d. (d_tenantId d, d_domainName d)) (domains db)"
    using one assms(3) by (auto simp: save_domain_def update_where_def same_domain_def)
  show ?thesis
    using assms(1,4) id nm
    by (auto simp: domains_ok_def unique_key_def list_all_iff save_domain_def table_simps)
qed

lemma saved_mem: "d \<in> set (domains db) \<Longrightarrow> same_domain d d' \<Longrightarrow> d' \<in> set (domains (save_domain d' db))"
  by (auto simp: save_domain_def table_simps same_domain_def)

lemma prepare_domain_ok:
  assumes "domain_ok d"
  shows "domain_ok (fst (prepare_domain ext cx d evs removed))
    \<and> same_domain d (fst (prepare_domain ext cx d evs removed))"
  using publishRecords_ok [of ext cx PM_pending d] assms
  by (simp add: prepare_domain_def Let_def case_prod_beta) (metis prod.collapse)

lemma synchronize_ok:
  assumes "domains_ok env db"
  shows "domains_ok env (snd (synchronize env ext cx trigger i db))"
proof (cases "load_domain i (cx_tenantId cx) db")
  case (Inl e)
  then show ?thesis using assms by (simp add: synchronize_def)
next
  case (Inr d0)
  note mem = load_domain_InrD [OF Inr]
  note ok0 = loaded_ok [OF Inr assms]
  show ?thesis
  proof (cases "d_custom d0")
    case False
    have "domains_ok env (save_domain (d0\<lparr>d_nextCheckAt := None\<rparr>) db)"
      by (rule save_domain_ok [OF assms, of d0]) (use mem ok0 in \<open>simp_all add: domain_ok_defs\<close>)
    then show ?thesis using Inr False by (simp add: synchronize_def)
  next
    case True
    obtain d1 evs1 gone where ret: "retireExpiredKeys env (cx_now cx) d0 = (d1, evs1, gone)"
      by (cases "retireExpiredKeys env (cx_now cx) d0") auto
    have d1: "domain_ok d1" "same_domain d0 d1" using retire_ok [OF ret ok0] by auto
    define db1 where "db1 = discard_secrets gone (write_events cx i evs1 (save_domain d1 db))"
    have db1: "domains_ok env db1"
      using save_domain_ok [OF assms _ d1(2,1)] mem
      by (simp add: db1_def domains_ok_cong [of "discard_secrets gone (write_events cx i evs1 (save_domain d1 db))" "save_domain d1 db"])
    have m1: "d1 \<in> set (domains db1)" using saved_mem [OF _ d1(2)] mem by (simp add: db1_def)
    show ?thesis
    proof (cases "reconcile env ext cx d1")
      case (Inl e)
      then show ?thesis using Inr True ret db1 by (simp add: synchronize_def Let_def db1_def)
    next
      case r: (Inr q)
      obtain d2 removed evs2 stored where q: "q = (d2, removed, evs2, stored)" by (cases q) auto
      have hd: "hosts_distinct (platform env)" using assms by (simp add: domains_ok_def)
      have d2: "domain_ok d2" "same_domain d1 d2"
        using reconcile_ok [OF r [unfolded q] d1(1) hd] by auto
      define d4 where "d4 = fst (prepare_domain ext cx d2 evs2 removed)"
      have d4: "domain_ok d4" "same_domain d2 d4"
        using prepare_domain_ok [OF d2(1), of ext cx evs2 removed] by (auto simp: d4_def)
      define res where "res = lookupAll (map toSpec (d_records d4)) (lookups ext)"
      define d5 where "d5 = checked_domain env res (cx_now cx) d4"
      have d5: "domain_ok d5" "same_domain d4 d5"
        using checked_domain_ok [OF d4(1)] by (auto simp: d5_def)
      have "same_domain d1 d5" using d2(2) d4(2) d5(2) by (auto intro: same_domain_trans)
      then have "domains_ok env (save_domain d5 db1)" by (rule save_domain_ok [OF db1 m1 _ d5(1)])
      moreover have "domains (snd (synchronize env ext cx trigger i db)) = domains (save_domain d5 db1)"
        using Inr True ret r q
        by (simp add: synchronize_def Let_def case_prod_beta db1_def d5_def d4_def res_def)
      ultimately show ?thesis using domains_ok_cong by blast
    qed
  qed
qed

lemma loaded_save_ok:
  assumes "domains_ok env db" "load_domain i tn db = Inr d" "same_domain d d'" "domain_ok d'"
  shows "domains_ok env (save_domain d' db)"
  by (rule save_domain_ok [OF assms(1) _ assms(3,4)]) (use load_domain_InrD [OF assms(2)] in simp)

text \<open>An operation leaves the domains alone or saves one coherent row of the domain it loaded.\<close>

definition saves_one :: "domain_env \<Rightarrow> domain_db \<Rightarrow> domain_db \<Rightarrow> bool" where
  "saves_one env db db' \<longleftrightarrow> domains db' = domains db
     \<or> (\<exists>d\<in>set (domains db). \<exists>d'. same_domain d d' \<and> domain_ok d' \<and> domains db' = domains (save_domain d' db))"

lemma saves_one_ok: "domains_ok env db \<Longrightarrow> saves_one env db db' \<Longrightarrow> domains_ok env db'"
  using save_domain_ok domains_ok_cong unfolding saves_one_def by metis

lemma saves_oneI:
  assumes "load_domain i tn db = Inr d" "same_domain d d'" "domain_ok d'" "domains db' = domains (save_domain d' db)"
  shows "saves_one env db db'"
  using load_domain_InrD [OF assms(1)] assms(2-4) by (auto simp: saves_one_def)

lemma saves_one_refl [simp]: "saves_one env db db"
  by (simp add: saves_one_def)

lemma save_twice: "d_id d' = d_id d \<Longrightarrow> save_domain d' (save_domain d db) = save_domain d' db"
  by (simp add: save_domain_def update_where_def comp_def)

lemma domains_save_cong: "domains a = domains b \<Longrightarrow> domains (save_domain d a) = domains (save_domain d b)"
  by (simp add: save_domain_def)

lemma activate_ok: "domains_ok env db \<Longrightarrow> domains_ok env (snd (activate cx i db))"
proof (cases "load_domain i (cx_tenantId cx) db")
  case (Inr d)
  assume ok: "domains_ok env db"
  let ?d = "d\<lparr>d_sendingEnabled := True, d_activatedAt := Some (cx_now cx), d_status := DL_ACTIVE,
      d_failures := 0, d_suspendedAt := None, d_suspension := None\<rparr>"
  have "saves_one env db (write_events cx i evs (save_domain ?d db))" for evs
    by (rule saves_oneI [OF Inr, of ?d]) (use loaded_ok [OF Inr ok] in \<open>simp_all add: domain_ok_defs\<close>)
  then show ?thesis using saves_one_ok [OF ok] ok Inr by (simp add: activate_def Let_def)
qed (simp add: activate_def)

lemma deactivate_ok: "domains_ok env db \<Longrightarrow> domains_ok env (snd (deactivate cx i db))"
proof (cases "load_domain i (cx_tenantId cx) db")
  case (Inr d)
  assume ok: "domains_ok env db"
  let ?d = "d\<lparr>d_sendingEnabled := False, d_autoActivate := False, d_activatedAt := None,
      d_suspendedAt := None, d_suspension := None,
      d_status := (if d_verification d = VS_VERIFIED then DL_VERIFIED else DL_PENDING)\<rparr>"
  have "saves_one env db (write_events cx i evs (save_domain ?d db))" for evs
    by (rule saves_oneI [OF Inr, of ?d]) (use loaded_ok [OF Inr ok] in \<open>simp_all add: domain_ok_defs\<close>)
  then show ?thesis using saves_one_ok [OF ok] ok Inr by (simp add: deactivate_def Let_def)
qed (simp add: deactivate_def)

lemma publish_domain_ok: "domains_ok env db \<Longrightarrow> domains_ok env (snd (publish_domain ext cx i db))"
proof (cases "load_domain i (cx_tenantId cx) db")
  case (Inr d)
  assume ok: "domains_ok env db"
  obtain d' evs pub failed where p: "publishRecords ext cx PM_all d = (d', evs, pub, failed)"
    by (cases "publishRecords ext cx PM_all d") auto
  have "saves_one env db (write_events cx i evs (save_domain d' db))"
    by (rule saves_oneI [OF Inr, of d']) (use publishRecords_ok [OF p loaded_ok [OF Inr ok]] in simp_all)
  then show ?thesis using saves_one_ok [OF ok] ok Inr p by (simp add: publish_domain_def Let_def)
qed (simp add: publish_domain_def)

lemma remove_domain_ok:
  assumes ok: "domains_ok env db"
  shows "domains_ok env (snd (remove_domain ext cx i db))"
proof -
  have "domains (snd (remove_domain ext cx i db)) = domains db
      \<or> domains (snd (remove_domain ext cx i db)) = delete_where (\<lambda>x. d_id x = i) (domains db)"
    by (cases "load_domain i (cx_tenantId cx) db") (simp_all add: remove_domain_def Let_def case_prod_beta)
  then show ?thesis
    using ok by (auto simp: domains_ok_def unique_key_delete_where list_all_iff table_simps)
qed

lemma diagnostics_ok:
  assumes ok: "domains_ok env db"
  shows "domains_ok env (snd (diagnostics env ext cx i db))"
proof (cases "load_domain i (cx_tenantId cx) db")
  case (Inr d)
  let ?d = "d\<lparr>d_status := DL_PENDING, d_deadlineAt := Some (cx_now cx + windowHours env * hour_ms)\<rparr>"
  have "domains_ok env (save_domain ?d db)" if "d_status d = DL_FAILED"
    by (rule loaded_save_ok [OF ok Inr]) (use loaded_ok [OF Inr ok] that in \<open>simp_all add: domain_ok_defs\<close>)
  then have "domains_ok env (if d_status d = DL_FAILED then write_events cx i evs (save_domain ?d db) else db)" for evs
    using ok domains_ok_cong [OF domains_write_events] by simp
  from synchronize_ok [OF this] show ?thesis
    using ok Inr by (simp add: diagnostics_def Let_def)
qed (simp add: diagnostics_def ok)

text \<open>Reconciliation and publication after a first save of the row, as \<open>rotateDkim\<close> and
  \<open>updateConfig\<close> run them.\<close>

lemma reconcile_publish_ok:
  assumes "domain_ok d2" "hosts_distinct (platform env)"
    and "reconcile env ext cx d2 = Inr (d3, removed, evs, stored)"
  shows "domain_ok (if d_provider d3 \<noteq> MANUAL then fst (publishRecords ext cx mode d3) else d3)
    \<and> same_domain d2 (if d_provider d3 \<noteq> MANUAL then fst (publishRecords ext cx mode d3) else d3)"
proof -
  have "domain_ok d3" "same_domain d2 d3" using reconcile_ok [OF assms(3,1,2)] by auto
  then show ?thesis
    using publishRecords_ok [of ext cx mode d3 "fst (publishRecords ext cx mode d3)"]
    by (cases "publishRecords ext cx mode d3") (auto intro: same_domain_trans)
qed

lemma rotateDkim_ok:
  assumes ok: "domains_ok env db"
  shows "domains_ok env (snd (rotateDkim env ext cx i db))"
proof (cases "load_domain i (cx_tenantId cx) db")
  case l: (Inr d)
  define k where "k = generate_key env ext cx (d_id d) (d_domainName d) (map key_selector (d_keys d)) False"
  show ?thesis
  proof (cases "\<not> d_custom d \<or> find_pending d \<noteq> None")
    case True
    then show ?thesis using ok l by (auto simp: rotateDkim_def)
  next
    case False
    show ?thesis
    proof (cases "add_key k d")
      case (Inl e)
      then show ?thesis using False ok l by (simp add: rotateDkim_def Let_def k_def)
    next
      case a: (Inr d1)
      have "count_status DK_PENDING (d_keys d) = 0"
        using False by (auto simp: find_pending_def find_row_None_iff count_status_0)
      then have d1: "domain_ok d1 \<and> same_domain d d1"
        by (intro add_key_ok [OF a loaded_ok [OF l ok]]) (simp add: k_def)
      define d2 where "d2 = d1\<lparr>d_nextCheckAt := Some (cx_now cx)\<rparr>"
      have d2: "domain_ok d2" "same_domain d d2" using d1 by (auto simp: d2_def domain_ok_defs)
      have s2: "domains_ok env (save_domain d2 db)" by (rule loaded_save_ok [OF ok l d2(2,1)])
      have hd: "hosts_distinct (platform env)" using ok by (simp add: domains_ok_def)
      show ?thesis
      proof (cases "reconcile env ext cx d2")
        case (Inl e)
        have "domains (snd (rotateDkim env ext cx i db)) = domains (save_domain d2 db)"
          using False l a Inl by (simp add: rotateDkim_def Let_def k_def d2_def)
        then show ?thesis using s2 domains_ok_cong by blast
      next
        case (Inr q)
        obtain d3 removed evs stored where q: "q = (d3, removed, evs, stored)" by (cases q) auto
        define d4 where "d4 = (if d_provider d3 \<noteq> MANUAL then fst (publishRecords ext cx PM_pending d3) else d3)"
        have d4: "domain_ok d4" "same_domain d2 d4"
          using reconcile_publish_ok [OF d2(1) hd Inr [unfolded q], of PM_pending] by (auto simp: d4_def)
        have "domains_ok env (save_domain d4 (save_domain d2 db))"
          by (rule save_domain_ok [OF s2 saved_mem [OF _ d2(2)] d4(2,1)]) (use load_domain_InrD [OF l] in simp)
        moreover have "domains (snd (rotateDkim env ext cx i db)) = domains (save_domain d4 (save_domain d2 db))"
          using False l a Inr q
          by (simp add: rotateDkim_def Let_def k_def d2_def d4_def case_prod_beta save_domain_def)
        ultimately show ?thesis using domains_ok_cong by blast
      qed
    qed
  qed
qed (simp add: rotateDkim_def ok)

lemma patched_same: "same_domain d (patched x d) \<and> status_ok (patched x d) = status_ok d
    \<and> d_keys (patched x d) = d_keys d \<and> d_records (patched x d) = d_records d"
  by (simp add: patched_def Let_def same_domain_def status_ok_def)

lemma updateConfig_ok:
  assumes ok: "domains_ok env db"
  shows "domains_ok env (snd (updateConfig env ext cx i x db))"
proof (cases "load_domain i (cx_tenantId cx) db")
  case l: (Inr d)
  define d1 where "d1 = patched x d"
  define d2 where "d2 = d1\<lparr>d_configVersion := d_configVersion d + 1, d_nextCheckAt := Some (cx_now cx)\<rparr>"
  have d2: "domain_ok d2" "same_domain d d2"
    using loaded_ok [OF l ok] patched_same [of d x] by (auto simp: d2_def d1_def domain_ok_defs)
  have s2: "domains_ok env (save_domain d2 db)" by (rule loaded_save_ok [OF ok l d2(2,1)])
  have hd: "hosts_distinct (platform env)" using ok by (simp add: domains_ok_def)
  show ?thesis
  proof (cases "d_custom d \<and> assertProvider ext (d_provider d1) (d_credentialId d1) = Inr ()
      \<and> map fst (changed_entries d d1) \<noteq> []")
    case False
    then have "snd (updateConfig env ext cx i x db) = db"
      using l by (auto simp: updateConfig_def Let_def d1_def split: sum.splits)
    then show ?thesis using ok by simp
  next
    case go: True
    show ?thesis
    proof (cases "reconcile env ext cx d2")
      case (Inl e)
      have "domains (snd (updateConfig env ext cx i x db)) = domains (save_domain d2 db)"
        using go l Inl by (simp add: updateConfig_def Let_def d1_def d2_def)
      then show ?thesis using s2 domains_ok_cong by blast
    next
      case (Inr q)
      obtain d3 removed evs stored where q: "q = (d3, removed, evs, stored)" by (cases q) auto
      define mode where "mode = (if list_ex (\<lambda>k. k \<in> set [''replaceExistingMx'', ''dnsProvider'',
          ''dnsCredentialId'']) (map fst (changed_entries d d1)) then PM_all else PM_pending)"
      define d4 where "d4 = (if d_provider d3 \<noteq> MANUAL then fst (publishRecords ext cx mode d3) else d3)"
      have d4: "domain_ok d4" "same_domain d2 d4"
        using reconcile_publish_ok [OF d2(1) hd Inr [unfolded q], of mode] by (auto simp: d4_def)
      have "domains_ok env (save_domain d4 (save_domain d2 db))"
        by (rule save_domain_ok [OF s2 saved_mem [OF _ d2(2)] d4(2,1)]) (use load_domain_InrD [OF l] in simp)
      moreover have "domains (snd (updateConfig env ext cx i x db)) = domains (save_domain d4 (save_domain d2 db))"
        using go l Inr q
        unfolding updateConfig_def Let_def d4_def mode_def d2_def d1_def
        by (simp add: case_prod_beta save_domain_def)
      ultimately show ?thesis using domains_ok_cong by blast
    qed
  qed
qed (simp add: updateConfig_def ok)

lemma fresh_records_ok:
  assumes "distinct (map recordKey specs)" "\<And>s. s \<in> set specs \<Longrightarrow> purpose s = key_purpose (recordKey s)"
  shows "records_ok (map (fresh_record auto) specs)"
  using reconciled_records_ok [of "[]" specs auto] assms
  by (simp add: reconcile_records_def records_ok_def unique_key_def map_filter_Nil find_row_Nil)

lemma new_domain_ok:
  assumes "hosts_distinct (platform env)" "d = (new_domain env cx i token x)\<lparr>d_keys := [k]\<rparr>"
  shows "domain_ok (d\<lparr>d_records := map (fresh_record auto) (expected_for env d)\<rparr>)"
proof -
  have ks: "keys_ok [k]" by (simp add: keys_ok_def count_status_def table_simps unique_key_def)
  have "distinct (map recordKey (expected_for env d))"
    by (rule expected_for_distinct [OF assms(1)]) (simp add: assms(2) unique_key_def)
  from fresh_records_ok [OF this expected_for_purpose] show ?thesis
    using ks by (simp add: domain_ok_def status_ok_def assms(2) new_domain_def Let_def)
qed

lemma add_domain_ok:
  assumes ok: "domains_ok env db"
  shows "domains_ok env (snd (add_domain env ext cx i token x db))"
proof -
  define k where "k = generate_key env ext cx i (a_domainName x) [] True"
  define d1 where "d1 = (new_domain env cx i token x)\<lparr>d_keys := [k]\<rparr>"
  define auto where "auto = (d_provider d1 \<noteq> MANUAL)"
  define d2 where "d2 = d1\<lparr>d_records := map (fresh_record auto) (expected_for env d1)\<rparr>"
  define d3 where "d3 = (if auto then fst (publishRecords ext cx PM_pending d2) else d2)"
  have hd: "hosts_distinct (platform env)" using ok by (simp add: domains_ok_def)
  have d2: "domain_ok d2" unfolding d2_def by (rule new_domain_ok [OF hd d1_def])
  then have d3: "domain_ok d3" "same_domain d2 d3"
    using publishRecords_ok [of ext cx PM_pending d2] by (cases "publishRecords ext cx PM_pending d2"; simp add: d3_def)+
  have id: "d_id d3 = i" "d_tenantId d3 = cx_tenantId cx" "d_domainName d3 = a_domainName x"
    using d3(2) by (simp_all add: same_domain_def d2_def d1_def new_domain_def Let_def)
  have dec: "domains (snd (add_domain env ext cx i token x db)) = domains db
    \<or> (domains (snd (add_domain env ext cx i token x db)) = domains db @ [d3]
       \<and> i \<notin> d_id ` set (domains db)
       \<and> \<not> list_ex (\<lambda>d. d_tenantId d = cx_tenantId cx \<and> d_domainName d = a_domainName x) (domains db))"
    unfolding add_domain_def
    by (simp add: Let_def case_prod_beta k_def d1_def d2_def d3_def auto_def new_domain_def split: sum.split)
  show ?thesis
  proof (cases "domains (snd (add_domain env ext cx i token x db)) = domains db")
    case True
    then show ?thesis using ok domains_ok_cong by blast
  next
    case False
    with dec ok d3 id show ?thesis
      by (auto simp: domains_ok_def unique_key_snoc list_ex_iff)
  qed
qed

end
