(* ===== verification/Dns_Agreement.thy ===== *)
theory Dns_Agreement
  imports Dns_Verifier
begin

section \<open>The generator and the verifier agree\<close>

text \<open>
  \<open>expectedRecords\<close> says what to publish and \<open>evaluateRecord\<close> judges what DNS answers. A zone that
  serves the expected records, beside other TXT values of the owner's, passes the judgement on
  every one of them.
\<close>

subsection \<open>A zone that serves a set of records\<close>

definition served :: "dns_spec list \<Rightarrow> record_type \<Rightarrow> string \<Rightarrow> dns_spec list" where
  "served specs ty n = filter (\<lambda>s. rtype s = ty \<and> fqdn s = n) specs"

definition answer_texts :: "string list \<Rightarrow> dns_outcome" where
  "answer_texts vs = (if vs = [] then LookupFailed ABSENT ''ENODATA'' else Texts vs)"

definition zone_lookup :: "(string \<Rightarrow> string list) \<Rightarrow> dns_spec list \<Rightarrow> dns_lookup" where
  "zone_lookup others specs =
     \<lparr>txt_lookup = (\<lambda>n. answer_texts (others n @ map rvalue (served specs T_TXT n))),
      mx_lookup = (\<lambda>n. if served specs T_MX n = [] then LookupFailed ABSENT ''ENODATA''
         else Exchanges (map (\<lambda>s. \<lparr>exchange = rvalue s,
            mx_prio = (case priority s of Some p \<Rightarrow> p | None \<Rightarrow> 10)\<rparr>) (served specs T_MX n))),
      cname_lookup = (\<lambda>n. answer_texts (map rvalue (served specs T_CNAME n)))\<rparr>"

subsection \<open>Every lookup is made once and found again\<close>

lemma run_lookup_key: "lookupKey s = lookupKey t \<Longrightarrow> run_lookup lk s = run_lookup lk t"
  by (simp add: run_lookup_def lookupKey_def split: record_type.split)

lemma lookup_fold:
  "\<lbrakk>\<And>k v. map_of pend k = Some v \<Longrightarrow> \<exists>s. lookupKey s = k \<and> run_lookup lk s = v\<rbrakk> \<Longrightarrow>
   spec \<in> set specs \<or> map_of pend (lookupKey spec) \<noteq> None \<Longrightarrow>
   map_of (foldl (\<lambda>pending spec. if map_of pending (lookupKey spec) \<noteq> None then pending
     else pending @ [(lookupKey spec, run_lookup lk spec)]) pend specs) (lookupKey spec)
   = Some (run_lookup lk spec)"
proof (induction specs arbitrary: pend)
  case Nil
  then obtain v where v: "map_of pend (lookupKey spec) = Some v" by auto
  from Nil.prems(1) [OF this] obtain s where s: "lookupKey s = lookupKey spec" "run_lookup lk s = v" by auto
  show ?case using v s(2) run_lookup_key [OF s(1), of lk] by simp
next
  case (Cons s specs)
  show ?case
    unfolding foldl_Cons
  proof (rule Cons.IH)
    show "\<exists>t. lookupKey t = k \<and> run_lookup lk t = v"
      if "map_of (if map_of pend (lookupKey s) \<noteq> None then pend
        else pend @ [(lookupKey s, run_lookup lk s)]) k = Some v" for k v
      using that Cons.prems(1) by (auto simp: map_add_def split: if_splits option.splits)
    show "spec \<in> set specs \<or> map_of (if map_of pend (lookupKey s) \<noteq> None then pend
        else pend @ [(lookupKey s, run_lookup lk s)]) (lookupKey spec) \<noteq> None"
      using Cons.prems(2) by (auto simp: map_add_def split: option.splits)
  qed
qed

lemma outcomeFor_lookupAll: "spec \<in> set specs \<Longrightarrow> outcomeFor (lookupAll specs lk) spec = Some (run_lookup lk spec)"
  unfolding outcomeFor_def lookupAll_def by (rule lookup_fold) simp_all

subsection \<open>Reading tags\<close>

lemma parse_tag_keeps: "tags k \<noteq> None \<Longrightarrow> parse_tag tags part k \<noteq> None"
  by (simp add: parse_tag_def split: option.split)

lemma parse_tags_keep: "tags k \<noteq> None \<Longrightarrow> foldl parse_tag tags parts k \<noteq> None"
  by (induction parts arbitrary: tags) (simp_all del: not_None_eq add: parse_tag_keeps)

lemma index_from_None: "c \<notin> set s \<Longrightarrow> index_from i c s = None"
  by (induction s arbitrary: i) auto

lemma dkim_tag: "parseTags (dkimValue pk) ''p'' \<noteq> None"
proof -
  obtain w ws where ws: "split_on (CHR '';'') pk = w # ws"
    using split_on_not_Nil by (meson list.exhaust)
  have s: "split_on (CHR '';'') (dkimValue pk) = [''v=DKIM1'', '' k=rsa'', '' p='' @ w] @ ws"
    by (simp add: dkimValue_def ws)
  have p: "parse_tag m ('' p='' @ r) ''p'' \<noteq> None" for m r
    by (simp add: parse_tag_def trim_def is_space_def lowercase_def lower_char_def)
  show ?thesis
    unfolding parseTags_def s foldl_append
    by (rule parse_tags_keep) (use p in \<open>simp del: not_None_eq\<close>)
qed

lemma dmarc_tag:
  assumes "CHR '';'' \<notin> set (the (if truthy e then e else Some []))"
  shows "map_option lowercase (parseTags (dmarcValue pol e) ''p'') = Some (policy_name pol)"
proof (cases "truthy e")
  case False
  then show ?thesis
    by (cases pol) (simp_all add: dmarcValue_def parseTags_def parse_tag_def trim_def is_space_def
        lowercase_def lower_char_def)
next
  case True
  then obtain w where w: "e = Some w" by (auto simp: truthy_def)
  with True assms have n: "CHR '';'' \<notin> set w" by simp
  have sp: "split_on (CHR '';'') (dmarcValue pol e)
      = [''v=DMARC1'', '' p='' @ policy_name pol, '' rua=mailto:'' @ w, '' adkim=r'', '' aspf=r'']"
    using True by (cases pol) (simp_all add: dmarcValue_def w split_on_append [OF n])
  show ?thesis
    unfolding parseTags_def sp
    by (cases pol) (simp_all add: parse_tag_def trim_def is_space_def lowercase_def lower_char_def)
qed

subsection \<open>The records of a well-configured platform\<close>

text \<open>What the configuration schema and the input schema let through, as far as it matters here.\<close>

definition config_ok :: "platform_dns_config \<Rightarrow> bool" where
  "config_ok c \<longleftrightarrow> spfInclude c \<noteq> [] \<and> list_all (\<lambda>ch. \<not> is_space ch) (spfInclude c)
     \<and> spfAll c \<in> {''~all'', ''-all''}
     \<and> list_all (\<lambda>mx. normalizeHost (mx_host mx) = mx_host mx) (mxHosts c)
     \<and> (case autoconfigHost c of None \<Rightarrow> True | Some h \<Rightarrow> normalizeHost h = h)
     \<and> CHR '';'' \<notin> set (case dmarcRua c of None \<Rightarrow> [] | Some e \<Rightarrow> e)"

definition input_ok :: "domain_dns_input \<Rightarrow> bool" where
  "input_ok d \<longleftrightarrow> \<not> isSpf (i_verificationToken d)
     \<and> CHR '';'' \<notin> set (case i_dmarcReportEmail d of None \<Rightarrow> [] | Some e \<Rightarrow> e)"

text \<open>The owner's other TXT values: no SPF record at the domain, no DMARC record beside ours.\<close>

definition others_ok :: "domain_dns_input \<Rightarrow> (string \<Rightarrow> string list) \<Rightarrow> bool" where
  "others_ok d others \<longleftrightarrow> list_all (\<lambda>v. \<not> isSpf v) (others (i_domainName d))
     \<and> list_all (\<lambda>v. \<not> isDmarc v) (others (fqdnFor ''_dmarc'' (i_domainName d)))"

lemma has_term_skip: "list_all (\<lambda>c. \<not> is_space c) x \<Longrightarrow> has_term w False (x @ s) = has_term w False s"
  by (induction x) auto

lemma starts_ci_append: "starts_ci w (w @ s)"
  by (simp add: starts_ci_def lowercase_def starts_with_self)

lemma trim_spf:
  assumes "a \<in> {''~all'', ''-all''}"
  shows "trim (''v=spf1 include:'' @ inc @ '' '' @ a) = ''v=spf1 include:'' @ inc @ '' '' @ a"
  using assms by (auto simp: trim_def is_space_def)

lemma isSpf_value: "config_ok c \<Longrightarrow> isSpf (spfValue c)"
  using trim_spf [of "spfAll c" "spfInclude c"]
  by (simp add: config_ok_def isSpf_def spfValue_def Let_def)
     (simp add: starts_ci_def lowercase_def lower_char_def ends_or_space_def is_space_def)

lemma spaces: "is_space (CHR '' '')" "\<not> is_space (CHR ''v'')"
  by (simp_all add: is_space_def)

lemma no_plus_all:
  assumes "config_ok c"
  shows "\<not> has_term ''all'' True (spfValue c)"
proof -
  have inc: "list_all (\<lambda>ch. \<not> is_space ch) (spfInclude c)" using assms by (simp add: config_ok_def)
  have tail: "\<not> has_term ''all'' True (spfAll c)" "\<not> has_term ''all'' False ('' '' @ spfAll c)"
    using assms by (auto simp: config_ok_def term_here_def word_here_def starts_ci_def lowercase_def
        lower_char_def is_space_def ends_or_space_def)
  have mid: "\<not> term_here ''all'' (CHR ''i'' # x)" "\<not> term_here ''all'' (CHR ''v'' # x)" for x
    by (simp_all add: term_here_def word_here_def starts_ci_def lowercase_def lower_char_def)
  have "has_term ''all'' True (spfValue c) = has_term ''all'' False (spfInclude c @ '' '' @ spfAll c)"
    by (simp add: spfValue_def mid is_space_def)
  also have "\<dots> = has_term ''all'' False ('' '' @ spfAll c)" by (rule has_term_skip [OF inc])
  finally show ?thesis using tail(2) by simp
qed

lemma include_of_value:
  assumes "config_ok c"
  shows "include_in (spfValue c) = spfInclude c"
proof -
  have sp: "takeWhile (\<lambda>ch. \<not> is_space ch) (spfInclude c @ CHR '' '' # s) = spfInclude c" for s
    using assms by (simp add: config_ok_def list_all_iff spaces)
  have ne: "spfInclude c \<noteq> []" using assms by (simp add: config_ok_def)
  have st: "\<not> starts_ci ''include:'' (CHR ''v'' # x)" "\<not> starts_ci ''include:'' (CHR ''='' # x)"
    "\<not> starts_ci ''include:'' (CHR ''s'' # x)" "\<not> starts_ci ''include:'' (CHR ''p'' # x)"
    "\<not> starts_ci ''include:'' (CHR ''f'' # x)" "\<not> starts_ci ''include:'' (CHR ''1'' # x)"
    "\<not> starts_ci ''include:'' (CHR '' '' # x)" for x
    by (simp_all add: starts_ci_def lowercase_def lower_char_def)
  have hit: "starts_ci ''include:'' (''include:'' @ x)" for x by (rule starts_ci_append)
  show ?thesis
    using hit [of "spfInclude c @ '' '' @ spfAll c"] sp ne by (simp add: spfValue_def st)
qed

lemma spf_included:
  assumes "config_ok c"
  shows "spfIncludes (spfValue c) (spfInclude c)"
proof -
  have "starts_ci (''include:'' @ spfInclude c) ((''include:'' @ spfInclude c) @ x)" for x
    by (rule starts_ci_append)
  then have t: "term_here (''include:'' @ spfInclude c) (''include:'' @ spfInclude c @ '' '' @ spfAll c)"
    by (simp add: term_here_def word_here_def ends_or_space_def is_space_def)
  have step: "has_term w False (''v=spf1'' @ s) = has_term w False s" for w s
    by (rule has_term_skip) (simp add: is_space_def)
  have "has_term (''include:'' @ spfInclude c) True (''v=spf1'' @ '' '' @ ''include:'' @ spfInclude c @ '' '' @ spfAll c)"
    using t by (simp add: is_space_def)
  then show ?thesis by (simp add: spfIncludes_def spfValue_def)
qed

lemma isDmarc_value: "isDmarc (dmarcValue pol e)"
proof -
  obtain s where s: "dmarcValue pol e = ''v=DMARC1; '' @ s @ ''aspf=r''"
  proof
    show "dmarcValue pol e = ''v=DMARC1; '' @
        (''p='' @ policy_name pol @ ''; '' @ (if truthy e then ''rua=mailto:'' @ the e @ ''; '' else []) @ ''adkim=r; '')
        @ ''aspf=r''"
      by (simp add: dmarcValue_def)
  qed
  have "trim (''v=DMARC1; '' @ s @ ''aspf=r'') = ''v=DMARC1; '' @ s @ ''aspf=r''"
    by (simp add: trim_def is_space_def)
  moreover have "starts_ci ''v=dmarc1'' (''v=DMARC1'' @ ''; '' @ s @ ''aspf=r'')"
    unfolding starts_ci_def lowercase_def map_append
    by (subst starts_with_iff) (rule exI, rule arg_cong2 [where f = append], code_simp, rule refl)
  ultimately show ?thesis
    unfolding isDmarc_def s Let_def by (simp add: is_space_def)
qed

subsection \<open>Every expected record passes\<close>

lemma filter_none: "list_all (\<lambda>v. \<not> P v) vs \<Longrightarrow> filter P vs = []"
  by (auto simp: list_all_iff filter_empty_conv)

lemma served_append: "served (a @ b) ty n = served a ty n @ served b ty n"
  by (simp add: served_def)

lemma served_mem: "s \<in> set specs \<Longrightarrow> s \<in> set (served specs (rtype s) (fqdn s))"
  by (simp add: served_def)

text \<open>The TXT records at the apex are the token and the SPF record, and the only one at
  \<open>_dmarc\<close> is the DMARC record.\<close>

lemma fqdn_lengths:
  "length (fqdnFor ''_dmarc'' d) = length d + 7"
  "length (fqdnFor (sel @ ''._domainkey'') d) = length sel + length d + 12"
  "fqdnFor ''@'' d = d"
  by (auto simp: fqdnFor_def)

lemma length_neq: "length a \<noteq> length b \<Longrightarrow> a \<noteq> b"
  by auto

lemma domainkey_not_apex:
  "fqdnFor (sel @ ''._domainkey'') d \<noteq> d"
  "fqdnFor (sel @ ''._domainkey'') d \<noteq> fqdnFor ''_dmarc'' d"
  "fqdnFor ''_dmarc'' d \<noteq> d"
  by (rule length_neq, unfold fqdn_lengths, simp)+

definition apex_texts :: "domain_dns_input \<Rightarrow> platform_dns_config \<Rightarrow> string list" where
  "apex_texts dmn config = [i_verificationToken dmn, spfValue config]"

definition dmarc_text :: "domain_dns_input \<Rightarrow> platform_dns_config \<Rightarrow> string" where
  "dmarc_text dmn config = dmarcValue (i_dmarcPolicy dmn)
     (case i_dmarcReportEmail dmn of Some e \<Rightarrow> Some e | None \<Rightarrow> dmarcRua config)"

lemma served_map_none: "(\<And>x. x \<in> set xs \<Longrightarrow> rtype (f x) \<noteq> ty \<or> fqdn (f x) \<noteq> n) \<Longrightarrow> served (map f xs) ty n = []"
  by (auto simp: served_def filter_empty_conv)

lemma spec_for_simps [simp]:
  "rtype (spec_for d c key p ty nm v r) = ty" "fqdn (spec_for d c key p ty nm v r) = fqdnFor nm d"
  "rvalue (spec_for d c key p ty nm v r) = v" "required (spec_for d c key p ty nm v r) = r"
  "purpose (spec_for d c key p ty nm v r) = p" "recordKey (spec_for d c key p ty nm v r) = key"
  by (simp_all add: spec_for_def)

lemma served_apex: "map rvalue (served (expectedRecords dmn keys config) T_TXT (i_domainName dmn)) = apex_texts dmn config"
  using domainkey_not_apex(1,3)
  by (auto simp: expectedRecords_def Let_def served_append served_map_none fqdn_lengths(3) apex_texts_def)
     (simp_all add: served_def fqdn_lengths(3))

lemma served_dmarc: "map rvalue (served (expectedRecords dmn keys config) T_TXT (fqdnFor ''_dmarc'' (i_domainName dmn)))
    = [dmarc_text dmn config]"
  using domainkey_not_apex(2) domainkey_not_apex(3) [THEN not_sym]
  by (auto simp: expectedRecords_def Let_def served_append served_map_none fqdn_lengths(3) dmarc_text_def)
     (simp_all add: served_def fqdn_lengths(3))

definition judged :: "(string \<Rightarrow> string list) \<Rightarrow> domain_dns_input \<Rightarrow> dkim_key_input list \<Rightarrow> platform_dns_config
    \<Rightarrow> record_state \<Rightarrow> dns_spec \<Rightarrow> record_state" where
  "judged others dmn keys config previous spec = e_state (evaluateRecord spec
     (Some (run_lookup (zone_lookup others (expectedRecords dmn keys config)) spec)) previous
     (map mx_host (mxHosts config)))"

definition texts_at :: "(string \<Rightarrow> string list) \<Rightarrow> dns_spec list \<Rightarrow> string \<Rightarrow> string list" where
  "texts_at others specs n = others n @ map rvalue (served specs T_TXT n)"

lemma judged_txt:
  fixes others :: "string \<Rightarrow> string list"
  assumes "spec \<in> set (expectedRecords dmn keys config)" "rtype spec = T_TXT"
  defines "vs \<equiv> texts_at others (expectedRecords dmn keys config) (fqdn spec)"
  shows "judged others dmn keys config previous spec = e_state (evaluateTxt spec vs)"
    and "rvalue spec \<in> set vs"
proof -
  show m: "rvalue spec \<in> set vs" using served_mem [OF assms(1)] assms(2) by (auto simp: vs_def texts_at_def)
  then have ne: "vs \<noteq> []" by auto
  have "run_lookup (zone_lookup others (expectedRecords dmn keys config)) spec = answer_texts vs"
    using assms(2) by (simp add: run_lookup_def zone_lookup_def vs_def texts_at_def)
  then show "judged others dmn keys config previous spec = e_state (evaluateTxt spec vs)"
    using ne assms(2) by (simp add: judged_def evaluateRecord_def answer_texts_def)
qed

lemma judged_ownership:
  "spec \<in> set (expectedRecords dmn keys config) \<Longrightarrow> rtype spec = T_TXT \<Longrightarrow> purpose spec = OWNERSHIP \<Longrightarrow>
    judged others dmn keys config previous spec = RS_VERIFIED"
  using judged_txt by (simp add: evaluateTxt_def eval_result_def)

lemma judged_dkim:
  assumes "spec \<in> set (expectedRecords dmn keys config)" "rtype spec = T_TXT" "purpose spec = DKIM"
    "rvalue spec = dkimValue pk"
  shows "judged others dmn keys config previous spec = RS_VERIFIED"
proof -
  define vs where "vs = texts_at others (expectedRecords dmn keys config) (fqdn spec)"
  note j = judged_txt [OF assms(1,2), of others, folded vs_def]
  have c: "dkimValue pk \<in> set (filter (\<lambda>v. parseTags v ''p'' \<noteq> None) vs)"
    using j dkim_tag [of pk] by (simp add: assms(4))
  then have "filter (\<lambda>v. parseTags v ''p'' \<noteq> None) vs \<noteq> []"
    "key_of (dkimValue pk) \<in> set (map key_of (filter (\<lambda>v. parseTags v ''p'' \<noteq> None) vs))"
    by (auto simp: filter_empty_conv)
  then show ?thesis using j assms(3,4) unfolding evaluateTxt_def Let_def
    by (simp add: eval_result_def del: not_None_eq)
qed

lemma judged_spf:
  assumes "config_ok config" "input_ok dmn" "others_ok dmn others"
    "spec \<in> set (expectedRecords dmn keys config)" "rtype spec = T_TXT" "purpose spec = SPF"
    "rvalue spec = spfValue config" "fqdn spec = i_domainName dmn"
  shows "judged others dmn keys config previous spec = RS_VERIFIED"
proof -
  define vs where "vs = texts_at others (expectedRecords dmn keys config) (fqdn spec)"
  have f: "filter isSpf vs = [spfValue config]"
    using assms(2,3) isSpf_value [OF assms(1)]
    unfolding vs_def texts_at_def assms(8) served_apex by (simp add: apex_texts_def input_ok_def others_ok_def filter_none)
  have inc: "includeOf spec = spfInclude config" by (simp add: includeOf_def assms(7) include_of_value [OF assms(1)])
  show ?thesis
    using judged_txt(1) [OF assms(4,5), of others previous, folded vs_def] no_plus_all [OF assms(1)] spf_included [OF assms(1)]
    by (simp add: evaluateTxt_def assms(6) f inc eval_result_def)
qed

lemma judged_dmarc:
  assumes "config_ok config" "input_ok dmn" "others_ok dmn others"
    "spec \<in> set (expectedRecords dmn keys config)" "rtype spec = T_TXT" "purpose spec = DMARC"
    "rvalue spec = dmarc_text dmn config" "fqdn spec = fqdnFor ''_dmarc'' (i_domainName dmn)"
  shows "judged others dmn keys config previous spec = RS_VERIFIED"
proof -
  define vs where "vs = texts_at others (expectedRecords dmn keys config) (fqdn spec)"
  have f: "filter isDmarc vs = [dmarc_text dmn config]"
    using assms(3) unfolding vs_def texts_at_def assms(8) served_dmarc
    by (simp add: others_ok_def filter_none) (simp add: dmarc_text_def isDmarc_value)
  have "CHR '';'' \<notin> set (the (if truthy e then e else Some []))"
    if "e = (case i_dmarcReportEmail dmn of Some e \<Rightarrow> Some e | None \<Rightarrow> dmarcRua config)" for e
    using assms(1,2) that by (auto simp: config_ok_def input_ok_def truthy_def split: option.splits)
  from dmarc_tag [OF this [OF refl], of "i_dmarcPolicy dmn"]
  have p: "map_option lowercase (parseTags (dmarc_text dmn config) ''p'') = Some (policy_name (i_dmarcPolicy dmn))"
    by (simp add: dmarc_text_def)
  then obtain z where z: "parseTags (dmarc_text dmn config) ''p'' = Some z"
      "lowercase z = policy_name (i_dmarcPolicy dmn)" by auto
  show ?thesis
    using judged_txt(1) [OF assms(4,5), of others previous, folded vs_def] z
    by (cases "i_dmarcPolicy dmn") (simp_all add: evaluateTxt_def assms(6) f eval_result_def Let_def)
qed

lemma judged_mx:
  assumes "config_ok config" "spec \<in> set (expectedRecords dmn keys config)" "rtype spec = T_MX"
  shows "judged others dmn keys config previous spec = RS_VERIFIED"
proof -
  let ?specs = "expectedRecords dmn keys config"
  define as where "as = map (\<lambda>s. \<lparr>exchange = rvalue s, mx_prio = (case priority s of Some p \<Rightarrow> p | None \<Rightarrow> 10)\<rparr>)
      (served ?specs T_MX (fqdn spec))"
  have host: "normalizeHost (rvalue s) = rvalue s \<and> rvalue s \<in> set (map mx_host (mxHosts config))"
    if "s \<in> set ?specs" "rtype s = T_MX" for s
    using that assms(1) by (auto simp: expectedRecords_def Let_def config_ok_def list_all_iff split: if_splits)
  have as: "normalizeHost (exchange a) \<in> set (map mx_host (mxHosts config))" if "a \<in> set as" for a
    using that host by (auto simp: as_def served_def)
  have hit: "\<exists>a\<in>set as. normalizeHost (exchange a) = rvalue spec"
    using served_mem [OF assms(2)] assms(3) host [OF assms(2,3)]
    by (intro bexI [of _ "\<lparr>exchange = rvalue spec, mx_prio = (case priority spec of Some p \<Rightarrow> p | None \<Rightarrow> 10)\<rparr>"])
       (auto simp: as_def)
  then have ne: "served ?specs T_MX (fqdn spec) \<noteq> []" by (auto simp: as_def)
  have r: "run_lookup (zone_lookup others ?specs) spec = Exchanges as"
    using assms(3) ne by (simp add: run_lookup_def zone_lookup_def as_def)
  obtain a where a: "List.find (\<lambda>a. normalizeHost (exchange a) = rvalue spec) as = Some a"
    using hit by (cases "List.find (\<lambda>a. normalizeHost (exchange a) = rvalue spec) as") (auto simp: find_None_iff)
  have n: "filter (\<lambda>b. mx_prio b < mx_prio a \<and> normalizeHost (exchange b) \<notin> set (map mx_host (mxHosts config))) as = []"
    unfolding filter_empty_conv using as by blast
  show ?thesis
    using n a by (simp add: judged_def evaluateRecord_def r assms(3) evaluateMx_def Let_def eval_result_def)
qed

lemma judged_cname:
  assumes "config_ok config" "spec \<in> set (expectedRecords dmn keys config)" "rtype spec = T_CNAME"
  shows "judged others dmn keys config previous spec = RS_VERIFIED"
proof -
  let ?specs = "expectedRecords dmn keys config"
  define vs where "vs = map rvalue (served ?specs T_CNAME (fqdn spec))"
  have m: "rvalue spec \<in> set vs" using served_mem [OF assms(2)] assms(3) by (simp add: vs_def)
  have n: "normalizeHost (rvalue spec) = rvalue spec"
    using assms by (auto simp: expectedRecords_def Let_def config_ok_def truthy_def split: if_splits option.splits)
  have "run_lookup (zone_lookup others ?specs) spec = answer_texts vs"
    using assms(3) by (simp add: run_lookup_def zone_lookup_def vs_def)
  then have "run_lookup (zone_lookup others ?specs) spec = Texts vs"
    using m by (auto simp: answer_texts_def)
  moreover have "rvalue spec \<in> set (map normalizeHost vs)" using m n by force
  ultimately show ?thesis
    by (simp add: judged_def evaluateRecord_def assms(3) evaluateCname_def Let_def eval_result_def)
qed

lemma judged_verified:
  assumes "config_ok config" "input_ok dmn" "others_ok dmn others" "spec \<in> set (expectedRecords dmn keys config)"
  shows "judged others dmn keys config previous spec = RS_VERIFIED"
proof -
  from assms(4) consider
      "rtype spec = T_TXT" "purpose spec = OWNERSHIP"
    | "rtype spec = T_MX"
    | "rtype spec = T_TXT" "purpose spec = SPF" "rvalue spec = spfValue config" "fqdn spec = i_domainName dmn"
    | pk where "rtype spec = T_TXT" "purpose spec = DKIM" "rvalue spec = dkimValue pk"
    | "rtype spec = T_TXT" "purpose spec = DMARC" "rvalue spec = dmarc_text dmn config"
        "fqdn spec = fqdnFor ''_dmarc'' (i_domainName dmn)"
    | "rtype spec = T_CNAME"
    by (auto simp: expectedRecords_def Let_def fqdn_lengths(3) dmarc_text_def split: if_splits)
  then show ?thesis
  proof cases
    case 1 then show ?thesis by (rule judged_ownership [OF assms(4)])
  next
    case 2 then show ?thesis by (rule judged_mx [OF assms(1,4)])
  next
    case 3 then show ?thesis by (rule judged_spf [OF assms])
  next
    case 4 then show ?thesis by (rule judged_dkim [OF assms(4)])
  next
    case 5 then show ?thesis by (rule judged_dmarc [OF assms])
  next
    case 6 then show ?thesis by (rule judged_cname [OF assms(1,4)])
  qed
qed

text \<open>C36: what the platform tells the owner to publish is what its verifier accepts: in a zone that
  serves the expected records, beside any TXT values of the owner's that are not a second SPF or
  DMARC record, every expected record is judged VERIFIED, whatever it was before.\<close>

theorem published_records_verify:
  assumes "config_ok config" "input_ok dmn" "others_ok dmn others"
    and "spec \<in> set (expectedRecords dmn keys config)" "set specs = set (expectedRecords dmn keys config)"
  shows "e_state (evaluateRecord spec
      (outcomeFor (lookupAll specs (zone_lookup others (expectedRecords dmn keys config))) spec)
      previous (map mx_host (mxHosts config))) = RS_VERIFIED"
  using judged_verified [OF assms(1-4), of previous] assms(4,5) outcomeFor_lookupAll [of spec specs]
  by (simp add: judged_def)

definition demo_config :: platform_dns_config where
  "demo_config = \<lparr>mxHosts = [\<lparr>mx_host = ''mx1.z.io'', mx_priority = 10\<rparr>, \<lparr>mx_host = ''mx2.z.io'', mx_priority = 20\<rparr>],
     spfInclude = ''_spf.z.io'', spfAll = ''~all'', dmarcRua = Some ''dmarc@z.io'', autoconfigHost = Some ''auto.z.io'',
     cfg_ttl = 3600\<rparr>"

definition demo_dns_input :: domain_dns_input where
  "demo_dns_input = \<lparr>i_domainName = ''acme.com'', i_verificationToken = ''zoiko-mail-verification=ab'',
     i_receivingEnabled = True, i_dmarcPolicy = P_QUARANTINE, i_dmarcReportEmail = None\<rparr>"

definition demo_keys :: "dkim_key_input list" where
  "demo_keys = [\<lparr>k_id = ''k1'', k_selector = ''zm202609'', k_publicKey = ''MIIB'', k_status = DK_ACTIVE\<rparr>,
     \<lparr>k_id = ''k2'', k_selector = ''zm202609b'', k_publicKey = ''MIIC'', k_status = DK_PENDING\<rparr>]"

definition demo_others :: "string \<Rightarrow> string list" where
  "demo_others n = (if n = ''acme.com'' then [''other-verification=1''] else [])"

theorem published_records_verify_witness:
  "map (\<lambda>s. e_state (evaluateRecord s (outcomeFor
        (lookupAll (expectedRecords demo_dns_input demo_keys demo_config)
          (zone_lookup demo_others (expectedRecords demo_dns_input demo_keys demo_config))) s)
        RS_MISMATCH (map mx_host (mxHosts demo_config)))) (expectedRecords demo_dns_input demo_keys demo_config)
     = replicate 9 RS_VERIFIED"
proof -
  have c: "config_ok demo_config" "input_ok demo_dns_input" "others_ok demo_dns_input demo_others"
    by code_simp+
  have len: "length (expectedRecords demo_dns_input demo_keys demo_config) = 9" by code_simp
  show ?thesis
    by (rule replicate_eqI) (auto simp: len intro!: published_records_verify [OF c _ refl])
qed

end
