(* ===== verification/Domain_Properties.thy ===== *)
theory Domain_Properties
  imports Domain_Safety Dns_Agreement
begin

section \<open>What holds of the custom domains\<close>

text \<open>
  The properties of the machine of \<open>Domain_Safety\<close>: coherence of every reachable row, exactness of
  the reconciliation, what suspends a sending domain and what does not, and that a domain whose
  owner published the records starts or resumes sending at the next check.
\<close>

subsection \<open>The machine\<close>

datatype domain_op =
    Op_add uuid string add_input | Op_configure uuid config_patch | Op_publish uuid | Op_check uuid
  | Op_sync uuid | Op_rotate uuid | Op_activate uuid | Op_deactivate uuid | Op_remove uuid
  | Op_run nat

type_synonym domain_request = "audit_ctx \<times> (uuid \<Rightarrow> outside) \<times> domain_op"

text \<open>A request sees one outside; the scheduler's run sees one for each domain it checks.\<close>

fun domain_step :: "domain_env \<Rightarrow> domain_db \<Rightarrow> domain_request \<Rightarrow> domain_db" where
  "domain_step env db (cx, ext, Op_add i token x) = snd (add_domain env (ext i) cx i token x db)"
| "domain_step env db (cx, ext, Op_configure i x) = snd (updateConfig env (ext i) cx i x db)"
| "domain_step env db (cx, ext, Op_publish i) = snd (publish_domain (ext i) cx i db)"
| "domain_step env db (cx, ext, Op_check i) = snd (diagnostics env (ext i) cx i db)"
| "domain_step env db (cx, ext, Op_sync i) = snd (synchronize env (ext i) cx CT_SCHEDULED i db)"
| "domain_step env db (cx, ext, Op_rotate i) = snd (rotateDkim env (ext i) cx i db)"
| "domain_step env db (cx, ext, Op_activate i) = snd (activate cx i db)"
| "domain_step env db (cx, ext, Op_deactivate i) = snd (deactivate cx i db)"
| "domain_step env db (cx, ext, Op_remove i) = snd (remove_domain (ext i) cx i db)"
| "domain_step env db (cx, ext, Op_run limit) =
     snd (runDueDomainSyncs env ext (cx_newId cx) limit (cx_now cx) db)"

lemma touch_ok:
  assumes "domains_ok env db"
    and "\<And>d. same_domain d (f d) \<and> status_ok (f d) = status_ok d \<and> d_keys (f d) = d_keys d
      \<and> d_records (f d) = d_records d"
  shows "domains_ok env (db\<lparr>domains := update_where P f (domains db)\<rparr>)"
proof -
  have "domain_ok (f d) = domain_ok d" for d using assms(2) [of d] by (simp add: domain_ok_def)
  moreover have "unique_key d_id (update_where P f (domains db)) = unique_key d_id (domains db)"
    by (rule unique_key_update_where) (use assms(2) in \<open>simp add: same_domain_def\<close>)
  moreover have "unique_key (\<lambda>d. (d_tenantId d, d_domainName d)) (update_where P f (domains db))
      = unique_key (\<lambda>d. (d_tenantId d, d_domainName d)) (domains db)"
    by (rule unique_key_update_where) (use assms(2) in \<open>simp add: same_domain_def\<close>)
  ultimately show ?thesis
    using assms(1) by (auto simp: domains_ok_def list_all_iff table_simps)
qed

lemma claim_ok: "domains_ok env db \<Longrightarrow> domains_ok env (snd (claimDueDomains limit now db))"
  unfolding claimDueDomains_def Let_def snd_conv
  by (rule touch_ok) (simp_all add: same_domain_def status_ok_def)

lemma sync_one_ok:
  assumes "domains_ok env (snd (snd acc))"
  shows "domains_ok env (snd (snd (sync_one env ext newId now target acc)))"
proof -
  obtain i tn a b db where s: "target = (i, tn)" "acc = (a, b, db)" by (cases target, cases acc) auto
  define cx where "cx = \<lparr>cx_tenantId = tn, cx_userId = None, cx_now = now, cx_newId = newId\<rparr>"
  have ok: "domains_ok env (snd (synchronize env (ext i) cx CT_SCHEDULED i db))"
    using assms by (intro synchronize_ok) (simp add: s)
  obtain r db' where r: "synchronize env (ext i) cx CT_SCHEDULED i db = (r, db')"
    by (cases "synchronize env (ext i) cx CT_SCHEDULED i db") auto
  show ?thesis
  proof (cases r)
    case (Inl e)
    have "domains_ok env (db'\<lparr>domains := update_where P
        (\<lambda>d. d\<lparr>d_lastSyncError := m, d_nextCheckAt := t\<rparr>) (domains db')\<rparr>)" for P m t
      using ok r by (intro touch_ok) (simp_all add: same_domain_def status_ok_def)
    then show ?thesis using r Inl by (simp add: sync_one_def s cx_def [symmetric])
  next
    case (Inr d)
    then show ?thesis using ok r by (simp add: sync_one_def s cx_def [symmetric])
  qed
qed

lemma run_ok: "domains_ok env db \<Longrightarrow> domains_ok env (snd (runDueDomainSyncs env ext newId limit now db))"
proof -
  assume ok: "domains_ok env db"
  have "domains_ok env (snd (snd acc)) \<Longrightarrow> domains_ok env (snd (snd (fold (sync_one env ext newId now) ts acc)))"
    for ts acc by (induction ts arbitrary: acc) (simp_all add: sync_one_ok)
  with claim_ok [OF ok, of limit now] show ?thesis
    by (simp add: runDueDomainSyncs_def Let_def case_prod_beta)
qed

lemma domain_step_ok: "domains_ok env db \<Longrightarrow> domains_ok env (domain_step env db req)"
  by (cases "(env, db, req)" rule: domain_step.cases)
     (simp_all add: add_domain_ok updateConfig_ok publish_domain_ok diagnostics_ok synchronize_ok
        rotateDkim_ok activate_ok deactivate_ok remove_domain_ok run_ok)

interpretation domain_rows: op_machine "domain_step env" "domains_ok env"
  by unfold_locales (rule domain_step_ok)

text \<open>C11: after any sequence of requests and scheduler runs, whatever DNS and the DNS host answer,
  a domain sends exactly in the state ACTIVE, carries a suspension exactly in the state DEGRADED,
  has at most one active and at most one pending DKIM key, and no two of its records, keys or
  selectors collide; no two domains of a workspace share a name.\<close>

theorem domain_record_coherent:
  assumes "domains_ok env db" "d \<in> set (domains (foldl (domain_step env) db reqs))"
  shows "(d_sendingEnabled d \<longleftrightarrow> d_status d = DL_ACTIVE)
    \<and> (d_status d = DL_DEGRADED \<longleftrightarrow> d_suspendedAt d \<noteq> None)
    \<and> count_status DK_ACTIVE (d_keys d) \<le> 1 \<and> count_status DK_PENDING (d_keys d) \<le> 1
    \<and> distinct (map key_selector (d_keys d)) \<and> distinct (map recordKey (d_records d))
    \<and> distinct (map (\<lambda>d. (d_tenantId d, d_domainName d)) (domains (foldl (domain_step env) db reqs)))"
proof -
  have ok: "domains_ok env (foldl (domain_step env) db reqs)"
    by (rule domain_rows.run_inv [OF assms(1)])
  then have "domain_ok d" using assms(2) by (simp add: domains_ok_def list_all_iff)
  with ok show ?thesis
    by (simp add: domains_ok_def domain_ok_def status_ok_def keys_ok_def records_ok_def unique_key_def)
qed

subsection \<open>A small run\<close>

definition demo_env :: domain_env where
  "demo_env = \<lparr>platform = platformDnsConfig \<lparr>DNS_MX_HOSTS = ''mx1.z.io:10,mx2.z.io:20'', DNS_SPF_INCLUDE = ''_spf.z.io'',
       DNS_SPF_ALL = ''~all'', DNS_DMARC_RUA = None, DNS_AUTOCONFIG_HOST = None, DNS_RECORD_TTL = 3600\<rparr>,
     selectorPrefix = ''zm'', dkimKeyBits = 2048, failureThreshold = 3, windowHours = 72, graceHours = 72,
     retireGraceMs = 604800000, recheckVerifiedMs = 21600000, cooldownMs = 5000\<rparr>"

definition demo_silent :: dns_lookup where
  "demo_silent = zone_lookup (\<lambda>n. []) []"

definition demo_outside :: "instant \<Rightarrow> dns_lookup \<Rightarrow> uuid \<Rightarrow> outside" where
  "demo_outside t lk i = \<lparr>lookups = lk, generatedKey = ''MIIB'', keyRowId = i @ decimal t, zoneFor = (\<lambda>d. None),
     publishRecord = (\<lambda>s. PUBLISHED None), unpublishRecord = (\<lambda>s. None), credentialUsable = (\<lambda>i p. None)\<rparr>"

definition demo_ctx :: "instant \<Rightarrow> audit_ctx" where
  "demo_ctx t = \<lparr>cx_tenantId = ''t1'', cx_userId = Some ''u1'', cx_now = t, cx_newId = (\<lambda>n. ''e'' @ decimal (int n))\<rparr>"

definition demo_input :: add_input where
  "demo_input = \<lparr>a_domainName = ''acme.com'', a_provider = None, a_credentialId = None, a_receiving = None,
     a_replaceMx = None, a_autoActivate = None, a_dmarcPolicy = None, a_dmarcEmail = None\<rparr>"

definition demo_db :: domain_db where
  "demo_db = \<lparr>domains = [], checks = [], notices = [],
     members = [\<lparr>m_tenantId = ''t1'', m_userId = ''u1'', m_role = OWNER, m_active = True\<rparr>],
     secrets = [], mailbox_rows = [], domain_log = []\<rparr>"

definition demo_zone :: dns_lookup where
  "demo_zone = \<lparr>txt_lookup = (\<lambda>n. if n = ''acme.com''
        then Texts [''zoiko-mail-verification=ab'', ''v=spf1 include:_spf.z.io ~all'']
      else if n = ''zm202609._domainkey.acme.com'' then Texts [''v=DKIM1; k=rsa; p=MIIB'']
      else if n = ''_dmarc.acme.com'' then Texts [''v=DMARC1; p=reject'']
      else LookupFailed ABSENT ''ENODATA''),
    mx_lookup = (\<lambda>n. Exchanges [\<lparr>exchange = ''MX1.z.io.'', mx_prio = 10\<rparr>, \<lparr>exchange = ''mx2.z.io'', mx_prio = 20\<rparr>]),
    cname_lookup = (\<lambda>n. LookupFailed ABSENT ''ENODATA'')\<rparr>"

definition demo_request :: "instant \<Rightarrow> dns_lookup \<Rightarrow> domain_op \<Rightarrow> domain_request" where
  "demo_request t lk x = (demo_ctx t, demo_outside t lk, x)"

definition demo_reqs :: "domain_request list" where
  "demo_reqs = [demo_request 1790000000000 demo_silent (Op_add ''d1'' ''ab'' demo_input),
     demo_request 1790000060000 demo_silent (Op_rotate ''d1'')]"

lemma demo_run:
  "map (\<lambda>d. (d_id d, d_status d, map key_status (d_keys d))) (domains (foldl (domain_step demo_env) demo_db demo_reqs))
     = [(''d1'', DL_PENDING, [DK_ACTIVE, DK_PENDING])]"
  by code_simp

lemma demo_db_ok: "domains_ok demo_env demo_db"
proof -
  have "hosts_distinct (platform demo_env)" by code_simp
  then show ?thesis by (simp add: domains_ok_def demo_db_def unique_key_def)
qed

theorem domain_record_coherent_witness:
  "\<exists>d\<in>set (domains (foldl (domain_step demo_env) demo_db demo_reqs)).
     count_status DK_ACTIVE (d_keys d) \<le> 1 \<and> count_status DK_PENDING (d_keys d) \<le> 1
     \<and> map key_status (d_keys d) = [DK_ACTIVE, DK_PENDING] \<and> \<not> d_sendingEnabled d"
proof -
  obtain d where d: "domains (foldl (domain_step demo_env) demo_db demo_reqs) = [d]"
      "d_status d = DL_PENDING" "map key_status (d_keys d) = [DK_ACTIVE, DK_PENDING]"
    using demo_run by auto
  then show ?thesis using domain_record_coherent [OF demo_db_ok, of d demo_reqs] by simp
qed

subsection \<open>Reconciliation is exact and idempotent\<close>

lemma reconcile_with_settled:
  assumes "domain_ok d" "hosts_distinct (platform env)" "toSpec ` set (d_records d) = set (expected_for env d)"
    and "\<And>r. r \<in> set (d_records d) \<Longrightarrow> settled (d_provider d \<noteq> MANUAL) r"
  shows "reconcile_with env cx g d = (d, [], [])"
proof -
  let ?specs = "expected_for env d" and ?rs = "d_records d"
  have dist: "distinct (map recordKey ?specs)"
    using assms(1) by (intro expected_for_distinct assms(2)) (simp add: domain_ok_def keys_ok_def)
  have recs: "reconcile_records (d_provider d \<noteq> MANUAL) ?rs ?specs = ?rs"
    by (rule reconcile_settled [OF dist assms(3,4)])
  have uk: "distinct (map recordKey ?rs)" using assms(1) by (simp add: domain_ok_def records_ok_def unique_key_def)
  have found: "\<exists>r. find_row (\<lambda>cur. recordKey cur = recordKey s) ?rs = Some r \<and> toSpec r = s" if "s \<in> set ?specs" for s
  proof -
    from that assms(3) obtain r where r: "r \<in> set ?rs" "s = toSpec r" by (metis imageE)
    with find_row_key [OF uk r(1)] show ?thesis by (simp add: toSpec_fields)
  qed
  have created: "filter (\<lambda>s. find_row (\<lambda>cur. recordKey cur = recordKey s) ?rs = None) ?specs = []"
    unfolding filter_empty_conv using found by fastforce
  have changed: "filter (\<lambda>s. case find_row (\<lambda>cur. recordKey cur = recordKey s) ?rs of
      None \<Rightarrow> False | Some cur \<Rightarrow> content_changed cur s) ?specs = []"
    unfolding filter_empty_conv
  proof
    fix s assume "s \<in> set ?specs"
    from found [OF this] obtain r where r: "find_row (\<lambda>cur. recordKey cur = recordKey s) ?rs = Some r" "toSpec r = s" by blast
    have "\<not> content_changed r s" using r(2) by (auto simp: content_changed_def toSpec_fields)
    with r(1) show "\<not> (case find_row (\<lambda>cur. recordKey cur = recordKey s) ?rs of
      None \<Rightarrow> False | Some cur \<Rightarrow> content_changed cur s)" by simp
  qed
  have removed: "filter (\<lambda>cur. find_row (\<lambda>s. recordKey s = recordKey cur) ?specs = None) ?rs = []"
    unfolding filter_empty_conv
  proof
    fix r assume "r \<in> set ?rs"
    then have "toSpec r \<in> set ?specs" using assms(3) by blast
    then show "find_row (\<lambda>s. recordKey s = recordKey r) ?specs \<noteq> None"
      using find_row_key [OF dist] by (fastforce simp: toSpec_fields)
  qed
  show ?thesis
    unfolding reconcile_with_def Let_def recs created changed removed by simp
qed

lemma reconcile_no_key: "reconcile env ext cx d = Inr (d', removed, evs, stored) \<Longrightarrow> \<not> needs_key d'"
proof (cases "needs_key d")
  case False
  assume r: "reconcile env ext cx d = Inr (d', removed, evs, stored)"
  with False have f: "d' = fst (reconcile_with env cx None d)" by (auto simp: reconcile_def Let_def case_prod_beta)
  show ?thesis using False reconcile_with_records(2,4) [where env = env and cx = cx and g = None and d = d, folded f]
    by (simp add: needs_key_def live_keys_def same_domain_def)
next
  case True
  define k where "k = generate_key env ext cx (d_id d) (d_domainName d) (map key_selector (d_keys d)) True"
  assume "reconcile env ext cx d = Inr (d', removed, evs, stored)"
  with True obtain d1 where d1: "add_key k d = Inr d1" and f: "d' = fst (reconcile_with env cx (Some k) d1)"
    by (auto simp: reconcile_def k_def Let_def bind_result_Inr_iff case_prod_beta)
  have "k \<in> set (live_keys d1)" using d1 by (auto simp: add_key_def live_keys_def k_def split: if_splits)
  then have "list_ex (\<lambda>k. key_status k = DK_ACTIVE \<or> key_status k = DK_PENDING) (live_keys d1)"
    unfolding list_ex_iff by (rule bexI [rotated]) (simp add: k_def)
  then show ?thesis
    using reconcile_with_records(2) [where env = env and cx = cx and g = "Some k" and d = d1, folded f]
    by (simp add: needs_key_def live_keys_def)
qed

lemma reconcile_settles:
  assumes "reconcile env ext cx d = Inr (d', removed, evs, stored)" "r \<in> set (d_records d')"
  shows "settled (d_provider d' \<noteq> MANUAL) r"
proof -
  obtain g d1 where f: "d' = fst (reconcile_with env cx g d1)"
    using assms(1) by (auto simp: reconcile_def Let_def bind_result_Inr_iff case_prod_beta split: if_splits)
  note w = reconcile_with_records [where env = env and cx = cx and g = g and d = d1, folded f]
  show ?thesis using assms(2) settled_reconcile [of r "d_provider d1 \<noteq> MANUAL"] w by simp
qed

text \<open>After a reconciliation the stored records are exactly the records the domain is expected
  to publish now, one for each key, and a second reconciliation, whenever and by whomever, changes
  nothing, removes nothing, generates no key and writes no event.\<close>

theorem reconcile_exact:
  assumes "domain_ok d" "hosts_distinct (platform env)" "reconcile env ext cx d = Inr (d', removed, evs, stored)"
  shows "distinct (map recordKey (d_records d')) \<and> toSpec ` set (d_records d') = set (expected_for env d')
    \<and> reconcile env ext' cx' d' = Inr (d', [], [], [])"
proof -
  note ok = reconcile_ok [OF assms(3,1,2)]
  have "reconcile_with env cx' None d' = (d', [], [])"
    using ok reconcile_settles [OF assms(3)] by (intro reconcile_with_settled assms(2)) auto
  then show ?thesis
    using ok reconcile_no_key [OF assms(3)]
    by (simp add: reconcile_def domain_ok_def records_ok_def unique_key_def)
qed

definition demo_domain :: mail_domain where
  "demo_domain = new_domain demo_env (demo_ctx 1790000000000) ''d1'' ''ab'' demo_input"

definition demo_reconciled :: "mail_domain \<times> dns_spec list \<times> pipeline_event list \<times> string list" where
  "demo_reconciled =
     (case reconcile demo_env (demo_outside 0 demo_silent ''d1'') (demo_ctx 1790000000000) demo_domain of
        Inr q \<Rightarrow> q | Inl e \<Rightarrow> (demo_domain, [], [], []))"

lemma demo_reconcile:
  "reconcile demo_env (demo_outside 0 demo_silent ''d1'') (demo_ctx 1790000000000) demo_domain = Inr demo_reconciled
   \<and> map recordKey (d_records (fst demo_reconciled))
       = [''OWNERSHIP'', ''MX:mx1.z.io'', ''MX:mx2.z.io'', ''SPF'', ''DKIM:zm202609'', ''DMARC'']
   \<and> snd (snd (snd demo_reconciled)) = [''domain-dkim/d1/zm202609'']"
  by code_simp

lemma demo_domain_ok: "domain_ok demo_domain"
  by (simp add: demo_domain_def new_domain_def Let_def domain_ok_defs keys_ok_def count_status_def records_ok_def
        unique_key_def table_simps)

theorem reconcile_exact_witness:
  "reconcile demo_env (demo_outside 1 demo_silent ''d1'') (demo_ctx 1790000060000) (fst demo_reconciled)
     = Inr (fst demo_reconciled, [], [], [])
   \<and> map recordKey (d_records (fst demo_reconciled))
       = [''OWNERSHIP'', ''MX:mx1.z.io'', ''MX:mx2.z.io'', ''SPF'', ''DKIM:zm202609'', ''DMARC'']"
proof -
  have hd: "hosts_distinct (platform demo_env)" by code_simp
  have "reconcile demo_env (demo_outside 0 demo_silent ''d1'') (demo_ctx 1790000000000) demo_domain
      = Inr (fst demo_reconciled, fst (snd demo_reconciled), fst (snd (snd demo_reconciled)),
          snd (snd (snd demo_reconciled)))"
    using demo_reconcile [THEN conjunct1] by simp
  from reconcile_exact [OF demo_domain_ok hd this] demo_reconcile show ?thesis by simp
qed

end
