(* ===== verification/Domain_Sending.thy ===== *)
theory Domain_Sending
  imports Domain_Properties
begin

section \<open>When a domain stops and starts sending\<close>

text \<open>
  The consequences of one synchronization for the row of a domain, and from them: what suspends
  a sending domain, what a failing resolver does, and that published records bring a domain up.
\<close>

subsection \<open>One synchronization, seen from the row\<close>

text \<open>The steps before the check leave alone what the state machine reads.\<close>

definition quiet :: "mail_domain \<Rightarrow> mail_domain \<Rightarrow> bool" where
  "quiet a b \<longleftrightarrow> same_domain a b \<and> d_sendingEnabled b = d_sendingEnabled a
     \<and> d_failures b = d_failures a \<and> d_status b = d_status a \<and> d_suspendedAt b = d_suspendedAt a
     \<and> d_autoActivate b = d_autoActivate a"

definition same_plan :: "mail_domain \<Rightarrow> mail_domain \<Rightarrow> bool" where
  "same_plan a b \<longleftrightarrow> d_keys b = d_keys a \<and> domain_input b = domain_input a"

lemma quiet_trans: "quiet a b \<Longrightarrow> quiet b c \<Longrightarrow> quiet a c"
  by (auto simp: quiet_def same_domain_def)

lemma same_plan_trans: "same_plan a b \<Longrightarrow> same_plan b c \<Longrightarrow> same_plan a c"
  by (simp add: same_plan_def)

lemma same_plan_expected: "same_plan a b \<Longrightarrow> expected_for env b = expected_for env a"
  by (simp add: same_plan_def expected_for_def live_keys_def)

lemma retire_quiet: "quiet d (fst (retireExpiredKeys env now d))"
  by (simp add: retireExpiredKeys_def Let_def quiet_def same_domain_def)

lemma reconcile_with_quiet:
  "quiet d (fst (reconcile_with env cx g d))" "same_plan d (fst (reconcile_with env cx g d))"
  by (simp_all add: reconcile_with_def Let_def quiet_def same_domain_def same_plan_def domain_input_def)

lemma add_key_quiet: "add_key k d = Inr d' \<Longrightarrow> quiet d d'"
  by (auto simp: add_key_def quiet_def same_domain_def split: if_splits)

lemma reconcile_quiet:
  assumes "reconcile env ext cx d = Inr (d', removed, evs, stored)"
  shows "quiet d d' \<and> (\<not> needs_key d \<longrightarrow> same_plan d d')"
proof (cases "needs_key d")
  case False
  with assms have "d' = fst (reconcile_with env cx None d)" by (auto simp: reconcile_def Let_def case_prod_beta)
  then show ?thesis using reconcile_with_quiet [of d env cx None] by simp
next
  case True
  with assms obtain d1 g k where "add_key k d = Inr d1" "d' = fst (reconcile_with env cx g d1)"
    by (auto simp: reconcile_def Let_def bind_result_Inr_iff case_prod_beta)
  then show ?thesis using add_key_quiet reconcile_with_quiet(1) quiet_trans True by blast
qed

lemma toSpec_mark [simp]: "toSpec (mark_published ext now d r) = toSpec r"
  by (simp add: mark_published_def Let_def toSpec_def dns_spec.truncate_def)

lemma publish_quiet:
  defines "p d ext cx mode \<equiv> fst (publishRecords ext cx mode d)"
  shows "quiet d (p d ext cx mode)" "same_plan d (p d ext cx mode)"
    "map toSpec (d_records (p d ext cx mode)) = map toSpec (d_records d)"
  by (simp_all add: p_def publishRecords_def Let_def quiet_def same_domain_def same_plan_def domain_input_def
      update_where_def)

lemma prepare_quiet:
  "quiet d (fst (prepare_domain ext cx d evs removed))" "same_plan d (fst (prepare_domain ext cx d evs removed))"
  "map toSpec (d_records (fst (prepare_domain ext cx d evs removed))) = map toSpec (d_records d)"
  using publish_quiet [where d = d and ext = ext and cx = cx and mode = PM_pending]
  by (simp_all add: prepare_domain_def Let_def case_prod_beta quiet_def same_domain_def same_plan_def)

definition checks_row :: "domain_env \<Rightarrow> outside \<Rightarrow> instant \<Rightarrow> mail_domain \<Rightarrow> mail_domain \<Rightarrow> bool" where
  "checks_row env ext now d d' \<longleftrightarrow> (\<exists>d4. quiet d d4 \<and> domain_ok d4
     \<and> (\<not> needs_key d \<and> filter (key_expired env now) (live_keys d) = [] \<longrightarrow> same_plan d d4)
     \<and> toSpec ` set (d_records d4) = set (expected_for env d4)
     \<and> d' = checked_domain env (lookupAll (map toSpec (d_records d4)) (lookups ext)) now d4)"

lemma synchronize_row:
  assumes ok: "domains_ok env db" and l: "load_domain i (cx_tenantId cx) db = Inr d"
  shows "\<exists>d'. domains (snd (synchronize env ext cx trigger i db)) = domains (save_domain d' db)
    \<and> domain_ok d' \<and> same_domain d d' \<and> (quiet d d' \<or> checks_row env ext (cx_now cx) d d')
    \<and> (d_custom d \<and> \<not> needs_key d \<and> filter (key_expired env (cx_now cx)) (live_keys d) = []
        \<longrightarrow> checks_row env ext (cx_now cx) d d')"
proof (cases "d_custom d")
  case False
  then show ?thesis using loaded_ok [OF l ok] l
    by (intro exI [of _ "d\<lparr>d_nextCheckAt := None\<rparr>"])
       (simp add: synchronize_def domain_ok_defs quiet_def)
next
  case True
  note ok0 = loaded_ok [OF l ok]
  obtain d1 evs1 gone where ret: "retireExpiredKeys env (cx_now cx) d = (d1, evs1, gone)"
    by (cases "retireExpiredKeys env (cx_now cx) d") auto
  have d1: "domain_ok d1" "same_domain d d1" "quiet d d1"
    using retire_ok [OF ret ok0] retire_quiet [of d env "cx_now cx"] by (auto simp: ret)
  have keep: "d1 = d" if "filter (key_expired env (cx_now cx)) (live_keys d) = []"
    using ret that by (simp add: retireExpiredKeys_def)
  define db1 where "db1 = discard_secrets gone (write_events cx i evs1 (save_domain d1 db))"
  have twice: "domains (save_domain d5 db1) = domains (save_domain d5 db)" if "d_id d5 = d_id d1" for d5
    using arg_cong [OF save_twice [OF that, of db], of domains] by (simp add: db1_def save_domain_def)
  show ?thesis
  proof (cases "reconcile env ext cx d1")
    case (Inl e)
    have "needs_key d1" using Inl by (auto simp: reconcile_def Let_def case_prod_beta split: if_splits)
    then show ?thesis using Inl True ret d1 l keep
      by (intro exI [of _ d1]) (auto simp: synchronize_def Let_def)
  next
    case r: (Inr q)
    obtain d2 removed evs2 stored where q: "q = (d2, removed, evs2, stored)" by (cases q) auto
    have hd: "hosts_distinct (platform env)" using ok by (simp add: domains_ok_def)
    note d2 = reconcile_ok [OF r [unfolded q] d1(1) hd] reconcile_quiet [OF r [unfolded q]]
    define d4 where "d4 = fst (prepare_domain ext cx d2 evs2 removed)"
    have d4: "domain_ok d4" "quiet d2 d4" "same_plan d2 d4"
        "map toSpec (d_records d4) = map toSpec (d_records d2)"
      using prepare_domain_ok [of d2 ext cx evs2 removed] prepare_quiet [where d = d2 and ext = ext and cx = cx and evs = evs2 and removed = removed] d2
      by (auto simp: d4_def)
    have spec: "toSpec ` set (d_records d4) = set (expected_for env d4)"
      using arg_cong [OF d4(4), of set] d2 same_plan_expected [OF d4(3)] by simp
    define d5 where "d5 = checked_domain env (lookupAll (map toSpec (d_records d4)) (lookups ext)) (cx_now cx) d4"
    have d5: "domain_ok d5" "same_domain d4 d5" using checked_domain_ok [OF d4(1)] by (auto simp: d5_def)
    have q1: "quiet d1 d2" using d2(2) by simp
    have q4: "quiet d d4" by (rule quiet_trans [OF d1(3) quiet_trans [OF q1 d4(2)]])
    have plan: "same_plan d d4" if "\<not> needs_key d" "filter (key_expired env (cx_now cx)) (live_keys d) = []"
      using that keep d2(2) same_plan_trans [OF _ d4(3), of d] by simp
    have "domains (snd (synchronize env ext cx trigger i db)) = domains (save_domain d5 db1)"
      using l True ret r q by (simp add: synchronize_def Let_def case_prod_beta db1_def d5_def d4_def)
    then have "domains (snd (synchronize env ext cx trigger i db)) = domains (save_domain d5 db)"
      using twice d5(2) d4(2) d2 by (simp add: same_domain_def quiet_def)
    moreover have "checks_row env ext (cx_now cx) d d5"
      unfolding checks_row_def using q4 d4(1) plan spec d5_def by blast
    moreover have "same_domain d d5" using q4 d5(2) by (auto simp: quiet_def intro: same_domain_trans)
    ultimately show ?thesis using d5(1) by blast
  qed
qed

subsection \<open>What suspends a sending domain\<close>

text \<open>A required record stands definitively wrong: missing, different or in conflict.\<close>

definition stands_wrong :: "mail_domain \<Rightarrow> bool" where
  "stands_wrong d = list_ex (\<lambda>r. required r \<and> isDefinitiveFailure (rec_state r)) (d_records d)"

definition check_ready :: "domain_env \<Rightarrow> lookup_results \<Rightarrow> mail_domain \<Rightarrow> readiness" where
  "check_ready env results d =
     readiness_of (verdicts (evaluate_all env results d) (find_promotion (evaluate_all env results d) d) d)"

lemma checked_state:
  "d_sendingEnabled (checked_domain env results now d) = r_sendingEnabled (next_state env now (check_ready env results d) d)"
  "d_failures (checked_domain env results now d) = r_consecutiveFailures (next_state env now (check_ready env results d) d)"
  "d_status (checked_domain env results now d) = r_status (next_state env now (check_ready env results d) d)"
  by (simp_all add: checked_domain_def Let_def check_ready_def)

lemma checked_wrong: "stands_wrong (checked_domain env results now d) = definitiveFailure (check_ready env results d)"
  by (auto simp: stands_wrong_def check_ready_def readiness_simps verdicts_def checked_domain_def Let_def
      list_ex_iff checked_record_def)

lemma sending_check:
  fixes env results now d
  assumes "d_sendingEnabled d"
  defines "d' \<equiv> checked_domain env results now d"
  shows "d_sendingEnabled d' \<and> d_failures d' \<le> d_failures d + (if stands_wrong d' then 1 else 0)
    \<or> stands_wrong d' \<and> failureThreshold env \<le> d_failures d + 1"
  using assms(1) unfolding d'_def checked_wrong checked_state next_state_def transition_def Let_def moved_def
  by (auto split: option.splits)

definition scheduled_check :: "domain_env \<Rightarrow> uuid \<Rightarrow> domain_db \<Rightarrow> audit_ctx \<times> outside \<Rightarrow> domain_db" where
  "scheduled_check env i db x = snd (synchronize env (snd x) (fst x) CT_SCHEDULED i db)"

definition finds_wrong :: "domain_env \<Rightarrow> uuid \<Rightarrow> domain_db \<Rightarrow> audit_ctx \<times> outside \<Rightarrow> bool" where
  "finds_wrong env i db x =
     list_ex (\<lambda>d. d_id d = i \<and> stands_wrong d) (domains (scheduled_check env i db x))"

definition sends_with :: "uuid \<Rightarrow> nat \<Rightarrow> domain_db \<Rightarrow> bool" where
  "sends_with i n db = list_ex (\<lambda>d. d_id d = i \<and> d_sendingEnabled d \<and> d_failures d \<le> n) (domains db)"

lemma sending_step:
  assumes ok: "domains_ok env db" and s: "sends_with i n db" and lt: "n + 1 < failureThreshold env \<or> \<not> finds_wrong env i db x"
  shows "sends_with i (n + (if finds_wrong env i db x then 1 else 0)) (scheduled_check env i db x)"
proof (cases "load_domain i (cx_tenantId (fst x)) db")
  case (Inl e)
  then have "scheduled_check env i db x = db" by (simp add: scheduled_check_def synchronize_def)
  then show ?thesis using s by (auto simp: sends_with_def list_ex_iff)
next
  case (Inr d)
  from s obtain d0 where d0: "d0 \<in> set (domains db)" "d_id d0 = i" "d_sendingEnabled d0" "d_failures d0 \<le> n"
    by (auto simp: sends_with_def list_ex_iff)
  have "d = d0" using ok load_domain_InrD [OF Inr] d0(1,2) by (auto simp: domains_ok_def dest: unique_keyD)
  obtain d' where d': "domains (scheduled_check env i db x) = domains (save_domain d' db)" "same_domain d d'"
      "quiet d d' \<or> checks_row env (snd x) (cx_now (fst x)) d d'"
    using synchronize_row [OF ok Inr, of "snd x" CT_SCHEDULED] by (auto simp: scheduled_check_def)
  have mem: "d' \<in> set (domains (scheduled_check env i db x))" "d_id d' = i"
    using saved_mem [OF _ d'(2)] load_domain_InrD [OF Inr] d'(1,2) by (auto simp: same_domain_def)
  have wrong: "stands_wrong d' \<Longrightarrow> finds_wrong env i db x"
    using mem by (auto simp: finds_wrong_def list_ex_iff)
  from d'(3) have "d_sendingEnabled d' \<and> d_failures d' \<le> n + (if finds_wrong env i db x then 1 else 0)"
  proof
    assume "quiet d d'"
    then show ?thesis using d0 \<open>d = d0\<close> by (simp add: quiet_def)
  next
    assume "checks_row env (snd x) (cx_now (fst x)) d d'"
    then obtain d4 res where d4: "quiet d d4" "d' = checked_domain env res (cx_now (fst x)) d4"
      by (auto simp: checks_row_def)
    then have "d_sendingEnabled d4" "d_failures d4 \<le> n" using d0 \<open>d = d0\<close> by (auto simp: quiet_def)
    with sending_check [of d4 env res "cx_now (fst x)"] lt wrong show ?thesis by (auto simp: d4(2) split: if_splits)
  qed
  then show ?thesis using mem by (auto simp: sends_with_def list_ex_iff)
qed

lemma scheduled_check_ok: "domains_ok env db \<Longrightarrow> domains_ok env (scheduled_check env i db x)"
  by (simp add: scheduled_check_def synchronize_ok)

lemma sending_run:
  "domains_ok env db \<Longrightarrow> sends_with i n db \<Longrightarrow>
   n + count_uses (scheduled_check env i) (finds_wrong env) i db xs < failureThreshold env \<Longrightarrow>
   \<exists>m. sends_with i m (foldl (scheduled_check env i) db xs)"
proof (induction xs arbitrary: db n)
  case Nil
  then show ?case by auto
next
  case (Cons x xs)
  let ?n = "n + (if finds_wrong env i db x then 1 else 0)"
  have "sends_with i ?n (scheduled_check env i db x)"
    by (rule sending_step [OF Cons.prems(1,2)]) (use Cons.prems(3) in auto)
  from Cons.IH [OF scheduled_check_ok [OF Cons.prems(1)] this] Cons.prems(3)
  show ?case by simp
qed

text \<open>C16: only repeated findings suspend a domain that sends: through any sequence of synchronizations,
  whatever DNS answers at each, as long as fewer of them than the threshold (less the failures
  already counted) leave a required record standing missing, mismatched or in conflict, the domain
  goes on sending.\<close>

theorem suspension_needs_findings:
  assumes "domains_ok env db" "d \<in> set (domains db)" "d_id d = i" "d_sendingEnabled d"
    and "d_failures d + count_uses (scheduled_check env i) (finds_wrong env) i db xs < failureThreshold env"
  shows "\<exists>d'\<in>set (domains (foldl (scheduled_check env i) db xs)). d_id d' = i \<and> d_sendingEnabled d'"
proof -
  have "sends_with i (d_failures d) db" using assms(2-4) by (auto simp: sends_with_def list_ex_iff)
  from sending_run [OF assms(1) this assms(5)] show ?thesis by (auto simp: sends_with_def list_ex_iff)
qed

subsection \<open>A resolver that fails\<close>

definition only_errors :: "lookup_results \<Rightarrow> bool" where
  "only_errors results = list_all (\<lambda>(k, out). is_lookup_error out) results"

lemma error_keeps_verdict:
  assumes "only_errors results"
  shows "e_state (evaluate_all env results d r) =
     (if rec_state r = RS_PENDING \<and> outcomeFor results (toSpec r) \<noteq> None then RS_LOOKUP_ERROR else rec_state r)"
proof (cases "outcomeFor results (toSpec r)")
  case None
  then show ?thesis by (simp add: evaluate_all_def evaluateRecord_def eval_result_def)
next
  case (Some out)
  then have "is_lookup_error out"
    using assms by (auto simp: outcomeFor_def only_errors_def list_all_iff dest: map_of_SomeD)
  then obtain ec where "out = LookupFailed ERROR ec"
    by (auto simp: is_lookup_error_def split: dns_outcome.splits fail_kind.splits)
  with Some show ?thesis by (simp add: evaluate_all_def evaluateRecord_def eval_result_def)
qed

lemma error_definitive:
  "only_errors results \<Longrightarrow> isDefinitiveFailure (e_state (evaluate_all env results d r)) = isDefinitiveFailure (rec_state r)"
  by (simp add: error_keeps_verdict isDefinitiveFailure_def)

lemma error_verified:
  "only_errors results \<Longrightarrow> (e_state (evaluate_all env results d r) = RS_VERIFIED) = (rec_state r = RS_VERIFIED)"
  by (simp add: error_keeps_verdict)

lemma no_promotion: "find_pending d = None \<Longrightarrow> find_promotion eval d = None"
  by (simp add: find_promotion_def)

lemma outage_definitive:
  assumes "only_errors results" "find_pending d = None"
  shows "definitiveFailure (check_ready env results d) = stands_wrong d"
  using error_definitive [OF assms(1)] no_promotion [OF assms(2)]
  by (auto simp: check_ready_def readiness_simps verdicts_def stands_wrong_def list_ex_iff requiredFor_def)

lemma outage_ready:
  assumes "only_errors results" "find_pending d = None"
    "r \<in> set (d_records d)" "required r" "purpose r \<in> set SENDING_PURPOSES" "rec_state r \<noteq> RS_VERIFIED"
  shows "\<not> sendReady (check_ready env results d)"
  using assms(3-6) error_verified [OF assms(1)] no_promotion [OF assms(2)]
  by (auto simp: check_ready_def readiness_simps verdicts_def requiredFor_def)

text \<open>A resolver outage alone never takes a domain down: while no rotation is pending and no required record
  stands wrong, a check in which every lookup fails leaves a sending domain sending, ACTIVE, with its
  failure count no higher and without any event, and again with no required record standing wrong.\<close>

theorem outage_alone_is_no_reason:
  assumes "d_sendingEnabled d" "find_pending d = None" "\<not> stands_wrong d" "only_errors results"
  shows "let d' = checked_domain env results now d in d_sendingEnabled d' \<and> d_status d' = DL_ACTIVE \<and> d_failures d' \<le> d_failures d
    \<and> reported_events d (next_state env now (check_ready env results d) d) = []
    \<and> \<not> stands_wrong d' \<and> d_keys d' = d_keys d"
proof -
  have nd: "\<not> definitiveFailure (check_ready env results d)"
    using outage_definitive [OF assms(4,2)] assms(3) by simp
  have "d_keys (checked_domain env results now d) = d_keys d"
    using no_promotion [OF assms(2)] by (simp add: checked_domain_def Let_def promote_keys_def)
  then show ?thesis
    using nd assms(1) unfolding Let_def checked_state checked_wrong
    by (simp add: next_state_def transition_def Let_def moved_def reported_events_def)
qed

text \<open>C37: but an outage can finish what one bad answer began. Once a required sending record stands
  wrong, a check in which every lookup fails counts as a further failure, and outside the grace window
  it suspends the domain when the count reaches the threshold, with no new evidence.\<close>

theorem outage_completes_suspension:
  assumes "d_sendingEnabled d" "find_pending d = None" "only_errors results"
    and "r \<in> set (d_records d)" "required r" "purpose r \<in> set SENDING_PURPOSES" "isDefinitiveFailure (rec_state r)"
    and "case d_graceUntil d of None \<Rightarrow> True | Some g \<Rightarrow> g \<le> now"
  shows "let d' = checked_domain env results now d in d_failures d' = d_failures d + 1
    \<and> (failureThreshold env \<le> d_failures d + 1 \<longleftrightarrow> d_status d' = DL_DEGRADED \<and> \<not> d_sendingEnabled d')"
proof -
  have w: "definitiveFailure (check_ready env results d)"
    using outage_definitive [OF assms(3,2)] assms(4,5,7) by (auto simp: stands_wrong_def list_ex_iff)
  have n: "\<not> sendReady (check_ready env results d)"
    by (rule outage_ready [OF assms(3,2,4-6)]) (use assms(7) in \<open>auto simp: isDefinitiveFailure_def\<close>)
  show ?thesis
    using w n assms(1,8) unfolding Let_def checked_state
    by (auto simp: next_state_def transition_def Let_def moved_def split: option.splits)
qed

subsection \<open>Published records bring a domain up\<close>

lemma active_key_spec:
  assumes "k \<in> set keys" "k_status k = DK_ACTIVE"
  shows "\<exists>s\<in>set (expectedRecords dmn keys config). purpose s = DKIM \<and> required s"
proof -
  let ?s = "(spec_for (i_domainName dmn) config (''DKIM:'' @ k_selector k) DKIM T_TXT
      (k_selector k @ ''._domainkey'') (dkimValue (k_publicKey k)) (k_status k = DK_ACTIVE))
      \<lparr>dkimKeyId := Some (k_id k)\<rparr>"
  have "?s \<in> set (expectedRecords dmn keys config)"
    unfolding expectedRecords_def Let_def set_append using assms by (intro UnI1 UnI2) (auto intro!: image_eqI [of _ _ k])
  moreover have "purpose ?s = DKIM \<and> required ?s" using assms(2) by simp
  ultimately show ?thesis by blast
qed

definition waits_for_records :: "mail_domain \<Rightarrow> bool" where
  "waits_for_records d \<longleftrightarrow> is_suspended d \<or> (\<not> d_sendingEnabled d \<and> d_autoActivate d) \<or> d_sendingEnabled d"

text \<open>C17: a domain whose owner published the expected records sends after its next synchronization: a
  custom domain with an active key, no rotation and no key to retire, whose names are served by a zone
  with the expected records (and any other TXT values that are not a second SPF or DMARC record),
  is ACTIVE and sending after one synchronization, whether it was pending, failed, verified with
  automatic activation, suspended, or sending with failures on its count, which is then zero.\<close>

theorem published_domain_sends:
  assumes "domains_ok env db" "load_domain i (cx_tenantId cx) db = Inr d" "d_custom d" "waits_for_records d"
    and "\<exists>k\<in>set (d_keys d). key_status k = DK_ACTIVE" "find_pending d = None"
    and "filter (key_expired env (cx_now cx)) (live_keys d) = []"
    and "config_ok (platform env)" "input_ok (domain_input d)" "others_ok (domain_input d) others"
    and "lookups ext = zone_lookup others (expected_for env d)"
  shows "\<exists>d'\<in>set (domains (snd (synchronize env ext cx trigger i db))). d_id d' = i
    \<and> d_sendingEnabled d' \<and> d_status d' = DL_ACTIVE \<and> d_failures d' = 0 \<and> d_suspendedAt d' = None"
proof -
  have nk: "\<not> needs_key d" using assms(5) by (auto simp: needs_key_def live_keys_def list_ex_iff)
  obtain d' where d': "domains (snd (synchronize env ext cx trigger i db)) = domains (save_domain d' db)"
      "domain_ok d'" "same_domain d d'" "checks_row env ext (cx_now cx) d d'"
    using synchronize_row [OF assms(1,2), of ext trigger] assms(3,7) nk by auto
  then obtain d4 where d4: "quiet d d4" "same_plan d d4"
      "toSpec ` set (d_records d4) = set (expected_for env d4)"
      "d' = checked_domain env (lookupAll (map toSpec (d_records d4)) (lookups ext)) (cx_now cx) d4"
    using assms(7) nk by (auto simp: checks_row_def)
  define results where "results = lookupAll (map toSpec (d_records d4)) (lookups ext)"
  have ex: "expected_for env d4 = expected_for env d" by (rule same_plan_expected [OF d4(2)])
  have v: "e_state (evaluate_all env results d4 r) = RS_VERIFIED" if "r \<in> set (d_records d4)" for r
  proof -
    have "toSpec r \<in> set (expected_for env d)" using that d4(3) ex by (metis imageI)
    moreover have "set (map toSpec (d_records d4)) = set (expected_for env d)" using d4(3) ex by simp
    ultimately show ?thesis
      using published_records_verify [OF assms(8-10), of "toSpec r" "map key_input (live_keys d)"
          "map toSpec (d_records d4)" "rec_state r"]
      unfolding evaluate_all_def results_def assms(11) expected_for_def by simp
  qed
  obtain k where k: "k \<in> set (d_keys d)" "key_status k = DK_ACTIVE" using assms(5) by blast
  have "key_input k \<in> set (map key_input (live_keys d))" "k_status (key_input k) = DK_ACTIVE"
    using k by (auto simp: live_keys_def key_input_def)
  then have "\<exists>s\<in>set (expected_for env d). purpose s = DKIM \<and> required s"
    unfolding expected_for_def by (rule active_key_spec)
  then obtain r where r: "r \<in> set (d_records d4)" "purpose r = DKIM" "required r"
    using d4(3) ex by (metis (no_types, lifting) image_iff toSpec_fields(2,9))
  have np: "find_promotion (evaluate_all env results d4) d4 = None"
    using d4(2) assms(6) by (intro no_promotion) (simp add: find_pending_def same_plan_def)
  have ready: "sendReady (check_ready env results d4)"
    unfolding check_ready_def readiness_simps np
    using r v by (auto simp: verdicts_def requiredFor_def)
  have w: "waits_for_records d4"
    using assms(4) d4(1) by (simp add: waits_for_records_def quiet_def is_suspended_def)
  have fin: "d_sendingEnabled d'" "d_status d' = DL_ACTIVE" "d_failures d' = 0"
    using ready w unfolding d4(4) results_def [symmetric] checked_state
    by (auto simp: next_state_def transition_def Let_def moved_def waits_for_records_def)
  then have "d_suspendedAt d' = None" using d'(2) by (auto simp: domain_ok_defs)
  moreover have "d' \<in> set (domains (snd (synchronize env ext cx trigger i db)))" "d_id d' = i"
    using saved_mem [OF _ d'(3)] load_domain_InrD [OF assms(2)] d'(1,3) by (auto simp: same_domain_def)
  ultimately show ?thesis using fin by blast
qed

subsection \<open>The statements at a concrete domain\<close>

definition demo_row :: mail_domain where
  "demo_row = fst demo_reconciled"

definition demo_sending :: "record_state \<Rightarrow> nat \<Rightarrow> mail_domain" where
  "demo_sending st n = demo_row\<lparr>d_sendingEnabled := True, d_status := DL_ACTIVE, d_failures := n,
     d_records := map (\<lambda>r. r\<lparr>rec_state := (if purpose r = SPF then st else RS_VERIFIED)\<rparr>) (d_records demo_row)\<rparr>"

definition demo_outage :: lookup_results where
  "demo_outage = [((T_TXT, ''acme.com''), LookupFailed ERROR ''ETIMEOUT''),
     ((T_MX, ''acme.com''), LookupFailed ERROR ''ETIMEOUT'')]"

lemma demo_row_ok: "domain_ok demo_row"
proof -
  have hd: "hosts_distinct (platform demo_env)" by code_simp
  have "reconcile demo_env (demo_outside 0 demo_silent ''d1'') (demo_ctx 1790000000000) demo_domain
      = Inr (demo_row, fst (snd demo_reconciled), fst (snd (snd demo_reconciled)), snd (snd (snd demo_reconciled)))"
    using demo_reconcile [THEN conjunct1] by (simp add: demo_row_def)
  from reconcile_ok [OF this demo_domain_ok hd] show ?thesis by simp
qed

lemma demo_row_facts:
  "d_suspendedAt demo_row = None \<and> find_pending demo_row = None \<and> d_graceUntil demo_row = None
   \<and> \<not> d_sendingEnabled demo_row \<and> d_autoActivate demo_row \<and> d_custom demo_row
   \<and> d_id demo_row = ''d1'' \<and> d_tenantId demo_row = ''t1''
   \<and> (\<exists>k\<in>set (d_keys demo_row). key_status k = DK_ACTIVE)
   \<and> filter (key_expired demo_env 1790000060000) (live_keys demo_row) = []"
  by code_simp

lemma demo_sending_ok: "domain_ok (demo_sending st n)"
proof -
  have "records_ok (map (\<lambda>r. r\<lparr>rec_state := (if purpose r = SPF then st else RS_VERIFIED)\<rparr>) (d_records demo_row))"
    using demo_row_ok by (subst records_ok_map) (simp_all add: domain_ok_def)
  then show ?thesis using demo_row_ok demo_row_facts by (simp add: domain_ok_defs demo_sending_def)
qed

definition demo_with :: "mail_domain \<Rightarrow> domain_db" where
  "demo_with d = demo_db\<lparr>domains := [d]\<rparr>"

lemma demo_with_ok: "domain_ok d \<Longrightarrow> domains_ok demo_env (demo_with d)"
  using demo_db_ok by (simp add: domains_ok_def demo_with_def unique_key_def)

lemma count_uses_le_length: "count_uses step f k s xs \<le> length xs"
  by (induction xs arbitrary: s) (auto intro: le_SucI)

theorem suspension_needs_findings_witness:
  "\<exists>d'\<in>set (domains (foldl (scheduled_check demo_env ''d1'') (demo_with (demo_sending RS_VERIFIED 0))
     [(demo_ctx 1790000060000, demo_outside 1 demo_silent ''d1''),
      (demo_ctx 1790000120000, demo_outside 2 demo_silent ''d1'')])). d_id d' = ''d1'' \<and> d_sendingEnabled d'"
proof (rule suspension_needs_findings [OF demo_with_ok [OF demo_sending_ok], of "demo_sending RS_VERIFIED 0"])
  have "failureThreshold demo_env = 3" by code_simp
  then show "d_failures (demo_sending RS_VERIFIED 0) + count_uses (scheduled_check demo_env ''d1'') (finds_wrong demo_env) ''d1''
      (demo_with (demo_sending RS_VERIFIED 0))
      [(demo_ctx 1790000060000, demo_outside 1 demo_silent ''d1''),
       (demo_ctx 1790000120000, demo_outside 2 demo_silent ''d1'')] < failureThreshold demo_env"
    using count_uses_le_length [of "scheduled_check demo_env ''d1''" "finds_wrong demo_env" "''d1''"
        "demo_with (demo_sending RS_VERIFIED 0)" "[(demo_ctx 1790000060000, demo_outside 1 demo_silent ''d1''),
       (demo_ctx 1790000120000, demo_outside 2 demo_silent ''d1'')]"]
    by (simp only: demo_sending_def mail_domain.simps) (simp add: demo_sending_def)
qed (simp_all add: demo_with_def demo_sending_def demo_row_facts)

theorem outage_alone_is_no_reason_witness:
  "let d' = checked_domain demo_env demo_outage 1790000060000 (demo_sending RS_VERIFIED 2)
   in d_sendingEnabled d' \<and> d_status d' = DL_ACTIVE"
proof -
  have "\<not> stands_wrong (demo_sending RS_VERIFIED 2)" "only_errors demo_outage"
    "find_pending (demo_sending RS_VERIFIED 2) = None" "d_sendingEnabled (demo_sending RS_VERIFIED 2)"
    by code_simp+
  from outage_alone_is_no_reason [OF this(4,3,1,2), of demo_env 1790000060000] show ?thesis
    by (simp add: Let_def)
qed

theorem outage_completes_suspension_witness:
  "let d' = checked_domain demo_env demo_outage 1790000060000 (demo_sending RS_MISSING 2)
   in d_failures d' = 3 \<and> d_status d' = DL_DEGRADED \<and> \<not> d_sendingEnabled d'"
proof -
  let ?d = "demo_sending RS_MISSING 2"
  have f: "d_sendingEnabled ?d" "find_pending ?d = None" "only_errors demo_outage"
    "case d_graceUntil ?d of None \<Rightarrow> True | Some g \<Rightarrow> g \<le> 1790000060000" "failureThreshold demo_env = 3"
    "d_failures ?d = 2"
    by code_simp+
  have "\<exists>r\<in>set (d_records ?d). required r \<and> purpose r \<in> set SENDING_PURPOSES \<and> isDefinitiveFailure (rec_state r)"
    by code_simp
  then obtain r where "r \<in> set (d_records ?d)" "required r" "purpose r \<in> set SENDING_PURPOSES"
    "isDefinitiveFailure (rec_state r)" by blast
  from outage_completes_suspension [OF f(1-3) this f(4), of demo_env] f(5,6) show ?thesis
    by (simp add: Let_def)
qed

theorem published_domain_sends_witness:
  "\<exists>d'\<in>set (domains (snd (synchronize demo_env (demo_outside 1 (zone_lookup (\<lambda>n. []) (expected_for demo_env demo_row)) ''d1'')
     (demo_ctx 1790000060000) CT_SCHEDULED ''d1'' (demo_with demo_row)))). d_id d' = ''d1'' \<and> d_sendingEnabled d' \<and> d_status d' = DL_ACTIVE"
proof -
  have c: "config_ok (platform demo_env)" "input_ok (domain_input demo_row)" "others_ok (domain_input demo_row) (\<lambda>n. [])"
    by code_simp+
  have l: "load_domain ''d1'' (cx_tenantId (demo_ctx 1790000060000)) (demo_with demo_row) = Inr demo_row"
    using demo_row_facts by (simp add: load_domain_def demo_with_def demo_ctx_def find_row_Cons)
  have w: "waits_for_records demo_row" using demo_row_facts by (simp add: waits_for_records_def)
  have k: "\<exists>k\<in>set (d_keys demo_row). key_status k = DK_ACTIVE" using demo_row_facts by blast
  have "d_custom demo_row" "find_pending demo_row = None"
      "filter (key_expired demo_env (cx_now (demo_ctx 1790000060000))) (live_keys demo_row) = []"
    using demo_row_facts by (simp_all add: demo_ctx_def)
  from published_domain_sends [OF demo_with_ok [OF demo_row_ok] l this(1) w k this(2,3) c,
      of "demo_outside 1 (zone_lookup (\<lambda>n. []) (expected_for demo_env demo_row)) ''d1''" CT_SCHEDULED]
  show ?thesis by (auto simp: demo_outside_def)
qed

end
