(* ===== verification/Members.thy ===== *)
theory Members
  imports Roles
begin

section \<open>Memberships\<close>

text \<open>
  The membership rows several services work on (\<open>TenantMembership\<close>) and the one operation of
  \<open>modules/membership/membership.service.ts\<close> they share.
\<close>

record membership =
  tm_id :: uuid
  tm_tenantId :: uuid
  tm_userId :: uuid
  tm_role :: membership_role
  tm_status :: membership_status
  tm_inviteToken :: "string option"
  tm_inviteExpiresAt :: "instant option"

definition revokePendingInvitation :: "uuid \<Rightarrow> uuid \<Rightarrow> membership list \<Rightarrow> membership list" where
  "revokePendingInvitation tenantId membershipId rows =
     update_where (\<lambda>m. tm_id m = membershipId \<and> tm_tenantId m = tenantId \<and> tm_status m = MS_INVITED)
       (\<lambda>m. m\<lparr>tm_status := MS_REMOVED, tm_inviteToken := None, tm_inviteExpiresAt := None\<rparr>) rows"

end
