(* ===== verification/Mailbox_Cleanup.thy ===== *)
theory Mailbox_Cleanup
  imports Members Audit_Log Dns_Records "HOL-Library.Sublist"
begin

section \<open>Removing mailboxes from the mail host\<close>

text \<open>
  \<open>modules/mail/mailbox-cleanup.service.ts\<close> and \<open>mailbox-identity.ts\<close>. Deleting a mailbox, a member or a
  workspace writes a durable task; a worker later proves that the account on the mail host is the mailbox's
  own, removes it, then its credential, then the row. Workers hold tasks under a lease and may overlap.

  The mail host itself is not part of the repository: it is the record of calls \<open>mail_host\<close> over a host state
  \<open>'h\<close>, and each call may fail with an error of its own.
\<close>

subsection \<open>The mail host\<close>

datatype host_error_code =
    HE_NOT_CONFIGURED | HE_AUTH_FAILED | HE_FORBIDDEN | HE_TIMEOUT | HE_UNREACHABLE | HE_RATE_LIMITED
  | HE_UNAVAILABLE | HE_ALREADY_EXISTS | HE_DOMAIN_MISSING | HE_INVALID_REQUEST | HE_NOT_SUPPORTED
  | HE_UNEXPECTED_RESPONSE | HE_COUNT_UNAVAILABLE

datatype host_error = HostError (he_code: host_error_code) (he_retryable: bool)

record hosted_account =
  ha_id :: string
  ha_name :: string
  ha_domainId :: string
  ha_description :: "string option"

datatype delete_outcome = DELETED | ALREADY_ABSENT

record 'h mail_host =
  mh_isConfigured :: "'h \<Rightarrow> bool"
  mh_findDomain :: "'h \<Rightarrow> string \<Rightarrow> host_error + string option"
  mh_findAccount :: "'h \<Rightarrow> string \<Rightarrow> string \<Rightarrow> host_error + hosted_account option"
  mh_getAccount :: "'h \<Rightarrow> string \<Rightarrow> host_error + hosted_account option"
  mh_countMessages :: "'h \<Rightarrow> string \<Rightarrow> host_error + nat"
  mh_deleteAccount :: "'h \<Rightarrow> string \<Rightarrow> (host_error + delete_outcome) \<times> 'h"

definition ownershipMarker :: "uuid \<Rightarrow> string" where
  "ownershipMarker mailboxId = ''zoiko:mailbox:'' @ mailboxId"

definition credentialRef :: "uuid \<Rightarrow> string" where
  "credentialRef mailboxId = ''mailbox-credential-'' @ mailboxId"

subsection \<open>State\<close>

datatype cleanup_reason = ADMIN_DELETE | USER_ERASURE | TENANT_ERASURE

datatype cleanup_status = CT_PENDING | CT_RUNNING | CT_BLOCKED | CT_FAILED | CT_COMPLETED

datatype refusal = NON_EMPTY | OWNERSHIP_MISMATCH

datatype task_error =
  Refused_with refusal | Host_failure host_error_code | INTERNAL | LEASE_EXHAUSTED

datatype task_outcome = Removed delete_outcome | Refused refusal

record cleanup_task =
  ct_id :: uuid
  ct_tenantId :: uuid
  ct_mailboxId :: uuid
  ct_providerAccountId :: "string option"
  ct_address :: string
  ct_credentialRef :: string
  ct_reason :: cleanup_reason
  ct_requireEmpty :: bool
  ct_status :: cleanup_status
  ct_attempts :: nat
  ct_maxAttempts :: nat
  ct_runAt :: instant
  ct_lockedAt :: "instant option"
  ct_providerGoneAt :: "instant option"
  ct_secretRemovedAt :: "instant option"
  ct_lastErrorCode :: "task_error option"
  ct_outcome :: "task_outcome option"
  ct_requestedBy :: "uuid option"
  ct_completedAt :: "instant option"

record mailbox =
  mb_id :: uuid
  mb_tenantId :: uuid
  mb_address :: string
  mb_hosted :: bool
  mb_providerAccountId :: "string option"
  mb_membershipId :: "uuid option"
  mb_provisioning :: bool
  mb_provisioningStartedAt :: "instant option"
  mb_deletionRequestedAt :: "instant option"
  mb_deletionError :: "task_error option"

record cleanup_db =
  mailboxes :: "mailbox list"
  tasks :: "cleanup_task list"
  members :: "membership list"
  copies :: "uuid list" \<comment> \<open>for every message a mailbox holds, the mailbox\<close>
  tenantIds :: "uuid list"
  secrets :: "string list"
  clog :: "audit_event list"

record cleanup_env =
  ce_deleteEnabled :: bool
  ce_leaseMs :: int
  ce_retentionDays :: int
  ce_digest :: "string \<Rightarrow> string"
  ce_newId :: "nat \<Rightarrow> uuid"

record cleanup_ctx =
  cc_tenantId :: uuid
  cc_userId :: uuid

definition isEnabled :: "'h mail_host \<Rightarrow> cleanup_env \<Rightarrow> 'h \<Rightarrow> bool" where
  "isEnabled p env h \<longleftrightarrow> ce_deleteEnabled env \<and> mh_isConfigured p h"

definition redactedAddress :: "cleanup_env \<Rightarrow> string \<Rightarrow> string" where
  "redactedAddress env a = ''redacted:'' @ take 16 (ce_digest env a)"

subsection \<open>Enqueueing\<close>

definition new_task :: "uuid \<Rightarrow> instant \<Rightarrow> mailbox \<Rightarrow> cleanup_reason \<Rightarrow> bool \<Rightarrow> uuid option \<Rightarrow> cleanup_task" where
  "new_task i now m why mustEmpty by =
     \<lparr>ct_id = i, ct_tenantId = mb_tenantId m, ct_mailboxId = mb_id m,
      ct_providerAccountId = mb_providerAccountId m, ct_address = mb_address m,
      ct_credentialRef = credentialRef (mb_id m), ct_reason = why, ct_requireEmpty = mustEmpty,
      ct_status = CT_PENDING, ct_attempts = 0, ct_maxAttempts = 10, ct_runAt = now, ct_lockedAt = None,
      ct_providerGoneAt = None, ct_secretRemovedAt = None, ct_lastErrorCode = None, ct_outcome = None,
      ct_requestedBy = by, ct_completedAt = None\<rparr>"

text \<open>One task per mailbox: a row that is there already is skipped.\<close>

definition add_task :: "cleanup_task \<Rightarrow> cleanup_task list \<Rightarrow> cleanup_task list" where
  "add_task t rows = (if ct_mailboxId t \<in> ct_mailboxId ` set rows then rows else rows @ [t])"

definition restarted :: "cleanup_reason \<Rightarrow> instant \<Rightarrow> cleanup_task \<Rightarrow> cleanup_task" where
  "restarted why now t = t\<lparr>ct_reason := why, ct_requireEmpty := False, ct_status := CT_PENDING, ct_attempts := 0,
     ct_runAt := now, ct_lockedAt := None, ct_lastErrorCode := None, ct_outcome := None\<rparr>"

definition enqueueForErasure ::
  "(uuid \<Rightarrow> uuid) \<Rightarrow> instant \<Rightarrow> mailbox list \<Rightarrow> cleanup_reason \<Rightarrow> uuid option \<Rightarrow> cleanup_task list
     \<Rightarrow> nat \<times> cleanup_task list" where
  "enqueueForErasure newTask now ms why by rows =
     (let hosted = filter mb_hosted ms; ids = mb_id ` set hosted
      in if hosted = [] then (0, rows)
         else
           (let rows1 = foldl (\<lambda>r m. add_task (new_task (newTask (mb_id m)) now m why False by) r) rows hosted;
                rows2 = update_where (\<lambda>t. ct_mailboxId t \<in> ids \<and> ct_requireEmpty t
                    \<and> ct_status t \<in> {CT_PENDING, CT_BLOCKED, CT_FAILED}) (restarted why now) rows1;
                rows3 = update_where (\<lambda>t. ct_mailboxId t \<in> ids \<and> ct_requireEmpty t \<and> ct_status t = CT_RUNNING)
                    (\<lambda>t. t\<lparr>ct_reason := why, ct_requireEmpty := False\<rparr>) rows2
            in (length hosted, rows3)))"

subsection \<open>The administrator's delete\<close>

definition loadMailbox :: "uuid \<Rightarrow> uuid \<Rightarrow> cleanup_db \<Rightarrow> mailbox result" where
  "loadMailbox tenantId i db =
     (case find_row (\<lambda>m. mb_id m = i \<and> mb_tenantId m = tenantId) (mailboxes db) of
        Some m \<Rightarrow> Inr m | None \<Rightarrow> not_found)"

definition admin_audit ::
  "cleanup_env \<Rightarrow> cleanup_ctx \<Rightarrow> instant \<Rightarrow> string \<Rightarrow> uuid \<Rightarrow> json \<Rightarrow> audit_event list \<Rightarrow> audit_event list" where
  "admin_audit env c now ty i md log =
     log_event (ce_newId env) now (cc_tenantId c) (Some (cc_userId c)) (Some AT_ADMIN) ty ''Mailbox'' i (Some md) log"

definition upsert_task :: "cleanup_task \<Rightarrow> cleanup_task list \<Rightarrow> cleanup_task list" where
  "upsert_task t rows =
     (if ct_mailboxId t \<in> ct_mailboxId ` set rows
      then update_where (\<lambda>x. ct_mailboxId x = ct_mailboxId t)
        (\<lambda>x. t\<lparr>ct_id := ct_id x, ct_tenantId := ct_tenantId x, ct_credentialRef := ct_credentialRef x,
               ct_maxAttempts := ct_maxAttempts x\<rparr>) rows
      else rows @ [t])"

text \<open>The answer \<open>Inr False\<close> is the service's null: the mailbox is not hosted, the caller deletes it itself.\<close>

definition requestDeletion ::
  "'h mail_host \<Rightarrow> cleanup_env \<Rightarrow> cleanup_ctx \<Rightarrow> uuid \<Rightarrow> instant \<Rightarrow> uuid \<Rightarrow> 'h \<Rightarrow> cleanup_db
     \<Rightarrow> bool result \<times> cleanup_db" where
  "requestDeletion p env c newTask now i h db =
     (case loadMailbox (cc_tenantId c) i db of
        Inl e \<Rightarrow> (Inl e, db)
      | Inr m \<Rightarrow>
          if \<not> mb_hosted m then (Inr False, db)
          else if \<not> mh_isConfigured p h then (fail_with 503 MAIL_HOSTING_NOT_CONFIGURED, db)
          else if \<not> ce_deleteEnabled env then (fail_with 503 MAILBOX_DELETE_DISABLED, db)
          else if mb_deletionRequestedAt m \<noteq> None then (Inr True, db)
          else if mb_provisioning m \<and> (case mb_provisioningStartedAt m of
                 Some t \<Rightarrow> now - t < 2 * minute_ms | None \<Rightarrow> False)
            then (fail_with 409 PROVISIONING_IN_PROGRESS, db)
          else if i \<in> set (copies db) then (fail_with 409 CONFLICT, db)
          else
            (case (if truthy (mb_providerAccountId m) then mh_countMessages p h (the (mb_providerAccountId m)) else Inr 0) of
               Inl e \<Rightarrow> (fail_with 503 MAIL_HOSTING_UNAVAILABLE, db)
             | Inr n \<Rightarrow>
                 if 0 < n then (fail_with 409 MAILBOX_NOT_EMPTY, db)
                 else (Inr True, db\<lparr>
                   mailboxes := update_where (\<lambda>x. mb_id x = i \<and> mb_tenantId x = cc_tenantId c
                       \<and> mb_deletionRequestedAt x = None)
                     (\<lambda>x. x\<lparr>mb_deletionRequestedAt := Some now, mb_deletionError := None\<rparr>) (mailboxes db),
                   members := (case mb_membershipId m of None \<Rightarrow> members db
                     | Some k \<Rightarrow> revokePendingInvitation (cc_tenantId c) k (members db)),
                   tasks := upsert_task (new_task newTask now m ADMIN_DELETE True (Some (cc_userId c))) (tasks db),
                   clog := admin_audit env c now ''MAILBOX_DELETION_REQUESTED'' i
                     (JObj [(''address'', JStr (mb_address m))]) (clog db)\<rparr>)))"

definition retryDeletion ::
  "'h mail_host \<Rightarrow> cleanup_env \<Rightarrow> cleanup_ctx \<Rightarrow> instant \<Rightarrow> uuid \<Rightarrow> 'h \<Rightarrow> cleanup_db \<Rightarrow> bool result \<times> cleanup_db" where
  "retryDeletion p env c now i h db =
     (case loadMailbox (cc_tenantId c) i db of
        Inl e \<Rightarrow> (Inl e, db)
      | Inr m \<Rightarrow>
          if \<not> mb_hosted m \<or> mb_deletionRequestedAt m = None then (fail_because 409 CONFLICT ''NOT_DELETING'', db)
          else if \<not> isEnabled p env h then (fail_with 503 MAILBOX_DELETE_DISABLED, db)
          else
            (let mine = (\<lambda>t. ct_mailboxId t = i \<and> ct_tenantId t = cc_tenantId c \<and> ct_status t = CT_FAILED)
             in case find_row mine (tasks db) of
               None \<Rightarrow> (fail_because 409 CONFLICT ''NOT_FAILED'', db)
             | Some t \<Rightarrow> (Inr True, db\<lparr>
                 tasks := update_where mine (\<lambda>x. x\<lparr>ct_status := CT_PENDING, ct_attempts := 0, ct_runAt := now,
                     ct_lockedAt := None, ct_lastErrorCode := None\<rparr>) (tasks db),
                 mailboxes := update_where (\<lambda>x. mb_id x = i \<and> mb_tenantId x = cc_tenantId c)
                     (\<lambda>x. x\<lparr>mb_deletionError := None\<rparr>) (mailboxes db),
                 clog := admin_audit env c now ''MAILBOX_DELETION_RETRIED'' i
                     (JObj [(''address'', JStr (mb_address m))]) (clog db)\<rparr>)))"

subsection \<open>The worker\<close>

datatype cleanup_exn = LeaseLost | Blocked refusal | From_host host_error | Unexpected

text \<open>A task is due when its time has come, or when the lease of the worker that has it ran out.\<close>

definition due :: "cleanup_env \<Rightarrow> instant \<Rightarrow> cleanup_task \<Rightarrow> bool" where
  "due env now t \<longleftrightarrow> (ct_status t = CT_PENDING \<and> ct_runAt t \<le> now)
     \<or> (ct_status t = CT_RUNNING \<and> (case ct_lockedAt t of Some l \<Rightarrow> l \<le> now - ce_leaseMs env | None \<Rightarrow> False))"

definition leased :: "instant \<Rightarrow> cleanup_task \<Rightarrow> cleanup_task" where
  "leased now t = t\<lparr>ct_status := CT_RUNNING, ct_lockedAt := Some now, ct_attempts := ct_attempts t + 1\<rparr>"

definition claim_task :: "cleanup_env \<Rightarrow> instant \<Rightarrow> cleanup_db \<Rightarrow> cleanup_task option \<times> cleanup_db" where
  "claim_task env now db =
     (case latest_by (\<lambda>t. - ct_runAt t) (filter (due env now) (tasks db)) of
        None \<Rightarrow> (None, db)
      | Some t \<Rightarrow> (Some (leased now t),
          db\<lparr>tasks := update_where (\<lambda>x. ct_id x = ct_id t) (leased now) (tasks db)\<rparr>))"

text \<open>The holder of the lease writes its task, anybody else does not.\<close>

definition held_by :: "cleanup_task \<Rightarrow> cleanup_task \<Rightarrow> bool" where
  "held_by t x \<longleftrightarrow> ct_id x = ct_id t \<and> ct_status x = CT_RUNNING \<and> ct_lockedAt x = ct_lockedAt t"

definition settle ::
  "cleanup_task \<Rightarrow> (cleanup_task \<Rightarrow> cleanup_task) \<Rightarrow> cleanup_db \<Rightarrow> (cleanup_exn + cleanup_task) \<times> cleanup_db" where
  "settle t f db =
     (case find_row (held_by t) (tasks db) of
        None \<Rightarrow> (Inl LeaseLost, db)
      | Some x \<Rightarrow> (Inr (f x), db\<lparr>tasks := update_where (held_by t) f (tasks db)\<rparr>))"

definition mustBeEmpty :: "cleanup_task \<Rightarrow> cleanup_db \<Rightarrow> bool" where
  "mustBeEmpty t db = (case find_row (\<lambda>x. ct_id x = ct_id t) (tasks db) of
      Some x \<Rightarrow> ct_requireEmpty x | None \<Rightarrow> ct_requireEmpty t)"

definition address_parts :: "string \<Rightarrow> string \<times> string" where
  "address_parts a = (let ps = split_on (CHR ''@'') (lowercase a)
     in (hd ps, if tl ps = [] then [] else hd (tl ps)))"

definition owned_account :: "cleanup_task \<Rightarrow> string option \<Rightarrow> hosted_account \<Rightarrow> bool" where
  "owned_account t hostDomain a \<longleftrightarrow> hostDomain = Some (ha_domainId a)
     \<and> lowercase (ha_name a) = fst (address_parts (ct_address t))
     \<and> (case ha_description a of Some d \<Rightarrow> sublist (ownershipMarker (ct_mailboxId t)) d | None \<Rightarrow> False)"

definition find_hosted ::
  "'h mail_host \<Rightarrow> 'h \<Rightarrow> cleanup_task \<Rightarrow> string option \<Rightarrow> host_error + hosted_account option" where
  "find_hosted p h t hostDomain =
     (if truthy (ct_providerAccountId t) then mh_getAccount p h (the (ct_providerAccountId t))
      else case hostDomain of
        Some d \<Rightarrow> mh_findAccount p h (fst (address_parts (ct_address t))) d
      | None \<Rightarrow> Inr None)"

definition removeAccount ::
  "'h mail_host \<Rightarrow> bool \<Rightarrow> cleanup_task \<Rightarrow> 'h \<Rightarrow> (cleanup_exn + delete_outcome) \<times> 'h" where
  "removeAccount p mustEmpty t h =
     (case mh_findDomain p h (snd (address_parts (ct_address t))) of
        Inl e \<Rightarrow> (Inl (From_host e), h)
      | Inr hostDomain \<Rightarrow>
          (case find_hosted p h t hostDomain of
             Inl e \<Rightarrow> (Inl (From_host e), h)
           | Inr None \<Rightarrow> (Inr ALREADY_ABSENT, h)
           | Inr (Some a) \<Rightarrow>
               if \<not> owned_account t hostDomain a then (Inl (Blocked OWNERSHIP_MISMATCH), h)
               else
                 (case (if mustEmpty then mh_countMessages p h (ha_id a) else Inr 0) of
                    Inl e \<Rightarrow> (Inl (From_host e), h)
                  | Inr n \<Rightarrow>
                      if 0 < n then (Inl (Blocked NON_EMPTY), h)
                      else
                        (case mh_deleteAccount p h (ha_id a) of
                           (Inl e, h') \<Rightarrow> (Inl (From_host e), h')
                         | (Inr r, h') \<Rightarrow> (Inr r, h')))))"

subsubsection \<open>Finishing, refusing and failing\<close>

text \<open>An erasure's event carries no address and no actor; a workspace that is gone gets none.\<close>

definition auditWork ::
  "cleanup_env \<Rightarrow> instant \<Rightarrow> cleanup_task \<Rightarrow> string \<Rightarrow> cleanup_db \<Rightarrow> audit_event list" where
  "auditWork env now t ty db =
     (if ct_tenantId t \<notin> set (tenantIds db) then clog db
      else let admin = (ct_reason t = ADMIN_DELETE)
        in log_event (ce_newId env) now (ct_tenantId t) (if admin then ct_requestedBy t else None)
             (Some (if admin then AT_ADMIN else AT_SYSTEM)) ty ''Mailbox'' (ct_mailboxId t)
             (Some (JObj ([(''taskId'', JStr (ct_id t))]
                @ (if admin then [(''address'', JStr (ct_address t))] else [])))) (clog db))"

definition finish_task ::
  "cleanup_env \<Rightarrow> instant \<Rightarrow> cleanup_task \<Rightarrow> cleanup_db \<Rightarrow> (cleanup_exn + unit) \<times> cleanup_db" where
  "finish_task env now t db =
     (case find_row (held_by t) (tasks db) of
        None \<Rightarrow> (Inl LeaseLost, db)
      | Some x \<Rightarrow>
          (let admin = (ct_reason t = ADMIN_DELETE);
               db1 = (if admin then db\<lparr>mailboxes := delete_where (\<lambda>m. mb_id m = ct_mailboxId t
                   \<and> mb_tenantId m = ct_tenantId t \<and> mb_deletionRequestedAt m \<noteq> None) (mailboxes db)\<rparr> else db);
               db2 = db1\<lparr>tasks := update_where (held_by t)
                   (\<lambda>x. x\<lparr>ct_status := CT_COMPLETED, ct_completedAt := Some now, ct_lockedAt := None,
                     ct_lastErrorCode := None,
                     ct_address := (if admin then ct_address x else redactedAddress env (ct_address t))\<rparr>) (tasks db)\<rparr>;
               db3 = (if admin then db2\<lparr>clog := auditWork env now t ''MAILBOX_DELETED'' db2\<rparr> else db2)
           in (Inr (), db3\<lparr>clog := auditWork env now t ''MAILBOX_PROVIDER_CLEANUP_COMPLETED'' db3\<rparr>)))"

definition block_task ::
  "cleanup_env \<Rightarrow> instant \<Rightarrow> cleanup_task \<Rightarrow> refusal \<Rightarrow> cleanup_db \<Rightarrow> cleanup_db" where
  "block_task env now t why db =
     (case find_row (held_by t) (tasks db) of
        None \<Rightarrow> db
      | Some x \<Rightarrow> db\<lparr>
          tasks := update_where (held_by t) (\<lambda>x. x\<lparr>ct_status := CT_BLOCKED, ct_outcome := Some (Refused why),
            ct_lastErrorCode := Some (Refused_with why), ct_lockedAt := None\<rparr>) (tasks db),
          mailboxes := update_where (\<lambda>m. mb_id m = ct_mailboxId t \<and> mb_tenantId m = ct_tenantId t)
            (\<lambda>m. m\<lparr>mb_deletionError := Some (Refused_with why),
               mb_deletionRequestedAt := (if why = NON_EMPTY then None else mb_deletionRequestedAt m)\<rparr>) (mailboxes db),
          clog := auditWork env now t ''MAILBOX_PROVIDER_CLEANUP_BLOCKED'' db\<rparr>)"

definition deadLetter ::
  "cleanup_env \<Rightarrow> instant \<Rightarrow> cleanup_task \<Rightarrow> task_error \<Rightarrow> cleanup_db \<Rightarrow> cleanup_db" where
  "deadLetter env now t why db =
     (case find_row (held_by t) (tasks db) of
        None \<Rightarrow> db
      | Some x \<Rightarrow> db\<lparr>
          tasks := update_where (held_by t)
            (\<lambda>x. x\<lparr>ct_status := CT_FAILED, ct_lastErrorCode := Some why, ct_lockedAt := None\<rparr>) (tasks db),
          mailboxes := update_where (\<lambda>m. mb_id m = ct_mailboxId t \<and> mb_tenantId m = ct_tenantId t)
            (\<lambda>m. m\<lparr>mb_deletionError := Some why\<rparr>) (mailboxes db),
          clog := auditWork env now t ''MAILBOX_PROVIDER_CLEANUP_FAILED'' db\<rparr>)"

text \<open>Doubling from half a minute up to an hour, and up to a fifth more at random (\<open>extra\<close>).\<close>

definition cleanup_backoff :: "nat \<Rightarrow> int" where
  "cleanup_backoff attempts = min (30000 * 2 ^ (attempts - 1)) hour_ms"

definition handleFailure ::
  "cleanup_env \<Rightarrow> instant \<Rightarrow> int \<Rightarrow> cleanup_task \<Rightarrow> cleanup_exn \<Rightarrow> cleanup_db \<Rightarrow> cleanup_db" where
  "handleFailure env now extra t e db =
     (let again = (\<lambda>why retryable.
        if \<not> retryable \<or> ct_maxAttempts t \<le> ct_attempts t then deadLetter env now t why db
        else snd (settle t (\<lambda>x. x\<lparr>ct_status := CT_PENDING, ct_lockedAt := None, ct_lastErrorCode := Some why,
               ct_runAt := now + cleanup_backoff (ct_attempts t) + extra\<rparr>) db))
      in case e of
           LeaseLost \<Rightarrow> db
         | Blocked why \<Rightarrow> block_task env now t why db
         | From_host (HostError c r) \<Rightarrow>
             if c = HE_NOT_CONFIGURED
             then snd (settle t (\<lambda>x. x\<lparr>ct_status := CT_PENDING, ct_attempts := ct_attempts t - 1,
               ct_runAt := now + 5 * minute_ms, ct_lockedAt := None, ct_lastErrorCode := Some (Host_failure c)\<rparr>) db)
             else again (Host_failure c) r
         | Unexpected \<Rightarrow> again INTERNAL True)"

subsubsection \<open>One task from its claim to its end\<close>

text \<open>
  The mail host, the database and whether the secret store refuses to delete (\<open>ce_deleteSecret\<close> of the call)
  are what a step needs. \<open>execute\<close> skips what an earlier holder of the task has recorded as done.
\<close>

definition deleteSecret :: "bool \<Rightarrow> cleanup_task \<Rightarrow> cleanup_db \<Rightarrow> (cleanup_exn + unit) \<times> cleanup_db" where
  "deleteSecret storeFails t db =
     (if storeFails then (Inl Unexpected, db)
      else (Inr (), db\<lparr>secrets := filter (\<lambda>r. r \<noteq> ct_credentialRef t) (secrets db)\<rparr>))"

definition gone :: "instant \<Rightarrow> delete_outcome \<Rightarrow> cleanup_task \<Rightarrow> cleanup_task" where
  "gone now r x = x\<lparr>ct_providerGoneAt := Some now, ct_outcome := Some (Removed r)\<rparr>"

definition unsecret :: "instant \<Rightarrow> cleanup_task \<Rightarrow> cleanup_task" where
  "unsecret now x = x\<lparr>ct_secretRemovedAt := Some now\<rparr>"

definition execute_account ::
  "'h mail_host \<Rightarrow> instant \<Rightarrow> cleanup_task \<Rightarrow> 'h \<Rightarrow> cleanup_db \<Rightarrow> (cleanup_exn + cleanup_task) \<times> 'h \<times> cleanup_db" where
  "execute_account p now t h db =
     (if ct_providerGoneAt t \<noteq> None then (Inr t, h, db)
      else (case removeAccount p (mustBeEmpty t db) t h of
          (Inl e, h1) \<Rightarrow> (Inl e, h1, db)
        | (Inr r, h1) \<Rightarrow> (case settle t (gone now r) db of (c, db1) \<Rightarrow> (c, h1, db1))))"

definition execute_secret ::
  "bool \<Rightarrow> instant \<Rightarrow> cleanup_task \<Rightarrow> cleanup_task \<Rightarrow> cleanup_db \<Rightarrow> (cleanup_exn + cleanup_task) \<times> cleanup_db" where
  "execute_secret storeFails now t current db =
     (if ct_secretRemovedAt current \<noteq> None then (Inr current, db)
      else (case deleteSecret storeFails t db of
          (Inl e, db1) \<Rightarrow> (Inl e, db1)
        | (Inr u, db1) \<Rightarrow> settle t (unsecret now) db1))"

definition execute ::
  "'h mail_host \<Rightarrow> cleanup_env \<Rightarrow> bool \<Rightarrow> instant \<Rightarrow> cleanup_task \<Rightarrow> 'h \<Rightarrow> cleanup_db
     \<Rightarrow> (cleanup_exn + unit) \<times> 'h \<times> cleanup_db" where
  "execute p env storeFails now t h db =
     (case execute_account p now t h db of
        (Inl e, h1, db1) \<Rightarrow> (Inl e, h1, db1)
      | (Inr c1, h1, db1) \<Rightarrow>
          (case execute_secret storeFails now t c1 db1 of
             (Inl e, db2) \<Rightarrow> (Inl e, h1, db2)
           | (Inr c2, db2) \<Rightarrow> (case finish_task env now c2 db2 of (r, db3) \<Rightarrow> (r, h1, db3))))"

definition processTask ::
  "'h mail_host \<Rightarrow> cleanup_env \<Rightarrow> bool \<Rightarrow> int \<Rightarrow> instant \<Rightarrow> cleanup_task \<Rightarrow> 'h \<Rightarrow> cleanup_db \<Rightarrow> 'h \<times> cleanup_db" where
  "processTask p env storeFails extra now t h db =
     (if ct_maxAttempts t < ct_attempts t then (h, deadLetter env now t LEASE_EXHAUSTED db)
      else (case execute p env storeFails now t h db of
          (Inl e, h1, db1) \<Rightarrow> (h1, handleFailure env now extra t e db1)
        | (Inr u, h1, db1) \<Rightarrow> (h1, db1)))"

definition processNext ::
  "'h mail_host \<Rightarrow> cleanup_env \<Rightarrow> bool \<Rightarrow> int \<Rightarrow> instant \<Rightarrow> 'h \<Rightarrow> cleanup_db \<Rightarrow> bool \<times> 'h \<times> cleanup_db" where
  "processNext p env storeFails extra now h db =
     (if \<not> isEnabled p env h then (False, h, db)
      else (case claim_task env now db of
          (None, db1) \<Rightarrow> (False, h, db1)
        | (Some t, db1) \<Rightarrow> (True, processTask p env storeFails extra now t h db1)))"

fun processDue ::
  "nat \<Rightarrow> 'h mail_host \<Rightarrow> cleanup_env \<Rightarrow> bool \<Rightarrow> int \<Rightarrow> instant \<Rightarrow> 'h \<Rightarrow> cleanup_db \<Rightarrow> nat \<times> 'h \<times> cleanup_db" where
  "processDue 0 p env storeFails extra now h db = (0, h, db)"
| "processDue (Suc limit) p env storeFails extra now h db =
     (case processNext p env storeFails extra now h db of
        (False, h1, db1) \<Rightarrow> (0, h1, db1)
      | (True, h1, db1) \<Rightarrow>
          (case processDue limit p env storeFails extra now h1 db1 of (n, h2, db2) \<Rightarrow> (Suc n, h2, db2)))"

definition purgeCompleted :: "cleanup_env \<Rightarrow> instant \<Rightarrow> cleanup_db \<Rightarrow> nat \<times> cleanup_db" where
  "purgeCompleted env now db =
     (let old = (\<lambda>t. ct_status t = CT_COMPLETED \<and> (case ct_completedAt t of
          Some c \<Rightarrow> c < now - ce_retentionDays env * day_ms | None \<Rightarrow> False))
      in (count_where old (tasks db), db\<lparr>tasks := delete_where old (tasks db)\<rparr>))"

subsection \<open>The host's contract\<close>

text \<open>
  What the worker relies on (\<open>stalwart.types.ts\<close>): an account read is one the host has, under the identifier
  asked for; a count is never a guess; destroying an account destroys no other.
\<close>

locale mail_hosting =
  fixes p :: "'h mail_host"
    and accounts :: "'h \<Rightarrow> hosted_account set"
    and mail :: "'h \<Rightarrow> string \<Rightarrow> nat"
  assumes account_ids: "a \<in> accounts h \<Longrightarrow> b \<in> accounts h \<Longrightarrow> ha_id a = ha_id b \<Longrightarrow> a = b"
    and get_reads: "mh_getAccount p h i = Inr (Some a) \<Longrightarrow> a \<in> accounts h"
    and find_reads: "mh_findAccount p h n d = Inr (Some a) \<Longrightarrow> a \<in> accounts h"
    and count_reads: "mh_countMessages p h i = Inr k \<Longrightarrow> k = mail h i"
    and delete_only: "a \<in> accounts h \<Longrightarrow> ha_id a \<noteq> i \<Longrightarrow> a \<in> accounts (snd (mh_deleteAccount p h i))"
begin

lemma found_reads: "find_hosted p h t d = Inr (Some a) \<Longrightarrow> a \<in> accounts h"
  by (auto simp: find_hosted_def intro: get_reads find_reads split: if_splits option.splits)

text \<open>An account that is gone after the worker's visit was the mailbox's own, and empty if it had to be.\<close>

lemma removed_account:
  assumes "a \<in> accounts h" "a \<notin> accounts (snd (removeAccount p mustEmpty t h))"
  shows "(\<exists>d. owned_account t d a) \<and> (mustEmpty \<longrightarrow> mail h (ha_id a) = 0)"
proof -
  obtain d b where b: "find_hosted p h t d = Inr (Some b)" "owned_account t d b"
      "a \<notin> accounts (snd (mh_deleteAccount p h (ha_id b)))"
      "mustEmpty \<Longrightarrow> mh_countMessages p h (ha_id b) = Inr 0"
    using assms
    by (auto simp: removeAccount_def split: sum.splits option.splits if_splits prod.splits)
  from delete_only [OF assms(1)] b(3) have "ha_id a = ha_id b" by blast
  with account_ids [OF assms(1) found_reads [OF b(1)]] have "a = b" by simp
  with b count_reads show ?thesis by (metis (no_types))
qed

end

subsection \<open>Workers side by side\<close>

text \<open>
  One worker's work on a task, cut where other workers and requests can come between: \<open>h_task\<close> is the row as
  it was claimed, \<open>h_current\<close> as it was last written. A worker that dies stops advancing.
\<close>

datatype phase =
  Ph_start | Ph_removed delete_outcome | Ph_secret | Ph_unsecreted | Ph_finish | Ph_failed cleanup_exn

record holder =
  h_task :: cleanup_task
  h_current :: cleanup_task
  h_phase :: phase

definition fresh_holder :: "cleanup_task \<Rightarrow> holder" where
  "fresh_holder t = \<lparr>h_task = t, h_current = t, h_phase = Ph_start\<rparr>"

definition settled :: "holder \<Rightarrow> phase \<Rightarrow> (cleanup_exn + cleanup_task) \<Rightarrow> holder" where
  "settled w next r = (case r of Inl e \<Rightarrow> w\<lparr>h_phase := Ph_failed e\<rparr> | Inr c \<Rightarrow> w\<lparr>h_current := c, h_phase := next\<rparr>)"

definition advance ::
  "'h mail_host \<Rightarrow> cleanup_env \<Rightarrow> bool \<Rightarrow> int \<Rightarrow> instant \<Rightarrow> holder \<Rightarrow> 'h \<Rightarrow> cleanup_db
     \<Rightarrow> holder option \<times> 'h \<times> cleanup_db" where
  "advance p env storeFails extra now w h db =
     (let t = h_task w; c = h_current w
      in case h_phase w of
        Ph_start \<Rightarrow>
          if ct_maxAttempts t < ct_attempts t then (None, h, deadLetter env now t LEASE_EXHAUSTED db)
          else if ct_providerGoneAt t \<noteq> None then (Some (w\<lparr>h_phase := Ph_secret\<rparr>), h, db)
          else (case removeAccount p (mustBeEmpty t db) t h of
              (Inl e, h1) \<Rightarrow> (Some (w\<lparr>h_phase := Ph_failed e\<rparr>), h1, db)
            | (Inr r, h1) \<Rightarrow> (Some (w\<lparr>h_phase := Ph_removed r\<rparr>), h1, db))
      | Ph_removed r \<Rightarrow> (case settle t (gone now r) db of (x, db1) \<Rightarrow> (Some (settled w Ph_secret x), h, db1))
      | Ph_secret \<Rightarrow>
          if ct_secretRemovedAt c \<noteq> None then (Some (w\<lparr>h_phase := Ph_finish\<rparr>), h, db)
          else (case deleteSecret storeFails t db of
              (Inl e, db1) \<Rightarrow> (Some (w\<lparr>h_phase := Ph_failed e\<rparr>), h, db1)
            | (Inr u, db1) \<Rightarrow> (Some (w\<lparr>h_phase := Ph_unsecreted\<rparr>), h, db1))
      | Ph_unsecreted \<Rightarrow> (case settle t (unsecret now) db of (x, db1) \<Rightarrow> (Some (settled w Ph_finish x), h, db1))
      | Ph_finish \<Rightarrow> (case finish_task env now c db of
            (Inl e, db1) \<Rightarrow> (Some (w\<lparr>h_phase := Ph_failed e\<rparr>), h, db1)
          | (Inr u, db1) \<Rightarrow> (None, h, db1))
      | Ph_failed e \<Rightarrow> (None, h, handleFailure env now extra t e db))"

text \<open>Undisturbed, the pieces are the service's \<open>processTask\<close>.\<close>

fun advances ::
  "nat \<Rightarrow> 'h mail_host \<Rightarrow> cleanup_env \<Rightarrow> bool \<Rightarrow> int \<Rightarrow> instant \<Rightarrow> holder option \<times> 'h \<times> cleanup_db
     \<Rightarrow> holder option \<times> 'h \<times> cleanup_db" where
  "advances 0 p env sf x now s = s"
| "advances (Suc n) p env sf x now (None, h, db) = (None, h, db)"
| "advances (Suc n) p env sf x now (Some w, h, db) = advances n p env sf x now (advance p env sf x now w h db)"

lemma advances_None [simp]: "advances n p env sf x now (None, h, db) = (None, h, db)"
  by (cases n) simp_all

lemma advances_from_finish:
  "advances (Suc (Suc n)) p env sf x now (Some \<lparr>h_task = t, h_current = c, h_phase = Ph_finish\<rparr>, h, db)
   = (None, h, (case finish_task env now c db of (Inl e, db1) \<Rightarrow> handleFailure env now x t e db1 | (Inr u, db1) \<Rightarrow> db1))"
  by (simp add: advance_def split: prod.split sum.split)

lemma advances_from_failed:
  "advances (Suc n) p env sf x now (Some \<lparr>h_task = t, h_current = c, h_phase = Ph_failed e\<rparr>, h, db)
   = (None, h, handleFailure env now x t e db)"
  by (simp add: advance_def)

lemma advances_from_secret:
  "advances (Suc (Suc (Suc (Suc n)))) p env sf x now (Some \<lparr>h_task = t, h_current = c, h_phase = Ph_secret\<rparr>, h, db)
   = (None, h, (case execute_secret sf now t c db of
        (Inl e, db2) \<Rightarrow> handleFailure env now x t e db2
      | (Inr c2, db2) \<Rightarrow> (case finish_task env now c2 db2 of
          (Inl e, db3) \<Rightarrow> handleFailure env now x t e db3 | (Inr u, db3) \<Rightarrow> db3)))"
proof (cases "ct_secretRemovedAt c")
  case None
  then show ?thesis
    by (simp add: advance_def execute_secret_def deleteSecret_def settled_def split: prod.split sum.split)
next
  case (Some i)
  then show ?thesis
    by (simp add: advance_def execute_secret_def split: prod.split sum.split)
qed

lemma advances_processTask:
  "advances 6 p env sf x now (Some (fresh_holder t), h, db)
     = (None, processTask p env sf x now t h db)"
proof -
  have six: "(6::nat) = Suc (Suc (Suc (Suc (Suc (Suc 0)))))" by simp
  show ?thesis
  proof (cases "ct_maxAttempts t < ct_attempts t \<or> ct_providerGoneAt t \<noteq> None")
    case True
    then show ?thesis
      unfolding six fresh_holder_def
      by (subst advances.simps(3))
        (auto simp: advance_def processTask_def execute_def execute_account_def advances_from_secret
           simp del: advances.simps(3) split: prod.split sum.split)
  next
    case False
    then show ?thesis
      unfolding six fresh_holder_def
      by (subst advances.simps(3))
        (auto simp: advance_def [of _ _ _ _ _ "\<lparr>h_task = t, h_current = t, h_phase = Ph_start\<rparr>"]
          advance_def [of _ _ _ _ _ "\<lparr>h_task = t, h_current = t, h_phase = Ph_removed r\<rparr>" for r]
          processTask_def execute_def execute_account_def advances_from_secret [unfolded advances.simps(3)]
          advances_from_failed [unfolded advances.simps(3)] settled_def split: prod.split sum.split)
  qed
qed

subsection \<open>Erasures and the machine\<close>

text \<open>
  What the erasure of a member and of a workspace do to these tables (\<open>lifecycle.service.ts\<close>,
  \<open>job.service.ts\<close>): the tasks first, then the rows and all that goes with them.
\<close>

definition erase_member_mailboxes ::
  "(uuid \<Rightarrow> uuid) \<Rightarrow> instant \<Rightarrow> uuid \<Rightarrow> uuid \<Rightarrow> uuid option \<Rightarrow> cleanup_db \<Rightarrow> cleanup_db" where
  "erase_member_mailboxes newTask now tenantId membershipId by db =
     (let mine = (\<lambda>m. mb_tenantId m = tenantId \<and> mb_membershipId m = Some membershipId)
      in db\<lparr>tasks := snd (enqueueForErasure newTask now (filter mine (mailboxes db)) USER_ERASURE by (tasks db)),
           members := delete_where (\<lambda>m. tm_id m = membershipId) (members db),
           copies := filter (\<lambda>i. i \<notin> mb_id ` set (filter (\<lambda>m. mb_membershipId m = Some membershipId) (mailboxes db)))
             (copies db),
           mailboxes := delete_where (\<lambda>m. mb_membershipId m = Some membershipId) (mailboxes db)\<rparr>)"

definition erase_tenant_mailboxes ::
  "(uuid \<Rightarrow> uuid) \<Rightarrow> instant \<Rightarrow> uuid \<Rightarrow> uuid option \<Rightarrow> cleanup_db \<Rightarrow> nat \<times> cleanup_db" where
  "erase_tenant_mailboxes newTask now tenantId by db =
     (let r = enqueueForErasure newTask now
            (filter (\<lambda>m. mb_tenantId m = tenantId \<and> mb_hosted m) (mailboxes db)) TENANT_ERASURE by (tasks db)
      in (fst r, db\<lparr>tasks := snd r,
           members := delete_where (\<lambda>m. tm_tenantId m = tenantId) (members db),
           copies := filter (\<lambda>i. i \<notin> mb_id ` set (filter (\<lambda>m. mb_tenantId m = tenantId) (mailboxes db))) (copies db),
           mailboxes := delete_where (\<lambda>m. mb_tenantId m = tenantId) (mailboxes db),
           tenantIds := filter (\<lambda>t. t \<noteq> tenantId) (tenantIds db),
           clog := delete_where (\<lambda>e. ev_tenantId e = tenantId) (clog db)\<rparr>))"

datatype cleanup_op =
    CO_request cleanup_ctx uuid uuid
  | CO_retry cleanup_ctx uuid
  | CO_erase_member "uuid \<Rightarrow> uuid" uuid uuid "uuid option"
  | CO_erase_tenant "uuid \<Rightarrow> uuid" uuid "uuid option"
  | CO_claim
  | CO_advance nat bool int
  | CO_purge

record 'h cleanup_world =
  cw_host :: 'h
  cw_db :: cleanup_db
  cw_holders :: "holder option list"

text \<open>A request whose new primary keys are taken does not happen.\<close>

definition new_ids :: "(uuid \<Rightarrow> uuid) \<Rightarrow> cleanup_db \<Rightarrow> bool" where
  "new_ids newTask db \<longleftrightarrow> (\<forall>m\<in>set (mailboxes db). newTask (mb_id m) \<notin> ct_id ` set (tasks db))"

fun cleanup_step ::
  "'h mail_host \<Rightarrow> cleanup_env \<Rightarrow> 'h cleanup_world \<Rightarrow> instant \<times> cleanup_op \<Rightarrow> 'h cleanup_world" where
  "cleanup_step p env s (now, CO_request c newTask i) =
     (if newTask \<in> ct_id ` set (tasks (cw_db s)) then s
      else s\<lparr>cw_db := snd (requestDeletion p env c newTask now i (cw_host s) (cw_db s))\<rparr>)"
| "cleanup_step p env s (now, CO_retry c i) =
     s\<lparr>cw_db := snd (retryDeletion p env c now i (cw_host s) (cw_db s))\<rparr>"
| "cleanup_step p env s (now, CO_erase_member newTask t k by) =
     (if new_ids newTask (cw_db s) then s\<lparr>cw_db := erase_member_mailboxes newTask now t k by (cw_db s)\<rparr> else s)"
| "cleanup_step p env s (now, CO_erase_tenant newTask t by) =
     (if new_ids newTask (cw_db s) then s\<lparr>cw_db := snd (erase_tenant_mailboxes newTask now t by (cw_db s))\<rparr> else s)"
| "cleanup_step p env s (now, CO_claim) =
     (if \<not> isEnabled p env (cw_host s) then s
      else case claim_task env now (cw_db s) of
        (None, db) \<Rightarrow> s
      | (Some t, db) \<Rightarrow> s\<lparr>cw_db := db, cw_holders := cw_holders s @ [Some (fresh_holder t)]\<rparr>)"
| "cleanup_step p env s (now, CO_advance n storeFails extra) =
     (if n < length (cw_holders s)
      then (case cw_holders s ! n of
          None \<Rightarrow> s
        | Some w \<Rightarrow> (case advance p env storeFails extra now w (cw_host s) (cw_db s) of
            (w', h, db) \<Rightarrow> \<lparr>cw_host = h, cw_db = db, cw_holders = (cw_holders s)[n := w']\<rparr>))
      else s)"
| "cleanup_step p env s (now, CO_purge) = s\<lparr>cw_db := snd (purgeCompleted env now (cw_db s))\<rparr>"

end
