(* ===== verification/Cleanup_Safety.thy ===== *)
theory Cleanup_Safety
  imports Mailbox_Cleanup
begin

section \<open>What the removal of hosted mailboxes guarantees\<close>

text \<open>
  Over the machine of \<open>Mailbox_Cleanup\<close>, any number of workers with requests, retries and erasures between
  their steps: which accounts of the host a run can destroy, and the refused task of an erased mailbox that
  nothing takes up again. The host's contract is interpreted on a host with a state of its own.
\<close>

subsection \<open>Whose accounts a task can reach\<close>

text \<open>The mailboxes the tasks of a state are about.\<close>

definition task_mailboxes :: "cleanup_db \<Rightarrow> uuid set" where
  "task_mailboxes db = ct_mailboxId ` set (tasks db)"

definition known_mailboxes :: "cleanup_db \<Rightarrow> uuid set" where
  "known_mailboxes db = task_mailboxes db \<union> mb_id ` set (mailboxes db)"

lemma update_where_keys:
  assumes "\<And>x. x \<in> set rows \<Longrightarrow> P x \<Longrightarrow> key (f x) = key x"
  shows "key ` set (update_where P f rows) = key ` set rows"
  using assms by (induction rows) (simp_all add: table_simps)

lemma settle_mailboxes:
  assumes "\<And>x. ct_mailboxId (f x) = ct_mailboxId x"
  shows "known_mailboxes (snd (settle t f db)) = known_mailboxes db"
  by (simp add: settle_def known_mailboxes_def task_mailboxes_def update_where_keys assms split: option.split)

lemma add_task_mailboxes:
  "ct_mailboxId ` set (foldl (\<lambda>r m. add_task (new_task (newTask (mb_id m)) now m why e by) r) rows ms)
     \<subseteq> ct_mailboxId ` set rows \<union> mb_id ` set ms"
proof (induction ms arbitrary: rows)
  case (Cons m ms)
  have "ct_mailboxId ` set (add_task (new_task (newTask (mb_id m)) now m why e by) rows)
      \<subseteq> ct_mailboxId ` set rows \<union> {mb_id m}" by (auto simp: add_task_def new_task_def)
  with Cons.IH [of "add_task (new_task (newTask (mb_id m)) now m why e by) rows"] show ?case
    by (simp only: foldl_Cons) (auto simp: subset_iff)
qed simp

lemma enqueue_mailboxes:
  "ct_mailboxId ` set (snd (enqueueForErasure newTask now ms why by rows))
     \<subseteq> ct_mailboxId ` set rows \<union> mb_id ` set ms"
proof (cases "filter mb_hosted ms = []")
  case False
  have "ct_mailboxId ` set (snd (enqueueForErasure newTask now ms why by rows)) =
      ct_mailboxId ` set (foldl (\<lambda>r m. add_task (new_task (newTask (mb_id m)) now m why False by) r) rows
        (filter mb_hosted ms))"
    unfolding enqueueForErasure_def Let_def if_not_P [OF False] snd_conv
    by (subst update_where_keys, simp, subst update_where_keys) (simp_all add: restarted_def)
  with add_task_mailboxes [of newTask now why False "by" rows "filter mb_hosted ms"] show ?thesis by auto
qed (simp add: enqueueForErasure_def)

lemma claim_task_cases:
  "claim_task env now db = (None, db) \<or> (\<exists>t\<in>set (tasks db). due env now t \<and>
     claim_task env now db = (Some (leased now t),
       db\<lparr>tasks := update_where (\<lambda>x. ct_id x = ct_id t) (leased now) (tasks db)\<rparr>))"
proof (cases "latest_by (\<lambda>t. - ct_runAt t) (filter (due env now) (tasks db))")
  case None
  then show ?thesis by (simp add: claim_task_def)
next
  case (Some t)
  from latest_by_mem [OF this] Some show ?thesis by (auto simp: claim_task_def)
qed

lemma handleFailure_mailboxes: "known_mailboxes (handleFailure env now x t e db) = known_mailboxes db"
  by (cases e)
    (auto simp: handleFailure_def Let_def block_task_def deadLetter_def settle_mailboxes known_mailboxes_def
      task_mailboxes_def update_where_keys settle_def split: host_error.split option.split)

lemma finish_mailboxes: "known_mailboxes (snd (finish_task env now t db)) \<subseteq> known_mailboxes db"
  by (auto simp: finish_task_def Let_def known_mailboxes_def task_mailboxes_def update_where_keys table_simps
      split: option.split)

lemma advance_mailboxes:
  "known_mailboxes (snd (snd (advance p env sf x now w h db))) \<subseteq> known_mailboxes db"
proof (cases "h_phase w")
  case (Ph_removed r)
  then show ?thesis
    using settle_mailboxes [of "gone now r" "h_task w" db]
    by (simp add: advance_def Let_def gone_def case_prod_beta)
next
  case Ph_unsecreted
  then show ?thesis
    using settle_mailboxes [of "unsecret now" "h_task w" db]
    by (simp add: advance_def Let_def unsecret_def case_prod_beta)
next
  case Ph_finish
  then show ?thesis
    using finish_mailboxes [of env now "h_current w" db]
    by (auto simp: advance_def Let_def case_prod_beta split: sum.split)
next
  case Ph_secret
  then show ?thesis
    by (auto simp: advance_def Let_def deleteSecret_def known_mailboxes_def task_mailboxes_def)
next
  case Ph_start
  then show ?thesis
    by (auto simp: advance_def Let_def deadLetter_def known_mailboxes_def task_mailboxes_def update_where_keys case_prod_beta
        split: option.split sum.split)
next
  case (Ph_failed e)
  then show ?thesis by (simp add: advance_def Let_def handleFailure_mailboxes)
qed

lemma advance_task:
  "fst (advance p env sf x now w h db) = Some w' \<Longrightarrow> h_task w' = h_task w"
  by (cases "h_phase w")
    (auto simp: advance_def Let_def case_prod_beta settled_def split: if_splits sum.splits)

text \<open>The host changes only at the start of a task, by \<open>removeAccount\<close> for the mailbox of the task.\<close>

lemma advance_host:
  "fst (snd (advance p env sf x now w h db)) = h
     \<or> fst (snd (advance p env sf x now w h db)) = snd (removeAccount p (mustBeEmpty (h_task w) db) (h_task w) h)"
  by (cases "h_phase w")
    (auto simp: advance_def Let_def case_prod_beta split: sum.splits)

lemma request_mailboxes:
  "known_mailboxes (snd (requestDeletion p env c newTask now i h db)) = known_mailboxes db"
proof (cases "loadMailbox (cc_tenantId c) i db")
  case (Inr m)
  then have m: "m \<in> set (mailboxes db)" "mb_id m = i"
    by (auto simp: loadMailbox_def dest: find_row_SomeD split: option.splits)
  have u: "ct_mailboxId ` set (upsert_task (new_task newTask now m ADMIN_DELETE True who) rows) =
      insert i (ct_mailboxId ` set rows)" for who rows
    using m(2) by (auto simp: upsert_task_def update_where_keys new_task_def)
  from m have "i \<in> mb_id ` set (mailboxes db)" by auto
  then show ?thesis
    using Inr by (auto simp: requestDeletion_def known_mailboxes_def task_mailboxes_def u update_where_keys
        split: sum.split)
qed (simp add: requestDeletion_def)

lemma retry_mailboxes: "known_mailboxes (snd (retryDeletion p env c now i h db)) = known_mailboxes db"
  by (auto simp: retryDeletion_def Let_def known_mailboxes_def task_mailboxes_def update_where_keys
      split: sum.split option.split)

lemma erase_member_known:
  "known_mailboxes (erase_member_mailboxes newTask now t k who db) \<subseteq> known_mailboxes db"
  using enqueue_mailboxes [of newTask now "filter (\<lambda>m. mb_tenantId m = t \<and> mb_membershipId m = Some k) (mailboxes db)"
      USER_ERASURE who "tasks db"]
  by (auto simp: erase_member_mailboxes_def Let_def known_mailboxes_def task_mailboxes_def table_simps)

lemma erase_tenant_known:
  "known_mailboxes (snd (erase_tenant_mailboxes newTask now t who db)) \<subseteq> known_mailboxes db"
  using enqueue_mailboxes [of newTask now "filter (\<lambda>m. mb_tenantId m = t \<and> mb_hosted m) (mailboxes db)"
      TENANT_ERASURE who "tasks db"]
  by (auto simp: erase_tenant_mailboxes_def Let_def known_mailboxes_def task_mailboxes_def table_simps)

definition world_mailboxes :: "'h cleanup_world \<Rightarrow> uuid set" where
  "world_mailboxes s = known_mailboxes (cw_db s)
     \<union> (\<lambda>w. ct_mailboxId (h_task w)) ` {w. Some w \<in> set (cw_holders s)}"

lemma claimed_mailboxes:
  assumes "claim_task env now db = (Some t, db')"
  shows "known_mailboxes db' = known_mailboxes db \<and> ct_mailboxId t \<in> known_mailboxes db"
proof -
  have k: "ct_mailboxId (leased now x) = ct_mailboxId x" for x by (simp add: leased_def)
  from claim_task_cases [of env now db] assms obtain x where
    "x \<in> set (tasks db)" "t = leased now x"
    "db' = db\<lparr>tasks := update_where (\<lambda>y. ct_id y = ct_id x) (leased now) (tasks db)\<rparr>" by auto
  then show ?thesis by (simp add: known_mailboxes_def task_mailboxes_def update_where_keys k)
qed

lemma set_list_update_Some: "Some w \<in> set (xs[n := y]) \<Longrightarrow> Some w = y \<or> Some w \<in> set xs"
  using set_update_subset_insert [of xs n y] by auto

lemma step_mailboxes: "world_mailboxes (cleanup_step p env s x) \<subseteq> world_mailboxes s"
proof (cases "(p, env, s, x)" rule: cleanup_step.cases)
  case (1 p' env' s' now c newTask i)
  then show ?thesis by (simp add: world_mailboxes_def request_mailboxes)
next
  case (2 p' env' s' now c i)
  then show ?thesis by (simp add: world_mailboxes_def retry_mailboxes)
next
  case (3 p' env' s' now newTask t k who)
  then show ?thesis using erase_member_known [of newTask now t k who "cw_db s"] by (auto simp: world_mailboxes_def)
next
  case (4 p' env' s' now newTask t who)
  then show ?thesis using erase_tenant_known [of newTask now t who "cw_db s"] by (auto simp: world_mailboxes_def)
next
  case (5 p' env' s' now)
  then show ?thesis
    by (auto simp: world_mailboxes_def fresh_holder_def dest: claimed_mailboxes split: prod.split option.split)
next
  case (6 p' env' s' now n sf e)
  show ?thesis
  proof (cases "n < length (cw_holders s) \<and> cw_holders s ! n \<noteq> None")
    case False
    with 6 show ?thesis by auto
  next
    case True
    then obtain w where w: "n < length (cw_holders s)" "cw_holders s ! n = Some w" by auto
    then have m: "Some w \<in> set (cw_holders s)" by (metis nth_mem)
    let ?r = "advance p env sf e now w (cw_host s) (cw_db s)"
    have "cleanup_step p env s x = \<lparr>cw_host = fst (snd ?r), cw_db = snd (snd ?r), cw_holders = (cw_holders s)[n := fst ?r]\<rparr>"
      using 6 w by (simp add: case_prod_beta)
    with advance_mailboxes [of p env sf e now w "cw_host s" "cw_db s"]
      advance_task [of p env sf e now w "cw_host s" "cw_db s"] m
    show ?thesis by (fastforce simp: world_mailboxes_def dest!: set_list_update_Some)
  qed
next
  case (7 p' env' s' now)
  then show ?thesis
    by (auto simp: world_mailboxes_def purgeCompleted_def known_mailboxes_def task_mailboxes_def table_simps Let_def)
qed

text \<open>The step at which a worker is about to destroy \<open>a\<close>, the checks made.\<close>

definition proves_owner ::
  "('h \<Rightarrow> string \<Rightarrow> nat) \<Rightarrow> hosted_account \<Rightarrow> 'h cleanup_world \<Rightarrow> instant \<times> cleanup_op \<Rightarrow> bool" where
  "proves_owner mail a s x = (case x of
      (now, CO_advance n sf e) \<Rightarrow> n < length (cw_holders s) \<and> (case cw_holders s ! n of
          Some w \<Rightarrow> (\<exists>d. owned_account (h_task w) d a) \<and> ct_mailboxId (h_task w) \<in> world_mailboxes s
            \<and> (mustBeEmpty (h_task w) (cw_db s) \<longrightarrow> mail (cw_host s) (ha_id a) = 0)
        | None \<Rightarrow> False)
    | _ \<Rightarrow> False)"

context mail_hosting
begin

lemma destroying_step:
  assumes "a \<in> accounts (cw_host s)" "a \<notin> accounts (cw_host (cleanup_step p env s x))"
  shows "proves_owner mail a s x"
proof (cases "\<exists>now n sf e w. x = (now, CO_advance n sf e) \<and> n < length (cw_holders s) \<and> cw_holders s ! n = Some w")
  case True
  then obtain now n sf e w where x: "x = (now, CO_advance n sf e)"
    and w: "n < length (cw_holders s)" "cw_holders s ! n = Some w" by blast
  then have m: "Some w \<in> set (cw_holders s)" by (metis nth_mem)
  let ?r = "advance p env sf e now w (cw_host s) (cw_db s)"
  have "cw_host (cleanup_step p env s x) = fst (snd ?r)" using w by (simp add: x case_prod_beta)
  with advance_host [of p env sf e now w "cw_host s" "cw_db s"] assms
  have "a \<notin> accounts (snd (removeAccount p (mustBeEmpty (h_task w) (cw_db s)) (h_task w) (cw_host s)))" by auto
  from removed_account [OF assms(1) this] w m show ?thesis
    by (auto simp: x proves_owner_def world_mailboxes_def)
next
  case False
  then have "cw_host (cleanup_step p env s x) = cw_host s"
    by (cases "(p, env, s, x)" rule: cleanup_step.cases) (auto split: prod.split option.split)
  with assms show ?thesis by simp
qed

lemma destroyed_account:
  assumes "a \<in> accounts (cw_host s)" "a \<notin> accounts (cw_host (foldl (cleanup_step p env) s xs))"
  shows "\<exists>ys x zs. xs = ys @ x # zs \<and> proves_owner mail a (foldl (cleanup_step p env) s ys) x"
proof -
  have "evidence (cleanup_step p env) (\<lambda>s. True) (\<lambda>a. proves_owner mail a) (\<lambda>a s. a \<notin> accounts (cw_host s))"
    using destroying_step by unfold_locales auto
  from evidence.earned [OF this, where s = s and k = a and xs = xs] assms show ?thesis by simp
qed

end

subsection \<open>A refused task of an erased mailbox\<close>

text \<open>
  \<open>y\<close> is refused, no longer asks for an empty account, and its mailbox is gone. Nothing takes it up again:
  a claim wants PENDING or RUNNING, a retry FAILED and the mailbox, an erasure a task that asks for emptiness.
\<close>

definition only_row :: "cleanup_task \<Rightarrow> cleanup_task list \<Rightarrow> bool" where
  "only_row y rows \<longleftrightarrow> y \<in> set rows \<and> (\<forall>t\<in>set rows. ct_id t = ct_id y \<longrightarrow> t = y)"

definition stuck :: "cleanup_task \<Rightarrow> cleanup_db \<Rightarrow> bool" where
  "stuck y db \<longleftrightarrow> only_row y (tasks db)
     \<and> ct_status y = CT_BLOCKED \<and> \<not> ct_requireEmpty y \<and> ct_mailboxId y \<notin> mb_id ` set (mailboxes db)"

lemma only_row_update:
  assumes "only_row y rows" "\<not> P y" "\<And>t. ct_id (f t) = ct_id t"
  shows "only_row y (update_where P f rows)"
proof -
  have "y \<in> set (update_where P f rows)" using assms(1,2) by (simp add: only_row_def table_simps)
  moreover have "t = y" if t: "t \<in> set (update_where P f rows)" and e: "ct_id t = ct_id y" for t
  proof -
    from t obtain u where u: "u \<in> set rows" "t = (if P u then f u else u)" by (auto simp: table_simps)
    with e assms(3) have "ct_id u = ct_id y" by (simp split: if_splits)
    with assms(1) u(1) have "u = y" by (simp add: only_row_def)
    with u(2) assms(2) show ?thesis by simp
  qed
  ultimately show ?thesis by (simp add: only_row_def)
qed

lemma only_row_delete: "only_row y rows \<Longrightarrow> \<not> P y \<Longrightarrow> only_row y (delete_where P rows)"
  by (simp add: only_row_def table_simps)

lemma add_tasks_append:
  "\<exists>new. foldl (\<lambda>r m. add_task (new_task (newTask (mb_id m)) now m why e who) r) rows ms = rows @ new
     \<and> (\<forall>z\<in>set new. ct_id z \<in> newTask ` mb_id ` set ms)"
proof (induction ms arbitrary: rows)
  case (Cons m ms)
  let ?r = "add_task (new_task (newTask (mb_id m)) now m why e who) rows"
  obtain new where new: "foldl (\<lambda>r m. add_task (new_task (newTask (mb_id m)) now m why e who) r) ?r ms = ?r @ new"
    "\<forall>z\<in>set new. ct_id z \<in> newTask ` mb_id ` set ms" using Cons.IH [of ?r] by blast
  have "?r = rows \<or> ?r = rows @ [new_task (newTask (mb_id m)) now m why e who]" by (auto simp: add_task_def)
  then show ?case
  proof
    assume r: "?r = rows"
    with new show ?thesis by (intro exI [of _ new]) auto
  next
    assume r: "?r = rows @ [new_task (newTask (mb_id m)) now m why e who]"
    with new show ?thesis
      by (intro exI [of _ "new_task (newTask (mb_id m)) now m why e who # new"]) (auto simp: new_task_def)
  qed
qed simp

definition lifted :: "cleanup_reason \<Rightarrow> instant \<Rightarrow> uuid set \<Rightarrow> cleanup_task \<Rightarrow> cleanup_task" where
  "lifted why now ids t =
     (if ct_mailboxId t \<in> ids \<and> ct_requireEmpty t then
        (if ct_status t \<in> {CT_PENDING, CT_BLOCKED, CT_FAILED} then restarted why now t
         else if ct_status t = CT_RUNNING then t\<lparr>ct_reason := why, ct_requireEmpty := False\<rparr> else t)
      else t)"

lemma lifted_id [simp]: "ct_id (lifted why now ids t) = ct_id t"
  by (simp add: lifted_def restarted_def)

lemma enqueue_lifts:
  "\<exists>new. set (snd (enqueueForErasure newTask now ms why who rows)) =
       lifted why now (mb_id ` set (filter mb_hosted ms)) ` set rows \<union> set new
     \<and> (\<forall>z\<in>set new. ct_id z \<in> newTask ` mb_id ` set ms)"
proof (cases "filter mb_hosted ms = []")
  case True
  then show ?thesis by (intro exI [of _ "[]"]) (auto simp: enqueueForErasure_def lifted_def image_iff)
next
  case False
  let ?ids = "mb_id ` set (filter mb_hosted ms)"
  obtain new where new: "foldl (\<lambda>r m. add_task (new_task (newTask (mb_id m)) now m why False who) r) rows
      (filter mb_hosted ms) = rows @ new" "\<forall>z\<in>set new. ct_id z \<in> newTask ` mb_id ` set (filter mb_hosted ms)"
    using add_tasks_append [of newTask now why False who rows "filter mb_hosted ms"] by blast
  have two: "update_where (\<lambda>t. ct_mailboxId t \<in> ?ids \<and> ct_requireEmpty t \<and> ct_status t = CT_RUNNING)
        (\<lambda>t. t\<lparr>ct_reason := why, ct_requireEmpty := False\<rparr>)
        (update_where (\<lambda>t. ct_mailboxId t \<in> ?ids \<and> ct_requireEmpty t
           \<and> ct_status t \<in> {CT_PENDING, CT_BLOCKED, CT_FAILED}) (restarted why now) xs) = map (lifted why now ?ids) xs" for xs
    by (induction xs) (simp_all add: table_simps lifted_def restarted_def)
  have "snd (enqueueForErasure newTask now ms why who rows) = map (lifted why now ?ids) (rows @ new)"
    unfolding enqueueForErasure_def Let_def if_not_P [OF False] snd_conv new(1) by (rule two)
  moreover have "\<forall>z\<in>set (map (lifted why now ?ids) new). ct_id z \<in> newTask ` mb_id ` set ms"
    using new(2) by auto
  ultimately show ?thesis
    by (intro exI [of _ "map (lifted why now ?ids) new"]) auto
qed

lemma stuck_not_held: "stuck y db \<Longrightarrow> \<not> held_by t y"
  by (simp add: stuck_def held_by_def)

lemma only_row_held:
  assumes "stuck y db" "\<And>x. ct_id (f x) = ct_id x"
  shows "only_row y (update_where (held_by t) f (tasks db))"
  using assms stuck_not_held by (auto simp: stuck_def intro: only_row_update)

lemma stuck_settle: "stuck y db \<Longrightarrow> (\<And>x. ct_id (f x) = ct_id x) \<Longrightarrow> stuck y (snd (settle t f db))"
  using only_row_held [of y db f t] by (auto simp: settle_def stuck_def split: option.split)

lemma stuck_block:
  assumes "stuck y db"
  shows "stuck y (block_task env now t why db)"
  using assms by (auto simp: block_task_def only_row_held [OF assms] update_where_keys
      stuck_def split: option.split)

lemma stuck_deadLetter:
  assumes "stuck y db"
  shows "stuck y (deadLetter env now t why db)"
  using assms by (auto simp: deadLetter_def only_row_held [OF assms] update_where_keys
      stuck_def split: option.split)

lemma stuck_finish:
  assumes "stuck y db"
  shows "stuck y (snd (finish_task env now t db))"
  using assms by (auto simp: finish_task_def Let_def only_row_held [OF assms] stuck_def table_simps
      split: option.split)

lemma stuck_handle: "stuck y db \<Longrightarrow> stuck y (handleFailure env now e t x db)"
  by (cases x)
    (auto simp: handleFailure_def Let_def intro!: stuck_block stuck_deadLetter stuck_settle split: host_error.split)

lemma stuck_secret: "stuck y db \<Longrightarrow> stuck y (snd (deleteSecret sf t db))"
  by (auto simp: deleteSecret_def stuck_def)

lemma stuck_advance:
  assumes "stuck y db"
  shows "stuck y (snd (snd (advance p env sf e now w h db)))"
proof (cases "h_phase w")
  case Ph_start
  with assms show ?thesis
    by (auto simp: advance_def Let_def case_prod_beta stuck_deadLetter split: sum.split)
next
  case (Ph_removed r)
  with stuck_settle [OF assms, of "gone now r" "h_task w"] show ?thesis
    by (simp add: advance_def Let_def case_prod_beta gone_def)
next
  case Ph_secret
  with assms stuck_secret [OF assms, of sf "h_task w"] show ?thesis
    by (auto simp: advance_def Let_def case_prod_beta split: sum.split)
next
  case Ph_unsecreted
  with stuck_settle [OF assms, of "unsecret now" "h_task w"] show ?thesis
    by (simp add: advance_def Let_def case_prod_beta unsecret_def)
next
  case Ph_finish
  with stuck_finish [OF assms, of env now "h_current w"] show ?thesis
    by (auto simp: advance_def Let_def case_prod_beta split: sum.split)
next
  case (Ph_failed x)
  with stuck_handle [OF assms] show ?thesis by (simp add: advance_def Let_def)
qed

lemma stuck_claim:
  assumes "stuck y db" "claim_task env now db = (r, db')"
  shows "stuck y db'"
  using claim_task_cases [of env now db]
proof
  assume "claim_task env now db = (None, db)"
  with assms show ?thesis by simp
next
  assume "\<exists>t\<in>set (tasks db). due env now t \<and> claim_task env now db = (Some (leased now t),
       db\<lparr>tasks := update_where (\<lambda>x. ct_id x = ct_id t) (leased now) (tasks db)\<rparr>)"
  then obtain t where t: "t \<in> set (tasks db)" "due env now t"
    "db' = db\<lparr>tasks := update_where (\<lambda>x. ct_id x = ct_id t) (leased now) (tasks db)\<rparr>" using assms(2) by auto
  have "ct_id y \<noteq> ct_id t"
    using assms(1) t(1,2) by (auto simp: stuck_def only_row_def due_def)
  with assms(1) t(3) only_row_update [of y "tasks db" "\<lambda>x. ct_id x = ct_id t" "leased now"] show ?thesis
    by (simp add: stuck_def leased_def)
qed

lemma stuck_request:
  assumes "stuck y db" "newTask \<notin> ct_id ` set (tasks db)"
  shows "stuck y (snd (requestDeletion p env c newTask now i h db))"
proof (cases "loadMailbox (cc_tenantId c) i db")
  case (Inr m)
  then have m: "m \<in> set (mailboxes db)" "mb_id m = i"
    by (auto simp: loadMailbox_def dest: find_row_SomeD split: option.splits)
  then have ny: "ct_mailboxId y \<noteq> i" using assms(1) by (auto simp: stuck_def)
  have ne: "newTask \<noteq> ct_id y" using assms by (auto simp: stuck_def only_row_def)
  have u: "only_row y (upsert_task (new_task newTask now m why e who) (tasks db))" for why e who
  proof (cases "i \<in> ct_mailboxId ` set (tasks db)")
    case True
    with ny assms(1) m(2) show ?thesis
      by (simp add: upsert_task_def new_task_def stuck_def only_row_update)
  next
    case False
    with ne assms(1) m(2) show ?thesis
      by (auto simp: upsert_task_def new_task_def stuck_def only_row_def)
  qed
  with assms(1) Inr show ?thesis
    by (auto simp: requestDeletion_def stuck_def update_where_keys split: sum.split)
next
  case (Inl e)
  with assms show ?thesis by (simp add: requestDeletion_def)
qed

lemma stuck_retry: "stuck y db \<Longrightarrow> stuck y (snd (retryDeletion p env c now i h db))"
  by (auto simp: retryDeletion_def Let_def stuck_def only_row_update update_where_keys split: sum.split option.split)

lemma only_row_enqueue:
  assumes "only_row y rows" "\<not> ct_requireEmpty y" "\<forall>m\<in>set ms. newTask (mb_id m) \<notin> ct_id ` set rows"
  shows "only_row y (snd (enqueueForErasure newTask now ms why who rows))"
proof -
  let ?l = "lifted why now (mb_id ` set (filter mb_hosted ms))"
  obtain new where new: "set (snd (enqueueForErasure newTask now ms why who rows)) = ?l ` set rows \<union> set new"
    "\<forall>z\<in>set new. ct_id z \<in> newTask ` mb_id ` set ms"
    using enqueue_lifts [of newTask now ms why who rows] by blast
  have y: "?l y = y" using assms(2) by (simp add: lifted_def)
  have "y \<in> ?l ` set rows" using y assms(1) by (metis image_eqI only_row_def)
  moreover have "t = y" if "t \<in> ?l ` set rows \<union> set new" "ct_id t = ct_id y" for t
    using that(1)
  proof
    assume "t \<in> ?l ` set rows"
    then obtain u where "u \<in> set rows" "t = ?l u" by blast
    with that(2) assms(1) y show ?thesis by (auto simp: only_row_def)
  next
    assume "t \<in> set new"
    with new(2) obtain m where "m \<in> set ms" "ct_id t = newTask (mb_id m)" by blast
    with that(2) assms(1,3) show ?thesis by (auto simp: only_row_def)
  qed
  ultimately show ?thesis by (simp add: only_row_def new(1))
qed

lemma stuck_step: "stuck y (cw_db s) \<Longrightarrow> stuck y (cw_db (cleanup_step p env s x))"
proof (cases "(p, env, s, x)" rule: cleanup_step.cases)
  case (1 p' env' s' now c newTask i)
  assume "stuck y (cw_db s)"
  with 1 show ?thesis by (simp add: stuck_request)
next
  case (2 p' env' s' now c i)
  assume "stuck y (cw_db s)"
  with 2 show ?thesis by (simp add: stuck_retry)
next
  case (3 p' env' s' now newTask t k who)
  assume y: "stuck y (cw_db s)"
  let ?ms = "filter (\<lambda>m. mb_tenantId m = t \<and> mb_membershipId m = Some k) (mailboxes (cw_db s))"
  have "new_ids newTask (cw_db s) \<Longrightarrow>
      only_row y (snd (enqueueForErasure newTask now ?ms USER_ERASURE who (tasks (cw_db s))))"
    using y by (intro only_row_enqueue) (auto simp: stuck_def new_ids_def)
  with 3 y show ?thesis by (auto simp: erase_member_mailboxes_def Let_def stuck_def table_simps)
next
  case (4 p' env' s' now newTask t who)
  assume y: "stuck y (cw_db s)"
  let ?ms = "filter (\<lambda>m. mb_tenantId m = t \<and> mb_hosted m) (mailboxes (cw_db s))"
  have "new_ids newTask (cw_db s) \<Longrightarrow>
      only_row y (snd (enqueueForErasure newTask now ?ms TENANT_ERASURE who (tasks (cw_db s))))"
    using y by (intro only_row_enqueue) (auto simp: stuck_def new_ids_def)
  with 4 y show ?thesis by (auto simp: erase_tenant_mailboxes_def Let_def stuck_def table_simps)
next
  case (5 p' env' s' now)
  assume "stuck y (cw_db s)"
  with 5 show ?thesis by (auto split: prod.split option.split dest: stuck_claim)
next
  case (6 p' env' s' now n sf e)
  assume "stuck y (cw_db s)"
  with 6 show ?thesis by (auto simp: case_prod_beta stuck_advance split: option.split)
next
  case (7 p' env' s' now)
  assume "stuck y (cw_db s)"
  with 7 show ?thesis by (auto simp: purgeCompleted_def Let_def stuck_def only_row_delete)
qed

interpretation cleanup_stuck: op_machine "cleanup_step p env" "\<lambda>s. stuck y (cw_db s)"
  by unfold_locales (rule stuck_step)

lemma erased_then_refused:
  assumes keys: "unique_key ct_id (tasks db)" "unique_key mb_id (mailboxes db)"
    and x: "x \<in> set (tasks db)" "held_by t x" "ct_requireEmpty x"
    and m: "m \<in> set (mailboxes db)" "mb_id m = ct_mailboxId x" "mb_hosted m"
      "mb_membershipId m = Some k" "mb_tenantId m = tn"
    and new: "new_ids newTask db"
  shows "\<exists>y. ct_mailboxId y = mb_id m \<and> ct_reason y = USER_ERASURE
    \<and> stuck y (block_task env now2 t NON_EMPTY (erase_member_mailboxes newTask now1 tn k who db))"
proof -
  define db1 where "db1 = erase_member_mailboxes newTask now1 tn k who db"
  let ?ms = "filter (\<lambda>m. mb_tenantId m = tn \<and> mb_membershipId m = Some k) (mailboxes db)"
  let ?l = "lifted USER_ERASURE now1 (mb_id ` set (filter mb_hosted ?ms))"
  define u where "u = x\<lparr>ct_reason := USER_ERASURE, ct_requireEmpty := False\<rparr>"
  obtain fresh where fresh: "set (tasks db1) = ?l ` set (tasks db) \<union> set fresh"
    "\<forall>z\<in>set fresh. ct_id z \<in> newTask ` mb_id ` set ?ms"
    using enqueue_lifts [of newTask now1 ?ms USER_ERASURE who "tasks db"]
    by (auto simp: db1_def erase_member_mailboxes_def Let_def)
  have "m \<in> set (filter mb_hosted ?ms)" using m by simp
  then have "ct_mailboxId x \<in> mb_id ` set (filter mb_hosted ?ms)" unfolding m(2) [symmetric] by (rule imageI)
  then have lx: "?l x = u" using x by (simp add: lifted_def u_def held_by_def)
  have "?l x \<in> ?l ` set (tasks db)" by (rule imageI [OF x(1)])
  then have u: "u \<in> set (tasks db1)" unfolding lx fresh(1) by blast
  have only: "z = u" if "z \<in> set (tasks db1)" "ct_id z = ct_id x" for z
  proof -
    from that(1) fresh(1) consider v where "v \<in> set (tasks db)" "z = ?l v" | "z \<in> set fresh" by blast
    then show ?thesis
    proof cases
      case 1
      with that(2) keys(1) x(1) have "v = x" by (auto dest: unique_keyD)
      with 1 lx show ?thesis by simp
    next
      case 2
      with fresh(2) obtain q where "q \<in> set (mailboxes db)" "ct_id z = newTask (mb_id q)" by auto
      with new x(1) that(2) show ?thesis by (auto simp: new_ids_def)
    qed
  qed
  have hu: "held_by t u" using x(2) by (simp add: held_by_def u_def)
  then obtain f where f: "find_row (held_by t) (tasks db1) = Some f"
    using u by (cases "find_row (held_by t) (tasks db1)") (auto simp: find_row_None_iff)
  have idt: "ct_id t = ct_id x" using x(2) by (simp add: held_by_def)
  have iu: "ct_id u = ct_id x" by (simp add: u_def)
  define g where "g = (\<lambda>x::cleanup_task. x\<lparr>ct_status := CT_BLOCKED, ct_outcome := Some (Refused NON_EMPTY),
            ct_lastErrorCode := Some (Refused_with NON_EMPTY), ct_lockedAt := None\<rparr>)"
  have gi: "ct_id (g z) = ct_id z" for z by (simp add: g_def)
  have gone: "mb_id m \<notin> mb_id ` set (mailboxes db1)"
    using keys(2) m(1,4) by (auto simp: db1_def erase_member_mailboxes_def Let_def table_simps dest: unique_keyD)
  have rows: "only_row (g u) (update_where (held_by t) g (tasks db1))"
    unfolding only_row_def
  proof (intro conjI ballI impI)
    show "g u \<in> set (update_where (held_by t) g (tasks db1))" using u hu by (auto simp: table_simps)
    fix z assume "z \<in> set (update_where (held_by t) g (tasks db1))" "ct_id z = ct_id (g u)"
    then obtain v where v: "v \<in> set (tasks db1)" "z = (if held_by t v then g v else v)"
      by (auto simp: table_simps)
    with \<open>ct_id z = ct_id (g u)\<close> have "ct_id v = ct_id x" by (simp add: gi iu split: if_splits)
    with only v(1) have "v = u" by blast
    with v(2) hu show "z = g u" by simp
  qed
  have "stuck (g u) (block_task env now2 t NON_EMPTY db1)"
    using rows gone m(2) by (simp add: block_task_def f stuck_def update_where_keys g_def u_def)
  moreover have "ct_mailboxId (g u) = mb_id m" "ct_reason (g u) = USER_ERASURE"
    using m(2) by (simp_all add: g_def u_def)
  ultimately show ?thesis unfolding db1_def by blast
qed

subsection \<open>A mail host\<close>

text \<open>
  A host as the contract describes it: its domains, its accounts by identifier and the mail in them. While
  \<open>sw_down\<close> names an error every call answers it.
\<close>

record stalwart =
  sw_domains :: "(string \<times> string) list"
  sw_accounts :: "(string \<times> string \<times> string \<times> string option) list"
  sw_mail :: "(string \<times> nat) list"
  sw_down :: "host_error option"

definition sw_account :: "stalwart \<Rightarrow> string \<Rightarrow> hosted_account option" where
  "sw_account h i = (case map_of (sw_accounts h) i of
      Some (n, d, ds) \<Rightarrow> Some \<lparr>ha_id = i, ha_name = n, ha_domainId = d, ha_description = ds\<rparr> | None \<Rightarrow> None)"

definition sw_answer :: "stalwart \<Rightarrow> 'a \<Rightarrow> host_error + 'a" where
  "sw_answer h x = (case sw_down h of Some e \<Rightarrow> Inl e | None \<Rightarrow> Inr x)"

definition sw_count :: "stalwart \<Rightarrow> string \<Rightarrow> nat" where
  "sw_count h i = (case map_of (sw_mail h) i of Some n \<Rightarrow> n | None \<Rightarrow> 0)"

definition sw_find :: "stalwart \<Rightarrow> string \<Rightarrow> string \<Rightarrow> hosted_account option" where
  "sw_find h n d = find_row (\<lambda>a. ha_name a = n \<and> ha_domainId a = d)
     (List.map_filter (sw_account h) (map fst (sw_accounts h)))"

definition sw_delete :: "stalwart \<Rightarrow> string \<Rightarrow> (host_error + delete_outcome) \<times> stalwart" where
  "sw_delete h i = (case sw_down h of Some e \<Rightarrow> (Inl e, h)
      | None \<Rightarrow> if map_of (sw_accounts h) i = None then (Inr ALREADY_ABSENT, h)
                else (Inr DELETED, h\<lparr>sw_accounts := filter (\<lambda>a. fst a \<noteq> i) (sw_accounts h)\<rparr>))"

definition stalwart_host :: "stalwart mail_host" where
  "stalwart_host = \<lparr>mh_isConfigured = (\<lambda>h. True),
     mh_findDomain = (\<lambda>h n. sw_answer h (map_of (sw_domains h) n)),
     mh_findAccount = (\<lambda>h n d. sw_answer h (sw_find h n d)),
     mh_getAccount = (\<lambda>h i. sw_answer h (sw_account h i)),
     mh_countMessages = (\<lambda>h i. sw_answer h (sw_count h i)),
     mh_deleteAccount = sw_delete\<rparr>"

definition stalwart_accounts :: "stalwart \<Rightarrow> hosted_account set" where
  "stalwart_accounts h = {a. sw_account h (ha_id a) = Some a}"

lemma sw_account_id: "sw_account h i = Some a \<Longrightarrow> ha_id a = i"
  by (auto simp: sw_account_def split: option.splits)

lemma sw_account_in: "sw_account h i = Some a \<Longrightarrow> a \<in> stalwart_accounts h"
  using sw_account_id [of h i a] by (simp add: stalwart_accounts_def)

lemma sw_find_in: "sw_find h n d = Some a \<Longrightarrow> a \<in> stalwart_accounts h"
proof -
  assume "sw_find h n d = Some a"
  then have "a \<in> set (List.map_filter (sw_account h) (map fst (sw_accounts h)))"
    unfolding sw_find_def by (blast dest: find_row_SomeD)
  then obtain i where "sw_account h i = Some a" by (auto simp: List.map_filter_def)
  then show ?thesis by (rule sw_account_in)
qed

lemma sw_account_filter: "j \<noteq> i \<Longrightarrow>
    sw_account (h\<lparr>sw_accounts := filter (\<lambda>a. fst a \<noteq> i) (sw_accounts h)\<rparr>) j = sw_account h j"
proof -
  assume "j \<noteq> i"
  then have "map_of (filter (\<lambda>a. fst a \<noteq> i) xs) j = map_of xs j" for xs :: "(string \<times> string \<times> string \<times> string option) list"
    by (induction xs) auto
  then show ?thesis by (simp add: sw_account_def)
qed

interpretation stalwart_hosting: mail_hosting stalwart_host stalwart_accounts sw_count
proof
  fix a b h i n d k
  show "a \<in> stalwart_accounts h \<Longrightarrow> b \<in> stalwart_accounts h \<Longrightarrow> ha_id a = ha_id b \<Longrightarrow> a = b"
    by (simp add: stalwart_accounts_def)
  show "mh_getAccount stalwart_host h i = Inr (Some a) \<Longrightarrow> a \<in> stalwart_accounts h"
    by (auto simp: stalwart_host_def sw_answer_def intro: sw_account_in split: option.splits)
  show "mh_findAccount stalwart_host h n d = Inr (Some a) \<Longrightarrow> a \<in> stalwart_accounts h"
    by (auto simp: stalwart_host_def sw_answer_def intro: sw_find_in split: option.splits)
  show "mh_countMessages stalwart_host h i = Inr k \<Longrightarrow> k = sw_count h i"
    by (auto simp: stalwart_host_def sw_answer_def split: option.splits)
  show "a \<in> stalwart_accounts h \<Longrightarrow> ha_id a \<noteq> i \<Longrightarrow> a \<in> stalwart_accounts (snd (mh_deleteAccount stalwart_host h i))"
    by (auto simp: stalwart_host_def sw_delete_def stalwart_accounts_def sw_account_filter split: option.split)
qed

subsection \<open>Properties\<close>

text \<open>
  C13: Whatever requests, retries, erasures and workers come in whatever order, an account disappears from the
  mail host only by a worker whose task is about a mailbox known at the start, after the account was found to
  carry that mailbox's marker, name and domain, and to be empty unless the task had stopped asking for that.
\<close>

theorem account_destroyed_only_when_owned:
  assumes "mail_hosting p accounts mail"
    and "a \<in> accounts (cw_host s)" "a \<notin> accounts (cw_host (foldl (cleanup_step p env) s xs))"
  shows "\<exists>ys now n storeFails extra zs. xs = ys @ (now, CO_advance n storeFails extra) # zs
    \<and> (let s' = foldl (cleanup_step p env) s ys
       in n < length (cw_holders s') \<and> (case cw_holders s' ! n of
            Some w \<Rightarrow> (\<exists>d. owned_account (h_task w) d a)
              \<and> ct_mailboxId (h_task w) \<in> world_mailboxes s
              \<and> (mustBeEmpty (h_task w) (cw_db s') \<longrightarrow> mail (cw_host s') (ha_id a) = 0)
          | None \<Rightarrow> False))"
proof -
  from mail_hosting.destroyed_account [OF assms] obtain ys x zs where x: "xs = ys @ x # zs"
    "proves_owner mail a (foldl (cleanup_step p env) s ys) x" by blast
  have "world_mailboxes (foldl (cleanup_step p env) s ys) \<subseteq> world_mailboxes s"
    by (induction ys rule: rev_induct) (auto dest: subsetD [OF step_mailboxes])
  then show ?thesis
    using x by (cases x) (fastforce simp: proves_owner_def Let_def split: cleanup_op.splits option.splits)
qed

text \<open>A workspace with one hosted mailbox, Ann's, and a host that also has an account of somebody else.\<close>

definition demo_cleanup_env :: cleanup_env where
  "demo_cleanup_env = \<lparr>ce_deleteEnabled = True, ce_leaseMs = 300000, ce_retentionDays = 90, ce_digest = (\<lambda>x. x),
     ce_newId = (\<lambda>n. ''e'')\<rparr>"

definition demo_mailbox :: mailbox where
  "demo_mailbox = \<lparr>mb_id = ''m1'', mb_tenantId = ''t'', mb_address = ''Ann@z.io'', mb_hosted = True,
     mb_providerAccountId = None, mb_membershipId = Some ''k'', mb_provisioning = False,
     mb_provisioningStartedAt = None, mb_deletionRequestedAt = None, mb_deletionError = None\<rparr>"

definition demo_host :: "nat \<Rightarrow> stalwart" where
  "demo_host n = \<lparr>sw_domains = [(''z.io'', ''d1'')],
     sw_accounts = [(''a1'', ''ann'', ''d1'', Some (''Zoiko '' @ ownershipMarker ''m1'')), (''a2'', ''bob'', ''d1'', None)],
     sw_mail = [(''a1'', n)], sw_down = None\<rparr>"

definition demo_world :: "nat \<Rightarrow> stalwart cleanup_world" where
  "demo_world n = \<lparr>cw_host = demo_host n, cw_db = \<lparr>mailboxes = [demo_mailbox], tasks = [], members = [], copies = [],
     tenantIds = [''t''], secrets = [credentialRef ''m1''], clog = []\<rparr>, cw_holders = []\<rparr>"

definition demo_delete :: "(instant \<times> cleanup_op) list" where
  "demo_delete = [(1, CO_request \<lparr>cc_tenantId = ''t'', cc_userId = ''boss''\<rparr> ''j'' ''m1''), (2, CO_claim),
     (3, CO_advance 0 False 0)]"

definition demo_account :: hosted_account where
  "demo_account = \<lparr>ha_id = ''a1'', ha_name = ''ann'', ha_domainId = ''d1'',
     ha_description = Some (''Zoiko '' @ ownershipMarker ''m1'')\<rparr>"

theorem account_destroyed_only_when_owned_witness:
  "\<exists>ys now n storeFails extra zs. demo_delete = ys @ (now, CO_advance n storeFails extra) # zs
    \<and> (let s' = foldl (cleanup_step stalwart_host demo_cleanup_env) (demo_world 0) ys
       in n < length (cw_holders s') \<and> (case cw_holders s' ! n of
            Some w \<Rightarrow> (\<exists>d. owned_account (h_task w) d demo_account)
              \<and> ct_mailboxId (h_task w) \<in> world_mailboxes (demo_world 0)
              \<and> (mustBeEmpty (h_task w) (cw_db s') \<longrightarrow> sw_count (cw_host s') (ha_id demo_account) = 0)
          | None \<Rightarrow> False))"
proof (rule account_destroyed_only_when_owned [OF stalwart_hosting.mail_hosting_axioms])
  have "sw_account (cw_host (demo_world 0)) ''a1'' = Some demo_account" by code_simp
  then show "demo_account \<in> stalwart_accounts (cw_host (demo_world 0))" by (rule sw_account_in)
  have "sw_account (cw_host (foldl (cleanup_step stalwart_host demo_cleanup_env) (demo_world 0) demo_delete)) ''a1'' = None"
    by code_simp
  then show "demo_account \<notin> stalwart_accounts
      (cw_host (foldl (cleanup_step stalwart_host demo_cleanup_env) (demo_world 0) demo_delete))"
    by (simp add: stalwart_accounts_def demo_account_def)
qed


definition demo_refused :: "stalwart cleanup_world" where
  "demo_refused = foldl (cleanup_step stalwart_host demo_cleanup_env) (demo_world 1) demo_delete"


end
