(* ===== verification/Jobs.thy ===== *)
theory Jobs
  imports Audit_Log
begin

section \<open>Background jobs\<close>

text \<open>
  \<open>modules/job/job.service.ts\<close> and the retry of \<open>support.service.ts\<close>: the queue every deferred piece of
  work goes through. A worker takes a due job, runs it and reports the outcome; claims of different
  workers interleave. What a job does outside the queue (export files, mail transport, model calls) is the
  argument \<open>outcome\<close> of the report.
\<close>

datatype job_type =
    DATA_EXPORT | DATA_DELETION | NOTIFICATION_DIGEST | IMAP_SYNC | SMTP_SEND | AI_EXTRACTION
  | AI_DRAFT_GENERATION

datatype job_status = J_PENDING | J_RUNNING | J_RETRY | J_COMPLETED | J_FAILED | J_CANCELLED

record job =
  j_id :: uuid
  j_tenantId :: uuid
  j_createdBy :: uuid
  j_type :: job_type
  j_status :: job_status
  j_payload :: json
  j_result :: "json option"
  j_idempotencyKey :: string
  j_attempts :: nat
  j_maxAttempts :: nat
  j_runAt :: instant
  j_lockedAt :: "instant option"
  j_completedAt :: "instant option"
  j_lastError :: "string option"

datatype outgoing_status = M_SENDING | M_SENT | M_FAILED

record outgoing =
  om_id :: uuid
  om_tenantId :: uuid
  om_status :: outgoing_status
  om_sentAt :: "instant option"
  om_error :: "string option"

record job_db =
  jobs :: "job list"
  outbox :: "outgoing list"
  job_log :: "audit_event list"

record job_input =
  ji_tenantId :: uuid
  ji_userId :: uuid
  ji_type :: job_type
  ji_payload :: json
  ji_idempotencyKey :: string

subsection \<open>Operations\<close>

text \<open>The operations work on every state that extends the queue's.\<close>

text \<open>\<open>enqueue\<close>: the upsert leaves an existing job of the same key alone. Three attempts is the
  default of the column.\<close>

definition new_job :: "uuid \<Rightarrow> instant \<Rightarrow> job_input \<Rightarrow> job" where
  "new_job newId now x =
     \<lparr>j_id = newId, j_tenantId = ji_tenantId x, j_createdBy = ji_userId x, j_type = ji_type x,
      j_status = J_PENDING, j_payload = ji_payload x, j_result = None,
      j_idempotencyKey = ji_idempotencyKey x, j_attempts = 0, j_maxAttempts = 3, j_runAt = now,
      j_lockedAt = None, j_completedAt = None, j_lastError = None\<rparr>"

definition enqueue :: "uuid \<Rightarrow> instant \<Rightarrow> job_input \<Rightarrow> 'a job_db_scheme \<Rightarrow> job \<times> 'a job_db_scheme" where
  "enqueue newId now x db =
     (case find_row (\<lambda>j. j_tenantId j = ji_tenantId x \<and> j_idempotencyKey j = ji_idempotencyKey x) (jobs db) of
        Some j \<Rightarrow> (j, db)
      | None \<Rightarrow> (new_job newId now x, db\<lparr>jobs := jobs db @ [new_job newId now x]\<rparr>))"

definition get_job :: "uuid \<Rightarrow> uuid \<Rightarrow> 'a job_db_scheme \<Rightarrow> job result" where
  "get_job i tenantId db =
     (case find_row (\<lambda>j. j_id j = i \<and> j_tenantId j = tenantId) (jobs db) of
        Some j \<Rightarrow> Inr j | None \<Rightarrow> not_found)"

definition claimable :: "instant \<Rightarrow> job \<Rightarrow> bool" where
  "claimable now j \<longleftrightarrow> (j_status j = J_PENDING \<or> j_status j = J_RETRY) \<and> j_runAt j \<le> now"

text \<open>A deletion only runs once its payload is confirmed, as a JSON true or the string of it.\<close>

definition supported :: "job \<Rightarrow> bool" where
  "supported j \<longleftrightarrow> j_type j \<noteq> DATA_DELETION
     \<or> (case j_payload j of JObj kvs \<Rightarrow> field ''confirmed'' kvs \<in> {Some (JBool True), Some (JStr ''true'')}
        | _ \<Rightarrow> False)"

definition locked_job :: "instant \<Rightarrow> job \<Rightarrow> job" where
  "locked_job now j = j\<lparr>j_status := J_RUNNING, j_lockedAt := Some now, j_attempts := j_attempts j + 1\<rparr>"

definition claim_where :: "(job \<Rightarrow> bool) \<Rightarrow> instant \<Rightarrow> 'a job_db_scheme \<Rightarrow> job option \<times> 'a job_db_scheme" where
  "claim_where P now db =
     (case latest_by (\<lambda>j. - j_runAt j) (filter P (jobs db)) of
        None \<Rightarrow> (None, db)
      | Some j \<Rightarrow> (Some (locked_job now j),
          db\<lparr>jobs := update_where (\<lambda>x. j_id x = j_id j) (locked_job now) (jobs db)\<rparr>))"

definition claim_any :: "instant \<Rightarrow> 'a job_db_scheme \<Rightarrow> job option \<times> 'a job_db_scheme" where
  "claim_any now db = claim_where (claimable now) now db"

definition claimSupported :: "instant \<Rightarrow> 'a job_db_scheme \<Rightarrow> job option \<times> 'a job_db_scheme" where
  "claimSupported now db = claim_where (\<lambda>j. claimable now j \<and> supported j) now db"

definition complete_job :: "uuid \<Rightarrow> uuid \<Rightarrow> instant \<Rightarrow> json \<Rightarrow> 'a job_db_scheme \<Rightarrow> 'a job_db_scheme" where
  "complete_job i tenantId now res db =
     db\<lparr>jobs := update_where (\<lambda>j. j_id j = i \<and> j_tenantId j = tenantId)
        (\<lambda>j. j\<lparr>j_status := J_COMPLETED, j_result := Some res, j_completedAt := Some now, j_lockedAt := None\<rparr>)
        (jobs db)\<rparr>"

definition backoff_ms :: "nat \<Rightarrow> int" where
  "backoff_ms attempts = 30000 * 2 ^ (attempts - 1)"

definition failed_job :: "instant \<Rightarrow> string \<Rightarrow> job \<Rightarrow> job" where
  "failed_job now err j =
     (let retry = j_attempts j < j_maxAttempts j
      in j\<lparr>j_status := (if retry then J_RETRY else J_FAILED), j_lastError := Some (take 1000 err),
           j_lockedAt := None,
           j_runAt := (if retry then now + backoff_ms (j_attempts j) else j_runAt j)\<rparr>)"

definition fail_job :: "uuid \<Rightarrow> uuid \<Rightarrow> instant \<Rightarrow> string \<Rightarrow> 'a job_db_scheme \<Rightarrow> job result \<times> 'a job_db_scheme" where
  "fail_job i tenantId now err db =
     (case get_job i tenantId db of
        Inl e \<Rightarrow> (Inl e, db)
      | Inr j \<Rightarrow> (Inr (failed_job now err j),
          db\<lparr>jobs := update_where (\<lambda>x. j_id x = i \<and> j_tenantId x = tenantId) (failed_job now err) (jobs db)\<rparr>))"

subsection \<open>What the worker reports\<close>

text \<open>
  Done with a result, failed with a message, or, for the erasure of a whole workspace, done with
  every row of the workspace deleted, the job's own among them.
\<close>

datatype job_outcome = Done json | Failed string | Erased

definition message_of :: "json \<Rightarrow> uuid option" where
  "message_of payload = (case payload of
      JObj kvs \<Rightarrow> (case field ''messageId'' kvs of Some (JStr s) \<Rightarrow> Some s | _ \<Rightarrow> None)
    | _ \<Rightarrow> None)"

definition mark_message ::
  "uuid \<Rightarrow> uuid \<Rightarrow> (outgoing \<Rightarrow> outgoing) \<Rightarrow> outgoing list \<Rightarrow> outgoing list" where
  "mark_message i tenantId f rows =
     update_where (\<lambda>m. om_id m = i \<and> om_tenantId m = tenantId \<and> om_status m = M_SENDING) f rows"

text \<open>An SMTP job names its message, or it fails before anything is sent.\<close>

definition run_outcome :: "job \<Rightarrow> job_outcome \<Rightarrow> job_outcome" where
  "run_outcome j out =
     (if j_type j = SMTP_SEND \<and> \<not> truthy (message_of (j_payload j))
      then Failed ''SMTP job has no message id'' else out)"

definition report :: "job \<Rightarrow> job_outcome \<Rightarrow> instant \<Rightarrow> 'a job_db_scheme \<Rightarrow> 'a job_db_scheme" where
  "report j out now db =
     (case run_outcome j out of
        Done res \<Rightarrow>
          (let db1 = (if j_type j = SMTP_SEND
              then db\<lparr>outbox := mark_message (the (message_of (j_payload j))) (j_tenantId j)
                  (\<lambda>m. m\<lparr>om_status := M_SENT, om_sentAt := Some now, om_error := None\<rparr>) (outbox db)\<rparr>
              else db)
           in complete_job (j_id j) (j_tenantId j) now res db1)
      | Erased \<Rightarrow> db\<lparr>jobs := delete_where (\<lambda>x. j_tenantId x = j_tenantId j) (jobs db),
                     outbox := delete_where (\<lambda>m. om_tenantId m = j_tenantId j) (outbox db),
                     job_log := delete_where (\<lambda>e. ev_tenantId e = j_tenantId j) (job_log db)\<rparr>
      | Failed err \<Rightarrow>
          (case fail_job (j_id j) (j_tenantId j) now err db of
             (Inl e, db1) \<Rightarrow> db1
           | (Inr j', db1) \<Rightarrow>
               (if j_type j = SMTP_SEND \<and> j_status j' = J_FAILED \<and> truthy (message_of (j_payload j))
                then db1\<lparr>outbox := mark_message (the (message_of (j_payload j))) (j_tenantId j)
                    (\<lambda>m. m\<lparr>om_status := M_FAILED, om_error := Some (take 1000 err)\<rparr>) (outbox db1)\<rparr>
                else db1)))"

text \<open>A worker alone in the queue.\<close>

definition processNext :: "(job \<Rightarrow> job_outcome) \<Rightarrow> instant \<Rightarrow> instant \<Rightarrow> 'a job_db_scheme \<Rightarrow> job option \<times> 'a job_db_scheme" where
  "processNext run now later db =
     (case claimSupported now db of
        (None, db1) \<Rightarrow> (None, db1)
      | (Some j, db1) \<Rightarrow> (Some j, report j (run j) later db1))"

subsection \<open>The staff's retry\<close>

definition requeued :: "instant \<Rightarrow> job \<Rightarrow> job" where
  "requeued now j = j\<lparr>j_status := J_PENDING, j_attempts := 0, j_runAt := now, j_lockedAt := None,
     j_completedAt := None, j_lastError := None\<rparr>"

definition requeue ::
  "(nat \<Rightarrow> uuid) \<Rightarrow> uuid \<Rightarrow> uuid \<Rightarrow> string \<Rightarrow> instant \<Rightarrow> 'a job_db_scheme \<Rightarrow> job result \<times> 'a job_db_scheme" where
  "requeue newId jobId actor role now db =
     (case find_row (\<lambda>j. j_id j = jobId) (jobs db) of
        None \<Rightarrow> (not_found, db)
      | Some j \<Rightarrow>
          if j_status j \<noteq> J_FAILED \<and> j_status j \<noteq> J_CANCELLED then (fail_with 409 CONFLICT, db)
          else (Inr (requeued now j),
            db\<lparr>jobs := update_where (\<lambda>x. j_id x = jobId) (requeued now) (jobs db),
               job_log := log_event newId now (j_tenantId j) (Some actor) (Some AT_SUPPORT) ''JOB_RETRIED''
                 ''BackgroundJob'' jobId
                 (Some (JObj [(''retriedByRole'', JStr role), (''source'', JStr ''support-console'')]))
                 (job_log db)\<rparr>))"

subsection \<open>Workers side by side\<close>

text \<open>
  A claim puts the job in the hands of a worker, \<open>flight\<close>; a report of the \<open>n\<close>th job in flight takes it
  out again. A worker that dies never reports. \<open>known\<close> are the identifiers ever given to a job: a new
  primary key is not among them.
\<close>

record job_world =
  queue :: job_db
  flight :: "job list"
  known :: "uuid list"

datatype work = W_enqueue uuid job_input | W_claim | W_report nat job_outcome

datatype job_op = Work work | Retry uuid uuid string

fun work_step :: "job_world \<Rightarrow> instant \<times> work \<Rightarrow> job_world" where
  "work_step s (now, W_enqueue newId x) =
     (if newId \<in> set (known s) then s
      else s\<lparr>queue := snd (enqueue newId now x (queue s)), known := known s @ [newId]\<rparr>)"
| "work_step s (now, W_claim) =
     (case claimSupported now (queue s) of
        (None, db) \<Rightarrow> s
      | (Some j, db) \<Rightarrow> s\<lparr>queue := db, flight := flight s @ [j]\<rparr>)"
| "work_step s (now, W_report n out) =
     (if n < length (flight s)
      then s\<lparr>queue := report (flight s ! n) out now (queue s),
             flight := take n (flight s) @ drop (Suc n) (flight s)\<rparr>
      else s)"

fun job_step :: "(nat \<Rightarrow> uuid) \<Rightarrow> job_world \<Rightarrow> instant \<times> job_op \<Rightarrow> job_world" where
  "job_step newId s (now, Work w) = work_step s (now, w)"
| "job_step newId s (now, Retry i actor role) =
     s\<lparr>queue := snd (requeue newId i actor role now (queue s))\<rparr>"

definition job_ok :: "uuid set \<Rightarrow> job \<Rightarrow> bool" where
  "job_ok held j \<longleftrightarrow> j_maxAttempts j = 3 \<and> j_attempts j \<le> 3
     \<and> (j_status j = J_PENDING \<or> j_status j = J_RETRY \<longrightarrow> j_attempts j < 3)
     \<and> (j_status j = J_RUNNING \<longleftrightarrow> j_id j \<in> held)"

definition jobs_ok :: "job_world \<Rightarrow> bool" where
  "jobs_ok s \<longleftrightarrow> unique_key j_id (jobs (queue s)) \<and> j_id ` set (jobs (queue s)) \<subseteq> set (known s)
     \<and> distinct (map j_id (flight s)) \<and> j_id ` set (flight s) \<subseteq> set (known s)
     \<and> (\<forall>j\<in>set (jobs (queue s)). job_ok (j_id ` set (flight s)) j)
     \<and> (\<forall>f\<in>set (flight s). \<forall>j\<in>set (jobs (queue s)). j_id j = j_id f \<longrightarrow> j_tenantId j = j_tenantId f)"

lemma failed_job_simps [simp]:
  "j_id (failed_job now err j) = j_id j" "j_tenantId (failed_job now err j) = j_tenantId j"
  "j_attempts (failed_job now err j) = j_attempts j"
  "j_maxAttempts (failed_job now err j) = j_maxAttempts j"
  "j_status (failed_job now err j) = (if j_attempts j < j_maxAttempts j then J_RETRY else J_FAILED)"
  by (simp_all add: failed_job_def Let_def)

lemma claim_cases:
  "claimSupported now db = (None, db) \<or> (\<exists>j\<in>set (jobs db). claimable now j \<and>
     claimSupported now db = (Some (locked_job now j),
       db\<lparr>jobs := update_where (\<lambda>x. j_id x = j_id j) (locked_job now) (jobs db)\<rparr>))"
proof (cases "latest_by (\<lambda>j. - j_runAt j) (filter (\<lambda>j. claimable now j \<and> supported j) (jobs db))")
  case None
  then show ?thesis by (simp add: claimSupported_def claim_where_def)
next
  case (Some j)
  from latest_by_mem [OF this] Some show ?thesis by (auto simp: claimSupported_def claim_where_def)
qed

lemma update_where_none: "(\<And>r. r \<in> set rows \<Longrightarrow> \<not> P r) \<Longrightarrow> update_where P f rows = rows"
  by (induction rows) (simp_all add: table_simps)

lemma report_jobs:
  "jobs (report j out now db) = (case run_outcome j out of
      Done res \<Rightarrow> update_where (\<lambda>x. j_id x = j_id j \<and> j_tenantId x = j_tenantId j)
        (\<lambda>x. x\<lparr>j_status := J_COMPLETED, j_result := Some res, j_completedAt := Some now, j_lockedAt := None\<rparr>) (jobs db)
    | Failed err \<Rightarrow> update_where (\<lambda>x. j_id x = j_id j \<and> j_tenantId x = j_tenantId j) (failed_job now err) (jobs db)
    | Erased \<Rightarrow> delete_where (\<lambda>x. j_tenantId x = j_tenantId j) (jobs db))"
proof (cases "run_outcome j out")
  case (Failed err)
  show ?thesis
  proof (cases "get_job (j_id j) (j_tenantId j) db")
    case (Inl e)
    then have "\<And>x. x \<in> set (jobs db) \<Longrightarrow> \<not> (j_id x = j_id j \<and> j_tenantId x = j_tenantId j)"
      by (auto simp: get_job_def find_row_None_iff split: option.splits)
    then have "update_where (\<lambda>x. j_id x = j_id j \<and> j_tenantId x = j_tenantId j) (failed_job now err) (jobs db)
      = jobs db" by (intro update_where_none) blast
    with Failed Inl show ?thesis by (simp add: report_def fail_job_def)
  next
    case (Inr x)
    then show ?thesis using Failed by (simp add: report_def fail_job_def Let_def)
  qed
qed (simp_all add: report_def complete_job_def Let_def)

lemma set_drop_nth: "n < length xs \<Longrightarrow> set xs = insert (xs ! n) (set (take n xs @ drop (Suc n) xs))"
  by (metis Un_insert_right id_take_nth_drop list.set(2) set_append)

lemma distinct_drop_nth:
  assumes "n < length xs" "distinct (map f xs)"
  shows "distinct (map f (take n xs @ drop (Suc n) xs)) \<and> f (xs ! n) \<notin> f ` set (take n xs @ drop (Suc n) xs)"
proof -
  have "xs = take n xs @ xs ! n # drop (Suc n) xs" by (rule id_take_nth_drop [OF assms(1)])
  then have "distinct (map f (take n xs @ xs ! n # drop (Suc n) xs))" using assms(2) by simp
  then show ?thesis by auto
qed

lemma work_step_ok:
  assumes ok: "jobs_ok s"
  shows "jobs_ok (work_step s x)"
proof (cases "(s, x)" rule: work_step.cases)
  case (1 s' now newId ji)
  then show ?thesis using ok
    by (auto simp: jobs_ok_def enqueue_def new_job_def job_ok_def unique_key_snoc split: option.splits)
next
  case (2 s' now)
  then have x: "s' = s" "x = (now, W_claim)" by auto
  from claim_cases [of now "queue s"] show ?thesis
  proof
    assume "claimSupported now (queue s) = (None, queue s)"
    then show ?thesis using ok by (simp add: x)
  next
    assume "\<exists>j\<in>set (jobs (queue s)). claimable now j \<and>
     claimSupported now (queue s) = (Some (locked_job now j),
       (queue s)\<lparr>jobs := update_where (\<lambda>x. j_id x = j_id j) (locked_job now) (jobs (queue s))\<rparr>)"
    then obtain j where j: "j \<in> set (jobs (queue s))" "claimable now j"
      "claimSupported now (queue s) = (Some (locked_job now j),
       (queue s)\<lparr>jobs := update_where (\<lambda>x. j_id x = j_id j) (locked_job now) (jobs (queue s))\<rparr>)" by blast
    have nf: "j_id j \<notin> j_id ` set (flight s)"
      using ok j(1,2) by (auto simp: jobs_ok_def job_ok_def claimable_def)
    have u: "y = j" if "y \<in> set (jobs (queue s))" "j_id y = j_id j" for y
      using ok j(1) that by (auto simp: jobs_ok_def dest: unique_keyD)
    have k: "unique_key j_id (update_where (\<lambda>x. j_id x = j_id j) (locked_job now) (jobs (queue s)))"
      using ok by (subst unique_key_update_where) (simp_all add: jobs_ok_def locked_job_def)
    show ?thesis
      using ok j nf k
      unfolding x jobs_ok_def
      by (auto simp: table_simps locked_job_def job_ok_def claimable_def dest: u)
  qed
next
  case (3 s' now n out)
  then have x: "s' = s" "x = (now, W_report n out)" by auto
  show ?thesis
  proof (cases "n < length (flight s)")
    case False
    then show ?thesis using ok by (simp add: x)
  next
    case True
    define f where "f = flight s ! n"
    define rest where "rest = take n (flight s) @ drop (Suc n) (flight s)"
    have fl: "set (flight s) = insert f (set rest)" unfolding f_def rest_def by (rule set_drop_nth [OF True])
    have d: "distinct (map j_id rest)" "j_id f \<notin> j_id ` set rest"
      using distinct_drop_nth [OF True, of j_id] ok by (auto simp: f_def rest_def jobs_ok_def)
    define js where "js = jobs (report f out now (queue s))"
    have ids: "\<forall>y\<in>set js. \<exists>z\<in>set (jobs (queue s)). j_id y = j_id z \<and> j_tenantId y = j_tenantId z"
      unfolding js_def report_jobs
      by (auto simp: table_simps split: job_outcome.split intro: bexI [rotated])
    have uk: "unique_key j_id js"
      using ok unfolding js_def report_jobs
      by (auto simp: jobs_ok_def unique_key_update_where unique_key_delete_where
          split: job_outcome.split)
    have jk: "\<forall>y\<in>set js. job_ok (j_id ` set rest) y"
      using ok d(2) unfolding js_def report_jobs jobs_ok_def fl job_ok_def
      by (auto simp: table_simps split: job_outcome.splits if_splits)
    have tn: "\<forall>g\<in>set rest. \<forall>y\<in>set js. j_id y = j_id g \<longrightarrow> j_tenantId y = j_tenantId g"
    proof (intro ballI impI)
      fix g y assume g: "g \<in> set rest" and y: "y \<in> set js" and e: "j_id y = j_id g"
      from ids y obtain z where z: "z \<in> set (jobs (queue s))" "j_id y = j_id z" "j_tenantId y = j_tenantId z"
        by blast
      have "\<forall>f\<in>set (flight s). \<forall>j\<in>set (jobs (queue s)). j_id j = j_id f \<longrightarrow> j_tenantId j = j_tenantId f"
        using ok unfolding jobs_ok_def by blast
      moreover have "g \<in> set (flight s)" using g fl by blast
      moreover have "j_id z = j_id g" using z(2) e by (rule trans [OF sym])
      ultimately have "j_tenantId z = j_tenantId g" using z(1) by blast
      with z(3) show "j_tenantId y = j_tenantId g" by (rule trans)
    qed
    have w: "work_step s x = s\<lparr>queue := report f out now (queue s), flight := rest\<rparr>"
      using True by (simp add: x f_def rest_def)
    have kn: "j_id ` set js \<subseteq> set (known s)" "j_id ` set rest \<subseteq> set (known s)"
    proof -
      have k: "j_id ` set (jobs (queue s)) \<subseteq> set (known s)" "j_id ` set (flight s) \<subseteq> set (known s)"
        using ok by (simp_all add: jobs_ok_def)
      show "j_id ` set js \<subseteq> set (known s)"
      proof
        fix u assume "u \<in> j_id ` set js"
        with ids obtain z where "z \<in> set (jobs (queue s))" "u = j_id z" by fastforce
        with k(1) show "u \<in> set (known s)" by blast
      qed
      show "j_id ` set rest \<subseteq> set (known s)" using k(2) fl by simp
    qed
    show ?thesis unfolding w jobs_ok_def using uk kn d(1) jk tn by (simp add: js_def)
  qed
qed

lemma requeue_cases:
  "snd (requeue newId i actor role now db) = db \<or> (\<exists>j log. find_row (\<lambda>j. j_id j = i) (jobs db) = Some j
     \<and> (j_status j = J_FAILED \<or> j_status j = J_CANCELLED)
     \<and> snd (requeue newId i actor role now db) =
         db\<lparr>jobs := update_where (\<lambda>x. j_id x = i) (requeued now) (jobs db), job_log := log\<rparr>)"
  by (auto simp: requeue_def split: option.splits)

lemma retry_ok:
  assumes ok: "jobs_ok s"
  shows "jobs_ok (s\<lparr>queue := snd (requeue newId i actor role now (queue s))\<rparr>)"
  using requeue_cases [of newId i actor role now "queue s"]
proof
  assume "snd (requeue newId i actor role now (queue s)) = queue s"
  then show ?thesis using ok by simp
next
  assume "\<exists>j log. find_row (\<lambda>j. j_id j = i) (jobs (queue s)) = Some j
     \<and> (j_status j = J_FAILED \<or> j_status j = J_CANCELLED)
     \<and> snd (requeue newId i actor role now (queue s)) = (queue s)
         \<lparr>jobs := update_where (\<lambda>x. j_id x = i) (requeued now) (jobs (queue s)), job_log := log\<rparr>"
  then obtain j log where j: "j \<in> set (jobs (queue s))" "j_id j = i"
    "j_status j = J_FAILED \<or> j_status j = J_CANCELLED"
    and r: "snd (requeue newId i actor role now (queue s)) = (queue s)
      \<lparr>jobs := update_where (\<lambda>x. j_id x = i) (requeued now) (jobs (queue s)), job_log := log\<rparr>"
    by (auto dest: find_row_SomeD)
  have k: "unique_key j_id (update_where (\<lambda>x. j_id x = i) (requeued now) (jobs (queue s)))"
    using ok by (subst unique_key_update_where) (simp_all add: jobs_ok_def requeued_def)
  have nf: "i \<notin> j_id ` set (flight s)" using ok j by (auto simp: jobs_ok_def job_ok_def)
  show ?thesis
    using ok k nf unfolding jobs_ok_def r
    by (auto simp: table_simps requeued_def job_ok_def)
qed

lemma job_step_ok: "jobs_ok s \<Longrightarrow> jobs_ok (job_step newId s x)"
  by (cases "(newId, s, x)" rule: job_step.cases) (auto simp: work_step_ok retry_ok)

lemma find_row_update_where:
  assumes "\<And>r. key (f r) = key r"
  shows "find_row (\<lambda>r. key r = u) (update_where P f rows)
     = map_option (\<lambda>r. if P r then f r else r) (find_row (\<lambda>r. key r = u) rows)"
  by (induction rows) (simp_all add: table_simps assms)

lemma find_row_delete_where:
  assumes "unique_key key rows" "find_row (\<lambda>r. key r = u) (delete_where P rows) = Some r"
  shows "find_row (\<lambda>r. key r = u) rows = Some r"
proof -
  from find_row_SomeD [OF assms(2)] have r: "key r = u" "r \<in> set rows" by (auto simp: table_simps)
  then obtain r' where r': "find_row (\<lambda>r. key r = u) rows = Some r'"
    by (cases "find_row (\<lambda>r. key r = u) rows") (auto simp: find_row_None_iff)
  from find_row_SomeD [OF this] r assms(1) have "r' = r" by (auto dest: unique_keyD)
  with r' show ?thesis by simp
qed

lemma find_row_snoc_other:
  "key r \<noteq> u \<Longrightarrow> find_row (\<lambda>r. key r = u) (rows @ [r]) = find_row (\<lambda>r. key r = u) rows"
  by (induction rows) (simp_all add: table_simps)

definition job_left :: "job option \<Rightarrow> nat" where
  "job_left jo = (case jo of None \<Rightarrow> 0
      | Some j \<Rightarrow> if j_status j \<in> {J_PENDING, J_RETRY, J_RUNNING} then 3 - j_attempts j else 0)"

lemma report_left:
  assumes "unique_key j_id (jobs db)"
    and running: "\<forall>j\<in>set (jobs db). j_id j = j_id f \<longrightarrow> j_status j = J_RUNNING"
  shows "job_left (find_row (\<lambda>j. j_id j = i) (jobs (report f out now db)))
     \<le> job_left (find_row (\<lambda>j. j_id j = i) (jobs db))"
proof (cases "run_outcome f out")
  case Erased
  show ?thesis
  proof (cases "find_row (\<lambda>j. j_id j = i) (jobs (report f out now db))")
    case (Some j)
    with Erased have "find_row (\<lambda>j. j_id j = i) (delete_where (\<lambda>x. j_tenantId x = j_tenantId f) (jobs db)) = Some j"
      by (simp add: report_jobs)
    from find_row_delete_where [OF assms(1) this] Some show ?thesis by simp
  qed (simp add: job_left_def)
qed (use running in \<open>auto simp: report_jobs find_row_update_where job_left_def dest: find_row_SomeD
      split: option.splits\<close>)

lemma enqueue_left:
  "job_left (find_row (\<lambda>j. j_id j = i) (jobs (snd (enqueue newId now x db)))) \<le>
     (if i = newId \<and> find_row (\<lambda>j. j_id j = i) (jobs db) = None then 3
      else job_left (find_row (\<lambda>j. j_id j = i) (jobs db)))"
proof (cases "i = newId")
  case False
  then show ?thesis
    by (auto simp: enqueue_def new_job_def find_row_snoc_other split: option.splits)
next
  case True
  have "find_row (\<lambda>j. j_id j = newId) (rows @ [new_job newId now x]) =
      (case find_row (\<lambda>j. j_id j = newId) rows of None \<Rightarrow> Some (new_job newId now x) | r \<Rightarrow> r)" for rows
    by (induction rows) (simp_all add: table_simps new_job_def)
  with True show ?thesis
    by (auto simp: enqueue_def new_job_def job_left_def split: option.splits)
qed

text \<open>What is left of a job: its attempts while it can still be claimed or is in a worker's hands.\<close>

definition runs_left :: "uuid \<Rightarrow> job_world \<Rightarrow> nat" where
  "runs_left i s = (if i \<notin> set (known s) then 3
     else job_left (find_row (\<lambda>j. j_id j = i) (jobs (queue s))))"

definition takes :: "uuid \<Rightarrow> job_world \<Rightarrow> instant \<times> work \<Rightarrow> bool" where
  "takes i s x = (case x of
      (now, W_claim) \<Rightarrow> (case fst (claimSupported now (queue s)) of Some j \<Rightarrow> j_id j = i | None \<Rightarrow> False)
    | _ \<Rightarrow> False)"

lemma claim_left:
  assumes "jobs_ok s"
  shows "runs_left i (work_step s (now, W_claim)) \<le> runs_left i s - (if takes i s (now, W_claim) then 1 else 0)
     \<and> (takes i s (now, W_claim) \<longrightarrow> 0 < runs_left i s)"
  using claim_cases [of now "queue s"]
proof
  assume "claimSupported now (queue s) = (None, queue s)"
  then show ?thesis by (simp add: takes_def)
next
  assume "\<exists>j\<in>set (jobs (queue s)). claimable now j \<and>
     claimSupported now (queue s) = (Some (locked_job now j),
       (queue s)\<lparr>jobs := update_where (\<lambda>x. j_id x = j_id j) (locked_job now) (jobs (queue s))\<rparr>)"
  then obtain j where j: "j \<in> set (jobs (queue s))" "claimable now j"
    and c: "claimSupported now (queue s) = (Some (locked_job now j),
       (queue s)\<lparr>jobs := update_where (\<lambda>x. j_id x = j_id j) (locked_job now) (jobs (queue s))\<rparr>)" by blast
  obtain j' where f: "find_row (\<lambda>x. j_id x = j_id j) (jobs (queue s)) = Some j'"
    using j(1) by (cases "find_row (\<lambda>x. j_id x = j_id j) (jobs (queue s))") (auto simp: find_row_None_iff)
  have "j' = j" using find_row_SomeD [OF f] j(1) assms by (auto simp: jobs_ok_def dest: unique_keyD)
  with f have f': "find_row (\<lambda>x. j_id x = j_id j) (jobs (queue s)) = Some j" by simp
  have kn: "j_id j \<in> set (known s)" "j_attempts j < 3"
    using assms j by (auto simp: jobs_ok_def job_ok_def claimable_def)
  show ?thesis
    using f' kn j(2)
    by (auto simp: c runs_left_def takes_def find_row_update_key locked_job_def job_left_def claimable_def
        split: option.splits)
qed

lemma work_left: "jobs_ok s \<Longrightarrow> runs_left i (work_step s x) \<le> runs_left i s"
proof (cases "(s, x)" rule: work_step.cases)
  case (1 s' now newId ji)
  assume "jobs_ok s"
  then have "i \<notin> set (known s) \<Longrightarrow> find_row (\<lambda>j. j_id j = i) (jobs (queue s)) = None"
    by (auto simp: jobs_ok_def find_row_None_iff)
  then show ?thesis using 1 enqueue_left [of i newId now ji "queue s"]
    by (auto simp: runs_left_def split: if_splits)
next
  case (2 s' now)
  assume "jobs_ok s"
  from claim_left [OF this, of i now] 2 show ?thesis by (auto split: if_splits)
next
  case (3 s' now n out)
  assume "jobs_ok s"
  then have "unique_key j_id (jobs (queue s))"
    "n < length (flight s) \<Longrightarrow> \<forall>j\<in>set (jobs (queue s)). j_id j = j_id (flight s ! n) \<longrightarrow> j_status j = J_RUNNING"
    by (auto simp: jobs_ok_def job_ok_def)
  from report_left [OF this] 3 show ?thesis by (auto simp: runs_left_def)
qed

interpretation job_runs: budget work_step jobs_ok takes runs_left
proof unfold_locales
  fix s x i assume ok: "jobs_ok s"
  show "jobs_ok (work_step s x)" by (rule work_step_ok [OF ok])
  show "runs_left i (work_step s x) \<le> runs_left i s" by (rule work_left [OF ok])
  assume c: "takes i s x"
  then obtain now where "x = (now, W_claim)" by (auto simp: takes_def split: prod.splits work.splits)
  with claim_left [OF ok, of i now] c show "runs_left i (work_step s x) < runs_left i s" by auto
qed

definition job_claims :: "uuid \<Rightarrow> job_world \<Rightarrow> instant \<times> job_op \<Rightarrow> bool" where
  "job_claims i s x = (case x of (now, Work w) \<Rightarrow> takes i s (now, w) | _ \<Rightarrow> False)"

definition retry_of :: "uuid \<Rightarrow> instant \<times> job_op \<Rightarrow> bool" where
  "retry_of i x = (case x of (now, Retry k actor role) \<Rightarrow> k = i | _ \<Rightarrow> False)"

lemma job_left_le: "job_left jo \<le> 3" by (simp add: job_left_def split: option.splits)

lemma job_step_left:
  assumes "jobs_ok s"
  shows "(if job_claims i s x then 1 else 0) + runs_left i (job_step newId s x)
    \<le> runs_left i s + (if retry_of i x then 3 else 0)"
proof (cases "(newId, s, x)" rule: job_step.cases)
  case (1 n s' now w)
  with job_runs.use_costs [OF assms, of i "(now, w)"] job_runs.never_refilled [OF assms, of i "(now, w)"]
  show ?thesis by (auto simp: job_claims_def retry_of_def)
next
  case (2 n s' now k actor role)
  then have x: "x = (now, Retry k actor role)" by simp
  let ?db = "snd (requeue newId k actor role now (queue s))"
  have le: "job_left (find_row (\<lambda>j. j_id j = i) (jobs ?db))
      \<le> job_left (find_row (\<lambda>j. j_id j = i) (jobs (queue s))) + (if k = i then 3 else 0)"
    using requeue_cases [of newId k actor role now "queue s"]
      job_left_le [of "find_row (\<lambda>j. j_id j = i) (jobs ?db)"]
    by (cases "k = i") (auto simp: find_row_update_key requeued_def)
  then show ?thesis by (auto simp: x job_claims_def retry_of_def runs_left_def)
qed

lemma count_runs:
  "jobs_ok s \<Longrightarrow> count_uses (job_step newId) job_claims i s xs
     \<le> runs_left i s + 3 * length (filter (retry_of i) xs)"
proof (induction xs arbitrary: s)
  case (Cons x xs)
  from Cons.IH [OF job_step_ok [OF Cons.prems], of newId x] job_step_left [OF Cons.prems, of i x newId]
  show ?case by (auto split: if_splits)
qed simp

interpretation job_machine: op_machine "job_step newId" jobs_ok
  by unfold_locales (rule job_step_ok)

subsection \<open>Properties\<close>

definition no_jobs :: job_world where
  "no_jobs = \<lparr>queue = \<lparr>jobs = [], outbox = [], job_log = []\<rparr>, flight = [], known = []\<rparr>"

lemma no_jobs_ok: "jobs_ok no_jobs"
  by (simp add: jobs_ok_def no_jobs_def unique_key_def)

text \<open>
  C20: A job runs at most three times, plus three for each time a member of staff sends it back to the
  queue, whatever workers claim it, however their claims and reports interleave with new jobs, failures
  and crashes, and in whatever state the queue was.
\<close>

theorem job_runs_bounded:
  assumes "jobs_ok s"
  shows "count_uses (job_step newId) job_claims i s xs \<le> 3 + 3 * length (filter (retry_of i) xs)"
proof -
  have "runs_left i s \<le> 3" by (simp add: runs_left_def job_left_le)
  with count_runs [OF assms, of newId i xs] show ?thesis by linarith
qed

text \<open>A digest that fails three times, is retried by staff and fails three times more.\<close>

definition demo_failures :: "(instant \<times> job_op) list" where
  "demo_failures =
     (let f = Work (W_report 0 (Failed ''timeout''));
          c = Work W_claim
      in [(0, Work (W_enqueue ''j'' \<lparr>ji_tenantId = ''t'', ji_userId = ''u'', ji_type = NOTIFICATION_DIGEST,
            ji_payload = JNull, ji_idempotencyKey = ''d''\<rparr>)),
          (1, c), (2, f), (40000, c), (40001, f), (200000, c), (200001, f), (900000, c),
          (900001, Retry ''j'' ''staff'' ''SUPPORT''), (900002, c), (900003, f)])"

theorem job_runs_bounded_witness:
  "jobs_ok no_jobs
   \<and> count_uses (job_step (\<lambda>n. ''e'')) job_claims ''j'' no_jobs demo_failures \<le> 3 + 3 * 1
   \<and> count_uses (job_step (\<lambda>n. ''e'')) job_claims ''j'' no_jobs demo_failures = 4"
proof (intro conjI)
  have one: "length (filter (retry_of ''j'') demo_failures) = 1" by code_simp
  show "jobs_ok no_jobs" by (rule no_jobs_ok)
  show "count_uses (job_step (\<lambda>n. ''e'')) job_claims ''j'' no_jobs demo_failures \<le> 3 + 3 * 1"
    using job_runs_bounded [OF no_jobs_ok, of "\<lambda>n. ''e''" "''j''" demo_failures] one by simp
  show "count_uses (job_step (\<lambda>n. ''e'')) job_claims ''j'' no_jobs demo_failures = 4" by code_simp
qed



end
