(* ===== verification/Work_Erasure.thy ===== *)
theory Work_Erasure
  imports Prelude
begin

section \<open>A member's work after the member\<close>

text \<open>
  \<open>modules/workgraph/erasure.ts\<close>: what an erased member kept private goes, what was shared stays with its
  links to the member cleared by the database. The rows carry the columns the erasure reads; the keys of the
  schema (cascades and set-null) are part of the operations.
\<close>

datatype visibility = V_PRIVATE | V_WORKSPACE

datatype work_subject = WS_STREAM | WS_COMMITMENT | WS_DECISION

datatype evidence_kind = EK_EMAIL | EK_MEETING | EK_DOCUMENT | EK_NOTE

record work_item =
  wi_id :: uuid
  wi_tenantId :: uuid
  wi_createdBy :: "uuid option"
  wi_owner :: "uuid option"
  wi_approver :: "uuid option"
  wi_visibility :: visibility
  wi_blockerDecision :: "uuid option"
  wi_blockerCommitment :: "uuid option"

record work_evidence =
  we_tenantId :: uuid
  we_subjectType :: work_subject
  we_subjectId :: uuid
  we_kind :: evidence_kind
  we_addedBy :: "uuid option"

record work_db =
  streams :: "work_item list"
  commitments :: "work_item list"
  decisions :: "work_item list"
  dependencies :: "work_item list"
  evidences :: "work_evidence list"

definition mine_alone :: "uuid \<Rightarrow> uuid \<Rightarrow> work_item \<Rightarrow> bool" where
  "mine_alone tenantId k x \<longleftrightarrow> wi_tenantId x = tenantId \<and> wi_createdBy x = Some k \<and> wi_visibility x = V_PRIVATE"

definition nobody_else :: "uuid \<Rightarrow> uuid option \<Rightarrow> bool" where
  "nobody_else k x \<longleftrightarrow> x = Some k \<or> x = None"

definition ids_of :: "(work_item \<Rightarrow> bool) \<Rightarrow> work_item list \<Rightarrow> uuid set" where
  "ids_of P rows = wi_id ` set (filter P rows)"

definition drop_evidence :: "uuid \<Rightarrow> work_subject \<Rightarrow> uuid set \<Rightarrow> work_evidence list \<Rightarrow> work_evidence list" where
  "drop_evidence tenantId ty ids rows =
     delete_where (\<lambda>e. we_tenantId e = tenantId \<and> we_subjectType e = ty \<and> we_subjectId e \<in> ids) rows"

definition eraseMemberWork :: "uuid \<Rightarrow> uuid \<Rightarrow> work_db \<Rightarrow> work_db" where
  "eraseMemberWork tenantId k db =
     (let alone = (\<lambda>x. mine_alone tenantId k x \<and> nobody_else k (wi_owner x));
          cs = ids_of alone (commitments db);
          ds = ids_of (\<lambda>x. alone x \<and> nobody_else k (wi_approver x)) (decisions db);
          ss = ids_of alone (streams db);
          ev = drop_evidence tenantId WS_STREAM ss (drop_evidence tenantId WS_DECISION ds
                 (drop_evidence tenantId WS_COMMITMENT cs (evidences db)));
          goner = (\<lambda>ids x. wi_tenantId x = tenantId \<and> wi_id x \<in> ids);
          deps = delete_where (\<lambda>x. (\<exists>i\<in>cs. wi_blockerCommitment x = Some i) \<or> (\<exists>i\<in>ds. wi_blockerDecision x = Some i))
                   (dependencies db)
      in \<lparr>streams = delete_where (goner ss) (streams db),
          commitments = delete_where (goner cs) (commitments db),
          decisions = delete_where (goner ds) (decisions db),
          dependencies = delete_where alone deps,
          evidences = delete_where (\<lambda>e. we_tenantId e = tenantId \<and> we_addedBy e = Some k \<and> we_kind e = EK_EMAIL) ev\<rparr>)"

text \<open>The deletion of the membership row clears the columns that name it.\<close>

definition forget :: "uuid \<Rightarrow> uuid option \<Rightarrow> uuid option" where
  "forget k x = (if x = Some k then None else x)"

definition forget_member :: "uuid \<Rightarrow> work_db \<Rightarrow> work_db" where
  "forget_member k db =
     (let f = (\<lambda>x. x\<lparr>wi_createdBy := forget k (wi_createdBy x), wi_owner := forget k (wi_owner x),
                     wi_approver := forget k (wi_approver x)\<rparr>)
      in db\<lparr>streams := map f (streams db), commitments := map f (commitments db),
            decisions := map f (decisions db), dependencies := map f (dependencies db),
            evidences := map (\<lambda>e. e\<lparr>we_addedBy := forget k (we_addedBy e)\<rparr>) (evidences db)\<rparr>)"

lemma set_ids_of: "x \<in> set rows \<Longrightarrow> P x \<Longrightarrow> wi_id x \<in> ids_of P rows"
  by (auto simp: ids_of_def)

text \<open>What is shared stays; what somebody else owns or approves stays; what was the member's alone is gone.\<close>

lemma erase_commitments:
  assumes "unique_key wi_id (commitments db)"
  shows "x \<in> set (commitments (eraseMemberWork t k db)) \<longleftrightarrow>
    x \<in> set (commitments db) \<and> \<not> (mine_alone t k x \<and> nobody_else k (wi_owner x))"
  using assms
  by (auto simp: eraseMemberWork_def Let_def table_simps ids_of_def mine_alone_def dest: unique_keyD)

lemma erase_decisions:
  assumes "unique_key wi_id (decisions db)"
  shows "x \<in> set (decisions (eraseMemberWork t k db)) \<longleftrightarrow>
    x \<in> set (decisions db) \<and> \<not> (mine_alone t k x \<and> nobody_else k (wi_owner x) \<and> nobody_else k (wi_approver x))"
  using assms
  by (auto simp: eraseMemberWork_def Let_def table_simps ids_of_def mine_alone_def dest: unique_keyD)

lemma erase_streams:
  assumes "unique_key wi_id (streams db)"
  shows "x \<in> set (streams (eraseMemberWork t k db)) \<longleftrightarrow>
    x \<in> set (streams db) \<and> \<not> (mine_alone t k x \<and> nobody_else k (wi_owner x))"
  using assms
  by (auto simp: eraseMemberWork_def Let_def table_simps ids_of_def mine_alone_def dest: unique_keyD)

lemma forget_neq [simp]: "forget k x \<noteq> Some k"
  by (simp add: forget_def)

lemma erased_work_is_nobodys:
  "x \<in> set (commitments (forget_member k db)) \<Longrightarrow> wi_createdBy x \<noteq> Some k \<and> wi_owner x \<noteq> Some k"
  by (auto simp: forget_member_def Let_def)

end
