(* ===== verification/Lifecycle.thy ===== *)
theory Lifecycle
  imports Jobs Mailbox_Cleanup Work_Erasure
begin

section \<open>Deletion and export requests\<close>

text \<open>
  \<open>modules/lifecycle\<close> (service and routes) with the deletion job of \<open>job.service.ts\<close>: a request to erase a
  workspace or a person, its approval by an Owner, which starts the clock of thirty days, legal holds, the
  name-typed confirmation of a workspace's erasure, and the worker that carries it out. The state extends
  the queue of jobs, whose log is the audit log, by the tables an erasure touches. The answer of the policy
  module to "may an administrator ask for this" is the argument \<open>denied\<close>.
\<close>

subsection \<open>State\<close>

datatype lc_type = EXPORT | DELETION

datatype lc_status =
    REQUESTED | VERIFIED | APPROVED | BLOCKED | SCHEDULED | PROCESSING | LC_COMPLETED | LC_FAILED
  | REJECTED | LC_CANCELLED

datatype lc_target = TARGET_TENANT | TARGET_MAILBOX | TARGET_CONNECTED_ACCOUNT | TARGET_USER
  | TARGET_AI_OUTPUTS | TARGET_SYNCED_DATA

record lc_request =
  lr_id :: uuid
  lr_tenantId :: uuid
  lr_requestedBy :: uuid
  lr_type :: lc_type
  lr_status :: lc_status
  lr_targetType :: "lc_target option"
  lr_targetId :: "uuid option"
  lr_reason :: "string option"
  lr_jobId :: "uuid option"
  lr_approvedAt :: "instant option"
  lr_verifiedAt :: "instant option"
  lr_scheduledFor :: "instant option"
  lr_deadline :: "instant option"
  lr_blockReason :: "string option"
  lr_completedAt :: "instant option"

record person =
  pe_id :: uuid
  pe_email :: string
  pe_displayName :: string
  pe_passwordHash :: "string option"
  pe_disabled :: bool
  pe_activeTenantId :: "uuid option"
  pe_avatarUrl :: "string option"
  pe_phoneNumber :: "string option"
  pe_emailVerifiedAt :: "instant option"

record deletion_receipt =
  rc_tenantId :: uuid
  rc_requestId :: uuid
  rc_requestedBy :: uuid
  rc_nameHash :: string
  rc_deletedAt :: instant

record lc_db = job_db +
  requests :: "lc_request list"
  workspaces :: "(uuid \<times> string) list"
  lc_mailboxes :: "mailbox list"
  lc_tasks :: "cleanup_task list"
  lc_members :: "membership list"
  people :: "person list"
  identities :: "uuid list" \<comment> \<open>for every sign-in identity, one-time code and session: the user\<close>
  otps :: "uuid list"
  refresh_tokens :: "uuid list"
  work :: work_db
  receipts :: "deletion_receipt list"

record lc_ctx =
  lx_tenantId :: uuid
  lx_userId :: uuid
  lx_role :: membership_role

record lc_env =
  le_newId :: "nat \<Rightarrow> uuid"
  le_digest :: "string \<Rightarrow> string"

definition HARD_DELETE_SLA_DAYS :: int where
  "HARD_DELETE_SLA_DAYS = 30"

definition hardDeleteDeadlineFrom :: "instant \<Rightarrow> instant" where
  "hardDeleteDeadlineFrom verifiedAt = verifiedAt + HARD_DELETE_SLA_DAYS * day_ms"

definition EXECUTABLE_TARGETS :: "lc_target list" where
  "EXECUTABLE_TARGETS = [TARGET_TENANT, TARGET_USER]"

definition BLOCKABLE :: "lc_status list" where
  "BLOCKABLE = [REQUESTED, VERIFIED, APPROVED, SCHEDULED]"

definition OPEN_STATUSES :: "lc_status list" where
  "OPEN_STATUSES = [REQUESTED, VERIFIED, APPROVED, SCHEDULED, PROCESSING]"

text \<open>The workspace's event, by the actor of the request.\<close>

definition lc_audit :: "lc_env \<Rightarrow> lc_ctx \<Rightarrow> instant \<Rightarrow> string \<Rightarrow> uuid \<Rightarrow> lc_db \<Rightarrow> lc_db" where
  "lc_audit env c now ty i db = db\<lparr>job_log :=
     log_event (le_newId env) now (lx_tenantId c) (Some (lx_userId c)) None ty ''DataLifecycleRequest'' i None (job_log db)\<rparr>"

definition set_request :: "uuid \<Rightarrow> uuid \<Rightarrow> (lc_request \<Rightarrow> lc_request) \<Rightarrow> lc_db \<Rightarrow> lc_db" where
  "set_request tenantId i f db =
     db\<lparr>requests := update_where (\<lambda>r. lr_id r = i \<and> lr_tenantId r = tenantId) f (requests db)\<rparr>"

text \<open>\<open>requireRole\<close> of the middleware: SUPPORT is refused like every other role that is not listed.\<close>

definition requireRole :: "membership_role list \<Rightarrow> lc_ctx \<Rightarrow> unit result" where
  "requireRole allowed c = require (lx_role c \<in> set allowed) (AppError 403 FORBIDDEN None)"

definition lc_open :: "uuid \<Rightarrow> uuid \<Rightarrow> lc_status list \<Rightarrow> lc_db \<Rightarrow> lc_request result" where
  "lc_open tenantId i sts db =
     (case find_row (\<lambda>r. lr_id r = i \<and> lr_tenantId r = tenantId \<and> lr_type r = DELETION \<and> lr_status r \<in> set sts)
        (requests db) of Some r \<Rightarrow> Inr r | None \<Rightarrow> not_found)"

definition job_of :: "lc_request \<Rightarrow> lc_db \<Rightarrow> job option" where
  "job_of r db = (case lr_jobId r of None \<Rightarrow> None | Some i \<Rightarrow> find_row (\<lambda>j. j_id j = i) (jobs db))"

definition set_job :: "job option \<Rightarrow> uuid \<Rightarrow> job_status list \<Rightarrow> (job \<Rightarrow> job) \<Rightarrow> lc_db \<Rightarrow> lc_db" where
  "set_job jo tenantId sts f db = (case jo of None \<Rightarrow> db
     | Some j \<Rightarrow> db\<lparr>jobs := update_where (\<lambda>x. j_id x = j_id j \<and> j_tenantId x = tenantId \<and> j_status x \<in> set sts) f (jobs db)\<rparr>)"

definition cancelled_job :: "instant \<Rightarrow> job \<Rightarrow> job" where
  "cancelled_job now j = j\<lparr>j_status := J_CANCELLED, j_completedAt := Some now\<rparr>"

subsection \<open>Asking\<close>

definition assertWorkspacePermits ::
  "lc_env \<Rightarrow> lc_ctx \<Rightarrow> lc_type \<Rightarrow> string option \<Rightarrow> instant \<Rightarrow> lc_db \<Rightarrow> unit result \<times> lc_db" where
  "assertWorkspacePermits env c ty denied now db =
     (if lx_role c = OWNER then (Inr (), db)
      else case denied of
        None \<Rightarrow> (Inr (), db)
      | Some why \<Rightarrow> (fail_because 403 FORBIDDEN why,
          db\<lparr>job_log := log_event (le_newId env) now (lx_tenantId c) (Some (lx_userId c)) None
            (if ty = EXPORT then ''DATA_EXPORT_POLICY_DENIED'' else ''DATA_DELETION_POLICY_DENIED'')
            ''Tenant'' (lx_tenantId c) (Some (JObj [(''reason'', JStr why)])) (job_log db)\<rparr>))"

definition assertExecutableTarget :: "lc_target \<Rightarrow> unit result" where
  "assertExecutableTarget t = require (t \<in> set EXECUTABLE_TARGETS) (AppError 422 VALIDATION_ERROR None)"

definition new_request ::
  "uuid \<Rightarrow> lc_ctx \<Rightarrow> lc_type \<Rightarrow> lc_target option \<Rightarrow> uuid option \<Rightarrow> string option \<Rightarrow> lc_request" where
  "new_request i c ty target tgtId why =
     \<lparr>lr_id = i, lr_tenantId = lx_tenantId c, lr_requestedBy = lx_userId c, lr_type = ty, lr_status = REQUESTED,
      lr_targetType = target, lr_targetId = tgtId, lr_reason = why, lr_jobId = None, lr_approvedAt = None,
      lr_verifiedAt = None, lr_scheduledFor = None, lr_deadline = None, lr_blockReason = None, lr_completedAt = None\<rparr>"

definition request_deletion ::
  "lc_env \<Rightarrow> uuid \<Rightarrow> lc_ctx \<Rightarrow> string option \<Rightarrow> lc_target \<Rightarrow> uuid option \<Rightarrow> string option \<Rightarrow> instant \<Rightarrow> lc_db
     \<Rightarrow> lc_request result \<times> lc_db" where
  "request_deletion env i c denied target tgtId why now db =
     (case requireRole [OWNER, ADMIN] c of Inl e \<Rightarrow> (Inl e, db)
      | Inr _ \<Rightarrow>
          (case assertWorkspacePermits env c DELETION denied now db of
             (Inl e, db1) \<Rightarrow> (Inl e, db1)
           | (Inr _, db1) \<Rightarrow>
               (case assertExecutableTarget target of Inl e \<Rightarrow> (Inl e, db1)
                | Inr _ \<Rightarrow>
                    if target \<noteq> TARGET_TENANT \<and> \<not> truthy tgtId then (fail_with 422 VALIDATION_ERROR, db1)
                    else if target = TARGET_USER \<and> tgtId = Some (lx_userId c) then (fail_with 422 VALIDATION_ERROR, db1)
                    else
                      (let r = new_request i c DELETION (Some target) (if target = TARGET_TENANT then None else tgtId) why
                       in (Inr r, lc_audit env c now ''DATA_DELETION_REQUESTED'' i
                             (db1\<lparr>requests := requests db1 @ [r]\<rparr>))))))"

text \<open>An export is its job: the same key answers with the request of the first time.\<close>

definition request_export ::
  "lc_env \<Rightarrow> uuid \<Rightarrow> uuid \<Rightarrow> lc_ctx \<Rightarrow> string option \<Rightarrow> string \<Rightarrow> string option \<Rightarrow> instant \<Rightarrow> lc_db
     \<Rightarrow> (lc_request \<times> job) result \<times> lc_db" where
  "request_export env i newJob c denied key why now db =
     (case requireRole [OWNER, ADMIN] c of Inl e \<Rightarrow> (Inl e, db)
      | Inr _ \<Rightarrow>
          (case assertWorkspacePermits env c EXPORT denied now db of
             (Inl e, db1) \<Rightarrow> (Inl e, db1)
           | (Inr _, db1) \<Rightarrow>
               (case enqueue newJob now \<lparr>ji_tenantId = lx_tenantId c, ji_userId = lx_userId c, ji_type = DATA_EXPORT,
                    ji_payload = JObj [(''scope'', JStr ''TENANT'')], ji_idempotencyKey = ''export:'' @ key\<rparr> db1 of
                  (j, db2) \<Rightarrow>
                    (case find_row (\<lambda>r. lr_tenantId r = lx_tenantId c \<and> lr_jobId r = Some (j_id j)) (requests db2) of
                       Some r \<Rightarrow> (Inr (r, j), db2)
                     | None \<Rightarrow>
                         (let r = (new_request i c EXPORT None None why)
                              \<lparr>lr_status := APPROVED, lr_approvedAt := Some now, lr_jobId := Some (j_id j)\<rparr>
                          in (Inr (r, j), lc_audit env c now ''DATA_EXPORT_REQUESTED'' i
                               (db2\<lparr>requests := requests db2 @ [r]\<rparr>)))))))"

subsection \<open>Approving, holding, scheduling\<close>

definition deletion_payload :: "uuid \<Rightarrow> bool \<Rightarrow> json" where
  "deletion_payload i confirmed =
     JObj ([(''requestId'', JStr i)] @ (if confirmed then [(''confirmed'', JBool True)] else []))"

definition approve :: "lc_env \<Rightarrow> uuid \<Rightarrow> lc_ctx \<Rightarrow> uuid \<Rightarrow> instant \<Rightarrow> lc_db \<Rightarrow> job result \<times> lc_db" where
  "approve env newJob c i now db =
     (case requireRole [OWNER] c of Inl e \<Rightarrow> (Inl e, db)
      | Inr _ \<Rightarrow>
          (case lc_open (lx_tenantId c) i [REQUESTED] db of
             Inl e \<Rightarrow> (Inl e, db)
           | Inr r \<Rightarrow>
               (case enqueue newJob now \<lparr>ji_tenantId = lx_tenantId c, ji_userId = lx_userId c, ji_type = DATA_DELETION,
                    ji_payload = deletion_payload (lr_id r) (lr_targetType r = Some TARGET_USER),
                    ji_idempotencyKey = ''deletion:'' @ lr_id r\<rparr> db of
                  (j, db1) \<Rightarrow> (Inr j, lc_audit env c now ''DATA_DELETION_APPROVED'' (lr_id r)
                      (set_request (lx_tenantId c) (lr_id r)
                        (\<lambda>x. x\<lparr>lr_status := APPROVED, lr_approvedAt := Some now, lr_verifiedAt := Some now,
                           lr_deadline := Some (hardDeleteDeadlineFrom now), lr_scheduledFor := Some now,
                           lr_jobId := Some (j_id j)\<rparr>) db1)))))"

definition block :: "lc_env \<Rightarrow> lc_ctx \<Rightarrow> uuid \<Rightarrow> string \<Rightarrow> instant \<Rightarrow> lc_db \<Rightarrow> unit result \<times> lc_db" where
  "block env c i why now db =
     (case requireRole [OWNER] c of Inl e \<Rightarrow> (Inl e, db)
      | Inr _ \<Rightarrow>
          (case lc_open (lx_tenantId c) i BLOCKABLE db of
             Inl e \<Rightarrow> (Inl e, db)
           | Inr r \<Rightarrow> (Inr (), lc_audit env c now ''DATA_DELETION_BLOCKED'' (lr_id r)
               (set_request (lx_tenantId c) (lr_id r)
                 (\<lambda>x. x\<lparr>lr_status := BLOCKED, lr_blockReason := Some why, lr_deadline := None, lr_scheduledFor := None\<rparr>)
                 (set_job (job_of r db) (lx_tenantId c) [J_PENDING, J_RETRY] (cancelled_job now) db)))))"

definition unblock :: "lc_env \<Rightarrow> lc_ctx \<Rightarrow> uuid \<Rightarrow> instant \<Rightarrow> lc_db \<Rightarrow> unit result \<times> lc_db" where
  "unblock env c i now db =
     (case requireRole [OWNER] c of Inl e \<Rightarrow> (Inl e, db)
      | Inr _ \<Rightarrow>
          (case lc_open (lx_tenantId c) i [BLOCKED] db of
             Inl e \<Rightarrow> (Inl e, db)
           | Inr r \<Rightarrow> (Inr (), lc_audit env c now ''DATA_DELETION_UNBLOCKED'' (lr_id r)
               (set_request (lx_tenantId c) (lr_id r)
                 (\<lambda>x. x\<lparr>lr_status := REQUESTED, lr_blockReason := None, lr_verifiedAt := None, lr_deadline := None,
                    lr_approvedAt := None, lr_jobId := None\<rparr>) db))))"

definition schedule :: "lc_env \<Rightarrow> lc_ctx \<Rightarrow> uuid \<Rightarrow> instant \<Rightarrow> instant \<Rightarrow> lc_db \<Rightarrow> unit result \<times> lc_db" where
  "schedule env c i at now db =
     (case requireRole [OWNER] c of Inl e \<Rightarrow> (Inl e, db)
      | Inr _ \<Rightarrow>
          (case lc_open (lx_tenantId c) i [APPROVED, SCHEDULED] db of
             Inl e \<Rightarrow> (Inl e, db)
           | Inr r \<Rightarrow>
               if at \<le> now then (fail_with 422 VALIDATION_ERROR, db)
               else (case lr_deadline r of
                   None \<Rightarrow> (fail_with 409 CONFLICT, db)
                 | Some deadline \<Rightarrow>
                     if deadline < at then (fail_with 422 VALIDATION_ERROR, db)
                     else (Inr (), lc_audit env c now ''DATA_DELETION_SCHEDULED'' (lr_id r)
                       (set_request (lx_tenantId c) (lr_id r)
                         (\<lambda>x. x\<lparr>lr_status := SCHEDULED, lr_scheduledFor := Some at\<rparr>)
                         (set_job (job_of r db) (lx_tenantId c) [J_PENDING, J_RETRY] (\<lambda>j. j\<lparr>j_runAt := at\<rparr>) db))))))"

definition confirm_deletion ::
  "lc_env \<Rightarrow> lc_ctx \<Rightarrow> uuid \<Rightarrow> string \<Rightarrow> instant \<Rightarrow> lc_db \<Rightarrow> unit result \<times> lc_db" where
  "confirm_deletion env c i name now db =
     (case requireRole [OWNER] c of Inl e \<Rightarrow> (Inl e, db)
      | Inr _ \<Rightarrow>
          if map_of (workspaces db) (lx_tenantId c) \<noteq> Some name then (fail_with 400 VALIDATION_ERROR, db)
          else
            (case find_row (\<lambda>r. lr_id r = i \<and> lr_tenantId r = lx_tenantId c \<and> lr_type r = DELETION
                 \<and> lr_status r \<in> {APPROVED, SCHEDULED} \<and> lr_targetType r = Some TARGET_TENANT) (requests db) of
               None \<Rightarrow> (not_found, db)
             | Some r \<Rightarrow>
                 (case job_of r db of
                    None \<Rightarrow> (not_found, db)
                  | Some j \<Rightarrow>
                      if j_status j \<noteq> J_PENDING then (not_found, db)
                      else (Inr (), lc_audit env c now ''DATA_DELETION_CONFIRMED'' (lr_id r)
                        (set_request (lx_tenantId c) (lr_id r) (\<lambda>x. x\<lparr>lr_status := PROCESSING\<rparr>)
                          (db\<lparr>jobs := update_where (\<lambda>x. j_id x = j_id j \<and> j_tenantId x = lx_tenantId c)
                            (\<lambda>x. x\<lparr>j_payload := deletion_payload (lr_id r) True, j_runAt := now\<rparr>) (jobs db)\<rparr>))))))"

definition cancel_deletion :: "lc_env \<Rightarrow> lc_ctx \<Rightarrow> uuid \<Rightarrow> instant \<Rightarrow> lc_db \<Rightarrow> unit result \<times> lc_db" where
  "cancel_deletion env c i now db =
     (case requireRole [OWNER] c of Inl e \<Rightarrow> (Inl e, db)
      | Inr _ \<Rightarrow>
          (case lc_open (lx_tenantId c) i [REQUESTED, APPROVED] db of
             Inl e \<Rightarrow> (Inl e, db)
           | Inr r \<Rightarrow> (Inr (), lc_audit env c now ''DATA_DELETION_CANCELLED'' (lr_id r)
               (set_request (lx_tenantId c) (lr_id r)
                 (\<lambda>x. x\<lparr>lr_status := LC_CANCELLED, lr_completedAt := Some now\<rparr>)
                 (set_job (job_of r db) (lx_tenantId c) [J_PENDING] (cancelled_job now) db)))))"

subsection \<open>What is owed\<close>

record sla_report =
  sr_overdue :: "lc_request list"
  sr_dueSoon :: "lc_request list"
  sr_blocked :: "lc_request list"
  sr_completedCount :: nat

definition due_in :: "(instant \<Rightarrow> bool) \<Rightarrow> lc_request \<Rightarrow> bool" where
  "due_in P r \<longleftrightarrow> lr_type r = DELETION \<and> lr_status r \<in> set OPEN_STATUSES
     \<and> (case lr_deadline r of Some d \<Rightarrow> P d | None \<Rightarrow> False)"

definition slaReport :: "uuid \<Rightarrow> instant \<Rightarrow> lc_db \<Rightarrow> sla_report" where
  "slaReport tenantId now db =
     (let mine = filter (\<lambda>r. lr_tenantId r = tenantId) (requests db);
          by_deadline = sort_key (\<lambda>r. the (lr_deadline r))
      in \<lparr>sr_overdue = by_deadline (filter (due_in (\<lambda>d. d < now)) mine),
          sr_dueSoon = by_deadline (filter (due_in (\<lambda>d. now \<le> d \<and> d \<le> now + 7 * day_ms)) mine),
          sr_blocked = rev (filter (\<lambda>r. lr_type r = DELETION \<and> lr_status r = BLOCKED) mine),
          sr_completedCount = count_where (\<lambda>r. lr_type r = DELETION \<and> lr_status r = LC_COMPLETED) mine\<rparr>)"

definition flagged :: "lc_db \<Rightarrow> uuid \<Rightarrow> bool" where
  "flagged db i \<longleftrightarrow> (\<exists>e\<in>set (job_log db). eventType e = ''DATA_DELETION_SLA_BREACHED'' \<and> targetId e = Some i)"

definition flag_breach :: "lc_env \<Rightarrow> instant \<Rightarrow> lc_request \<Rightarrow> lc_db \<Rightarrow> lc_db" where
  "flag_breach env now r db = db\<lparr>job_log := log_event (le_newId env) now (lr_tenantId r) (Some (lr_requestedBy r)) None
     ''DATA_DELETION_SLA_BREACHED'' ''DataLifecycleRequest'' (lr_id r) None (job_log db)\<rparr>"

definition sweepOverdue :: "lc_env \<Rightarrow> instant \<Rightarrow> lc_db \<Rightarrow> nat \<times> lc_db" where
  "sweepOverdue env now db =
     (let overdue = take 100 (filter (due_in (\<lambda>d. d < now)) (requests db));
          new = filter (\<lambda>r. \<not> flagged db (lr_id r)) overdue
      in (length new, foldl (\<lambda>d r. flag_breach env now r d) db new))"

text \<open>
  A hundred requests that are late and flagged keep every other late one from being flagged: the sweep looks
  at a hundred rows before it drops the flagged ones.
\<close>

lemma sweep_starves:
  assumes "requests db = old @ others" "length old = 100"
    and "\<forall>r\<in>set old. due_in (\<lambda>d. d < now) r \<and> flagged db (lr_id r)"
  shows "sweepOverdue env now db = (0, db)"
proof -
  have "filter (due_in (\<lambda>d. d < now)) old = old" using assms(3) by (simp add: filter_id_conv)
  then have "take 100 (filter (due_in (\<lambda>d. d < now)) (requests db)) = old" by (simp add: assms(1,2))
  moreover have "filter (\<lambda>r. \<not> flagged db (lr_id r)) old = []" using assms(3) by (simp add: filter_empty_conv)
  ultimately show ?thesis by (simp add: sweepOverdue_def Let_def)
qed

subsection \<open>Erasing a person\<close>

definition anonymized :: "string \<Rightarrow> person \<Rightarrow> person" where
  "anonymized placeholder x = x\<lparr>pe_email := ''deleted-'' @ placeholder @ ''@deleted.invalid'',
     pe_displayName := ''Deleted user'', pe_passwordHash := None, pe_disabled := True, pe_activeTenantId := None,
     pe_avatarUrl := None, pe_emailVerifiedAt := None\<rparr>"

definition drop_membership :: "(uuid \<Rightarrow> uuid) \<Rightarrow> instant \<Rightarrow> lc_ctx \<Rightarrow> membership \<Rightarrow> lc_db \<Rightarrow> lc_db" where
  "drop_membership newTask now c m db = db\<lparr>
     lc_tasks := snd (enqueueForErasure newTask now
       (filter (\<lambda>b. mb_tenantId b = tm_tenantId m \<and> mb_membershipId b = Some (tm_id m)) (lc_mailboxes db))
       USER_ERASURE (Some (lx_userId c)) (lc_tasks db)),
     work := forget_member (tm_id m) (eraseMemberWork (tm_tenantId m) (tm_id m) (work db)),
     lc_members := delete_where (\<lambda>x. tm_id x = tm_id m) (lc_members db),
     lc_mailboxes := delete_where (\<lambda>b. mb_membershipId b = Some (tm_id m)) (lc_mailboxes db)\<rparr>"

definition remaining_memberships :: "uuid \<Rightarrow> lc_db \<Rightarrow> nat" where
  "remaining_memberships userId db = count_where (\<lambda>m. tm_userId m = userId \<and> tm_status m = MS_ACTIVE) (lc_members db)"

definition anonymizeUser ::
  "lc_env \<Rightarrow> string \<Rightarrow> (uuid \<Rightarrow> uuid) \<Rightarrow> lc_ctx \<Rightarrow> uuid \<Rightarrow> uuid \<Rightarrow> instant \<Rightarrow> lc_db \<Rightarrow> (bool \<times> nat) result \<times> lc_db" where
  "anonymizeUser env placeholder newTask c tenantId userId now db =
     (case find_row (\<lambda>m. tm_tenantId m = tenantId \<and> tm_userId m = userId) (lc_members db) of
        None \<Rightarrow> (not_found, db)
      | Some m \<Rightarrow>
          (let db1 = drop_membership newTask now c m db;
               remaining = remaining_memberships userId db1;
               db2 = (if remaining = 0
                 then db1\<lparr>identities := filter (\<lambda>u. u \<noteq> userId) (identities db1), otps := filter (\<lambda>u. u \<noteq> userId) (otps db1),
                        refresh_tokens := filter (\<lambda>u. u \<noteq> userId) (refresh_tokens db1),
                        people := update_where (\<lambda>x. pe_id x = userId) (anonymized placeholder) (people db1)\<rparr>
                 else db1)
           in (Inr (remaining = 0, remaining),
               db2\<lparr>job_log := log_event (le_newId env) now tenantId (Some (lx_userId c)) None ''DATA_USER_ANONYMIZED''
                 ''AppUser'' userId (Some (JObj [(''accountAnonymized'', JBool (remaining = 0))])) (job_log db2)\<rparr>)))"

text \<open>The telephone number stays with the account that was anonymized.\<close>

lemma anonymized_keeps_phone: "pe_phoneNumber (anonymized placeholder x) = pe_phoneNumber x"
  by (simp add: anonymized_def)

subsection \<open>The deletion job\<close>

definition deletion_target :: "json \<Rightarrow> uuid option" where
  "deletion_target payload = (case payload of
      JObj kvs \<Rightarrow> (case (field ''confirmed'' kvs, field ''requestId'' kvs) of
          (Some (JBool True), Some (JStr i)) \<Rightarrow> Some i | _ \<Rightarrow> None)
    | _ \<Rightarrow> None)"

definition look_up_target :: "uuid \<Rightarrow> uuid \<Rightarrow> lc_db \<Rightarrow> lc_request option" where
  "look_up_target tenantId i db =
     find_row (\<lambda>r. lr_id r = i \<and> lr_tenantId r = tenantId \<and> lr_type r = DELETION) (requests db)"

text \<open>Everything of the workspace goes, with its rows in the log; the receipt and the cleanup tasks stay.\<close>

definition erase_workspace ::
  "lc_env \<Rightarrow> (uuid \<Rightarrow> uuid) \<Rightarrow> job \<Rightarrow> uuid \<Rightarrow> string \<Rightarrow> instant \<Rightarrow> lc_db \<Rightarrow> lc_db" where
  "erase_workspace env newTask j i name now db =
     (let t = j_tenantId j; other = (\<lambda>x. wi_tenantId x \<noteq> t) in db\<lparr>
       lc_tasks := snd (enqueueForErasure newTask now (filter (\<lambda>b. mb_tenantId b = t \<and> mb_hosted b) (lc_mailboxes db))
         TENANT_ERASURE (Some (j_createdBy j)) (lc_tasks db)),
       receipts := receipts db @ [\<lparr>rc_tenantId = t, rc_requestId = i, rc_requestedBy = j_createdBy j,
         rc_nameHash = le_digest env name, rc_deletedAt = now\<rparr>],
       requests := delete_where (\<lambda>r. lr_tenantId r = t) (requests db),
       workspaces := delete_where (\<lambda>w. fst w = t) (workspaces db),
       lc_members := delete_where (\<lambda>m. tm_tenantId m = t) (lc_members db),
       lc_mailboxes := delete_where (\<lambda>b. mb_tenantId b = t) (lc_mailboxes db),
       work := \<lparr>streams = filter other (streams (work db)), commitments = filter other (commitments (work db)),
         decisions = filter other (decisions (work db)), dependencies = filter other (dependencies (work db)),
         evidences = filter (\<lambda>e. we_tenantId e \<noteq> t) (evidences (work db))\<rparr>\<rparr>)"

definition delete_person ::
  "lc_env \<Rightarrow> string \<Rightarrow> (uuid \<Rightarrow> uuid) \<Rightarrow> job \<Rightarrow> lc_request \<Rightarrow> instant \<Rightarrow> lc_db \<Rightarrow> job_outcome \<times> lc_db" where
  "delete_person env placeholder newTask j seen now db =
     (let t = j_tenantId j; c = \<lparr>lx_tenantId = t, lx_userId = j_createdBy j, lx_role = OWNER\<rparr> in
      case lr_targetId seen of
        None \<Rightarrow> (Failed ''User deletion request has no target'', db)
      | Some u \<Rightarrow>
          if lr_status seen \<notin> {APPROVED, SCHEDULED, PROCESSING} then (Failed ''User deletion request is not approved'', db)
          else if find_row (\<lambda>r. lr_id r = lr_id seen \<and> lr_tenantId r = t) (requests db) = None
            then (Failed ''Record to update not found'', db)
          else
            (case anonymizeUser env placeholder newTask c t u now
                (set_request t (lr_id seen) (\<lambda>r. r\<lparr>lr_status := PROCESSING\<rparr>) db) of
               (Inl e, db1) \<Rightarrow> (Failed ''No membership for that user in this workspace'', db1)
             | (Inr (b, n), db1) \<Rightarrow> (Done (JObj [(''accountAnonymized'', JBool b)]),
                 set_request t (lr_id seen) (\<lambda>r. r\<lparr>lr_status := LC_COMPLETED, lr_completedAt := Some now\<rparr>) db1)))"

definition delete_workspace ::
  "lc_env \<Rightarrow> (uuid \<Rightarrow> uuid) \<Rightarrow> job \<Rightarrow> uuid \<Rightarrow> instant \<Rightarrow> lc_db \<Rightarrow> job_outcome \<times> lc_db" where
  "delete_workspace env newTask j i now db =
     (case (map_of (workspaces db) (j_tenantId j),
            find_row (\<lambda>r. lr_id r = i \<and> lr_tenantId r = j_tenantId j \<and> lr_type r = DELETION \<and> lr_status r = PROCESSING
              \<and> lr_jobId r = Some (j_id j)) (requests db)) of
        (Some name, Some r) \<Rightarrow> (Erased, erase_workspace env newTask j i name now db)
      | _ \<Rightarrow> (Failed ''Confirmed tenant deletion request is invalid'', db))"

text \<open>The request is read first, \<open>seen\<close>; what follows does not lock it.\<close>

definition execute_deletion ::
  "lc_env \<Rightarrow> string \<Rightarrow> (uuid \<Rightarrow> uuid) \<Rightarrow> job \<Rightarrow> lc_request option \<Rightarrow> instant \<Rightarrow> lc_db \<Rightarrow> job_outcome \<times> lc_db" where
  "execute_deletion env placeholder newTask j seen now db =
     (case deletion_target (j_payload j) of
        None \<Rightarrow> (Failed ''Tenant deletion lacks final confirmation'', db)
      | Some i \<Rightarrow>
          (case seen of
             Some q \<Rightarrow> if lr_targetType q = Some TARGET_USER then delete_person env placeholder newTask j q now db
                       else delete_workspace env newTask j i now db
           | None \<Rightarrow> delete_workspace env newTask j i now db))"

definition seen_by :: "job \<Rightarrow> lc_db \<Rightarrow> lc_request option" where
  "seen_by j db = (case deletion_target (j_payload j) of None \<Rightarrow> None | Some i \<Rightarrow> look_up_target (j_tenantId j) i db)"

definition processDeletion ::
  "lc_env \<Rightarrow> string \<Rightarrow> (uuid \<Rightarrow> uuid) \<Rightarrow> job \<Rightarrow> instant \<Rightarrow> lc_db \<Rightarrow> job_outcome \<times> lc_db" where
  "processDeletion env placeholder newTask j now db =
     execute_deletion env placeholder newTask j (seen_by j db) now db"

subsection \<open>Requests and workers side by side\<close>

text \<open>
  A worker claims a deletion job, reads its request (\<open>seen\<close>) and carries it out; requests of Owners and other
  workers come between. \<open>lw_known\<close> are the identifiers ever given to a request or read from a payload: a new
  primary key is none of them.
\<close>

record lc_world =
  lw_db :: lc_db
  lw_flight :: "(job \<times> lc_request option option) list"
  lw_known :: "uuid list"

datatype lc_op =
    L_request uuid "string option" lc_target "uuid option" "string option"
  | L_export uuid uuid "string option" string
  | L_approve uuid uuid
  | L_block uuid string
  | L_unblock uuid
  | L_schedule uuid instant
  | L_confirm uuid string
  | L_cancel uuid

datatype lc_move =
    Ask lc_ctx lc_op
  | Claim
  | Look nat
  | Execute nat string "uuid \<Rightarrow> uuid"
  | Other "job_outcome" nat \<comment> \<open>a job that is no deletion ends\<close>
  | Sweep

fun lc_ask :: "lc_env \<Rightarrow> instant \<Rightarrow> lc_ctx \<Rightarrow> lc_op \<Rightarrow> lc_db \<Rightarrow> lc_db" where
  "lc_ask env now c (L_request i denied t u why) db = snd (request_deletion env i c denied t u why now db)"
| "lc_ask env now c (L_export i newJob denied key) db = snd (request_export env i newJob c denied key None now db)"
| "lc_ask env now c (L_approve newJob i) db = snd (approve env newJob c i now db)"
| "lc_ask env now c (L_block i why) db = snd (block env c i why now db)"
| "lc_ask env now c (L_unblock i) db = snd (unblock env c i now db)"
| "lc_ask env now c (L_schedule i at) db = snd (schedule env c i at now db)"
| "lc_ask env now c (L_confirm i name) db = snd (confirm_deletion env c i name now db)"
| "lc_ask env now c (L_cancel i) db = snd (cancel_deletion env c i now db)"

fun new_request_id :: "lc_op \<Rightarrow> uuid option" where
  "new_request_id (L_request i denied t u why) = Some i"
| "new_request_id (L_export i newJob denied key) = Some i"
| "new_request_id _ = None"

fun lc_step :: "lc_env \<Rightarrow> lc_world \<Rightarrow> instant \<times> lc_move \<Rightarrow> lc_world" where
  "lc_step env s (now, Ask c x) =
     (case new_request_id x of
        None \<Rightarrow> s\<lparr>lw_db := lc_ask env now c x (lw_db s)\<rparr>
      | Some i \<Rightarrow> if i \<in> set (lw_known s) then s
          else s\<lparr>lw_db := lc_ask env now c x (lw_db s), lw_known := lw_known s @ [i]\<rparr>)"
| "lc_step env s (now, Claim) =
     (case claimSupported now (lw_db s) of
        (None, db) \<Rightarrow> s
      | (Some j, db) \<Rightarrow> s\<lparr>lw_db := db, lw_flight := lw_flight s @ [(j, None)]\<rparr>)"
| "lc_step env s (now, Look n) =
     (if n < length (lw_flight s)
      then (let j = fst (lw_flight s ! n) in
        s\<lparr>lw_flight := (lw_flight s)[n := (j, Some (seen_by j (lw_db s)))],
          lw_known := lw_known s @ (case deletion_target (j_payload j) of Some i \<Rightarrow> [i] | None \<Rightarrow> [])\<rparr>)
      else s)"
| "lc_step env s (now, Execute n placeholder newTask) =
     (if n < length (lw_flight s)
      then (case lw_flight s ! n of
          (j, Some seen) \<Rightarrow>
            if j_type j = DATA_DELETION
            then (case execute_deletion env placeholder newTask j seen now (lw_db s) of
                (out, db) \<Rightarrow> s\<lparr>lw_db := report j out now db,
                  lw_flight := take n (lw_flight s) @ drop (Suc n) (lw_flight s)\<rparr>)
            else s
        | (j, None) \<Rightarrow> s)
      else s)"
| "lc_step env s (now, Other out n) =
     (if n < length (lw_flight s) \<and> j_type (fst (lw_flight s ! n)) \<noteq> DATA_DELETION \<and> out \<noteq> Erased
      then s\<lparr>lw_db := report (fst (lw_flight s ! n)) out now (lw_db s),
             lw_flight := take n (lw_flight s) @ drop (Suc n) (lw_flight s)\<rparr>
      else s)"
| "lc_step env s (now, Sweep) = s\<lparr>lw_db := snd (sweepOverdue env now (lw_db s))\<rparr>"

end
