(* ===== verification/Lifecycle_Safety.thy ===== *)
theory Lifecycle_Safety
  imports Lifecycle
begin

section \<open>What an erasure takes\<close>

text \<open>
  Over the machine of \<open>Lifecycle\<close>: a workspace is only erased after an Owner approved and an Owner confirmed that
  very request by the workspace's name, whatever else happens in between; and the request that was held once,
  whose erasure never runs.
\<close>

subsection \<open>What the operations leave of the requests\<close>

definition shape :: "lc_db \<Rightarrow> (uuid \<times> uuid \<times> lc_type \<times> lc_target option) list" where
  "shape db = map (\<lambda>r. (lr_id r, lr_tenantId r, lr_type r, lr_targetType r)) (requests db)"

text \<open>The deletion requests of a status that are not about a person, by workspace and identifier.\<close>

definition in_status :: "lc_status set \<Rightarrow> lc_db \<Rightarrow> (uuid \<times> uuid) set" where
  "in_status S db = {(lr_tenantId r, lr_id r) |r. r \<in> set (requests db) \<and> lr_type r = DELETION
     \<and> lr_status r \<in> S \<and> lr_targetType r \<noteq> Some TARGET_USER}"

abbreviation approved :: "lc_db \<Rightarrow> (uuid \<times> uuid) set" where
  "approved \<equiv> in_status {APPROVED, SCHEDULED, PROCESSING}"

abbreviation confirmed :: "lc_db \<Rightarrow> (uuid \<times> uuid) set" where
  "confirmed \<equiv> in_status {PROCESSING}"

lemma in_statusI:
  "r \<in> set (requests db) \<Longrightarrow> lr_type r = DELETION \<Longrightarrow> lr_status r \<in> S \<Longrightarrow> lr_targetType r \<noteq> Some TARGET_USER
    \<Longrightarrow> (lr_tenantId r, lr_id r) \<in> in_status S db"
  by (auto simp: in_status_def)

lemma requests_only:
  "requests db' = requests db \<Longrightarrow> shape db' = shape db"
  "requests db' = requests db \<Longrightarrow> in_status S db' = in_status S db"
  by (simp_all add: shape_def in_status_def)

lemma requests_keep [simp]:
  "requests (lc_audit env c now ty i db) = requests db"
  "requests (set_job jo t sts f db) = requests db"
  "requests (snd (enqueue newJob now x db)) = requests db"
  "requests (report j out now db) = requests db"
  "requests (flag_breach env now r db) = requests db"
  "requests (drop_membership newTask now c m db) = requests db"
  by (simp_all add: lc_audit_def set_job_def enqueue_def report_def complete_job_def fail_job_def Let_def
      flag_breach_def drop_membership_def split: option.split job_outcome.split prod.split sum.split)

lemma requests_sweep [simp]: "requests (snd (sweepOverdue env now db)) = requests db"
proof -
  have "requests (foldl (\<lambda>d r. flag_breach env now r d) db xs) = requests db" for xs
    by (induction xs arbitrary: db) simp_all
  then show ?thesis by (simp add: sweepOverdue_def Let_def)
qed

lemma requests_claim: "claimSupported now db = (r, db') \<Longrightarrow> requests db' = requests db"
  by (auto simp: claimSupported_def claim_where_def split: option.splits)

lemma claimed_keep:
  "claimSupported now db = (r, db') \<Longrightarrow> shape db' = shape db"
  "claimSupported now db = (r, db') \<Longrightarrow> in_status S db' = in_status S db"
  by (erule requests_only [OF requests_claim])+

lemma shape_keep [simp]:
  "shape (report j out now db) = shape db" "shape (snd (sweepOverdue env now db)) = shape db"
  "in_status S (report j out now db) = in_status S db" "in_status S (snd (sweepOverdue env now db)) = in_status S db"
  by (rule requests_only, simp)+

lemma requests_anonymize [simp]: "requests (snd (anonymizeUser env ph newTask c t u now db)) = requests db"
  by (simp add: anonymizeUser_def Let_def split: option.split)

lemma requests_permits: "assertWorkspacePermits env c ty denied now db = (r, db') \<Longrightarrow> requests db' = requests db"
  by (auto simp: assertWorkspacePermits_def split: if_splits option.splits)

lemma requests_set [simp]:
  "requests (set_request t i f db) = update_where (\<lambda>r. lr_id r = i \<and> lr_tenantId r = t) f (requests db)"
  by (simp add: set_request_def)

lemma map_update_where:
  assumes "\<And>x. g (f x) = g x"
  shows "map g (update_where P f rows) = map g rows"
  by (induction rows) (simp_all add: table_simps assms)

lemma lc_open_SomeD:
  "lc_open t i sts db = Inr r \<Longrightarrow> r \<in> set (requests db) \<and> lr_id r = i \<and> lr_tenantId r = t \<and> lr_type r = DELETION
     \<and> lr_status r \<in> set sts"
  by (auto simp: lc_open_def dest: find_row_SomeD split: option.splits)

text \<open>One row, found by its key, is moved to a status of \<open>S\<close>, or nothing happens.\<close>

definition moves :: "uuid \<times> uuid \<Rightarrow> lc_status \<Rightarrow> lc_db \<Rightarrow> lc_db \<Rightarrow> bool" where
  "moves k st db db' \<longleftrightarrow> requests db' = requests db \<or>
     (\<exists>f. requests db' = update_where (\<lambda>r. lr_id r = snd k \<and> lr_tenantId r = fst k) f (requests db)
        \<and> (\<forall>r. lr_id (f r) = lr_id r \<and> lr_tenantId (f r) = lr_tenantId r \<and> lr_type (f r) = lr_type r
             \<and> lr_targetType (f r) = lr_targetType r \<and> lr_status (f r) = st))"

lemma moves_refl: "requests db' = requests db \<Longrightarrow> moves k st db db'"
  by (simp add: moves_def)

lemma moves_op:
  assumes "\<And>r. lr_id (f r) = lr_id r \<and> lr_tenantId (f r) = lr_tenantId r \<and> lr_type (f r) = lr_type r
             \<and> lr_targetType (f r) = lr_targetType r \<and> lr_status (f r) = st"
    and "requests db0 = requests db"
  shows "moves (t, i) st db (lc_audit env c now ty e (set_request t i f db0))"
  unfolding moves_def using assms by (intro disjI2 exI [of _ f]) simp

lemma moves_shape: "moves k st db db' \<Longrightarrow> shape db' = shape db"
  by (auto simp: moves_def shape_def map_update_where)

lemma moves_row:
  assumes "moves k st db db'" "r \<in> set (requests db')"
  shows "r \<in> set (requests db) \<or> (lr_tenantId r, lr_id r) = k \<and> lr_status r = st
    \<and> (\<exists>u\<in>set (requests db). lr_id u = lr_id r \<and> lr_tenantId u = lr_tenantId r \<and> lr_type u = lr_type r
         \<and> lr_targetType u = lr_targetType r)"
proof (cases "requests db' = requests db")
  case True
  with assms(2) show ?thesis by simp
next
  case False
  with assms(1) obtain f where f: "requests db' = update_where (\<lambda>r. lr_id r = snd k \<and> lr_tenantId r = fst k) f (requests db)"
    "\<forall>r. lr_id (f r) = lr_id r \<and> lr_tenantId (f r) = lr_tenantId r \<and> lr_type (f r) = lr_type r
             \<and> lr_targetType (f r) = lr_targetType r \<and> lr_status (f r) = st"
    unfolding moves_def by blast
  from assms(2) f(1) consider "r \<in> set (requests db)"
    | u where "u \<in> set (requests db)" "lr_id u = snd k" "lr_tenantId u = fst k" "r = f u"
    by (auto simp: table_simps)
  then show ?thesis
  proof cases
    case 2
    have r: "lr_tenantId r = fst k" "lr_id r = snd k" "lr_status r = st"
      "lr_type u = lr_type r" "lr_targetType u = lr_targetType r"
      using f(2) 2(2,3) unfolding 2(4) by simp_all
    with 2 show ?thesis by auto
  qed simp
qed

lemma moves_in_status:
  assumes "moves k st db db'"
  shows "in_status S db' \<subseteq> in_status S db \<union> (if st \<in> S then {k} else {})"
  using moves_row [OF assms] by (fastforce simp: in_status_def)

lemma moves_within:
  assumes "moves k st db db'" "unique_key lr_id (requests db)"
    and "r \<in> set (requests db)" "lr_id r = snd k" "lr_status r \<in> S"
  shows "in_status S db' \<subseteq> in_status S db"
proof
  fix x assume "x \<in> in_status S db'"
  then obtain v where v: "v \<in> set (requests db')" "x = (lr_tenantId v, lr_id v)" "lr_type v = DELETION"
    "lr_status v \<in> S" "lr_targetType v \<noteq> Some TARGET_USER" by (auto simp: in_status_def)
  from moves_row [OF assms(1) v(1)] show "x \<in> in_status S db"
  proof
    assume "v \<in> set (requests db)"
    with v show ?thesis by (auto simp: in_status_def)
  next
    assume "(lr_tenantId v, lr_id v) = k \<and> lr_status v = st
      \<and> (\<exists>u\<in>set (requests db). lr_id u = lr_id v \<and> lr_tenantId u = lr_tenantId v \<and> lr_type u = lr_type v
         \<and> lr_targetType u = lr_targetType v)"
    then obtain u where u: "(lr_tenantId v, lr_id v) = k" "u \<in> set (requests db)" "lr_id u = lr_id v"
      "lr_tenantId u = lr_tenantId v" "lr_type u = lr_type v" "lr_targetType u = lr_targetType v" by blast
    with assms(2-4) have "u = r" by (auto dest: unique_keyD)
    with u v in_statusI [OF assms(3) _ assms(5)] show ?thesis by simp
  qed
qed

lemma enqueue_requests: "enqueue newJob now x db = (j, db') \<Longrightarrow> requests (db' :: lc_db) = requests db"
  using requests_keep(3) [of newJob now x db] by simp

lemma approve_moves: "moves (lx_tenantId c, i) APPROVED db (snd (approve env newJob c i now db))"
  by (auto simp: approve_def lc_open_def moves_refl dest!: find_row_SomeD dest: enqueue_requests
      intro!: moves_op split: sum.split option.split prod.split)

lemma block_moves: "moves (lx_tenantId c, i) BLOCKED db (snd (block env c i why now db))"
  by (auto simp: block_def lc_open_def moves_refl dest!: find_row_SomeD intro!: moves_op split: sum.split option.split)

lemma unblock_moves: "moves (lx_tenantId c, i) REQUESTED db (snd (unblock env c i now db))"
  by (auto simp: unblock_def lc_open_def moves_refl dest!: find_row_SomeD intro!: moves_op split: sum.split option.split)

lemma schedule_moves: "moves (lx_tenantId c, i) SCHEDULED db (snd (schedule env c i at now db))"
  by (auto simp: schedule_def lc_open_def moves_refl dest!: find_row_SomeD intro!: moves_op split: sum.split option.split)

lemma cancel_moves: "moves (lx_tenantId c, i) LC_CANCELLED db (snd (cancel_deletion env c i now db))"
  by (auto simp: cancel_deletion_def lc_open_def moves_refl dest!: find_row_SomeD intro!: moves_op
      split: sum.split option.split)

lemma confirm_moves: "moves (lx_tenantId c, i) PROCESSING db (snd (confirm_deletion env c i name now db))"
  by (auto simp: confirm_deletion_def moves_refl dest!: find_row_SomeD intro!: moves_op
      split: sum.split option.split)

subsection \<open>Which requests an operation confirms or approves\<close>

lemma approve_Inl: "fst (approve env newJob c i now db) = Inl e \<Longrightarrow> snd (approve env newJob c i now db) = db"
  by (auto simp: approve_def split: sum.splits prod.splits)

lemma confirm_Inl: "fst (confirm_deletion env c i name now db) = Inl e \<Longrightarrow> snd (confirm_deletion env c i name now db) = db"
  by (auto simp: confirm_deletion_def split: sum.splits option.splits if_splits)

lemma confirm_Inr:
  assumes "fst (confirm_deletion env c i name now db) = Inr u"
  shows "lx_role c = OWNER \<and> map_of (workspaces db) (lx_tenantId c) = Some name
    \<and> (lx_tenantId c, i) \<in> in_status {APPROVED, SCHEDULED} db"
proof -
  obtain r where "find_row (\<lambda>r. lr_id r = i \<and> lr_tenantId r = lx_tenantId c \<and> lr_type r = DELETION
       \<and> lr_status r \<in> {APPROVED, SCHEDULED} \<and> lr_targetType r = Some TARGET_TENANT) (requests db) = Some r"
    and w: "lx_role c = OWNER" "map_of (workspaces db) (lx_tenantId c) = Some name"
    using assms by (auto simp: confirm_deletion_def requireRole_def require_def split: sum.splits option.splits if_splits)
  from find_row_SomeD [OF this(1)] have "r \<in> set (requests db)" "lr_id r = i" "lr_tenantId r = lx_tenantId c"
    "lr_type r = DELETION" "lr_status r \<in> {APPROVED, SCHEDULED}" "lr_targetType r = Some TARGET_TENANT" by auto
  with in_statusI [of r db "{APPROVED, SCHEDULED}"] w show ?thesis by simp
qed

lemma schedule_approved:
  assumes "unique_key lr_id (requests db)"
  shows "approved (snd (schedule env c i at now db)) \<subseteq> approved db"
proof (cases "lc_open (lx_tenantId c) i [APPROVED, SCHEDULED] db")
  case (Inl e)
  then show ?thesis by (simp add: schedule_def split: sum.split)
next
  case (Inr r)
  from lc_open_SomeD [OF Inr]
  show ?thesis by (intro moves_within [OF schedule_moves assms, where r = r]) auto
qed

lemma confirm_approved:
  assumes "unique_key lr_id (requests db)"
  shows "approved (snd (confirm_deletion env c i name now db)) \<subseteq> approved db"
proof (cases "fst (confirm_deletion env c i name now db)")
  case (Inl e)
  then show ?thesis by (simp add: confirm_Inl)
next
  case (Inr u)
  from confirm_Inr [OF this] obtain r where "r \<in> set (requests db)" "lr_id r = i" "lr_status r \<in> {APPROVED, SCHEDULED}"
    by (auto simp: in_status_def)
  then show ?thesis by (intro moves_within [OF confirm_moves assms, where r = r]) auto
qed

definition appends :: "uuid \<Rightarrow> lc_db \<Rightarrow> lc_db \<Rightarrow> bool" where
  "appends i db db' \<longleftrightarrow> requests db' = requests db
     \<or> (\<exists>r. requests db' = requests db @ [r] \<and> lr_id r = i \<and> (lr_type r = DELETION \<longrightarrow> lr_status r = REQUESTED))"

lemma request_appends: "appends i db (snd (request_deletion env i c denied t u why now db))"
  by (auto simp: request_deletion_def appends_def new_request_def Let_def dest!: requests_permits
      split: sum.split prod.split)

lemma export_appends: "appends i db (snd (request_export env i newJob c denied key why now db))"
  by (auto simp: request_export_def appends_def new_request_def Let_def
      dest!: requests_permits enqueue_requests split: sum.split prod.split option.split)

lemma appends_in_status: "appends i db db' \<Longrightarrow> REQUESTED \<notin> S \<Longrightarrow> in_status S db' \<subseteq> in_status S db"
  by (auto simp: appends_def in_status_def)

lemma appends_shape: "appends i db db' \<Longrightarrow> shape db' = shape db \<or> (\<exists>x. shape db' = shape db @ [(i, x)])"
  by (auto simp: appends_def shape_def)

subsection \<open>What the worker does to the requests\<close>

text \<open>What a worker read still tells whom the request with the payload's identifier is about.\<close>

definition reading_ok :: "lc_db \<Rightarrow> job \<Rightarrow> lc_request option \<Rightarrow> bool" where
  "reading_ok db j seen \<longleftrightarrow> (\<forall>i. deletion_target (j_payload j) = Some i \<longrightarrow>
     (case seen of
        Some q \<Rightarrow> lr_id q = i \<and> (\<forall>r\<in>set (requests db). lr_id r = i \<longrightarrow> lr_targetType r = lr_targetType q)
      | None \<Rightarrow> (\<forall>r\<in>set (requests db). lr_id r = i \<longrightarrow> \<not> (lr_tenantId r = j_tenantId j \<and> lr_type r = DELETION))))"

lemma receipts_keep [simp]:
  "receipts (lc_audit env c now ty i db) = receipts db"
  "receipts (set_job jo t sts f db) = receipts db"
  "receipts (set_request t i f' db) = receipts db"
  "receipts (snd (enqueue newJob now x db)) = receipts db"
  "receipts (report j out now db) = receipts db"
  "receipts (drop_membership newTask now c m db) = receipts db"
  by (simp_all add: lc_audit_def set_job_def set_request_def enqueue_def report_def complete_job_def fail_job_def Let_def
      drop_membership_def split: option.split job_outcome.split prod.split sum.split)

lemma receipts_anonymize [simp]: "receipts (snd (anonymizeUser env ph newTask c t u now db)) = receipts db"
  by (simp add: anonymizeUser_def Let_def split: option.split)

lemma receipts_sweep [simp]: "receipts (snd (sweepOverdue env now db)) = receipts db"
proof -
  have "receipts (foldl (\<lambda>d r. flag_breach env now r d) db xs) = receipts db" for xs
    by (induction xs arbitrary: db) (simp_all add: flag_breach_def)
  then show ?thesis by (simp add: sweepOverdue_def Let_def)
qed

lemma receipts_claim: "claimSupported now db = (r, db') \<Longrightarrow> receipts db' = receipts db"
  by (auto simp: claimSupported_def claim_where_def split: option.splits)

lemma receipts_permits: "assertWorkspacePermits env c ty denied now db = (r, db') \<Longrightarrow> receipts db' = receipts db"
  by (auto simp: assertWorkspacePermits_def split: if_splits option.splits)

lemma receipts_enqueue: "enqueue newJob now x db = (j, db') \<Longrightarrow> receipts (db' :: lc_db) = receipts db"
  using receipts_keep(4) [of newJob now x db] by simp

lemma receipts_ask: "receipts (lc_ask env now c x db) = receipts db"
  by (cases x)
    (auto simp: request_deletion_def request_export_def approve_def block_def unblock_def schedule_def
      confirm_deletion_def cancel_deletion_def Let_def dest!: receipts_permits receipts_enqueue
      split: sum.split prod.split option.split)

definition taken_up :: "job \<Rightarrow> lc_request \<Rightarrow> lc_request list \<Rightarrow> lc_request list" where
  "taken_up j q rows = update_where (\<lambda>r. lr_id r = lr_id q \<and> lr_tenantId r = j_tenantId j)
     (\<lambda>r. r\<lparr>lr_status := PROCESSING\<rparr>) rows"

definition done_with :: "job \<Rightarrow> lc_request \<Rightarrow> instant \<Rightarrow> lc_request list \<Rightarrow> lc_request list" where
  "done_with j q now rows = update_where (\<lambda>r. lr_id r = lr_id q \<and> lr_tenantId r = j_tenantId j)
     (\<lambda>r. r\<lparr>lr_status := LC_COMPLETED, lr_completedAt := Some now\<rparr>) rows"

lemma person_requests:
  "requests (snd (delete_person env ph newTask j q now db)) = requests db
   \<or> requests (snd (delete_person env ph newTask j q now db)) = taken_up j q (requests db)
   \<or> requests (snd (delete_person env ph newTask j q now db)) = done_with j q now (taken_up j q (requests db))"
proof -
  have an: "requests db' = requests db0" if "anonymizeUser env ph newTask c t u now db0 = (r, db')" for c t u db0 r db'
    using requests_anonymize [of env ph newTask c t u now db0] that by simp
  show ?thesis
    unfolding delete_person_def Let_def taken_up_def done_with_def
    by (auto split: option.split sum.split prod.split dest!: an)
qed

lemma taken_keep:
  "map (\<lambda>r. (lr_id r, lr_tenantId r, lr_type r, lr_targetType r)) (taken_up j q rows)
     = map (\<lambda>r. (lr_id r, lr_tenantId r, lr_type r, lr_targetType r)) rows"
  "map (\<lambda>r. (lr_id r, lr_tenantId r, lr_type r, lr_targetType r)) (done_with j q now rows)
     = map (\<lambda>r. (lr_id r, lr_tenantId r, lr_type r, lr_targetType r)) rows"
  by (simp_all add: taken_up_def done_with_def map_update_where)

lemma person_shape: "shape (snd (delete_person env ph newTask j q now db)) = shape db"
  using person_requests [of env ph newTask j q now db] by (auto simp: shape_def taken_keep)

lemma person_others:
  assumes "\<forall>r\<in>set (requests db). lr_id r = lr_id q \<longrightarrow> lr_targetType r = Some TARGET_USER"
  shows "in_status S (snd (delete_person env ph newTask j q now db)) \<subseteq> in_status S db"
proof
  fix x assume "x \<in> in_status S (snd (delete_person env ph newTask j q now db))"
  then obtain r where r: "r \<in> set (requests (snd (delete_person env ph newTask j q now db)))"
    "x = (lr_tenantId r, lr_id r)" "lr_type r = DELETION" "lr_status r \<in> S" "lr_targetType r \<noteq> Some TARGET_USER"
    by (auto simp: in_status_def)
  have "r \<in> set (requests db)"
    using person_requests [of env ph newTask j q now db] r(1,5) assms
    by (auto simp: taken_up_def done_with_def table_simps)
  with r show "x \<in> in_status S db" using in_statusI [of r db S] by simp
qed

lemma workspace_effect:
  "snd (delete_workspace env newTask j i now db) = db
   \<or> (\<exists>rc r. requests (snd (delete_workspace env newTask j i now db)) = delete_where (\<lambda>r. lr_tenantId r = j_tenantId j) (requests db)
        \<and> receipts (snd (delete_workspace env newTask j i now db)) = receipts db @ [rc]
        \<and> rc_tenantId rc = j_tenantId j \<and> rc_requestId rc = i \<and> r \<in> set (requests db)
        \<and> lr_id r = i \<and> lr_tenantId r = j_tenantId j \<and> lr_type r = DELETION \<and> lr_status r = PROCESSING)"
proof (cases "snd (delete_workspace env newTask j i now db) = db")
  case False
  then obtain name r where w: "map_of (workspaces db) (j_tenantId j) = Some name"
    "find_row (\<lambda>r. lr_id r = i \<and> lr_tenantId r = j_tenantId j \<and> lr_type r = DELETION \<and> lr_status r = PROCESSING
       \<and> lr_jobId r = Some (j_id j)) (requests db) = Some r"
    by (auto simp: delete_workspace_def split: option.splits)
  then have "snd (delete_workspace env newTask j i now db) = erase_workspace env newTask j i name now db"
    by (simp add: delete_workspace_def)
  with find_row_SomeD [OF w(2)] show ?thesis
    by (intro disjI2) (auto simp: erase_workspace_def Let_def)
qed simp

lemma person_receipts: "receipts (snd (delete_person env ph newTask j q now db)) = receipts db"
proof -
  have an: "receipts db' = receipts db0" if "anonymizeUser env ph newTask c t u now db0 = (r, db')" for c t u db0 r db'
    using receipts_anonymize [of env ph newTask c t u now db0] that by simp
  show ?thesis
    unfolding delete_person_def Let_def
    by (auto split: option.split sum.split prod.split dest!: an)
qed

definition erased :: "job \<Rightarrow> lc_db \<Rightarrow> lc_db \<Rightarrow> bool" where
  "erased j db db' \<longleftrightarrow> (\<exists>rc. receipts db' = receipts db @ [rc] \<and> (rc_tenantId rc, rc_requestId rc) \<in> confirmed db)
     \<and> requests db' = delete_where (\<lambda>r. lr_tenantId r = j_tenantId j) (requests db)"

lemma workspace_erased:
  assumes "\<forall>r\<in>set (requests db). lr_id r = i \<and> lr_tenantId r = j_tenantId j \<and> lr_type r = DELETION
     \<longrightarrow> lr_targetType r \<noteq> Some TARGET_USER"
  shows "snd (delete_workspace env newTask j i now db) = db \<or> erased j db (snd (delete_workspace env newTask j i now db))"
  using workspace_effect [of env newTask j i now db]
proof
  assume "\<exists>rc r. requests (snd (delete_workspace env newTask j i now db)) = delete_where (\<lambda>r. lr_tenantId r = j_tenantId j) (requests db)
        \<and> receipts (snd (delete_workspace env newTask j i now db)) = receipts db @ [rc]
        \<and> rc_tenantId rc = j_tenantId j \<and> rc_requestId rc = i \<and> r \<in> set (requests db)
        \<and> lr_id r = i \<and> lr_tenantId r = j_tenantId j \<and> lr_type r = DELETION \<and> lr_status r = PROCESSING"
  then obtain rc r where e: "requests (snd (delete_workspace env newTask j i now db)) = delete_where (\<lambda>r. lr_tenantId r = j_tenantId j) (requests db)"
    "receipts (snd (delete_workspace env newTask j i now db)) = receipts db @ [rc]"
    "rc_tenantId rc = j_tenantId j" "rc_requestId rc = i" and r: "r \<in> set (requests db)"
    "lr_id r = i" "lr_tenantId r = j_tenantId j" "lr_type r = DELETION" "lr_status r = PROCESSING" by blast
  from in_statusI [OF r(1,4), of "{PROCESSING}"] r assms have "(j_tenantId j, i) \<in> confirmed db" by auto
  with e show ?thesis by (auto simp: erased_def)
qed simp

lemma execute_effect:
  fixes env ph newTask now
  assumes "reading_ok db j seen"
  defines "db' \<equiv> snd (execute_deletion env ph newTask j seen now db)"
  shows "erased j db db' \<or> shape db' = shape db \<and> receipts db' = receipts db \<and> (\<forall>S. in_status S db' \<subseteq> in_status S db)"
proof (cases "deletion_target (j_payload j)")
  case None
  then show ?thesis by (simp add: db'_def execute_deletion_def)
next
  case (Some i)
  note target = this
  show ?thesis
  proof (cases seen)
    case None
    with assms(1) target have "\<forall>r\<in>set (requests db). lr_id r = i \<longrightarrow> \<not> (lr_tenantId r = j_tenantId j \<and> lr_type r = DELETION)"
      by (simp add: reading_ok_def)
    then have "\<forall>r\<in>set (requests db). lr_id r = i \<and> lr_tenantId r = j_tenantId j \<and> lr_type r = DELETION
        \<longrightarrow> lr_targetType r \<noteq> Some TARGET_USER" by blast
    from workspace_erased [OF this, of env newTask now] None target show ?thesis
      by (auto simp: db'_def execute_deletion_def)
  next
    case (Some q)
    with assms(1) target have q: "lr_id q = i" "\<forall>r\<in>set (requests db). lr_id r = i \<longrightarrow> lr_targetType r = lr_targetType q"
      by (simp_all add: reading_ok_def)
    show ?thesis
    proof (cases "lr_targetType q = Some TARGET_USER")
      case True
      then have "db' = snd (delete_person env ph newTask j q now db)"
        by (simp add: db'_def execute_deletion_def target Some)
      with person_others [of db q] q True show ?thesis
        by (simp add: person_shape person_receipts)
    next
      case False
      then have "db' = snd (delete_workspace env newTask j i now db)"
        by (simp add: db'_def execute_deletion_def target Some)
      moreover have "\<forall>r\<in>set (requests db). lr_id r = i \<and> lr_tenantId r = j_tenantId j \<and> lr_type r = DELETION
          \<longrightarrow> lr_targetType r \<noteq> Some TARGET_USER" using q(2) False by auto
      ultimately show ?thesis using workspace_erased [of db i j env newTask now] by auto
    qed
  qed
qed

lemma erased_in_status: "erased j db db' \<Longrightarrow> in_status S db' \<subseteq> in_status S db"
  by (auto simp: erased_def in_status_def table_simps)

lemma erased_shape: "erased j db db' \<Longrightarrow> shape db' = filter (\<lambda>x. fst (snd x) \<noteq> j_tenantId j) (shape db)"
  by (simp add: erased_def shape_def delete_where_def filter_map comp_def)

subsection \<open>The invariant\<close>

definition lc_ok :: "lc_world \<Rightarrow> bool" where
  "lc_ok s \<longleftrightarrow> distinct (map fst (shape (lw_db s))) \<and> fst ` set (shape (lw_db s)) \<subseteq> set (lw_known s)
     \<and> (\<forall>j seen. (j, Some seen) \<in> set (lw_flight s) \<longrightarrow> reading_ok (lw_db s) j seen
          \<and> (\<forall>i. deletion_target (j_payload j) = Some i \<longrightarrow> i \<in> set (lw_known s)))"

lemma lc_ok_unique: "lc_ok s \<Longrightarrow> unique_key lr_id (requests (lw_db s))"
  by (simp add: lc_ok_def shape_def unique_key_def comp_def)

lemma reading_shape:
  "reading_ok db j seen \<longleftrightarrow> (\<forall>i. deletion_target (j_payload j) = Some i \<longrightarrow>
     (case seen of
        Some q \<Rightarrow> lr_id q = i \<and> (\<forall>(a, t, ty, tg)\<in>set (shape db). a = i \<longrightarrow> tg = lr_targetType q)
      | None \<Rightarrow> (\<forall>(a, t, ty, tg)\<in>set (shape db). a = i \<longrightarrow> \<not> (t = j_tenantId j \<and> ty = DELETION))))"
  by (auto simp: reading_ok_def shape_def split: option.splits)

lemma reading_keep:
  assumes "reading_ok db j seen" "\<And>i. deletion_target (j_payload j) = Some i \<Longrightarrow> i \<in> K"
    and "\<And>x. x \<in> set (shape db') \<Longrightarrow> x \<in> set (shape db) \<or> fst x \<notin> K"
  shows "reading_ok db' j seen"
  unfolding reading_shape
proof (intro allI impI)
  fix i assume i: "deletion_target (j_payload j) = Some i"
  have old: "x \<in> set (shape db)" if "x \<in> set (shape db')" "fst x = i" for x
    using assms(3) [OF that(1)] assms(2) [OF i] that(2) by auto
  show "case seen of
        Some q \<Rightarrow> lr_id q = i \<and> (\<forall>(a, t, ty, tg)\<in>set (shape db'). a = i \<longrightarrow> tg = lr_targetType q)
      | None \<Rightarrow> (\<forall>(a, t, ty, tg)\<in>set (shape db'). a = i \<longrightarrow> \<not> (t = j_tenantId j \<and> ty = DELETION))"
    using assms(1) i old unfolding reading_shape by (fastforce split: option.splits)
qed

lemma lc_ok_keep:
  assumes "lc_ok s" "lw_db s' = db'" "set (lw_known s) \<subseteq> set (lw_known s')" "set (lw_flight s') \<subseteq> set (lw_flight s) \<union> {(j, None) |j. True}"
    and "distinct (map fst (shape db'))" "fst ` set (shape db') \<subseteq> set (lw_known s')"
    and "\<And>x. x \<in> set (shape db') \<Longrightarrow> x \<in> set (shape (lw_db s)) \<or> fst x \<notin> set (lw_known s)"
  shows "lc_ok s'"
proof -
  have "reading_ok db' j seen \<and> (\<forall>i. deletion_target (j_payload j) = Some i \<longrightarrow> i \<in> set (lw_known s'))"
    if "(j, Some seen) \<in> set (lw_flight s')" for j seen
  proof -
    from that assms(4) have "(j, Some seen) \<in> set (lw_flight s)" by auto
    with assms(1) have r: "reading_ok (lw_db s) j seen" "\<And>i. deletion_target (j_payload j) = Some i \<Longrightarrow> i \<in> set (lw_known s)"
      by (auto simp: lc_ok_def)
    from reading_keep [OF r assms(7)] r(2) assms(3) show ?thesis by blast
  qed
  with assms(2,5,6) show ?thesis by (simp add: lc_ok_def)
qed

lemma lc_ok_same:
  assumes "lc_ok s" "shape (lw_db s') = shape (lw_db s)" "lw_known s' = lw_known s"
    "set (lw_flight s') \<subseteq> set (lw_flight s) \<union> {(j, None) |j. True}"
  shows "lc_ok s'"
  by (rule lc_ok_keep [OF assms(1) refl]) (use assms in \<open>auto simp: lc_ok_def\<close>)

definition approves :: "lc_env \<Rightarrow> instant \<Rightarrow> lc_ctx \<Rightarrow> lc_op \<Rightarrow> lc_db \<Rightarrow> (uuid \<times> uuid) set" where
  "approves env now c x db = (case x of
      L_approve newJob i \<Rightarrow> (case fst (approve env newJob c i now db) of Inr j \<Rightarrow> {(lx_tenantId c, i)} | Inl e \<Rightarrow> {})
    | _ \<Rightarrow> {})"

definition confirms :: "lc_env \<Rightarrow> instant \<Rightarrow> lc_ctx \<Rightarrow> lc_op \<Rightarrow> lc_db \<Rightarrow> (uuid \<times> uuid) set" where
  "confirms env now c x db = (case x of
      L_confirm i name \<Rightarrow> (case fst (confirm_deletion env c i name now db) of Inr u \<Rightarrow> {(lx_tenantId c, i)} | Inl e \<Rightarrow> {})
    | _ \<Rightarrow> {})"

lemma quiet_moves:
  "moves k st db db' \<Longrightarrow> st \<notin> {APPROVED, SCHEDULED, PROCESSING} \<Longrightarrow> approved db' \<subseteq> approved db \<and> confirmed db' \<subseteq> confirmed db"
  using moves_in_status [of k st db db' "{APPROVED, SCHEDULED, PROCESSING}"] moves_in_status [of k st db db' "{PROCESSING}"]
  by auto

lemma quiet_appends: "appends i db db' \<Longrightarrow> approved db' \<subseteq> approved db \<and> confirmed db' \<subseteq> confirmed db"
  by (simp add: appends_in_status)

lemma ask_grants:
  assumes u: "unique_key lr_id (requests db)"
  shows "approved (lc_ask env now c x db) \<subseteq> approved db \<union> approves env now c x db
    \<and> confirmed (lc_ask env now c x db) \<subseteq> confirmed db \<union> confirms env now c x db"
proof (cases x)
  case (L_request i d t v w)
  with quiet_appends [OF request_appends] show ?thesis by (simp add: le_supI1)
next
  case (L_export i j d key)
  with quiet_appends [OF export_appends] show ?thesis by (simp add: le_supI1)
next
  case (L_block i why)
  with quiet_moves [OF block_moves] show ?thesis by (simp add: le_supI1)
next
  case (L_unblock i)
  with quiet_moves [OF unblock_moves] show ?thesis by (simp add: le_supI1)
next
  case (L_cancel i)
  with quiet_moves [OF cancel_moves] show ?thesis by (simp add: le_supI1)
next
  case (L_schedule i at)
  with moves_in_status [OF schedule_moves, of "{PROCESSING}"] schedule_approved [OF u] show ?thesis
    by (simp add: le_supI1)
next
  case (L_approve newJob i)
  show ?thesis
  proof (cases "fst (approve env newJob c i now db)")
    case (Inl e)
    then show ?thesis by (simp add: L_approve approve_Inl)
  next
    case (Inr j)
    with moves_in_status [OF approve_moves [of c i db env newJob now], of "{PROCESSING}"]
      moves_in_status [OF approve_moves [of c i db env newJob now], of "{APPROVED, SCHEDULED, PROCESSING}"]
    show ?thesis by (auto simp: L_approve approves_def)
  qed
next
  case (L_confirm i name)
  show ?thesis
  proof (cases "fst (confirm_deletion env c i name now db)")
    case (Inl e)
    then show ?thesis by (simp add: L_confirm confirm_Inl)
  next
    case (Inr v)
    with moves_in_status [OF confirm_moves [of c i db env name now], of "{PROCESSING}"]
      confirm_approved [OF u, of env c i name now]
    show ?thesis by (auto simp: L_confirm confirms_def)
  qed
qed

lemma ask_shape:
  "shape (lc_ask env now c x db) = shape db
   \<or> (\<exists>i y. new_request_id x = Some i \<and> shape (lc_ask env now c x db) = shape db @ [(i, y)])"
proof (cases x)
  case (L_request i d t v w)
  with appends_shape [OF request_appends] show ?thesis by simp
next
  case (L_export i j d key)
  with appends_shape [OF export_appends] show ?thesis by simp
qed (simp_all add: moves_shape [OF block_moves] moves_shape [OF unblock_moves] moves_shape [OF cancel_moves]
      moves_shape [OF schedule_moves] moves_shape [OF approve_moves] moves_shape [OF confirm_moves])

lemma ask_ok: "lc_ok s \<Longrightarrow> lc_ok (lc_step env s (now, Ask c x))"
proof (cases "new_request_id x")
  case None
  assume ok: "lc_ok s"
  from None ask_shape [of env now c x "lw_db s"] show ?thesis by (intro lc_ok_same [OF ok]) auto
next
  case (Some i)
  assume ok: "lc_ok s"
  show ?thesis
  proof (cases "i \<in> set (lw_known s)")
    case True
    with Some ok show ?thesis by simp
  next
    case False
    let ?s = "s\<lparr>lw_db := lc_ask env now c x (lw_db s), lw_known := lw_known s @ [i]\<rparr>"
    have "shape (lw_db ?s) = shape (lw_db s) \<or> (\<exists>y. shape (lw_db ?s) = shape (lw_db s) @ [(i, y)])"
      using ask_shape [of env now c x "lw_db s"] Some by auto
    then have sh: "y \<in> set (shape (lw_db s)) \<or> fst y = i" if "y \<in> set (shape (lw_db ?s))" for y using that by auto
    have kn: "fst y \<in> set (lw_known s)" if "y \<in> set (shape (lw_db s))" for y
      using ok that unfolding lc_ok_def by blast
    have "lc_ok ?s"
    proof (rule lc_ok_keep [OF ok refl])
      show "distinct (map fst (shape (lw_db ?s)))"
        using \<open>shape (lw_db ?s) = shape (lw_db s) \<or> (\<exists>y. shape (lw_db ?s) = shape (lw_db s) @ [(i, y)])\<close> ok False kn
        by (auto simp: lc_ok_def)
      show "fst ` set (shape (lw_db ?s)) \<subseteq> set (lw_known ?s)"
      proof
        fix a assume "a \<in> fst ` set (shape (lw_db ?s))"
        then obtain y where "y \<in> set (shape (lw_db ?s))" "a = fst y" by blast
        with sh kn show "a \<in> set (lw_known ?s)" by fastforce
      qed
      show "y \<in> set (shape (lw_db s)) \<or> fst y \<notin> set (lw_known s)" if "y \<in> set (shape (lw_db ?s))" for y
        using sh [OF that] False by blast
    qed auto
    with Some False show ?thesis by simp
  qed
qed

lemma claimed_run_ok: "lc_ok s \<Longrightarrow> lc_ok (lc_step env s (now, Claim))"
  by (auto split: prod.split option.split intro!: lc_ok_same [of s] dest!: claimed_keep(1))

lemma set_update_pair: "(j, Some v) \<in> set (xs[n := y]) \<Longrightarrow> (j, Some v) = y \<or> (j, Some v) \<in> set xs"
  using set_update_subset_insert [of xs n y] by auto

lemma seen_reading:
  assumes "unique_key lr_id (requests db)"
  shows "reading_ok db j (seen_by j db)"
proof (cases "deletion_target (j_payload j)")
  case (Some i)
  show ?thesis
  proof (cases "look_up_target (j_tenantId j) i db")
    case None
    with Some have "seen_by j db = None" by (simp add: seen_by_def)
    with Some None show ?thesis by (auto simp: reading_ok_def look_up_target_def find_row_None_iff)
  next
    case (Some q)
    then have "q \<in> set (requests db)" "lr_id q = i" by (auto simp: look_up_target_def dest: find_row_SomeD)
    with assms have "\<forall>r\<in>set (requests db). lr_id r = i \<longrightarrow> lr_targetType r = lr_targetType q"
      by (auto dest: unique_keyD)
    with Some \<open>deletion_target (j_payload j) = Some i\<close> \<open>lr_id q = i\<close> show ?thesis
      by (simp add: reading_ok_def seen_by_def)
  qed
qed (simp add: reading_ok_def)

lemma look_ok:
  assumes ok: "lc_ok s"
  shows "lc_ok (lc_step env s (now, Look n))"
proof (cases "n < length (lw_flight s)")
  case True
  let ?j = "fst (lw_flight s ! n)"
  let ?s = "lc_step env s (now, Look n)"
  have d: "lw_db ?s = lw_db s" "set (lw_known s) \<subseteq> set (lw_known ?s)" using True by (auto simp: Let_def)
  have k: "deletion_target (j_payload ?j) = Some i \<Longrightarrow> i \<in> set (lw_known ?s)" for i using True by (simp add: Let_def)
  have "reading_ok (lw_db s) j seen \<and> (\<forall>i. deletion_target (j_payload j) = Some i \<longrightarrow> i \<in> set (lw_known ?s))"
    if m: "(j, Some seen) \<in> set (lw_flight ?s)" for j seen
  proof -
    from m True have "(j, Some seen) = (?j, Some (seen_by ?j (lw_db s))) \<or> (j, Some seen) \<in> set (lw_flight s)"
      by (auto simp: Let_def dest!: set_update_pair)
    then show ?thesis
    proof
      assume "(j, Some seen) = (?j, Some (seen_by ?j (lw_db s)))"
      with k seen_reading [OF lc_ok_unique [OF ok], of ?j] show ?thesis by auto
    next
      assume "(j, Some seen) \<in> set (lw_flight s)"
      with ok have "reading_ok (lw_db s) j seen \<and> (\<forall>i. deletion_target (j_payload j) = Some i \<longrightarrow> i \<in> set (lw_known s))"
        by (simp add: lc_ok_def)
      with d(2) show ?thesis by blast
    qed
  qed
  moreover have "fst ` set (shape (lw_db s)) \<subseteq> set (lw_known ?s)"
    using ok d(2) unfolding lc_ok_def by blast
  ultimately show ?thesis using ok unfolding lc_ok_def d(1) by blast
qed (use ok in simp)

lemma drop_flight: "set (take n xs @ drop (Suc n) xs) \<subseteq> set xs"
  by (auto dest: in_set_takeD in_set_dropD)

lemma execute_step:
  assumes "n < length (lw_flight s)" "lw_flight s ! n = (j, Some seen)" "j_type j = DATA_DELETION"
  shows "lc_step env s (now, Execute n ph newTask) = s\<lparr>
      lw_db := report j (fst (execute_deletion env ph newTask j seen now (lw_db s))) now
        (snd (execute_deletion env ph newTask j seen now (lw_db s))),
      lw_flight := take n (lw_flight s) @ drop (Suc n) (lw_flight s)\<rparr>"
  using assms by (simp add: case_prod_beta)

lemma execute_idle:
  assumes "\<not> (n < length (lw_flight s) \<and> (\<exists>j seen. lw_flight s ! n = (j, Some seen) \<and> j_type j = DATA_DELETION))"
  shows "lc_step env s (now, Execute n ph newTask) = s"
  using assms by (auto split: prod.split option.split)

lemma execute_ok:
  assumes ok: "lc_ok s"
  shows "lc_ok (lc_step env s (now, Execute n ph newTask))"
proof (cases "n < length (lw_flight s) \<and> (\<exists>j seen. lw_flight s ! n = (j, Some seen) \<and> j_type j = DATA_DELETION)")
  case False
  then show ?thesis using ok by (simp only: execute_idle [OF False])
next
  case True
  then obtain j seen where j: "n < length (lw_flight s)" "lw_flight s ! n = (j, Some seen)" "j_type j = DATA_DELETION" by blast
  then have "(j, Some seen) \<in> set (lw_flight s)" by (metis nth_mem)
  with ok have r: "reading_ok (lw_db s) j seen" by (simp add: lc_ok_def)
  let ?db = "snd (execute_deletion env ph newTask j seen now (lw_db s))"
  have sh: "shape (lw_db (lc_step env s (now, Execute n ph newTask))) = shape ?db"
    unfolding execute_step [OF j] by simp
  have fl: "set (lw_flight (lc_step env s (now, Execute n ph newTask))) \<subseteq> set (lw_flight s)"
    unfolding execute_step [OF j] using drop_flight by simp
  have kn: "lw_known (lc_step env s (now, Execute n ph newTask)) = lw_known s"
    unfolding execute_step [OF j] by simp
  from execute_effect [OF r, of env ph newTask now] consider
    "shape ?db = shape (lw_db s)" | "erased j (lw_db s) ?db" by blast
  then show ?thesis
  proof cases
    case 1
    show ?thesis by (rule lc_ok_same [OF ok]) (use 1 sh fl kn in auto)
  next
    case 2
    have sub: "set (shape ?db) \<subseteq> set (shape (lw_db s))" by (auto simp: erased_shape [OF 2])
    have di: "distinct (map fst (shape ?db))"
      using ok by (simp add: erased_shape [OF 2] lc_ok_def distinct_map_filter)
    show ?thesis
    proof (rule lc_ok_keep [OF ok refl])
      show "distinct (map fst (shape (lw_db (lc_step env s (now, Execute n ph newTask)))))" using di sh by simp
      show "fst ` set (shape (lw_db (lc_step env s (now, Execute n ph newTask))))
          \<subseteq> set (lw_known (lc_step env s (now, Execute n ph newTask)))"
        unfolding sh kn using sub ok unfolding lc_ok_def by blast
    qed (use sh kn fl sub in auto)
  qed
qed

lemma other_ok:
  assumes ok: "lc_ok s"
  shows "lc_ok (lc_step env s (now, Other out n))"
proof (rule lc_ok_same [OF ok])
  show "set (lw_flight (lc_step env s (now, Other out n))) \<subseteq> set (lw_flight s) \<union> {(j, None) |j. True}"
    using drop_flight [of n "lw_flight s"] by auto
qed simp_all

lemma sweep_ok: "lc_ok s \<Longrightarrow> lc_ok (lc_step env s (now, Sweep))"
  by (erule lc_ok_same) simp_all

lemma lc_step_ok: "lc_ok s \<Longrightarrow> lc_ok (lc_step env s x)"
proof -
  assume ok: "lc_ok s"
  obtain now m where x: "x = (now, m)" by (cases x)
  show ?thesis
    unfolding x using ok
    by (cases m) (simp_all only: ask_ok claimed_run_ok look_ok execute_ok other_ok sweep_ok)
qed

subsection \<open>The evidence behind an erasure\<close>

definition approved_by :: "lc_env \<Rightarrow> uuid \<times> uuid \<Rightarrow> lc_world \<Rightarrow> instant \<times> lc_move \<Rightarrow> bool" where
  "approved_by env k s x = (case x of (now, Ask c m) \<Rightarrow> k \<in> approves env now c m (lw_db s) | _ \<Rightarrow> False)"

definition confirmed_by :: "lc_env \<Rightarrow> uuid \<times> uuid \<Rightarrow> lc_world \<Rightarrow> instant \<times> lc_move \<Rightarrow> bool" where
  "confirmed_by env k s x = (case x of (now, Ask c m) \<Rightarrow> k \<in> confirms env now c m (lw_db s) | _ \<Rightarrow> False)"

definition receipted :: "uuid \<times> uuid \<Rightarrow> lc_world \<Rightarrow> bool" where
  "receipted k s \<longleftrightarrow> k \<in> (\<lambda>rc. (rc_tenantId rc, rc_requestId rc)) ` set (receipts (lw_db s))"

lemma step_effect:
  assumes ok: "lc_ok s"
  shows "k \<in> approved (lw_db (lc_step env s x)) \<Longrightarrow> k \<in> approved (lw_db s) \<or> approved_by env k s x"
    and "k \<in> confirmed (lw_db (lc_step env s x)) \<Longrightarrow> k \<in> confirmed (lw_db s) \<or> confirmed_by env k s x"
    and "receipted k (lc_step env s x) \<Longrightarrow> receipted k s \<or> k \<in> confirmed (lw_db s)"
proof -
  obtain now m where x: "x = (now, m)" by (cases x)
  have "(k \<in> approved (lw_db (lc_step env s x)) \<longrightarrow> k \<in> approved (lw_db s) \<or> approved_by env k s x)
    \<and> (k \<in> confirmed (lw_db (lc_step env s x)) \<longrightarrow> k \<in> confirmed (lw_db s) \<or> confirmed_by env k s x)
    \<and> (receipted k (lc_step env s x) \<longrightarrow> receipted k s \<or> k \<in> confirmed (lw_db s))"
  proof (cases m)
    case (Ask c op)
    have "lw_db (lc_step env s x) = lw_db s \<or> lw_db (lc_step env s x) = lc_ask env now c op (lw_db s)"
      by (simp add: x Ask split: option.split)
    with ask_grants [OF lc_ok_unique [OF ok], of env now c op] receipts_ask [of env now c op "lw_db s"] show ?thesis
      by (auto simp: x Ask approved_by_def confirmed_by_def receipted_def)
  next
    case Claim
    show ?thesis
      by (auto simp: x Claim receipted_def claimed_keep(2) receipts_claim split: prod.split option.split)
  next
    case (Look n)
    then show ?thesis by (auto simp: x receipted_def Let_def)
  next
    case (Execute n ph newTask)
    show ?thesis
    proof (cases "n < length (lw_flight s) \<and> (\<exists>j seen. lw_flight s ! n = (j, Some seen) \<and> j_type j = DATA_DELETION)")
      case False
      then show ?thesis by (simp only: x Execute execute_idle [OF False]) simp
    next
      case True
      then obtain j seen where j: "n < length (lw_flight s)" "lw_flight s ! n = (j, Some seen)" "j_type j = DATA_DELETION" by blast
      then have "(j, Some seen) \<in> set (lw_flight s)" by (metis nth_mem)
      with ok have r: "reading_ok (lw_db s) j seen" by (simp add: lc_ok_def)
      let ?db = "snd (execute_deletion env ph newTask j seen now (lw_db s))"
      have d: "requests (lw_db (lc_step env s x)) = requests ?db" "receipts (lw_db (lc_step env s x)) = receipts ?db"
        unfolding x Execute execute_step [OF j] by simp_all
      have st: "in_status S (lw_db (lc_step env s x)) = in_status S ?db" for S by (rule requests_only(2) [OF d(1)])
      from execute_effect [OF r, of env ph newTask now] show ?thesis
      proof
        assume e: "erased j (lw_db s) ?db"
        then obtain rc where "receipts ?db = receipts (lw_db s) @ [rc]" "(rc_tenantId rc, rc_requestId rc) \<in> confirmed (lw_db s)"
          unfolding erased_def by blast
        then have "receipted k (lc_step env s x) \<longrightarrow> receipted k s \<or> k \<in> confirmed (lw_db s)"
          unfolding receipted_def d(2) by auto
        with erased_in_status [OF e] show ?thesis unfolding st by blast
      next
        assume "shape ?db = shape (lw_db s) \<and> receipts ?db = receipts (lw_db s) \<and> (\<forall>S. in_status S ?db \<subseteq> in_status S (lw_db s))"
        then show ?thesis unfolding st receipted_def d(2) by auto
      qed
    qed
  next
    case (Other out n)
    then show ?thesis by (auto simp: x receipted_def)
  next
    case Sweep
    then show ?thesis by (auto simp: x receipted_def)
  qed
  then show "k \<in> approved (lw_db (lc_step env s x)) \<Longrightarrow> k \<in> approved (lw_db s) \<or> approved_by env k s x"
    and "k \<in> confirmed (lw_db (lc_step env s x)) \<Longrightarrow> k \<in> confirmed (lw_db s) \<or> confirmed_by env k s x"
    and "receipted k (lc_step env s x) \<Longrightarrow> receipted k s \<or> k \<in> confirmed (lw_db s)" by blast+
qed

interpretation approvals: evidence "lc_step env" lc_ok "approved_by env" "\<lambda>k s. k \<in> approved (lw_db s)"
  by unfold_locales (auto intro: lc_step_ok dest: step_effect(1))

interpretation confirmations: evidence "lc_step env" lc_ok "confirmed_by env" "\<lambda>k s. k \<in> confirmed (lw_db s)"
  by unfold_locales (auto dest: step_effect(2))

interpretation erasures: evidence "lc_step env" lc_ok "\<lambda>k s x. k \<in> confirmed (lw_db s)" receipted
  by unfold_locales (auto dest: step_effect(3))

lemma approve_Inr: "fst (approve env newJob c i now db) = Inr j \<Longrightarrow> lx_role c = OWNER"
  by (auto simp: approve_def requireRole_def require_def split: if_splits)

lemma approved_byE:
  assumes "approved_by env (t, i) s x"
  obtains now c newJob where "x = (now, Ask c (L_approve newJob i))" "lx_role c = OWNER" "lx_tenantId c = t"
  using assms
  by (auto simp: approved_by_def approves_def split: prod.splits lc_move.splits lc_op.splits sum.splits dest: approve_Inr)

lemma confirmed_byE:
  assumes "confirmed_by env (t, i) s x"
  obtains now c name where "x = (now, Ask c (L_confirm i name))" "lx_role c = OWNER" "lx_tenantId c = t"
    "map_of (workspaces (lw_db s)) t = Some name" "(t, i) \<in> in_status {APPROVED, SCHEDULED} (lw_db s)"
proof -
  from assms obtain now c name u where x: "x = (now, Ask c (L_confirm i name))" "lx_tenantId c = t"
    "fst (confirm_deletion env c i name now (lw_db s)) = Inr u"
    by (auto simp: confirmed_by_def confirms_def split: prod.splits lc_move.splits lc_op.splits sum.splits)
  from confirm_Inr [OF x(3)] x show ?thesis by (intro that) auto
qed

subsection \<open>Properties\<close>

definition before_any_request :: "lc_world \<Rightarrow> bool" where
  "before_any_request s \<longleftrightarrow> requests (lw_db s) = [] \<and> receipts (lw_db s) = [] \<and> lw_flight s = []"

text \<open>
  C4: A workspace is erased, which leaves a receipt, only on a request of that workspace that an Owner of it
  approved and an Owner of it afterwards confirmed by typing the workspace's name as it then was, however
  requests, holds, schedules, cancellations, workers and other workspaces' erasures come in between.
\<close>

theorem workspace_erased_only_when_confirmed:
  assumes "before_any_request s" "rc \<in> set (receipts (lw_db (foldl (lc_step env) s xs)))"
  shows "\<exists>as t1 c1 newJob bs t2 c2 name cs.
      xs = as @ (t1, Ask c1 (L_approve newJob (rc_requestId rc))) # bs @ (t2, Ask c2 (L_confirm (rc_requestId rc) name)) # cs
    \<and> lx_role c1 = OWNER \<and> lx_tenantId c1 = rc_tenantId rc
    \<and> lx_role c2 = OWNER \<and> lx_tenantId c2 = rc_tenantId rc
    \<and> map_of (workspaces (lw_db (foldl (lc_step env) s (as @ (t1, Ask c1 (L_approve newJob (rc_requestId rc))) # bs))))
        (rc_tenantId rc) = Some name"
proof -
  let ?k = "(rc_tenantId rc, rc_requestId rc)" and ?run = "foldl (lc_step env) s"
  have ok: "lc_ok s" and no: "?k \<notin> in_status S (lw_db s)" "\<not> receipted ?k s" for S
    using assms(1) by (auto simp: before_any_request_def lc_ok_def shape_def in_status_def receipted_def)
  have "receipted ?k (?run xs)" using assms(2) by (auto simp: receipted_def)
  from erasures.earned [OF ok no(2) this] obtain ys x zs where 1: "xs = ys @ x # zs" "?k \<in> confirmed (lw_db (?run ys))" by blast
  from confirmations.earned [OF ok no(1) 1(2)] obtain us y vs where
    2: "ys = us @ y # vs" "confirmed_by env ?k (?run us) y" by blast
  from confirmed_byE [OF 2(2)] obtain t2 c2 name where
    3: "y = (t2, Ask c2 (L_confirm (rc_requestId rc) name))" "lx_role c2 = OWNER" "lx_tenantId c2 = rc_tenantId rc"
      "map_of (workspaces (lw_db (?run us))) (rc_tenantId rc) = Some name" "?k \<in> in_status {APPROVED, SCHEDULED} (lw_db (?run us))"
    by blast
  from 3(5) have "?k \<in> approved (lw_db (?run us))" by (auto simp: in_status_def)
  from approvals.earned [OF ok no(1) this] obtain as z bs where
    4: "us = as @ z # bs" "approved_by env ?k (?run as) z" by blast
  from approved_byE [OF 4(2)] obtain t1 c1 newJob where
    5: "z = (t1, Ask c1 (L_approve newJob (rc_requestId rc)))" "lx_role c1 = OWNER" "lx_tenantId c1 = rc_tenantId rc" by blast
  have "xs = as @ (t1, Ask c1 (L_approve newJob (rc_requestId rc))) # bs
      @ (t2, Ask c2 (L_confirm (rc_requestId rc) name)) # (vs @ x # zs)"
    using 1(1) 2(1) 3(1) 4(1) 5(1) by simp
  moreover have "us = as @ (t1, Ask c1 (L_approve newJob (rc_requestId rc))) # bs" using 4(1) 5(1) by simp
  ultimately show ?thesis using 3(2-4) 5(2,3) by blast
qed

text \<open>A workspace with its Owner, whose erasure is asked for, approved, confirmed and carried out.\<close>

definition demo_lc_env :: lc_env where
  "demo_lc_env = \<lparr>le_newId = (\<lambda>n. ''e''), le_digest = (\<lambda>x. x)\<rparr>"

definition demo_owner :: lc_ctx where
  "demo_owner = \<lparr>lx_tenantId = ''t'', lx_userId = ''u'', lx_role = OWNER\<rparr>"

definition demo_lc_world :: lc_world where
  "demo_lc_world = \<lparr>lw_db = \<lparr>jobs = [], outbox = [], job_log = [], requests = [], workspaces = [(''t'', ''Acme'')],
       lc_mailboxes = [], lc_tasks = [], lc_members = [], people = [], identities = [], otps = [], refresh_tokens = [],
       work = \<lparr>streams = [], commitments = [], decisions = [], dependencies = [], evidences = []\<rparr>, receipts = []\<rparr>,
     lw_flight = [], lw_known = []\<rparr>"

definition demo_erasure :: "(instant \<times> lc_move) list" where
  "demo_erasure = [(1, Ask demo_owner (L_request ''r'' None TARGET_TENANT None None)),
     (2, Ask demo_owner (L_approve ''j'' ''r'')), (3, Ask demo_owner (L_confirm ''r'' ''Acme'')),
     (4, Claim), (5, Look 0), (6, Execute 0 '''' (\<lambda>i. i))]"

definition demo_receipt :: deletion_receipt where
  "demo_receipt = \<lparr>rc_tenantId = ''t'', rc_requestId = ''r'', rc_requestedBy = ''u'', rc_nameHash = ''Acme'', rc_deletedAt = 6\<rparr>"

theorem workspace_erased_only_when_confirmed_witness:
  "\<exists>as t1 c1 newJob bs t2 c2 name cs.
      demo_erasure = as @ (t1, Ask c1 (L_approve newJob ''r'')) # bs @ (t2, Ask c2 (L_confirm ''r'' name)) # cs
    \<and> lx_role c1 = OWNER \<and> lx_tenantId c1 = ''t'' \<and> lx_role c2 = OWNER \<and> lx_tenantId c2 = ''t''
    \<and> map_of (workspaces (lw_db (foldl (lc_step demo_lc_env) demo_lc_world
        (as @ (t1, Ask c1 (L_approve newJob ''r'')) # bs)))) ''t'' = Some name"
proof -
  have b: "before_any_request demo_lc_world" by code_simp
  have r: "demo_receipt \<in> set (receipts (lw_db (foldl (lc_step demo_lc_env) demo_lc_world demo_erasure)))" by code_simp
  have k: "rc_tenantId demo_receipt = ''t''" "rc_requestId demo_receipt = ''r''" by (simp_all add: demo_receipt_def)
  from workspace_erased_only_when_confirmed [OF b r] show ?thesis unfolding k .
qed

subsection \<open>A request that was held\<close>

lemma find_row_unique:
  assumes "unique_key key rows" "r \<in> set rows" "P r" "\<And>x. P x \<Longrightarrow> key x = key r"
  shows "find_row P rows = Some r"
proof (cases "find_row P rows")
  case None
  with assms(2,3) show ?thesis by (auto simp: find_row_None_iff)
next
  case (Some x)
  from find_row_SomeD [OF this] assms have "x = r" by (auto dest: unique_keyD)
  with Some show ?thesis by simp
qed

lemma set_request_row:
  assumes "unique_key lr_id (requests db)" "r \<in> set (requests db)" "\<And>x. lr_id (f x) = lr_id x"
  shows "f r \<in> set (requests (set_request (lr_tenantId r) (lr_id r) f db))"
    "unique_key lr_id (requests (set_request (lr_tenantId r) (lr_id r) f db))"
  using assms by (auto simp: table_simps unique_key_update_where)

text \<open>The row of a request and the row of its job, both found by their keys.\<close>

definition request_with_job :: "lc_ctx \<Rightarrow> uuid \<Rightarrow> job_status \<Rightarrow> lc_request \<Rightarrow> job \<Rightarrow> lc_db \<Rightarrow> bool" where
  "request_with_job c i st r j db \<longleftrightarrow> unique_key lr_id (requests db) \<and> r \<in> set (requests db) \<and> lr_id r = i
     \<and> lr_tenantId r = lx_tenantId c \<and> lr_type r = DELETION
     \<and> unique_key j_id (jobs db) \<and> unique_key (\<lambda>j. (j_tenantId j, j_idempotencyKey j)) (jobs db)
     \<and> j \<in> set (jobs db) \<and> j_tenantId j = lx_tenantId c \<and> j_idempotencyKey j = ''deletion:'' @ i \<and> j_status j = st"

lemma job_of_row:
  "request_with_job c i st r j db \<Longrightarrow> lr_jobId r = Some (j_id j) \<Longrightarrow> job_of r db = Some j"
  by (auto simp: request_with_job_def job_of_def intro: find_row_unique [where key = j_id])

lemma open_row:
  "request_with_job c i st r j db \<Longrightarrow> lr_status r \<in> set sts \<Longrightarrow> lc_open (lx_tenantId c) i sts db = Inr r"
  by (auto simp: request_with_job_def lc_open_def find_row_unique [where key = lr_id])

lemma held_once:
  assumes "request_with_job c i J_PENDING r j db" "lr_status r = APPROVED" "lr_jobId r = Some (j_id j)" "lx_role c = OWNER"
  shows "\<exists>r' j'. request_with_job c i J_CANCELLED r' j' (snd (block env c i why now db)) \<and> lr_status r' = BLOCKED \<and> j_id j' = j_id j"
proof -
  have b: "snd (block env c i why now db) = lc_audit env c now ''DATA_DELETION_BLOCKED'' i
      (set_request (lx_tenantId c) i
         (\<lambda>x. x\<lparr>lr_status := BLOCKED, lr_blockReason := Some why, lr_deadline := None, lr_scheduledFor := None\<rparr>)
         (db\<lparr>jobs := update_where (\<lambda>x. j_id x = j_id j \<and> j_tenantId x = lx_tenantId c \<and> j_status x \<in> {J_PENDING, J_RETRY})
            (cancelled_job now) (jobs db)\<rparr>))"
    using open_row [OF assms(1), of BLOCKABLE] job_of_row [OF assms(1,3)] assms(2,4) assms(1)
    by (simp add: block_def requireRole_def BLOCKABLE_def set_job_def request_with_job_def)
  show ?thesis
    using assms(1) unfolding b request_with_job_def
    by (intro exI [of _ "r\<lparr>lr_status := BLOCKED, lr_blockReason := Some why, lr_deadline := None, lr_scheduledFor := None\<rparr>"]
        exI [of _ "cancelled_job now j"])
      (auto simp: lc_audit_def set_request_def unique_key_update_where cancelled_job_def table_simps)
qed

lemma lifted_once:
  assumes "request_with_job c i st r j db" "lr_status r = BLOCKED" "lx_role c = OWNER"
  shows "\<exists>r'. request_with_job c i st r' j (snd (unblock env c i now db)) \<and> lr_status r' = REQUESTED"
proof -
  have b: "snd (unblock env c i now db) = lc_audit env c now ''DATA_DELETION_UNBLOCKED'' i
      (set_request (lx_tenantId c) i
        (\<lambda>x. x\<lparr>lr_status := REQUESTED, lr_blockReason := None, lr_verifiedAt := None, lr_deadline := None,
                    lr_approvedAt := None, lr_jobId := None\<rparr>) db)"
    using open_row [OF assms(1), of "[BLOCKED]"] assms(1-3) by (simp add: unblock_def requireRole_def request_with_job_def)
  show ?thesis
    using assms(1) unfolding b request_with_job_def
    by (intro exI [of _ "r\<lparr>lr_status := REQUESTED, lr_blockReason := None, lr_verifiedAt := None, lr_deadline := None,
                    lr_approvedAt := None, lr_jobId := None\<rparr>"])
      (auto simp: lc_audit_def set_request_def unique_key_update_where table_simps)
qed

lemma approved_again:
  assumes "request_with_job c i st r j db" "lr_status r = REQUESTED" "lx_role c = OWNER"
  shows "\<exists>r'. request_with_job c i st r' j (snd (approve env newJob c i now db)) \<and> lr_status r' = APPROVED
    \<and> lr_deadline r' = Some (hardDeleteDeadlineFrom now) \<and> lr_jobId r' = Some (j_id j)"
proof -
  have "find_row (\<lambda>x. j_tenantId x = lx_tenantId c \<and> j_idempotencyKey x = ''deletion:'' @ i) (jobs db) = Some j"
    using assms(1) by (intro find_row_unique [where key = "\<lambda>j. (j_tenantId j, j_idempotencyKey j)"])
      (auto simp: request_with_job_def)
  then have e: "enqueue newJob now \<lparr>ji_tenantId = lx_tenantId c, ji_userId = lx_userId c, ji_type = DATA_DELETION,
      ji_payload = p, ji_idempotencyKey = ''deletion:'' @ i\<rparr> db = (j, db)" for p
    by (simp add: enqueue_def)
  have b: "snd (approve env newJob c i now db) = lc_audit env c now ''DATA_DELETION_APPROVED'' i
      (set_request (lx_tenantId c) i
        (\<lambda>x. x\<lparr>lr_status := APPROVED, lr_approvedAt := Some now, lr_verifiedAt := Some now,
             lr_deadline := Some (hardDeleteDeadlineFrom now), lr_scheduledFor := Some now, lr_jobId := Some (j_id j)\<rparr>) db)"
    using open_row [OF assms(1), of "[REQUESTED]"] assms(1-3) e
    by (simp add: approve_def requireRole_def request_with_job_def)
  show ?thesis
    using assms(1) unfolding b request_with_job_def
    by (intro exI [of _ "r\<lparr>lr_status := APPROVED, lr_approvedAt := Some now, lr_verifiedAt := Some now,
             lr_deadline := Some (hardDeleteDeadlineFrom now), lr_scheduledFor := Some now, lr_jobId := Some (j_id j)\<rparr>"])
      (auto simp: lc_audit_def set_request_def unique_key_update_where table_simps)
qed

lemma cancelled_not_claimed:
  assumes "request_with_job c i J_CANCELLED r j db" "fst (claimSupported now db) = Some x"
  shows "j_id x \<noteq> j_id j"
proof
  assume e: "j_id x = j_id j"
  from claim_cases [of now db] assms(2) obtain k where k: "k \<in> set (jobs db)" "claimable now k" "x = locked_job now k" by auto
  with e assms(1) have "k = j" by (auto simp: request_with_job_def locked_job_def dest: unique_keyD)
  with k(2) assms(1) show False by (simp add: claimable_def request_with_job_def)
qed

lemma cancelled_not_confirmed:
  assumes "request_with_job c i J_CANCELLED r j db" "lr_jobId r = Some (j_id j)"
  shows "fst (confirm_deletion env c i name now db) \<noteq> Inr u"
proof
  assume s: "fst (confirm_deletion env c i name now db) = Inr u"
  then obtain r' j' where f: "find_row (\<lambda>r. lr_id r = i \<and> lr_tenantId r = lx_tenantId c \<and> lr_type r = DELETION
                 \<and> lr_status r \<in> {APPROVED, SCHEDULED} \<and> lr_targetType r = Some TARGET_TENANT) (requests db) = Some r'"
      "job_of r' db = Some j'" "j_status j' = J_PENDING"
    by (auto simp: confirm_deletion_def split: sum.splits option.splits if_splits)
  from find_row_SomeD [OF f(1)] assms(1) have "r' = r" by (auto simp: request_with_job_def dest: unique_keyD)
  with f job_of_row [OF assms] assms(1) show False by (simp add: request_with_job_def)
qed


definition demo_approved :: lc_db where
  "demo_approved = lw_db (foldl (lc_step demo_lc_env) demo_lc_world (take 2 demo_erasure))"


end
