(* ===== verification/Tokens.thy ===== *)
theory Tokens
  imports Totp Audit_Log
begin

section \<open>Signed tokens\<close>

text \<open>
  The tokens the backend signs (\<open>common/types/jwt.ts\<close>, the builders and guards of
  \<open>modules/auth/auth.service.ts\<close>, \<open>common/middleware/authenticate.ts\<close> and \<open>staffAuth.ts\<close>). The
  payloads are JSON objects, as the library that signs them takes them; signing, verifying and the
  digest of a token are parameters. A payload is read the way the guards read it, property by
  property.
\<close>

subsection \<open>Names\<close>

fun role_name :: "membership_role \<Rightarrow> string" where
  "role_name OWNER = ''OWNER''"
| "role_name ADMIN = ''ADMIN''"
| "role_name MEMBER = ''MEMBER''"
| "role_name SUPPORT = ''SUPPORT''"

definition role_of :: "string \<Rightarrow> membership_role option" where
  "role_of s = find_row (\<lambda>r. role_name r = s) [OWNER, ADMIN, MEMBER, SUPPORT]"

fun platform_name :: "platform_role \<Rightarrow> string" where
  "platform_name PR_NONE = ''NONE''"
| "platform_name PR_SUPPORT = ''SUPPORT''"
| "platform_name PR_SUPER_ADMIN = ''SUPER_ADMIN''"

text \<open>The set \<open>platformRoles\<close>: a platform token never carries \<open>NONE\<close>.\<close>

definition platform_of :: "string \<Rightarrow> platform_role option" where
  "platform_of s = find_row (\<lambda>r. platform_name r = s) [PR_SUPPORT, PR_SUPER_ADMIN]"

lemma role_of_name [simp]: "role_of (role_name r) = Some r"
  by (cases r) (simp_all add: role_of_def table_simps)

lemma platform_of_name [simp]: "platform_of (platform_name r) = (if r = PR_NONE then None else Some r)"
  by (cases r) (simp_all add: platform_of_def table_simps)

subsection \<open>The library and its configuration\<close>

text \<open>
  What \<open>jwt.verify\<close> answers: the payload, \<open>TokenExpiredError\<close>, or any other of its errors. Signing
  takes the secret, the payload, the lifetime and the clock.
\<close>

datatype jwt_outcome = Verified json | Token_Expired | Token_Malformed

record token_env =
  JWT_ACCESS_SECRET :: string
  JWT_REFRESH_SECRET :: string
  JWT_ACCESS_EXPIRES_IN :: string
  JWT_REFRESH_EXPIRES_IN :: string
  STEP_UP_EXPIRES_IN :: string
  jwt_sign :: "string \<Rightarrow> json \<Rightarrow> string \<Rightarrow> instant \<Rightarrow> string"
  jwt_verify :: "string \<Rightarrow> string \<Rightarrow> instant \<Rightarrow> jwt_outcome"
  hashToken :: "string \<Rightarrow> string"

definition PENDING_TOKEN_EXPIRES_IN :: string where
  "PENDING_TOKEN_EXPIRES_IN = ''12h''"

definition SELECTION_TOKEN_EXPIRES_IN :: string where
  "SELECTION_TOKEN_EXPIRES_IN = ''15m''"

definition MFA_CHALLENGE_EXPIRES_IN :: string where
  "MFA_CHALLENGE_EXPIRES_IN = ''10m''"

text \<open>\<open>^(\d+)([smhd])$\<close>: digits, then one letter for the unit.\<close>

definition unit_ms :: "char \<Rightarrow> int option" where
  "unit_ms c = map_of [(CHR ''s'', 1000), (CHR ''m'', 60000), (CHR ''h'', 3600000), (CHR ''d'', 86400000)] c"

definition digits_value :: "string \<Rightarrow> int" where
  "digits_value ds = foldl (\<lambda>n c. n * 10 + (of_char c - 48)) 0 ds"

definition parseDurationToMs :: "string \<Rightarrow> int result" where
  "parseDurationToMs duration =
     (if duration = [] then Inl (ServerError ''Invalid duration format'')
      else let ds = butlast duration
        in case unit_ms (last duration) of
             None \<Rightarrow> Inl (ServerError ''Invalid duration format'')
           | Some ms \<Rightarrow> if ds \<noteq> [] \<and> list_all is_digit ds then Inr (digits_value ds * ms)
                        else Inl (ServerError ''Invalid duration format''))"

subsection \<open>What is signed\<close>

datatype mfa_intent =
    Tenant_Intent (in_tenant: uuid) (in_membership: uuid) (in_scope: workspace_scope)
  | Platform_Intent (in_platform: platform_role)

text \<open>
  One constructor per payload interface of \<open>jwt.ts\<close> the service signs. A \<open>Refresh_Token\<close> has its
  session identifier, then its own; a \<open>Selection_Token\<close> may carry the Member console.
\<close>

datatype minted =
    is_access: Access_Token uuid uuid uuid membership_role platform_role workspace_scope uuid
  | is_refresh: Refresh_Token uuid uuid uuid membership_role workspace_scope uuid uuid
  | is_pending: Pending_Token uuid
  | is_selection: Selection_Token uuid uuid bool
  | is_platform: Platform_Token uuid platform_role
  | is_mfa: Mfa_Token uuid uuid bool mfa_intent
  | is_step_up: Step_Up_Token uuid uuid uuid

definition intent_json :: "mfa_intent \<Rightarrow> json" where
  "intent_json x = (case x of
     Tenant_Intent t m w \<Rightarrow> JObj [(''kind'', JStr ''tenant''), (''tenantId'', JStr t),
       (''membershipId'', JStr m), (''workspace'', JStr (role_name w))]
   | Platform_Intent p \<Rightarrow> JObj [(''kind'', JStr ''platform''), (''platformRole'', JStr (platform_name p))])"

fun payload_of :: "minted \<Rightarrow> (string \<times> json) list" where
  "payload_of (Access_Token u t m r p w sid) =
     [(''sub'', JStr u), (''tenantId'', JStr t), (''membershipId'', JStr m), (''role'', JStr (role_name r)),
      (''platformRole'', JStr (platform_name p)), (''workspace'', JStr (role_name w)), (''sid'', JStr sid),
      (''type'', JStr ''access'')]"
| "payload_of (Refresh_Token u t m r w sid jti) =
     [(''sub'', JStr u), (''tenantId'', JStr t), (''membershipId'', JStr m), (''role'', JStr (role_name r)),
      (''workspace'', JStr (role_name w)), (''sid'', JStr sid), (''type'', JStr ''refresh''), (''jti'', JStr jti)]"
| "payload_of (Pending_Token u) = [(''sub'', JStr u), (''type'', JStr ''pending'')]"
| "payload_of (Selection_Token u jti member) =
     [(''sub'', JStr u), (''type'', JStr ''selection''), (''jti'', JStr jti)]
     @ (if member then [(''workspace'', JStr ''MEMBER'')] else [])"
| "payload_of (Platform_Token u p) =
     [(''sub'', JStr u), (''platformRole'', JStr (platform_name p)), (''type'', JStr ''platform'')]"
| "payload_of (Mfa_Token u jti enrolment intent) =
     [(''sub'', JStr u), (''type'', JStr ''mfa''), (''jti'', JStr jti), (''enrolment'', JBool enrolment),
      (''intent'', intent_json intent)]"
| "payload_of (Step_Up_Token u t jti) =
     [(''sub'', JStr u), (''tenantId'', JStr t), (''type'', JStr ''step-up''), (''jti'', JStr jti)]"

subsection \<open>Reading a payload\<close>

definition prop_of :: "json \<Rightarrow> string \<Rightarrow> json option" where
  "prop_of v k = (case v of JObj es \<Rightarrow> field k es | _ \<Rightarrow> None)"

definition str_prop :: "json \<Rightarrow> string \<Rightarrow> string option" where
  "str_prop v k = (case prop_of v k of Some (JStr s) \<Rightarrow> Some s | _ \<Rightarrow> None)"

definition is_str :: "json \<Rightarrow> string \<Rightarrow> bool" where
  "is_str v k \<longleftrightarrow> str_prop v k \<noteq> None"

definition role_prop :: "json \<Rightarrow> string \<Rightarrow> membership_role option" where
  "role_prop v k = (case str_prop v k of None \<Rightarrow> None | Some s \<Rightarrow> role_of s)"

definition isAccessTokenPayload :: "json \<Rightarrow> bool" where
  "isAccessTokenPayload v \<longleftrightarrow> is_str v ''sub'' \<and> is_str v ''tenantId'' \<and> is_str v ''membershipId''
     \<and> role_prop v ''role'' \<noteq> None \<and> role_prop v ''workspace'' \<noteq> None \<and> str_prop v ''type'' = Some ''access''"

text \<open>The guard of the support console, a copy that does not ask for a console.\<close>

definition isStaffAccessTokenPayload :: "json \<Rightarrow> bool" where
  "isStaffAccessTokenPayload v \<longleftrightarrow> is_str v ''sub'' \<and> is_str v ''tenantId'' \<and> is_str v ''membershipId''
     \<and> role_prop v ''role'' \<noteq> None \<and> str_prop v ''type'' = Some ''access''"

definition isPlatformTokenPayload :: "json \<Rightarrow> bool" where
  "isPlatformTokenPayload v \<longleftrightarrow> is_str v ''sub''
     \<and> (case str_prop v ''platformRole'' of None \<Rightarrow> False | Some s \<Rightarrow> platform_of s \<noteq> None)
     \<and> str_prop v ''type'' = Some ''platform''"

definition isRefreshTokenPayload :: "json \<Rightarrow> bool" where
  "isRefreshTokenPayload v \<longleftrightarrow> is_str v ''sub'' \<and> is_str v ''tenantId'' \<and> is_str v ''membershipId''
     \<and> role_prop v ''role'' \<noteq> None \<and> str_prop v ''type'' = Some ''refresh'' \<and> is_str v ''jti''"

definition isPendingTokenPayload :: "json \<Rightarrow> bool" where
  "isPendingTokenPayload v \<longleftrightarrow> is_str v ''sub'' \<and> str_prop v ''type'' = Some ''pending''"

definition isSelectionTokenPayload :: "json \<Rightarrow> bool" where
  "isSelectionTokenPayload v \<longleftrightarrow> is_str v ''sub'' \<and> str_prop v ''type'' = Some ''selection'' \<and> is_str v ''jti''"

definition isMfaTokenPayload :: "json \<Rightarrow> bool" where
  "isMfaTokenPayload v \<longleftrightarrow> str_prop v ''type'' = Some ''mfa''"

definition isStepUpFor :: "json \<Rightarrow> uuid \<Rightarrow> uuid \<Rightarrow> bool" where
  "isStepUpFor v userId tenantId \<longleftrightarrow> str_prop v ''type'' = Some ''step-up''
     \<and> str_prop v ''sub'' = Some userId \<and> str_prop v ''tenantId'' = Some tenantId"

subsection \<open>Signing and verifying\<close>

definition buildPendingToken :: "token_env \<Rightarrow> uuid \<Rightarrow> instant \<Rightarrow> string" where
  "buildPendingToken env userId now =
     jwt_sign env (JWT_ACCESS_SECRET env) (JObj (payload_of (Pending_Token userId))) PENDING_TOKEN_EXPIRES_IN now"

definition buildSelectionToken :: "token_env \<Rightarrow> uuid \<Rightarrow> uuid \<Rightarrow> workspace_scope option \<Rightarrow> instant \<Rightarrow> string" where
  "buildSelectionToken env jti userId workspace now =
     jwt_sign env (JWT_ACCESS_SECRET env)
       (JObj (payload_of (Selection_Token userId jti (workspace = Some MEMBER)))) SELECTION_TOKEN_EXPIRES_IN now"

definition buildPlatformToken :: "token_env \<Rightarrow> uuid \<Rightarrow> platform_role \<Rightarrow> instant \<Rightarrow> string" where
  "buildPlatformToken env userId role now =
     jwt_sign env (JWT_ACCESS_SECRET env) (JObj (payload_of (Platform_Token userId role)))
       (JWT_ACCESS_EXPIRES_IN env) now"

definition buildMfaChallengeToken :: "token_env \<Rightarrow> uuid \<Rightarrow> uuid \<Rightarrow> mfa_intent \<Rightarrow> bool \<Rightarrow> instant \<Rightarrow> string" where
  "buildMfaChallengeToken env jti userId intent enrolment now =
     jwt_sign env (JWT_ACCESS_SECRET env) (JObj (payload_of (Mfa_Token userId jti enrolment intent)))
       MFA_CHALLENGE_EXPIRES_IN now"

definition buildStepUpToken :: "token_env \<Rightarrow> uuid \<Rightarrow> uuid \<Rightarrow> uuid \<Rightarrow> instant \<Rightarrow> string" where
  "buildStepUpToken env jti userId tenantId now =
     jwt_sign env (JWT_ACCESS_SECRET env) (JObj (payload_of (Step_Up_Token userId tenantId jti)))
       (STEP_UP_EXPIRES_IN env) now"

definition verifyStepUpToken :: "token_env \<Rightarrow> string option \<Rightarrow> uuid \<Rightarrow> uuid \<Rightarrow> instant \<Rightarrow> bool" where
  "verifyStepUpToken env token userId tenantId now \<longleftrightarrow>
     (case token of None \<Rightarrow> False
      | Some t \<Rightarrow> if t = [] then False
          else case jwt_verify env (JWT_ACCESS_SECRET env) t now of
                 Verified v \<Rightarrow> isStepUpFor v userId tenantId
               | _ \<Rightarrow> False)"

definition intent_of :: "json \<Rightarrow> mfa_intent option" where
  "intent_of v = (case str_prop v ''kind'' of
     None \<Rightarrow> None
   | Some k \<Rightarrow>
       if k = ''platform'' then
         (case str_prop v ''platformRole'' of None \<Rightarrow> None
          | Some p \<Rightarrow> map_option Platform_Intent (platform_of p))
       else (case (str_prop v ''tenantId'', str_prop v ''membershipId'', role_prop v ''workspace'') of
               (Some t, Some m, Some w) \<Rightarrow> Some (Tenant_Intent t m w)
             | _ \<Rightarrow> None))"

text \<open>
  The subject and the intent of a challenge token. The code trusts the shape of a payload whose type
  is \<open>mfa\<close>; one that carries no subject or no intent, which the service never signs, is refused here.
\<close>

definition readMfaChallengeToken :: "token_env \<Rightarrow> string \<Rightarrow> instant \<Rightarrow> (uuid \<times> mfa_intent) result" where
  "readMfaChallengeToken env token now =
     (case jwt_verify env (JWT_ACCESS_SECRET env) token now of
        Verified v \<Rightarrow>
          if \<not> isMfaTokenPayload v then fail_with 401 TOKEN_INVALID
          else (case (str_prop v ''sub'', map_option intent_of (prop_of v ''intent'')) of
                  (Some u, Some (Some x)) \<Rightarrow> Inr (u, x)
                | _ \<Rightarrow> fail_with 401 TOKEN_INVALID)
      | _ \<Rightarrow> fail_with 401 TOKEN_INVALID)"

definition verifyPendingToken :: "token_env \<Rightarrow> string \<Rightarrow> instant \<Rightarrow> uuid result" where
  "verifyPendingToken env token now =
     (case jwt_verify env (JWT_ACCESS_SECRET env) token now of
        Token_Expired \<Rightarrow> fail_with 401 TOKEN_EXPIRED
      | Token_Malformed \<Rightarrow> fail_with 401 TOKEN_INVALID
      | Verified v \<Rightarrow> if isPendingTokenPayload v then Inr (the (str_prop v ''sub''))
                      else fail_with 401 TOKEN_INVALID)"

record selection =
  sl_userId :: uuid
  sl_jti :: uuid
  sl_expiresAt :: instant
  sl_workspace :: "workspace_scope option"

definition verifySelectionToken :: "token_env \<Rightarrow> string \<Rightarrow> instant \<Rightarrow> selection result" where
  "verifySelectionToken env token now =
     (case jwt_verify env (JWT_ACCESS_SECRET env) token now of
        Token_Expired \<Rightarrow> fail_with 401 TOKEN_EXPIRED
      | Token_Malformed \<Rightarrow> fail_with 401 TOKEN_INVALID
      | Verified v \<Rightarrow>
          if \<not> isSelectionTokenPayload v then fail_with 401 TOKEN_INVALID
          else Inr \<lparr>sl_userId = the (str_prop v ''sub''), sl_jti = the (str_prop v ''jti''),
                    sl_expiresAt = (case prop_of v ''exp'' of Some (JNum n) \<Rightarrow> n * 1000 | _ \<Rightarrow> now div 1000 * 1000),
                    sl_workspace = (if str_prop v ''workspace'' = Some ''MEMBER'' then Some MEMBER else None)\<rparr>)"

subsection \<open>The bearer of a request\<close>

record auth_context =
  au_sub :: uuid
  au_tenantId :: uuid
  au_membershipId :: uuid
  au_role :: membership_role
  au_platformRole :: string
  au_workspace :: "workspace_scope option"
  au_sessionId :: "string option"

definition bearer_of :: "string \<Rightarrow> string option" where
  "bearer_of header =
     (if starts_with ''Bearer '' header then
        let t = trim (drop 7 header) in if t \<noteq> [] then Some t else None
      else None)"

text \<open>The header first, then the query parameter the event streams use.\<close>

definition extractBearerToken :: "string option \<Rightarrow> string option \<Rightarrow> string option" where
  "extractBearerToken header query =
     (case Option.bind header bearer_of of
        Some t \<Rightarrow> Some t
      | None \<Rightarrow> if query = Some [] then None else query)"

definition access_context :: "json \<Rightarrow> string \<Rightarrow> auth_context" where
  "access_context v sessionKey =
     \<lparr>au_sub = the (str_prop v ''sub''), au_tenantId = the (str_prop v ''tenantId''),
      au_membershipId = the (str_prop v ''membershipId''), au_role = the (role_prop v ''role''),
      au_platformRole = (case str_prop v ''platformRole'' of None \<Rightarrow> ''NONE'' | Some p \<Rightarrow> p),
      au_workspace = role_prop v ''workspace'', au_sessionId = str_prop v sessionKey\<rparr>"

definition authenticate ::
  "token_env \<Rightarrow> string option \<Rightarrow> string option \<Rightarrow> instant \<Rightarrow> auth_context result" where
  "authenticate env header query now =
     (case extractBearerToken header query of
        None \<Rightarrow> fail_with 401 UNAUTHORIZED
      | Some token \<Rightarrow>
          (case jwt_verify env (JWT_ACCESS_SECRET env) token now of
             Token_Expired \<Rightarrow> fail_with 401 TOKEN_EXPIRED
           | Token_Malformed \<Rightarrow> fail_with 401 TOKEN_INVALID
           | Verified v \<Rightarrow> if isAccessTokenPayload v then Inr (access_context v ''sessionId'')
                           else fail_with 401 TOKEN_INVALID))"

definition authenticatePlatform ::
  "token_env \<Rightarrow> string option \<Rightarrow> string option \<Rightarrow> instant \<Rightarrow> (uuid \<times> platform_role) result" where
  "authenticatePlatform env header query now =
     (case extractBearerToken header query of
        None \<Rightarrow> fail_with 401 UNAUTHORIZED
      | Some token \<Rightarrow>
          (case jwt_verify env (JWT_ACCESS_SECRET env) token now of
             Token_Expired \<Rightarrow> fail_with 401 TOKEN_EXPIRED
           | Token_Malformed \<Rightarrow> fail_with 401 TOKEN_INVALID
           | Verified v \<Rightarrow> if isPlatformTokenPayload v
               then Inr (the (str_prop v ''sub''), the (platform_of (the (str_prop v ''platformRole''))))
               else fail_with 401 TOKEN_INVALID))"

definition requirePlatformRole :: "platform_role list \<Rightarrow> (uuid \<times> platform_role) option \<Rightarrow> unit result" where
  "requirePlatformRole allowed auth =
     (case auth of
        None \<Rightarrow> fail_with 401 UNAUTHORIZED
      | Some (u, p) \<Rightarrow> if p \<in> set allowed then Inr () else fail_with 403 FORBIDDEN)"

definition authenticateStaff ::
  "token_env \<Rightarrow> string option \<Rightarrow> instant \<Rightarrow> (auth_context + uuid \<times> platform_role) result" where
  "authenticateStaff env header now =
     (case Option.bind header bearer_of of
        None \<Rightarrow> fail_with 401 UNAUTHORIZED
      | Some token \<Rightarrow>
          (case jwt_verify env (JWT_ACCESS_SECRET env) token now of
             Token_Expired \<Rightarrow> fail_with 401 TOKEN_EXPIRED
           | Token_Malformed \<Rightarrow> fail_with 401 TOKEN_INVALID
           | Verified v \<Rightarrow>
               if isStaffAccessTokenPayload v then Inr (Inl (access_context v ''sid''))
               else if isPlatformTokenPayload v
                 then Inr (Inr (the (str_prop v ''sub''), the (platform_of (the (str_prop v ''platformRole'')))))
               else fail_with 401 TOKEN_INVALID))"

subsection \<open>No token stands in for another\<close>

text \<open>The library adds the time of signing and the expiry to the payload.\<close>

definition signed_payload :: "minted \<Rightarrow> int \<Rightarrow> int \<Rightarrow> json" where
  "signed_payload m iat exp = JObj (payload_of m @ [(''iat'', JNum iat), (''exp'', JNum exp)])"

lemmas reading_simps = signed_payload_def isAccessTokenPayload_def isStaffAccessTokenPayload_def
  isPlatformTokenPayload_def isRefreshTokenPayload_def isPendingTokenPayload_def
  isSelectionTokenPayload_def isMfaTokenPayload_def isStepUpFor_def is_str_def role_prop_def
  str_prop_def prop_of_def field_def

text \<open>
  C40: Of the payloads the service signs, each guard accepts its own kind only: a token of one kind is
  never taken for one of another, a step-up token never for another person or workspace, and a platform
  token only when it names a staff role. The secret is one for six of the kinds.
\<close>

theorem token_kinds_disjoint:
  "(isAccessTokenPayload (signed_payload m iat exp) \<longleftrightarrow> is_access m)
   \<and> (isStaffAccessTokenPayload (signed_payload m iat exp) \<longleftrightarrow> is_access m)
   \<and> (isRefreshTokenPayload (signed_payload m iat exp) \<longleftrightarrow> is_refresh m)
   \<and> (isPendingTokenPayload (signed_payload m iat exp) \<longleftrightarrow> is_pending m)
   \<and> (isSelectionTokenPayload (signed_payload m iat exp) \<longleftrightarrow> is_selection m)
   \<and> (isMfaTokenPayload (signed_payload m iat exp) \<longleftrightarrow> is_mfa m)
   \<and> (isPlatformTokenPayload (signed_payload m iat exp) \<longleftrightarrow> (\<exists>u p. m = Platform_Token u p \<and> p \<noteq> PR_NONE))
   \<and> (isStepUpFor (signed_payload m iat exp) u t \<longleftrightarrow> (\<exists>jti. m = Step_Up_Token u t jti))"
  by (cases m) (auto simp: reading_simps)

text \<open>
  A session token that the library verifies is accepted by both entrances, but only the support
  console learns the session it belongs to: the workspace entrance looks for the identifier under
  another name than the token carries, so no request through it is tied to a sign-in.
\<close>

theorem workspace_requests_lose_their_session:
  assumes "bearer_of header = Some token"
    and "jwt_verify env (JWT_ACCESS_SECRET env) token now
      = Verified (signed_payload (Access_Token u t m r p w sid) iat exp)"
  shows "(\<exists>c. authenticate env (Some header) query now = Inr c \<and> au_sub c = u \<and> au_tenantId c = t
      \<and> au_workspace c = Some w \<and> au_sessionId c = None)
    \<and> (\<exists>c. authenticateStaff env (Some header) now = Inr (Inl c) \<and> au_sub c = u \<and> au_tenantId c = t
      \<and> au_sessionId c = Some sid)"
  using assms
  by (auto simp: authenticate_def authenticateStaff_def extractBearerToken_def access_context_def reading_simps)

definition demo_access :: minted where
  "demo_access = Access_Token ''u'' ''t'' ''m'' ADMIN PR_NONE ADMIN ''s''"

definition demo_token_env :: token_env where
  "demo_token_env =
     \<lparr>JWT_ACCESS_SECRET = ''a'', JWT_REFRESH_SECRET = ''r'', JWT_ACCESS_EXPIRES_IN = ''12h'',
      JWT_REFRESH_EXPIRES_IN = ''7d'', STEP_UP_EXPIRES_IN = ''5m'', jwt_sign = (\<lambda>k p d n. k),
      jwt_verify = (\<lambda>k t n. if k = ''a'' \<and> t = ''tok'' then Verified (signed_payload demo_access 0 43200)
        else Token_Malformed),
      hashToken = (\<lambda>t. t)\<rparr>"

theorem workspace_requests_lose_their_session_witness:
  "(\<exists>c. authenticate demo_token_env (Some ''Bearer tok'') None 5 = Inr c \<and> au_workspace c = Some ADMIN
      \<and> au_sessionId c = None)
   \<and> (\<exists>c. authenticateStaff demo_token_env (Some ''Bearer tok'') 5 = Inr (Inl c) \<and> au_sessionId c = Some ''s'')"
proof -
  have b: "bearer_of ''Bearer tok'' = Some ''tok''" by code_simp
  have v: "jwt_verify demo_token_env (JWT_ACCESS_SECRET demo_token_env) ''tok'' 5
      = Verified (signed_payload (Access_Token ''u'' ''t'' ''m'' ADMIN PR_NONE ADMIN ''s'') 0 43200)"
    by (simp add: demo_token_env_def demo_access_def)
  from workspace_requests_lose_their_session [OF b v, of None] show ?thesis by blast
qed

end
