(* ===== verification/Security_Alerts.thy ===== *)
theory Security_Alerts
  imports Audit_Log
begin

section \<open>Security alerts\<close>

text \<open>
  \<open>modules/security-alert/security-alert.service.ts\<close>: the alerts the sign-in pipeline raises, with
  their deduplication, and their review. The state is the alert table and the audit log; a record
  that extends it runs the same operations. Titles and messages are prose and left out.
\<close>

subsection \<open>State\<close>

datatype alert_type = NEW_DEVICE_LOGIN | FAILED_LOGIN_BURST | REFRESH_TOKEN_REUSE | PASSWORD_CHANGED | PASSWORD_WAS_RESET

datatype alert_severity = SEV_LOW | SEV_MEDIUM | SEV_HIGH | SEV_CRITICAL

datatype alert_status = AL_OPEN | AL_ACKNOWLEDGED | AL_RESOLVED | AL_DISMISSED

record security_alert =
  al_id :: uuid
  al_tenantId :: uuid
  al_type :: alert_type
  al_severity :: alert_severity
  al_status :: alert_status
  al_actorUserId :: "uuid option"
  al_actorEmail :: "string option"
  al_ipAddress :: "string option"
  al_userAgent :: "string option"
  al_deviceLabel :: "string option"
  al_metadata :: json
  al_resolutionNote :: "string option"
  al_resolvedById :: "uuid option"
  al_resolvedAt :: "instant option"
  al_createdAt :: instant

record alert_db =
  security_alerts :: "security_alert list"
  alert_log :: "audit_event list"

text \<open>What a request says of its caller.\<close>

record request_context =
  rq_requestId :: "string option"
  rq_ipAddress :: "string option"
  rq_userAgent :: "string option"

record alert_input =
  ai_type :: alert_type
  ai_userId :: "uuid option"
  ai_email :: "string option"
  ai_ipAddress :: "string option"
  ai_userAgent :: "string option"
  ai_deviceLabel :: "string option"
  ai_requestId :: "string option"
  ai_metadata :: json

subsection \<open>Names and constants\<close>

fun alert_type_name :: "alert_type \<Rightarrow> string" where
  "alert_type_name NEW_DEVICE_LOGIN = ''NEW_DEVICE_LOGIN''"
| "alert_type_name FAILED_LOGIN_BURST = ''FAILED_LOGIN_BURST''"
| "alert_type_name REFRESH_TOKEN_REUSE = ''REFRESH_TOKEN_REUSE''"
| "alert_type_name PASSWORD_CHANGED = ''PASSWORD_CHANGED''"
| "alert_type_name PASSWORD_WAS_RESET = ''PASSWORD_RESET''"

fun severity_name :: "alert_severity \<Rightarrow> string" where
  "severity_name SEV_LOW = ''LOW''"
| "severity_name SEV_MEDIUM = ''MEDIUM''"
| "severity_name SEV_HIGH = ''HIGH''"
| "severity_name SEV_CRITICAL = ''CRITICAL''"

fun ALERT_SEVERITY :: "alert_type \<Rightarrow> alert_severity" where
  "ALERT_SEVERITY NEW_DEVICE_LOGIN = SEV_MEDIUM"
| "ALERT_SEVERITY FAILED_LOGIN_BURST = SEV_HIGH"
| "ALERT_SEVERITY REFRESH_TOKEN_REUSE = SEV_CRITICAL"
| "ALERT_SEVERITY PASSWORD_CHANGED = SEV_LOW"
| "ALERT_SEVERITY PASSWORD_WAS_RESET = SEV_HIGH"

definition DEDUPE_WINDOW_MINUTES :: int where
  "DEDUPE_WINDOW_MINUTES = 30"

definition FAILED_LOGIN_BURST_THRESHOLD :: nat where
  "FAILED_LOGIN_BURST_THRESHOLD = 5"

definition FAILED_LOGIN_WINDOW_MINUTES :: int where
  "FAILED_LOGIN_WINDOW_MINUTES = 10"

subsection \<open>Raising an alert\<close>

definition createAlert ::
  "(nat \<Rightarrow> uuid) \<Rightarrow> uuid \<Rightarrow> instant \<Rightarrow> uuid \<Rightarrow> alert_input \<Rightarrow> 'a alert_db_scheme \<Rightarrow> 'a alert_db_scheme" where
  "createAlert newId i now tenantId x db =
     db\<lparr>security_alerts := security_alerts db @
          [\<lparr>al_id = i, al_tenantId = tenantId, al_type = ai_type x, al_severity = ALERT_SEVERITY (ai_type x),
            al_status = AL_OPEN, al_actorUserId = ai_userId x, al_actorEmail = ai_email x,
            al_ipAddress = ai_ipAddress x, al_userAgent = ai_userAgent x, al_deviceLabel = ai_deviceLabel x,
            al_metadata = ai_metadata x, al_resolutionNote = None, al_resolvedById = None,
            al_resolvedAt = None, al_createdAt = now\<rparr>],
        alert_log := record_event (newId (length (alert_log db))) now
          \<lparr>in_tenantId = tenantId, in_actorUserId = ai_userId x, in_actorType = None,
           in_eventType = ''SECURITY_ALERT_CREATED'', in_targetType = Some ''SecurityAlert'',
           in_targetId = Some i, in_requestId = ai_requestId x, in_ipAddress = ai_ipAddress x,
           in_userAgent = ai_userAgent x,
           in_metadata = Some (JObj [(''type'', JStr (alert_type_name (ai_type x))),
             (''severity'', JStr (severity_name (ALERT_SEVERITY (ai_type x))))]),
           in_beforeHash = None, in_afterHash = None\<rparr> (alert_log db)\<rparr>"

definition freshOpenAlertExists ::
  "uuid \<Rightarrow> alert_type \<Rightarrow> uuid option \<Rightarrow> string option \<Rightarrow> instant \<Rightarrow> 'a alert_db_scheme \<Rightarrow> bool" where
  "freshOpenAlertExists tenantId ty userId ip now db \<longleftrightarrow>
     0 < count_where (\<lambda>a. al_tenantId a = tenantId \<and> al_type a = ty \<and> al_status a = AL_OPEN
           \<and> (truthy userId \<longrightarrow> al_actorUserId a = userId)
           \<and> (truthy ip \<longrightarrow> al_ipAddress a = ip)
           \<and> now - DEDUPE_WINDOW_MINUTES * 60000 \<le> al_createdAt a) (security_alerts db)"

text \<open>
  The sessions of the account in the workspace are passed as the user agents of their rows, the one
  column the check reads.
\<close>

definition recordNewDeviceLogin ::
  "(nat \<Rightarrow> uuid) \<Rightarrow> uuid \<Rightarrow> instant \<Rightarrow> uuid \<Rightarrow> uuid \<Rightarrow> string option list \<Rightarrow> string option \<Rightarrow> request_context
     \<Rightarrow> 'a alert_db_scheme \<Rightarrow> 'a alert_db_scheme" where
  "recordNewDeviceLogin newId i now tenantId userId agents label ctx db =
     (if \<not> truthy (rq_userAgent ctx) then db
      else if rq_userAgent ctx \<in> set agents then db
      else if agents = [] then db
      else createAlert newId i now tenantId
        \<lparr>ai_type = NEW_DEVICE_LOGIN, ai_userId = Some userId, ai_email = None, ai_ipAddress = rq_ipAddress ctx,
         ai_userAgent = rq_userAgent ctx, ai_deviceLabel = label, ai_requestId = rq_requestId ctx,
         ai_metadata = JObj [(''firstSeenOnKnownDevices'', JNum (int (length agents)))]\<rparr> db)"

definition recordFailedLoginBurst ::
  "(nat \<Rightarrow> uuid) \<Rightarrow> uuid \<Rightarrow> instant \<Rightarrow> uuid \<Rightarrow> uuid \<Rightarrow> string \<Rightarrow> request_context
     \<Rightarrow> 'a alert_db_scheme \<Rightarrow> 'a alert_db_scheme" where
  "recordFailedLoginBurst newId i now tenantId userId email ctx db =
     (if freshOpenAlertExists tenantId FAILED_LOGIN_BURST (Some userId) (rq_ipAddress ctx) now db then db
      else let failures = count_where (\<lambda>e. ev_tenantId e = tenantId \<and> actorUserId e = Some userId
                 \<and> eventType e = ''LOGIN_FAILED''
                 \<and> now - FAILED_LOGIN_WINDOW_MINUTES * 60000 \<le> ev_createdAt e
                 \<and> (truthy (rq_ipAddress ctx) \<longrightarrow> ipAddress e = rq_ipAddress ctx)) (alert_log db)
        in if failures < FAILED_LOGIN_BURST_THRESHOLD then db
           else createAlert newId i now tenantId
             \<lparr>ai_type = FAILED_LOGIN_BURST, ai_userId = Some userId, ai_email = Some email,
              ai_ipAddress = rq_ipAddress ctx, ai_userAgent = rq_userAgent ctx, ai_deviceLabel = None,
              ai_requestId = rq_requestId ctx,
              ai_metadata = JObj [(''failures'', JNum (int failures)),
                (''windowMinutes'', JNum FAILED_LOGIN_WINDOW_MINUTES)]\<rparr> db)"

definition recordRefreshTokenReuse ::
  "(nat \<Rightarrow> uuid) \<Rightarrow> uuid \<Rightarrow> instant \<Rightarrow> uuid \<Rightarrow> uuid \<Rightarrow> string \<Rightarrow> string option \<Rightarrow> request_context
     \<Rightarrow> 'a alert_db_scheme \<Rightarrow> 'a alert_db_scheme" where
  "recordRefreshTokenReuse newId i now tenantId userId email label ctx db =
     (if freshOpenAlertExists tenantId REFRESH_TOKEN_REUSE (Some userId) (rq_ipAddress ctx) now db then db
      else createAlert newId i now tenantId
        \<lparr>ai_type = REFRESH_TOKEN_REUSE, ai_userId = Some userId, ai_email = Some email,
         ai_ipAddress = rq_ipAddress ctx, ai_userAgent = rq_userAgent ctx, ai_deviceLabel = label,
         ai_requestId = rq_requestId ctx,
         ai_metadata = JObj [(''nextStep'',
           JStr ''Sign in again from a trusted device and review active sessions'')]\<rparr> db)"

definition password_alert ::
  "(nat \<Rightarrow> uuid) \<Rightarrow> uuid \<Rightarrow> instant \<Rightarrow> alert_type \<Rightarrow> json \<Rightarrow> uuid \<Rightarrow> uuid \<Rightarrow> string \<Rightarrow> request_context
     \<Rightarrow> 'a alert_db_scheme \<Rightarrow> 'a alert_db_scheme" where
  "password_alert newId i now ty md tenantId userId email ctx db =
     createAlert newId i now tenantId
       \<lparr>ai_type = ty, ai_userId = Some userId, ai_email = Some email, ai_ipAddress = rq_ipAddress ctx,
        ai_userAgent = rq_userAgent ctx, ai_deviceLabel = None, ai_requestId = rq_requestId ctx,
        ai_metadata = md\<rparr> db"

definition recordPasswordChanged ::
  "(nat \<Rightarrow> uuid) \<Rightarrow> uuid \<Rightarrow> instant \<Rightarrow> uuid \<Rightarrow> uuid \<Rightarrow> string \<Rightarrow> request_context
     \<Rightarrow> 'a alert_db_scheme \<Rightarrow> 'a alert_db_scheme" where
  "recordPasswordChanged newId i now tenantId userId email ctx =
     password_alert newId i now PASSWORD_CHANGED (JObj []) tenantId userId email ctx"

definition recordPasswordReset ::
  "(nat \<Rightarrow> uuid) \<Rightarrow> uuid \<Rightarrow> instant \<Rightarrow> uuid \<Rightarrow> uuid \<Rightarrow> string \<Rightarrow> request_context
     \<Rightarrow> 'a alert_db_scheme \<Rightarrow> 'a alert_db_scheme" where
  "recordPasswordReset newId i now tenantId userId email ctx =
     password_alert newId i now PASSWORD_WAS_RESET (JObj []) tenantId userId email ctx"

definition recordPasswordResetByAdmin ::
  "(nat \<Rightarrow> uuid) \<Rightarrow> uuid \<Rightarrow> instant \<Rightarrow> uuid \<Rightarrow> uuid \<Rightarrow> string \<Rightarrow> uuid \<Rightarrow> request_context
     \<Rightarrow> 'a alert_db_scheme \<Rightarrow> 'a alert_db_scheme" where
  "recordPasswordResetByAdmin newId i now tenantId userId email actor ctx =
     password_alert newId i now PASSWORD_WAS_RESET (JObj [(''actorUserId'', JStr actor)]) tenantId userId email ctx"

subsection \<open>Review\<close>

definition ALERT_REVIEW_ACTIONS :: "string list" where
  "ALERT_REVIEW_ACTIONS = [''ACKNOWLEDGE'', ''RESOLVE'', ''DISMISS'']"

definition statusByAction :: "string \<Rightarrow> alert_status" where
  "statusByAction a = (if a = ''ACKNOWLEDGE'' then AL_ACKNOWLEDGED
     else if a = ''RESOLVE'' then AL_RESOLVED else AL_DISMISSED)"

fun alert_status_name :: "alert_status \<Rightarrow> string" where
  "alert_status_name AL_OPEN = ''OPEN''"
| "alert_status_name AL_ACKNOWLEDGED = ''ACKNOWLEDGED''"
| "alert_status_name AL_RESOLVED = ''RESOLVED''"
| "alert_status_name AL_DISMISSED = ''DISMISSED''"

definition alert_of :: "uuid \<Rightarrow> uuid \<Rightarrow> 'a alert_db_scheme \<Rightarrow> security_alert option" where
  "alert_of tenantId alertId db =
     find_row (\<lambda>a. al_id a = alertId \<and> al_tenantId a = tenantId) (security_alerts db)"

definition getAlert :: "uuid \<Rightarrow> uuid \<Rightarrow> 'a alert_db_scheme \<Rightarrow> security_alert result" where
  "getAlert tenantId alertId db =
     (case alert_of tenantId alertId db of None \<Rightarrow> not_found | Some a \<Rightarrow> Inr a)"

record alert_page =
  ap_counts :: "(alert_status \<times> nat) list"
  ap_openCount :: nat
  ap_alerts :: "security_alert list"

definition listAlerts ::
  "uuid \<Rightarrow> alert_status option \<Rightarrow> alert_type option \<Rightarrow> nat option \<Rightarrow> 'a alert_db_scheme \<Rightarrow> alert_page" where
  "listAlerts tenantId st ty limit db =
     (let mine = filter (\<lambda>a. al_tenantId a = tenantId) (security_alerts db);
          shown = filter (\<lambda>a. (case st of None \<Rightarrow> True | Some x \<Rightarrow> al_status a = x)
                         \<and> (case ty of None \<Rightarrow> True | Some x \<Rightarrow> al_type a = x)) mine;
          n = min (case limit of None \<Rightarrow> 50 | Some l \<Rightarrow> l) 200
      in \<lparr>ap_counts = map (\<lambda>x. (x, count_where (\<lambda>a. al_status a = x) mine))
              (remdups (map al_status mine)),
          ap_openCount = count_where (\<lambda>a. al_status a = AL_OPEN) mine,
          ap_alerts = take n (rev (sort_key al_createdAt shown))\<rparr>)"

definition review_alert ::
  "(nat \<Rightarrow> uuid) \<Rightarrow> uuid \<Rightarrow> uuid \<Rightarrow> string \<Rightarrow> string option \<Rightarrow> uuid \<Rightarrow> instant \<Rightarrow> 'a alert_db_scheme
     \<Rightarrow> security_alert result \<times> 'a alert_db_scheme" where
  "review_alert newId tenantId alertId action note actor now db =
     (if action \<notin> set ALERT_REVIEW_ACTIONS then (fail_with 400 VALIDATION_ERROR, db)
      else case alert_of tenantId alertId db of
        None \<Rightarrow> (not_found, db)
      | Some a \<Rightarrow>
          let st = statusByAction action
          in if al_status a = st then (getAlert tenantId alertId db, db)
             else let db' = db\<lparr>
                    security_alerts := update_where (\<lambda>r. al_id r = alertId)
                      (\<lambda>r. r\<lparr>al_status := st, al_resolvedById := Some actor, al_resolvedAt := Some now,
                             al_resolutionNote := note\<rparr>) (security_alerts db),
                    alert_log := log_event newId now tenantId (Some actor) None ''SECURITY_ALERT_REVIEWED''
                      ''SecurityAlert'' alertId (Some (JObj [(''action'', JStr action),
                        (''status'', JStr (alert_status_name st)), (''note'', jopt note),
                        (''alertType'', JStr (alert_type_name (al_type a)))])) (alert_log db)\<rparr>
               in (getAlert tenantId alertId db', db'))"

lemma createAlert_frame [simp]:
  "alert_db.more (createAlert newId i now tn x db) = alert_db.more db"
  by (simp add: createAlert_def)

lemma alert_frame [simp]:
  "alert_db.more (recordNewDeviceLogin newId i now tn u ags lb ctx db) = alert_db.more db"
  "alert_db.more (recordFailedLoginBurst newId i now tn u em ctx db) = alert_db.more db"
  "alert_db.more (recordRefreshTokenReuse newId i now tn u em lb ctx db) = alert_db.more db"
  "alert_db.more (recordPasswordChanged newId i now tn u em ctx db) = alert_db.more db"
  "alert_db.more (recordPasswordReset newId i now tn u em ctx db) = alert_db.more db"
  by (simp_all add: recordNewDeviceLogin_def recordFailedLoginBurst_def recordRefreshTokenReuse_def
      recordPasswordChanged_def recordPasswordReset_def password_alert_def Let_def)

subsection \<open>An incident is reported once\<close>

datatype alert_op =
    A_device uuid uuid "string option list" "string option" request_context
  | A_failure uuid uuid string request_context
  | A_reuse uuid uuid string "string option" request_context
  | A_changed uuid uuid string request_context
  | A_reset uuid uuid string request_context
  | A_admin_reset uuid uuid string uuid request_context
  | A_review uuid uuid string "string option" uuid

fun alert_step :: "(nat \<Rightarrow> uuid) \<Rightarrow> alert_db \<Rightarrow> uuid \<times> instant \<times> alert_op \<Rightarrow> alert_db" where
  "alert_step g db (i, now, A_device tn u ags lb ctx) = recordNewDeviceLogin g i now tn u ags lb ctx db"
| "alert_step g db (i, now, A_failure tn u em ctx) = recordFailedLoginBurst g i now tn u em ctx db"
| "alert_step g db (i, now, A_reuse tn u em lb ctx) = recordRefreshTokenReuse g i now tn u em lb ctx db"
| "alert_step g db (i, now, A_changed tn u em ctx) = recordPasswordChanged g i now tn u em ctx db"
| "alert_step g db (i, now, A_reset tn u em ctx) = recordPasswordReset g i now tn u em ctx db"
| "alert_step g db (i, now, A_admin_reset tn u em ac ctx) = recordPasswordResetByAdmin g i now tn u em ac ctx db"
| "alert_step g db (i, now, A_review tn al ac note who) = snd (review_alert g tn al ac note who now db)"

text \<open>Two alerts are of one incident when the checks before a new alert cannot tell them apart.\<close>

definition same_incident :: "security_alert \<Rightarrow> security_alert \<Rightarrow> bool" where
  "same_incident a b \<longleftrightarrow> al_type a = al_type b \<and> al_type a \<in> {FAILED_LOGIN_BURST, REFRESH_TOKEN_REUSE}
     \<and> al_tenantId a = al_tenantId b \<and> al_actorUserId a = al_actorUserId b \<and> al_ipAddress a = al_ipAddress b
     \<and> al_status a = AL_OPEN \<and> al_status b = AL_OPEN"

definition apart :: "security_alert \<Rightarrow> security_alert \<Rightarrow> bool" where
  "apart a b \<longleftrightarrow> (same_incident a b \<longrightarrow> al_createdAt a < al_createdAt b - DEDUPE_WINDOW_MINUTES * 60000)"

definition incidents_apart :: "alert_db \<Rightarrow> bool" where
  "incidents_apart db \<longleftrightarrow> sorted_wrt apart (security_alerts db)"

lemma created_apart:
  assumes "incidents_apart db"
    and "ai_type x \<in> {FAILED_LOGIN_BURST, REFRESH_TOKEN_REUSE}
      \<Longrightarrow> \<not> freshOpenAlertExists tn (ai_type x) (ai_userId x) (ai_ipAddress x) now db"
  shows "incidents_apart (createAlert g i now tn x db)"
  using assms
  by (auto simp: incidents_apart_def createAlert_def sorted_wrt_append apart_def same_incident_def
      freshOpenAlertExists_def count_where_0_iff not_le)

lemma review_apart:
  assumes "incidents_apart db"
  shows "incidents_apart (snd (review_alert g tn i ac note who now db))"
proof -
  have closed: "statusByAction ac \<noteq> AL_OPEN" by (simp add: statusByAction_def)
  have "sorted_wrt apart (update_where P
      (\<lambda>r. r\<lparr>al_status := statusByAction ac, al_resolvedById := w, al_resolvedAt := t, al_resolutionNote := n\<rparr>)
      (security_alerts db))" for P w t n
    unfolding update_where_def sorted_wrt_map
    by (rule sorted_wrt_mono_rel [OF _ assms [unfolded incidents_apart_def]])
      (auto simp: apart_def same_incident_def closed)
  with assms show ?thesis
    by (auto simp: review_alert_def incidents_apart_def Let_def split: option.splits)
qed

interpretation alert_machine: op_machine "alert_step g" incidents_apart for g
proof
  fix g :: "nat \<Rightarrow> uuid" and db :: alert_db and x :: "uuid \<times> instant \<times> alert_op"
  assume ok: "incidents_apart db"
  obtain i now a where x: "x = (i, now, a)" by (cases x)
  show "incidents_apart (alert_step g db x)"
    unfolding x using ok
    by (cases a) (auto intro!: created_apart review_apart simp: recordNewDeviceLogin_def
        recordFailedLoginBurst_def recordRefreshTokenReuse_def recordPasswordChanged_def
        recordPasswordReset_def recordPasswordResetByAdmin_def password_alert_def Let_def)
qed

definition no_alerts :: alert_db where
  "no_alerts = \<lparr>security_alerts = [], alert_log = []\<rparr>"

text \<open>
  Whatever the sign-in pipeline reports and the administrators review, two open alerts of one
  incident (a burst of failures or a reused token of one account from one address in one workspace)
  are more than thirty minutes apart.
\<close>

theorem one_alert_per_incident:
  "sorted_wrt (\<lambda>a b. same_incident a b \<longrightarrow> al_createdAt b - al_createdAt a > 30 * 60000)
     (security_alerts (foldl (alert_step g) no_alerts xs))"
proof -
  have "incidents_apart (foldl (alert_step g) no_alerts xs)"
    by (rule alert_machine.run_inv) (simp add: incidents_apart_def no_alerts_def)
  then show ?thesis
    unfolding incidents_apart_def
    by (rule sorted_wrt_mono_rel [rotated]) (auto simp: apart_def DEDUPE_WINDOW_MINUTES_def)
qed

definition demo_burst :: "(uuid \<times> instant \<times> alert_op) list" where
  "demo_burst = (let c = \<lparr>rq_requestId = None, rq_ipAddress = Some ''ip'', rq_userAgent = None\<rparr>
     in [(''a'', 0, A_reuse ''t'' ''u'' ''m'' None c), (''b'', 1000, A_reuse ''t'' ''u'' ''m'' None c),
         (''c'', 1800001, A_reuse ''t'' ''u'' ''m'' None c)])"

theorem one_alert_per_incident_witness:
  "let rows = security_alerts (foldl (alert_step (\<lambda>n. ''e'')) no_alerts demo_burst)
   in map al_id rows = [''a'', ''c''] \<and> same_incident (rows ! 0) (rows ! 1)
      \<and> al_createdAt (rows ! 1) - al_createdAt (rows ! 0) > 30 * 60000"
proof -
  let ?rows = "security_alerts (foldl (alert_step (\<lambda>n. ''e'')) no_alerts demo_burst)"
  have two: "map al_id ?rows = [''a'', ''c'']" by code_simp
  then have n: "length ?rows = 2" by (metis length_map length_Cons list.size(3) numeral_2_eq_2)
  have same: "same_incident (?rows ! 0) (?rows ! 1)" by code_simp
  from sorted_wrt_nth_less [OF one_alert_per_incident [of "\<lambda>n. ''e''" demo_burst], of 0 1] n same two
  show ?thesis by (simp add: Let_def)
qed

end
