(* ===== verification/Sessions.thy ===== *)
theory Sessions
  imports Tokens Security_Alerts Otp Mfa Members
begin

section \<open>Sessions\<close>

text \<open>
  The session half of \<open>modules/auth/auth.service.ts\<close> and the check \<open>common/middleware/tenantContext.ts\<close>
  makes on every request: issuing a pair of tokens, rotating it, the response to a reused token, signing
  out, changing a password, the claim of one workspace per account. The state extends the alerts and the
  audit log by the tables sign-in works on. The columns of a user are one row; the second factor runs on
  its view of them. Every operation is a request run alone, but a rotation is also split into what it
  reads and what it commits.
\<close>

subsection \<open>State\<close>

datatype tenant_status = TN_ACTIVE | TN_SUSPENDED | TN_DELETED_PENDING

record workspace =
  ws_id :: uuid
  ws_status :: tenant_status

record account =
  ac_id :: uuid
  ac_email :: string
  ac_passwordHash :: "string option"
  ac_status :: user_status
  ac_emailVerifiedAt :: "instant option"
  ac_platformRole :: platform_role
  ac_activeTenantId :: "uuid option"
  ac_mfaSecret :: "string option"
  ac_mfaEnrolledAt :: "instant option"
  ac_mfaLastUsedStep :: "int option"

record sign_in_mailbox =
  bx_tenantId :: uuid
  bx_address :: string
  bx_membershipId :: "uuid option"
  bx_workspaces :: "workspace_scope list"

record refresh_token =
  rt_id :: uuid
  rt_userId :: uuid
  rt_tenantId :: uuid
  rt_tokenHash :: string
  rt_expiresAt :: instant
  rt_revokedAt :: "instant option"
  rt_deviceLabel :: "string option"
  rt_ipAddress :: "string option"
  rt_userAgent :: "string option"

record user_identity =
  ui_id :: uuid
  ui_userId :: uuid
  ui_providerUserId :: string
  ui_email :: string
  ui_lastUsedAt :: instant

record auth_db = alert_db +
  accounts :: "account list"
  workspaces :: "workspace list"
  seats :: "membership list"
  sign_in_mailboxes :: "sign_in_mailbox list"
  refresh_tokens :: "refresh_token list"
  used_selections :: "(uuid \<times> uuid \<times> instant) list"
  au_recovery_codes :: "recovery_code list"
  identities :: "user_identity list"

record auth_env =
  ae_tokens :: token_env
  ae_mfa :: mfa_env

abbreviation ae_newId :: "auth_env \<Rightarrow> nat \<Rightarrow> uuid" where
  "ae_newId env \<equiv> e_newId (ae_mfa env)"

text \<open>The identifiers a request may need: of a token, of its row, of a challenge, of an alert.\<close>

record fresh_ids =
  fi_jti :: uuid
  fi_row :: uuid
  fi_challenge :: uuid
  fi_alert :: uuid

subsection \<open>Reading the tables\<close>

definition account_of :: "uuid \<Rightarrow> auth_db \<Rightarrow> account option" where
  "account_of userId db = find_row (\<lambda>a. ac_id a = userId) (accounts db)"

definition workspace_of :: "uuid \<Rightarrow> auth_db \<Rightarrow> workspace option" where
  "workspace_of tenantId db = find_row (\<lambda>w. ws_id w = tenantId) (workspaces db)"

text \<open>A membership with its workspace and its account, which the foreign keys guarantee.\<close>

record seat =
  st_membership :: membership
  st_workspace :: workspace
  st_account :: account

definition with_relations :: "auth_db \<Rightarrow> membership \<Rightarrow> seat option" where
  "with_relations db m =
     (case (workspace_of (tm_tenantId m) db, account_of (tm_userId m) db) of
        (Some w, Some a) \<Rightarrow> Some \<lparr>st_membership = m, st_workspace = w, st_account = a\<rparr>
      | _ \<Rightarrow> None)"

definition findByUserId :: "uuid \<Rightarrow> auth_db \<Rightarrow> seat list" where
  "findByUserId userId db =
     List.map_filter (with_relations db) (filter (\<lambda>m. tm_userId m = userId) (seats db))"

definition findByUserAndTenant :: "uuid \<Rightarrow> uuid \<Rightarrow> auth_db \<Rightarrow> seat option" where
  "findByUserAndTenant userId tenantId db =
     Option.bind (find_row (\<lambda>m. tm_userId m = userId \<and> tm_tenantId m = tenantId) (seats db)) (with_relations db)"

definition mailboxWorkspacesFor :: "uuid \<Rightarrow> auth_db \<Rightarrow> workspace_scope list option" where
  "mailboxWorkspacesFor membershipId db =
     map_option bx_workspaces (find_row (\<lambda>b. bx_membershipId b = Some membershipId) (sign_in_mailboxes db))"

definition sessionWorkspaceFor :: "membership \<Rightarrow> workspace_scope option \<Rightarrow> auth_db \<Rightarrow> workspace_scope" where
  "sessionWorkspaceFor m requested db =
     (if requested = Some MEMBER then MEMBER
      else signInWorkspace (tm_role m) (mailboxWorkspacesFor (tm_id m) db) requested)"

definition workspaceScopeForRole :: "membership_role \<Rightarrow> workspace_scope" where
  "workspaceScopeForRole role = role"

definition set_account :: "uuid \<Rightarrow> (account \<Rightarrow> account) \<Rightarrow> auth_db \<Rightarrow> auth_db" where
  "set_account userId f db = db\<lparr>accounts := update_where (\<lambda>a. ac_id a = userId) f (accounts db)\<rparr>"

definition revoke_tokens :: "(refresh_token \<Rightarrow> bool) \<Rightarrow> instant \<Rightarrow> auth_db \<Rightarrow> auth_db" where
  "revoke_tokens P now db = db\<lparr>refresh_tokens :=
     update_where (\<lambda>r. P r \<and> rt_revokedAt r = None) (\<lambda>r. r\<lparr>rt_revokedAt := Some now\<rparr>) (refresh_tokens db)\<rparr>"

definition ensureSystemTenant :: "auth_db \<Rightarrow> auth_db" where
  "ensureSystemTenant db =
     (if workspace_of SYSTEM_TENANT_ID db = None
      then db\<lparr>workspaces := workspaces db @ [\<lparr>ws_id = SYSTEM_TENANT_ID, ws_status = TN_ACTIVE\<rparr>]\<rparr> else db)"

text \<open>An event of this service: the caller's context, on a user or on a token.\<close>

definition auth_event ::
  "auth_env \<Rightarrow> uuid \<Rightarrow> uuid option \<Rightarrow> string \<Rightarrow> string \<Rightarrow> uuid option \<Rightarrow> json option \<Rightarrow> request_context
     \<Rightarrow> instant \<Rightarrow> auth_db \<Rightarrow> auth_db" where
  "auth_event env tenantId actor ty tgt tgtId md ctx now db =
     db\<lparr>alert_log := record_event (ae_newId env (length (alert_log db))) now
       \<lparr>in_tenantId = tenantId, in_actorUserId = actor, in_actorType = None, in_eventType = ty,
        in_targetType = Some tgt, in_targetId = tgtId, in_requestId = rq_requestId ctx,
        in_ipAddress = rq_ipAddress ctx, in_userAgent = rq_userAgent ctx, in_metadata = md,
        in_beforeHash = None, in_afterHash = None\<rparr> (alert_log db)\<rparr>"

subsection \<open>Naming a device\<close>

definition labelForUserAgent :: "string option \<Rightarrow> string" where
  "labelForUserAgent agent =
     (let ua = map lower_char (case agent of None \<Rightarrow> '''' | Some s \<Rightarrow> s);
          platform = (if occurs_in ''iphone'' ua \<or> occurs_in ''ipad'' ua then ''iOS''
            else if occurs_in ''android'' ua then ''Android''
            else if occurs_in ''windows'' ua \<or> occurs_in ''win32'' ua then ''Windows''
            else if occurs_in ''mac os'' ua then ''macOS''
            else if occurs_in ''linux'' ua then ''Linux'' else '''');
          browser = (if occurs_in ''edg/'' ua then ''Edge''
            else if occurs_in ''opr/'' ua \<or> occurs_in ''opera'' ua then ''Opera''
            else if occurs_in ''firefox'' ua then ''Firefox''
            else if occurs_in ''chrome'' ua then ''Chrome''
            else if occurs_in ''safari'' ua then ''Safari'' else '''')
      in if platform \<noteq> '''' \<and> browser \<noteq> '''' then platform @ '' '' @ [CHR 0xB7] @ '' '' @ browser
         else if platform \<noteq> '''' then platform
         else if browser \<noteq> '''' then browser
         else ''Unknown device'')"

subsection \<open>Issuing a session\<close>

definition buildAccessToken :: "token_env \<Rightarrow> seat \<Rightarrow> workspace_scope \<Rightarrow> uuid \<Rightarrow> instant \<Rightarrow> string" where
  "buildAccessToken env s workspace sessionId now =
     jwt_sign env (JWT_ACCESS_SECRET env)
       (JObj (payload_of (Access_Token (tm_userId (st_membership s)) (tm_tenantId (st_membership s))
          (tm_id (st_membership s)) (tm_role (st_membership s)) (ac_platformRole (st_account s)) workspace sessionId)))
       (JWT_ACCESS_EXPIRES_IN env) now"

record issued =
  is_token :: string
  is_sessionId :: uuid
  is_expiresAt :: instant

definition buildRefreshToken ::
  "token_env \<Rightarrow> uuid \<Rightarrow> seat \<Rightarrow> workspace_scope \<Rightarrow> uuid option \<Rightarrow> instant \<Rightarrow> issued result" where
  "buildRefreshToken env jti s workspace continueSessionId now =
     (let sessionId = (case continueSessionId of None \<Rightarrow> jti | Some c \<Rightarrow> c);
          token = jwt_sign env (JWT_REFRESH_SECRET env)
            (JObj (payload_of (Refresh_Token (tm_userId (st_membership s)) (tm_tenantId (st_membership s))
               (tm_id (st_membership s)) (tm_role (st_membership s)) workspace sessionId jti)))
            (JWT_REFRESH_EXPIRES_IN env) now
      in bind_result (parseDurationToMs (JWT_REFRESH_EXPIRES_IN env))
           (\<lambda>ms. Inr \<lparr>is_token = token, is_sessionId = sessionId, is_expiresAt = now + ms\<rparr>))"

definition persistRefreshToken ::
  "auth_env \<Rightarrow> uuid \<Rightarrow> seat \<Rightarrow> issued \<Rightarrow> request_context \<Rightarrow> auth_db \<Rightarrow> auth_db" where
  "persistRefreshToken env i s x device db =
     db\<lparr>refresh_tokens := refresh_tokens db @
       [\<lparr>rt_id = i, rt_userId = tm_userId (st_membership s), rt_tenantId = tm_tenantId (st_membership s),
         rt_tokenHash = hashToken (ae_tokens env) (is_token x), rt_expiresAt = is_expiresAt x,
         rt_revokedAt = None, rt_deviceLabel = Some (labelForUserAgent (rq_userAgent device)),
         rt_ipAddress = rq_ipAddress device, rt_userAgent = rq_userAgent device\<rparr>]\<rparr>"

definition claimActiveWorkspace :: "membership \<Rightarrow> instant \<Rightarrow> auth_db \<Rightarrow> auth_db" where
  "claimActiveWorkspace m now db =
     revoke_tokens (\<lambda>r. rt_userId r = tm_userId m \<and> rt_tenantId r \<noteq> tm_tenantId m) now
       (set_account (tm_userId m) (\<lambda>a. a\<lparr>ac_activeTenantId := Some (tm_tenantId m)\<rparr>) db)"

definition releaseActiveWorkspace :: "uuid \<Rightarrow> uuid \<Rightarrow> auth_db \<Rightarrow> auth_db" where
  "releaseActiveWorkspace userId tenantId db =
     db\<lparr>accounts := update_where (\<lambda>a. ac_id a = userId \<and> ac_activeTenantId a = Some tenantId)
       (\<lambda>a. a\<lparr>ac_activeTenantId := None\<rparr>) (accounts db)\<rparr>"

record session =
  se_accessToken :: string
  se_refreshToken :: string
  se_userId :: uuid
  se_tenantId :: uuid
  se_membershipId :: uuid
  se_role :: membership_role
  se_workspace :: workspace_scope

definition issueSession ::
  "auth_env \<Rightarrow> fresh_ids \<Rightarrow> seat \<Rightarrow> workspace_scope \<Rightarrow> uuid option \<Rightarrow> request_context \<Rightarrow> instant \<Rightarrow> auth_db
     \<Rightarrow> session result \<times> auth_db" where
  "issueSession env ids s workspace continueSessionId device now db =
     (case buildRefreshToken (ae_tokens env) (fi_jti ids) s workspace continueSessionId now of
        Inl e \<Rightarrow> (Inl e, db)
      | Inr x \<Rightarrow>
          let m = st_membership s;
              accessToken = buildAccessToken (ae_tokens env) s workspace (is_sessionId x) now;
              db' = claimActiveWorkspace m now (persistRefreshToken env (fi_row ids) s x device db)
          in (Inr \<lparr>se_accessToken = accessToken, se_refreshToken = is_token x, se_userId = tm_userId m,
                   se_tenantId = tm_tenantId m, se_membershipId = tm_id m,
                   se_role = (case actingRole (tm_role m) workspace of None \<Rightarrow> tm_role m | Some r \<Rightarrow> r),
                   se_workspace = workspace\<rparr>, db'))"

subsection \<open>Rotating a session\<close>

text \<open>
  What a rotation reads and decides before its transaction. \<open>Reused\<close> carries the revoked row,
  \<open>Rotate\<close> the row it will claim, the membership it read and the console and session it continues.
\<close>

datatype refresh_decision =
    Refresh_Error app_error
  | Reused refresh_token
  | Rotate refresh_token seat workspace_scope uuid

definition refresh_payload :: "token_env \<Rightarrow> string \<Rightarrow> instant \<Rightarrow> json result" where
  "refresh_payload env token now =
     (case jwt_verify env (JWT_REFRESH_SECRET env) token now of
        Token_Expired \<Rightarrow> fail_with 401 TOKEN_EXPIRED
      | Token_Malformed \<Rightarrow> fail_with 401 TOKEN_INVALID
      | Verified v \<Rightarrow> if isRefreshTokenPayload v then Inr v else fail_with 401 TOKEN_INVALID)"

definition stored_token :: "token_env \<Rightarrow> string \<Rightarrow> auth_db \<Rightarrow> refresh_token option" where
  "stored_token env token db = find_row (\<lambda>r. rt_tokenHash r = hashToken env token) (refresh_tokens db)"

definition refresh_decide :: "auth_env \<Rightarrow> string \<Rightarrow> instant \<Rightarrow> auth_db \<Rightarrow> refresh_decision" where
  "refresh_decide env token now db =
     (case refresh_payload (ae_tokens env) token now of
        Inl e \<Rightarrow> Refresh_Error e
      | Inr v \<Rightarrow>
      (case stored_token (ae_tokens env) token db of
        None \<Rightarrow> Refresh_Error (AppError 401 TOKEN_INVALID None)
      | Some r \<Rightarrow>
          if rt_revokedAt r \<noteq> None then Reused r
          else if rt_expiresAt r \<le> now then Refresh_Error (AppError 401 TOKEN_EXPIRED None)
          else if Some (rt_userId r) \<noteq> str_prop v ''sub'' \<or> Some (rt_tenantId r) \<noteq> str_prop v ''tenantId''
            then Refresh_Error (AppError 401 TOKEN_INVALID None)
          else (case findByUserAndTenant (rt_userId r) (rt_tenantId r) db of
             None \<Rightarrow> Refresh_Error (AppError 403 FORBIDDEN None)
           | Some s \<Rightarrow>
               if Some (tm_id (st_membership s)) \<noteq> str_prop v ''membershipId''
                 then Refresh_Error (AppError 403 FORBIDDEN None)
               else if tm_status (st_membership s) \<noteq> MS_ACTIVE \<or> ws_status (st_workspace s) \<noteq> TN_ACTIVE
                 then Refresh_Error (AppError 403 FORBIDDEN None)
               else if ac_status (st_account s) \<noteq> US_ACTIVE then Refresh_Error (AppError 403 FORBIDDEN None)
               else let scope = (case role_prop v ''workspace'' of
                           Some w \<Rightarrow> w | None \<Rightarrow> workspaceScopeForRole (tm_role (st_membership s)))
                 in if \<not> consoleAuthorized (tm_role (st_membership s)) scope
                        (mailboxWorkspacesFor (tm_id (st_membership s)) db)
                    then Refresh_Error (AppError 403 WORKSPACE_ACCESS_NOT_ASSIGNED None)
                    else Rotate r s scope
                      (case str_prop v ''sid'' of Some sid \<Rightarrow> sid | None \<Rightarrow> the (str_prop v ''jti'')))))"

definition handleRefreshTokenReuse ::
  "auth_env \<Rightarrow> uuid \<Rightarrow> refresh_token \<Rightarrow> request_context \<Rightarrow> instant \<Rightarrow> auth_db \<Rightarrow> session result \<times> auth_db" where
  "handleRefreshTokenReuse env alert r ctx now db =
     (let db1 = revoke_tokens (\<lambda>x. rt_userId x = rt_userId r \<and> rt_tenantId x = rt_tenantId r) now db;
          db2 = auth_event env (rt_tenantId r) (Some (rt_userId r)) ''REFRESH_TOKEN_REUSE'' ''RefreshToken''
                  (Some (rt_id r)) None ctx now db1;
          email = (case account_of (rt_userId r) db2 of None \<Rightarrow> ''unknown'' | Some a \<Rightarrow> ac_email a)
      in (fail_with 401 TOKEN_REUSED,
          recordRefreshTokenReuse (ae_newId env) alert now (rt_tenantId r) (rt_userId r) email
            (Some (labelForUserAgent (rq_userAgent ctx))) ctx db2))"

text \<open>
  The transaction claims the row by a conditional update and rolls back when anything in it fails. A
  claim that finds the row revoked is answered like a reused token.
\<close>

definition refresh_commit ::
  "auth_env \<Rightarrow> fresh_ids \<Rightarrow> request_context \<Rightarrow> instant \<Rightarrow> refresh_decision \<Rightarrow> auth_db \<Rightarrow> session result \<times> auth_db" where
  "refresh_commit env ids ctx now d db =
     (case d of
        Refresh_Error e \<Rightarrow> (Inl e, db)
      | Reused r \<Rightarrow> handleRefreshTokenReuse env (fi_alert ids) r ctx now db
      | Rotate r s scope sid \<Rightarrow>
          if count_where (\<lambda>x. rt_id x = rt_id r \<and> rt_revokedAt x = None) (refresh_tokens db) \<noteq> 1
          then handleRefreshTokenReuse env (fi_alert ids) r ctx now db
          else (case issueSession env ids s scope (Some sid) ctx now
                       (revoke_tokens (\<lambda>x. rt_id x = rt_id r) now db) of
                  (Inl e, _) \<Rightarrow> (Inl e, db)
                | (Inr se, db') \<Rightarrow>
                    (Inr se, auth_event env (tm_tenantId (st_membership s)) (Some (tm_userId (st_membership s)))
                       ''REFRESH_TOKEN'' ''RefreshToken'' (Some (rt_id r)) None ctx now db')))"

definition refresh ::
  "auth_env \<Rightarrow> fresh_ids \<Rightarrow> string \<Rightarrow> request_context \<Rightarrow> instant \<Rightarrow> auth_db \<Rightarrow> session result \<times> auth_db" where
  "refresh env ids token ctx now db = refresh_commit env ids ctx now (refresh_decide env token now db) db"

subsection \<open>Ending sessions\<close>

definition logout ::
  "auth_env \<Rightarrow> string \<Rightarrow> request_context \<Rightarrow> instant \<Rightarrow> auth_db \<Rightarrow> unit result \<times> auth_db" where
  "logout env token ctx now db =
     (case jwt_verify (ae_tokens env) (JWT_REFRESH_SECRET (ae_tokens env)) token now of
        Verified v \<Rightarrow>
          if \<not> isRefreshTokenPayload v then (fail_with 401 TOKEN_INVALID, db)
          else (case stored_token (ae_tokens env) token db of
             None \<Rightarrow> (Inr (), db)
           | Some r \<Rightarrow>
               if rt_revokedAt r \<noteq> None then (Inr (), db)
               else (Inr (),
                 auth_event env (rt_tenantId r) (Some (rt_userId r)) ''LOGOUT'' ''RefreshToken'' (Some (rt_id r))
                   None ctx now
                   (releaseActiveWorkspace (rt_userId r) (rt_tenantId r)
                     (db\<lparr>refresh_tokens := update_where (\<lambda>x. rt_id x = rt_id r)
                        (\<lambda>x. x\<lparr>rt_revokedAt := Some now\<rparr>) (refresh_tokens db)\<rparr>))))
      | _ \<Rightarrow> (fail_with 401 TOKEN_INVALID, db))"

definition logoutAll ::
  "auth_env \<Rightarrow> uuid \<Rightarrow> uuid \<Rightarrow> request_context \<Rightarrow> instant \<Rightarrow> auth_db \<Rightarrow> nat \<times> auth_db" where
  "logoutAll env userId tenantId ctx now db =
     (let mine = (\<lambda>r. rt_userId r = userId \<and> rt_tenantId r = tenantId);
          n = count_where (\<lambda>r. mine r \<and> rt_revokedAt r = None) (refresh_tokens db)
      in (n, auth_event env tenantId (Some userId) ''LOGOUT_ALL'' ''AppUser'' (Some userId)
               (Some (JObj [(''revokedSessionCount'', JNum (int n))])) ctx now
               (releaseActiveWorkspace userId tenantId (revoke_tokens mine now db))))"

definition changePassword ::
  "auth_env \<Rightarrow> uuid \<Rightarrow> string \<Rightarrow> string \<Rightarrow> uuid \<Rightarrow> uuid \<Rightarrow> request_context \<Rightarrow> instant \<Rightarrow> auth_db
     \<Rightarrow> unit result \<times> auth_db" where
  "changePassword env alert currentPassword newPassword userId tenantId ctx now db =
     (let bcompare = e_bcompare (ae_mfa env)
      in case account_of userId db of
           None \<Rightarrow> (fail_with 401 UNAUTHORIZED, db)
         | Some a \<Rightarrow>
             if \<not> truthy (ac_passwordHash a) then (fail_with 400 VALIDATION_ERROR, db)
             else if \<not> verifyPassword bcompare currentPassword (ac_passwordHash a)
               then (fail_with 401 UNAUTHORIZED, db)
             else if verifyPassword bcompare newPassword (ac_passwordHash a) then (fail_with 409 CONFLICT, db)
             else let h = e_bhash (ae_mfa env) newPassword;
                      db1 = set_account userId (\<lambda>x. x\<lparr>ac_passwordHash := Some h\<rparr>) db;
                      db2 = revoke_tokens (\<lambda>r. rt_userId r = userId) now db1;
                      db3 = auth_event env tenantId (Some userId) ''PASSWORD_CHANGED'' ''AppUser'' (Some userId)
                              None ctx now db2
               in (Inr (), recordPasswordChanged (ae_newId env) alert now tenantId userId (ac_email a) ctx db3))"

text \<open>Proof of a fresh password check for the high-risk actions.\<close>

definition stepUp ::
  "auth_env \<Rightarrow> uuid \<Rightarrow> string \<Rightarrow> uuid \<Rightarrow> uuid \<Rightarrow> request_context \<Rightarrow> instant \<Rightarrow> auth_db \<Rightarrow> string result \<times> auth_db" where
  "stepUp env jti password userId tenantId ctx now db =
     (case account_of userId db of
        None \<Rightarrow> (not_found, db)
      | Some a \<Rightarrow>
          if \<not> truthy (ac_passwordHash a) then (fail_because 409 CONFLICT ''NO_PASSWORD_SET'', db)
          else let ok = verifyPassword (e_bcompare (ae_mfa env)) password (ac_passwordHash a);
                   db' = auth_event env tenantId (Some userId)
                           (if ok then ''STEP_UP_SUCCEEDED'' else ''STEP_UP_FAILED'') ''AppUser'' (Some userId)
                           None ctx now db
            in if ok then (Inr (buildStepUpToken (ae_tokens env) jti userId tenantId now), db')
               else (fail_with 401 UNAUTHORIZED, db'))"

subsection \<open>The check on every request\<close>

record tenant_session =
  tc_tenantId :: uuid
  tc_userId :: uuid
  tc_membershipId :: uuid
  tc_role :: membership_role
  tc_membershipRole :: membership_role
  tc_workspace :: workspace_scope
  tc_sessionId :: "string option"

definition tenantContext :: "auth_context option \<Rightarrow> auth_db \<Rightarrow> tenant_session result" where
  "tenantContext auth db =
     (case auth of
        None \<Rightarrow> fail_with 401 UNAUTHORIZED
      | Some c \<Rightarrow>
      (case Option.bind (find_row (\<lambda>m. tm_id m = au_membershipId c \<and> tm_tenantId m = au_tenantId c
                \<and> tm_userId m = au_sub c \<and> tm_status m = MS_ACTIVE) (seats db)) (with_relations db) of
        None \<Rightarrow> fail_with 403 FORBIDDEN
      | Some s \<Rightarrow>
          let m = st_membership s
          in if ws_status (st_workspace s) \<noteq> TN_ACTIVE then fail_with 403 FORBIDDEN
             else if ac_status (st_account s) \<noteq> US_ACTIVE then fail_with 403 FORBIDDEN
             else if ac_activeTenantId (st_account s) \<noteq> Some (au_tenantId c) then fail_with 401 SESSION_SUPERSEDED
             else (case au_workspace c of
                None \<Rightarrow> fail_with 403 WORKSPACE_MISMATCH
              | Some w \<Rightarrow>
                  (case actingRole (tm_role m) w of
                     None \<Rightarrow> fail_with 403 WORKSPACE_MISMATCH
                   | Some acting \<Rightarrow>
                       if \<not> consoleAuthorized (tm_role m) w (mailboxWorkspacesFor (tm_id m) db)
                       then fail_with 403 WORKSPACE_ACCESS_NOT_ASSIGNED
                       else Inr \<lparr>tc_tenantId = tm_tenantId m, tc_userId = tm_userId m, tc_membershipId = tm_id m,
                                 tc_role = acting, tc_membershipRole = tm_role m, tc_workspace = w,
                                 tc_sessionId = au_sessionId c\<rparr>))))"

text \<open>\<open>None\<close> is a request that has not passed \<open>tenantContext\<close>.\<close>

definition requireRole :: "membership_role list \<Rightarrow> tenant_session option \<Rightarrow> unit result" where
  "requireRole allowed ctx =
     (case ctx of
        None \<Rightarrow> fail_with 403 FORBIDDEN
      | Some c \<Rightarrow>
          if tc_role c = SUPPORT \<and> SUPPORT \<notin> set allowed then fail_with 403 FORBIDDEN
          else if tc_role c \<notin> set allowed then fail_with 403 FORBIDDEN
          else Inr ())"

end
