(* ===== verification/Session_Safety.thy ===== *)
theory Session_Safety
  imports Sessions
begin

section \<open>What a session store promises\<close>

text \<open>
  Sessions as a machine: sign-ins, rotations split into reading and committing, sign-outs, password
  changes, in any order. The store refines an abstract desk per account (the workspace it claims and the
  sessions that are open at it), a token opens one session at most, and the sessions of an account are
  in one workspace.
\<close>

subsection \<open>Frames\<close>

lemma alert_keeps [simp]:
  "accounts (createAlert g i now tn x db) = accounts db"
  "workspaces (createAlert g i now tn x db) = workspaces db"
  "seats (createAlert g i now tn x db) = seats db"
  "sign_in_mailboxes (createAlert g i now tn x db) = sign_in_mailboxes db"
  "refresh_tokens (createAlert g i now tn x db) = refresh_tokens db"
  for db :: auth_db
  by (simp_all add: createAlert_def)

lemma alerts_keep [simp]:
  "accounts (recordRefreshTokenReuse g i now tn u em lb ctx db) = accounts db"
  "workspaces (recordRefreshTokenReuse g i now tn u em lb ctx db) = workspaces db"
  "seats (recordRefreshTokenReuse g i now tn u em lb ctx db) = seats db"
  "sign_in_mailboxes (recordRefreshTokenReuse g i now tn u em lb ctx db) = sign_in_mailboxes db"
  "refresh_tokens (recordRefreshTokenReuse g i now tn u em lb ctx db) = refresh_tokens db"
  "accounts (recordPasswordChanged g i now tn u em ctx db) = accounts db"
  "workspaces (recordPasswordChanged g i now tn u em ctx db) = workspaces db"
  "seats (recordPasswordChanged g i now tn u em ctx db) = seats db"
  "sign_in_mailboxes (recordPasswordChanged g i now tn u em ctx db) = sign_in_mailboxes db"
  "refresh_tokens (recordPasswordChanged g i now tn u em ctx db) = refresh_tokens db"
  for db :: auth_db
  by (simp_all add: recordRefreshTokenReuse_def recordPasswordChanged_def password_alert_def)

lemma events_keep [simp]:
  "accounts (auth_event env tn ac ty tg ti md ctx now db) = accounts db"
  "workspaces (auth_event env tn ac ty tg ti md ctx now db) = workspaces db"
  "seats (auth_event env tn ac ty tg ti md ctx now db) = seats db"
  "sign_in_mailboxes (auth_event env tn ac ty tg ti md ctx now db) = sign_in_mailboxes db"
  "refresh_tokens (auth_event env tn ac ty tg ti md ctx now db) = refresh_tokens db"
  by (simp_all add: auth_event_def)

lemma revoke_keeps [simp]:
  "accounts (revoke_tokens P now db) = accounts db"
  "workspaces (revoke_tokens P now db) = workspaces db"
  "seats (revoke_tokens P now db) = seats db"
  "sign_in_mailboxes (revoke_tokens P now db) = sign_in_mailboxes db"
  by (simp_all add: revoke_tokens_def)

lemma account_writes_keep [simp]:
  "refresh_tokens (set_account u f db) = refresh_tokens db"
  "workspaces (set_account u f db) = workspaces db"
  "seats (set_account u f db) = seats db"
  "sign_in_mailboxes (set_account u f db) = sign_in_mailboxes db"
  "refresh_tokens (releaseActiveWorkspace u tn db) = refresh_tokens db"
  "workspaces (releaseActiveWorkspace u tn db) = workspaces db"
  "seats (releaseActiveWorkspace u tn db) = seats db"
  "sign_in_mailboxes (releaseActiveWorkspace u tn db) = sign_in_mailboxes db"
  "accounts (persistRefreshToken env i s x dv db) = accounts db"
  "workspaces (persistRefreshToken env i s x dv db) = workspaces db"
  "seats (persistRefreshToken env i s x dv db) = seats db"
  "sign_in_mailboxes (persistRefreshToken env i s x dv db) = sign_in_mailboxes db"
  by (simp_all add: set_account_def releaseActiveWorkspace_def persistRefreshToken_def)

subsection \<open>Live sessions\<close>

definition live_of :: "uuid \<Rightarrow> refresh_token \<Rightarrow> bool" where
  "live_of u r \<longleftrightarrow> rt_userId r = u \<and> rt_revokedAt r = None"

definition claim_of :: "uuid \<Rightarrow> auth_db \<Rightarrow> uuid option" where
  "claim_of u db = Option.bind (account_of u db) ac_activeTenantId"

definition revoke_rows :: "(refresh_token \<Rightarrow> bool) \<Rightarrow> instant \<Rightarrow> refresh_token list \<Rightarrow> refresh_token list" where
  "revoke_rows P now rows = update_where (\<lambda>r. P r \<and> rt_revokedAt r = None) (\<lambda>r. r\<lparr>rt_revokedAt := Some now\<rparr>) rows"

lemma revoked_rows [simp]: "refresh_tokens (revoke_tokens P now db) = revoke_rows P now (refresh_tokens db)"
  by (simp add: revoke_tokens_def revoke_rows_def)

lemma filter_live_revoke:
  "filter (live_of u) (revoke_rows P now rows) = filter (\<lambda>r. live_of u r \<and> \<not> P r) rows"
  by (induction rows) (auto simp: revoke_rows_def live_of_def table_simps)

lemma revoke_row_ids [simp]:
  "map rt_id (revoke_rows P now rows) = map rt_id rows"
  "map rt_tokenHash (revoke_rows P now rows) = map rt_tokenHash rows"
  by (simp_all add: revoke_rows_def update_where_def)

lemma revoke_users [simp]: "rt_userId ` set (revoke_rows P now rows) = rt_userId ` set rows"
proof -
  have "map rt_userId (revoke_rows P now rows) = map rt_userId rows"
    by (simp add: revoke_rows_def update_where_def)
  then show ?thesis by (metis set_map)
qed

text \<open>The desk of an account: what it claims, and its open workspace with the sessions in it.\<close>

datatype desk = Desk (claim: "uuid option") (opened: "(uuid \<times> uuid set) option")

definition desk_of_rows :: "uuid option \<Rightarrow> refresh_token list \<Rightarrow> desk" where
  "desk_of_rows c rows = Desk c (case rows of [] \<Rightarrow> None
     | r # _ \<Rightarrow> Some (rt_tenantId r, rt_id ` set rows))"

definition desk_of :: "auth_db \<Rightarrow> uuid \<Rightarrow> desk" where
  "desk_of db u = desk_of_rows (claim_of u db) (filter (live_of u) (refresh_tokens db))"

text \<open>What can happen at a desk.\<close>

datatype desk_event =
    Session_Opened uuid uuid
  | Session_Rotated uuid uuid uuid
  | Session_Ended uuid uuid
  | Workspace_Ended uuid bool
  | All_Ended

definition open_sessions :: "uuid set \<Rightarrow> uuid \<Rightarrow> (uuid \<times> uuid set) option" where
  "open_sessions S t = (if S = {} then None else Some (t, S))"

fun open_at :: "uuid \<Rightarrow> uuid \<Rightarrow> desk \<Rightarrow> desk" where
  "open_at t k (Desk c w) =
     Desk (Some t) (Some (t, insert k (case w of Some (t', S) \<Rightarrow> if t' = t then S else {} | None \<Rightarrow> {})))"

fun drop_session :: "uuid \<Rightarrow> desk \<Rightarrow> desk" where
  "drop_session k (Desk c w) =
     Desk c (case w of None \<Rightarrow> None | Some (t', S) \<Rightarrow> open_sessions (S - {k}) t')"

fun drop_workspace :: "uuid \<Rightarrow> desk \<Rightarrow> desk" where
  "drop_workspace t (Desk c w) =
     Desk c (case w of None \<Rightarrow> None | Some (t', S) \<Rightarrow> if t' = t then None else Some (t', S))"

fun release :: "uuid \<Rightarrow> desk \<Rightarrow> desk" where
  "release t (Desk c w) = Desk (if c = Some t then None else c) w"

fun desk_step :: "desk_event \<Rightarrow> desk \<Rightarrow> desk" where
  "desk_step (Session_Opened t k) d = open_at t k d"
| "desk_step (Session_Rotated t k k') d = open_at t k' (drop_session k d)"
| "desk_step (Session_Ended t k) d = release t (drop_session k d)"
| "desk_step (Workspace_Ended t signed_out) d = (if signed_out then release t else id) (drop_workspace t d)"
| "desk_step All_Ended d = Desk (claim d) None"

subsection \<open>The machine\<close>

datatype session_op =
    S_sign_in fresh_ids uuid uuid workspace_scope request_context
  | S_present string
  | S_rotate nat fresh_ids request_context
  | S_logout string request_context
  | S_logout_all uuid uuid request_context
  | S_password uuid string string uuid uuid request_context

record session_world =
  sn_db :: auth_db
  sn_flight :: "refresh_decision list"

text \<open>
  The unique keys of the token table: the database refuses a write that would break them, and the request
  with it.
\<close>

definition keys_ok :: "auth_db \<Rightarrow> bool" where
  "keys_ok db \<longleftrightarrow> unique_key rt_id (refresh_tokens db) \<and> unique_key rt_tokenHash (refresh_tokens db)"

definition guarded :: "auth_db \<Rightarrow> 'r result \<times> auth_db \<Rightarrow> 'r result \<times> auth_db" where
  "guarded db x = (if keys_ok (snd x) then x else (Inl (ServerError ''Unique constraint failed''), db))"

definition sign_in :: "auth_env \<Rightarrow> fresh_ids \<Rightarrow> uuid \<Rightarrow> uuid \<Rightarrow> workspace_scope \<Rightarrow> request_context \<Rightarrow> instant
     \<Rightarrow> auth_db \<Rightarrow> session result \<times> auth_db" where
  "sign_in env ids u t w ctx now db =
     (case findByUserAndTenant u t db of
        None \<Rightarrow> (fail_with 403 FORBIDDEN, db)
      | Some s \<Rightarrow> guarded db (issueSession env ids s w None ctx now db))"

definition rotate_session :: "auth_env \<Rightarrow> fresh_ids \<Rightarrow> request_context \<Rightarrow> instant \<Rightarrow> refresh_decision \<Rightarrow> auth_db
     \<Rightarrow> session result \<times> auth_db" where
  "rotate_session env ids ctx now d db = guarded db (refresh_commit env ids ctx now d db)"

fun session_step :: "auth_env \<Rightarrow> session_world \<Rightarrow> instant \<times> session_op \<Rightarrow> session_world" where
  "session_step env s (now, S_sign_in ids u t w ctx) = s\<lparr>sn_db := snd (sign_in env ids u t w ctx now (sn_db s))\<rparr>"
| "session_step env s (now, S_present token) = s\<lparr>sn_flight := sn_flight s @ [refresh_decide env token now (sn_db s)]\<rparr>"
| "session_step env s (now, S_rotate n ids ctx) =
     (if n < length (sn_flight s) then
        s\<lparr>sn_db := snd (rotate_session env ids ctx now (sn_flight s ! n) (sn_db s)),
          sn_flight := take n (sn_flight s) @ drop (Suc n) (sn_flight s)\<rparr>
      else s)"
| "session_step env s (now, S_logout token ctx) = s\<lparr>sn_db := snd (logout env token ctx now (sn_db s))\<rparr>"
| "session_step env s (now, S_logout_all u t ctx) = s\<lparr>sn_db := snd (logoutAll env u t ctx now (sn_db s))\<rparr>"
| "session_step env s (now, S_password al old new u t ctx) =
     s\<lparr>sn_db := snd (changePassword env al old new u t ctx now (sn_db s))\<rparr>"

text \<open>The event of a step, with the account whose desk it happens at.\<close>

definition token_reused :: "'r result" where
  "token_reused = fail_with 401 TOKEN_REUSED"

definition rotation_event ::
  "auth_env \<Rightarrow> fresh_ids \<Rightarrow> request_context \<Rightarrow> instant \<Rightarrow> refresh_decision \<Rightarrow> auth_db \<Rightarrow> (uuid \<times> desk_event) option" where
  "rotation_event env ids ctx now d db =
     (let answer = fst (rotate_session env ids ctx now d db)
      in case d of
           Refresh_Error e \<Rightarrow> None
         | Reused r \<Rightarrow> Some (rt_userId r, Workspace_Ended (rt_tenantId r) False)
         | Rotate r st sc sid \<Rightarrow>
             if answer = token_reused then Some (rt_userId r, Workspace_Ended (rt_tenantId r) False)
             else if isl answer then None
             else Some (rt_userId r, Session_Rotated (rt_tenantId r) (rt_id r) (fi_row ids)))"

fun session_event :: "auth_env \<Rightarrow> session_world \<Rightarrow> instant \<times> session_op \<Rightarrow> (uuid \<times> desk_event) option" where
  "session_event env s (now, S_sign_in ids u t w ctx) =
     (if isl (fst (sign_in env ids u t w ctx now (sn_db s))) then None else Some (u, Session_Opened t (fi_row ids)))"
| "session_event env s (now, S_present token) = None"
| "session_event env s (now, S_rotate n ids ctx) =
     (if n < length (sn_flight s) then rotation_event env ids ctx now (sn_flight s ! n) (sn_db s) else None)"
| "session_event env s (now, S_logout token ctx) =
     (if isl (fst (logout env token ctx now (sn_db s))) then None
      else case stored_token (ae_tokens env) token (sn_db s) of
             None \<Rightarrow> None
           | Some r \<Rightarrow> if rt_revokedAt r \<noteq> None then None else Some (rt_userId r, Session_Ended (rt_tenantId r) (rt_id r)))"
| "session_event env s (now, S_logout_all u t ctx) = Some (u, Workspace_Ended t True)"
| "session_event env s (now, S_password al old new u t ctx) =
     (if isl (fst (changePassword env al old new u t ctx now (sn_db s))) then None else Some (u, All_Ended))"

definition desk_after :: "(uuid \<times> desk_event) option \<Rightarrow> uuid \<Rightarrow> desk \<Rightarrow> desk" where
  "desk_after e u d = (case e of None \<Rightarrow> d | Some (v, x) \<Rightarrow> if v = u then desk_step x d else d)"

subsection \<open>The invariant\<close>

definition one_desk :: "auth_db \<Rightarrow> bool" where
  "one_desk db \<longleftrightarrow> keys_ok db \<and> unique_key ac_id (accounts db)
     \<and> rt_userId ` set (refresh_tokens db) \<subseteq> ac_id ` set (accounts db)
     \<and> (\<forall>u. \<exists>t. (\<forall>r\<in>set (filter (live_of u) (refresh_tokens db)). rt_tenantId r = t)
              \<and> (claim_of u db = None \<or> claim_of u db = Some t \<or> filter (live_of u) (refresh_tokens db) = []))"

definition in_store :: "auth_db \<Rightarrow> refresh_decision \<Rightarrow> bool" where
  "in_store db d = (case d of
     Rotate r s sc sid \<Rightarrow> tm_userId (st_membership s) = rt_userId r \<and> tm_tenantId (st_membership s) = rt_tenantId r
       \<and> (rt_id r, rt_userId r, rt_tenantId r) \<in> (\<lambda>x. (rt_id x, rt_userId x, rt_tenantId x)) ` set (refresh_tokens db)
   | _ \<Rightarrow> True)"

definition sn_ok :: "session_world \<Rightarrow> bool" where
  "sn_ok s \<longleftrightarrow> one_desk (sn_db s) \<and> (\<forall>d\<in>set (sn_flight s). in_store (sn_db s) d)"

text \<open>The identity columns of the rows: no operation rewrites one or removes a row.\<close>

definition token_keys :: "auth_db \<Rightarrow> (uuid \<times> uuid \<times> uuid) list" where
  "token_keys db = map (\<lambda>x. (rt_id x, rt_userId x, rt_tenantId x)) (refresh_tokens db)"

lemma keys_revoke: "map (\<lambda>x. (rt_id x, rt_userId x, rt_tenantId x)) (revoke_rows P now rows)
    = map (\<lambda>x. (rt_id x, rt_userId x, rt_tenantId x)) rows"
  by (simp add: revoke_rows_def update_where_def)

lemma in_store_mono: "set (token_keys db) \<subseteq> set (token_keys db') \<Longrightarrow> in_store db d \<Longrightarrow> in_store db' d"
  by (auto simp: in_store_def token_keys_def split: refresh_decision.splits)

subsection \<open>What the operations do to the desks\<close>

lemma desk_rows:
  assumes "\<forall>r\<in>set rows. rt_tenantId r = t"
  shows "desk_of_rows c rows = Desk c (open_sessions (rt_id ` set rows) t)"
  using assms by (cases rows) (auto simp: desk_of_rows_def open_sessions_def)

lemma find_accounts:
  assumes "\<And>a. ac_id (f a) = ac_id a"
  shows "find_row (\<lambda>a. ac_id a = u) (update_where (\<lambda>a. ac_id a = v \<and> P a) f rows)
    = map_option (\<lambda>a. if u = v \<and> P a then f a else a) (find_row (\<lambda>a. ac_id a = u) rows)"
  by (induction rows) (auto simp: table_simps assms)

lemma claim_set:
  "claim_of v (set_account u (\<lambda>a. a\<lparr>ac_activeTenantId := Some t\<rparr>) db)
    = (if v = u \<and> account_of u db \<noteq> None then Some t else claim_of v db)"
  by (auto simp: claim_of_def account_of_def set_account_def find_row_update_key split: option.splits)

lemma claim_release:
  "claim_of v (releaseActiveWorkspace u t db)
    = (if v = u \<and> claim_of u db = Some t then None else claim_of v db)"
  by (cases "account_of v db") (auto simp: claim_of_def account_of_def releaseActiveWorkspace_def find_accounts)

lemma claim_cong: "accounts db' = accounts db \<Longrightarrow> claim_of u db' = claim_of u db"
  by (simp add: claim_of_def account_of_def)

lemma desk_cong:
  "accounts db' = accounts db \<Longrightarrow> refresh_tokens db' = refresh_tokens db \<Longrightarrow> desk_of db' u = desk_of db u"
  by (simp add: desk_of_def claim_of_def account_of_def)

lemma account_frames [simp]:
  "account_of u (revoke_tokens P now db) = account_of u db"
  "account_of u (persistRefreshToken env i s x dv db) = account_of u db"
  "claim_of u (revoke_tokens P now db) = claim_of u db"
  "claim_of u (persistRefreshToken env i s x dv db) = claim_of u db"
  "claim_of u (auth_event env tn ac ty tg ti md ctx now db) = claim_of u db"
  by (simp_all add: account_of_def claim_of_def)

lemma issue_Inr:
  assumes "issueSession env ids s w cont ctx now db = (Inr se, db')"
  shows "\<exists>new. rt_id new = fi_row ids \<and> rt_userId new = tm_userId (st_membership s)
      \<and> rt_tenantId new = tm_tenantId (st_membership s) \<and> rt_revokedAt new = None
      \<and> refresh_tokens db' = revoke_rows (\<lambda>r. rt_userId r = tm_userId (st_membership s)
            \<and> rt_tenantId r \<noteq> tm_tenantId (st_membership s)) now (refresh_tokens db @ [new])"
    and "claim_of v db' = (if v = tm_userId (st_membership s) \<and> account_of v db \<noteq> None
        then Some (tm_tenantId (st_membership s)) else claim_of v db)"
    and "map ac_id (accounts db') = map ac_id (accounts db)"
proof -
  obtain x where db': "db' = claimActiveWorkspace (st_membership s) now (persistRefreshToken env (fi_row ids) s x ctx db)"
    using assms by (auto simp: issueSession_def Let_def split: sum.splits)
  show "\<exists>new. rt_id new = fi_row ids \<and> rt_userId new = tm_userId (st_membership s)
      \<and> rt_tenantId new = tm_tenantId (st_membership s) \<and> rt_revokedAt new = None
      \<and> refresh_tokens db' = revoke_rows (\<lambda>r. rt_userId r = tm_userId (st_membership s)
            \<and> rt_tenantId r \<noteq> tm_tenantId (st_membership s)) now (refresh_tokens db @ [new])"
    unfolding db' claimActiveWorkspace_def
    by (rule exI [of _ "last (refresh_tokens (persistRefreshToken env (fi_row ids) s x ctx db))"])
      (simp add: persistRefreshToken_def)
  show "claim_of v db' = (if v = tm_userId (st_membership s) \<and> account_of v db \<noteq> None
        then Some (tm_tenantId (st_membership s)) else claim_of v db)"
    unfolding db' claimActiveWorkspace_def by (auto simp: claim_set)
  show "map ac_id (accounts db') = map ac_id (accounts db)"
    unfolding db' claimActiveWorkspace_def by (simp add: set_account_def update_where_def)
qed

lemma issue_Inl:
  "fst (issueSession env ids s w cont ctx now db) = Inl e \<Longrightarrow> snd (issueSession env ids s w cont ctx now db) = db"
  by (auto simp: issueSession_def Let_def split: sum.splits)

text \<open>The rows and claims after the six kinds of change.\<close>

lemma filter_live_append: "filter (live_of u) (xs @ [x]) = filter (live_of u) xs @ (if live_of u x then [x] else [])"
  by simp

lemma live_issued:
  assumes "rt_userId new = u" "rt_tenantId new = t" "rt_revokedAt new = None"
  shows "filter (live_of v) (revoke_rows (\<lambda>r. rt_userId r = u \<and> rt_tenantId r \<noteq> t) now (rows @ [new]))
    = (if v = u then filter (\<lambda>r. live_of u r \<and> rt_tenantId r = t) rows @ [new] else filter (live_of v) rows)"
  using assms by (auto simp: filter_live_revoke live_of_def intro!: filter_cong)

lemma one_deskD:
  assumes "one_desk db"
  obtains t where "\<forall>r\<in>set (filter (live_of u) (refresh_tokens db)). rt_tenantId r = t"
    "claim_of u db = None \<or> claim_of u db = Some t \<or> filter (live_of u) (refresh_tokens db) = []"
  using assms unfolding one_desk_def by blast

lemma one_deskI:
  assumes "keys_ok db" "unique_key ac_id (accounts db)"
    "rt_userId ` set (refresh_tokens db) \<subseteq> ac_id ` set (accounts db)"
    "\<And>u. \<exists>t. (\<forall>r\<in>set (filter (live_of u) (refresh_tokens db)). rt_tenantId r = t)
        \<and> (claim_of u db = None \<or> claim_of u db = Some t \<or> filter (live_of u) (refresh_tokens db) = [])"
  shows "one_desk db"
  using assms unfolding one_desk_def by blast

subsection \<open>Every change keeps the invariant and moves the desks\<close>

text \<open>
  A change of the store is \<open>tracked\<close> when it keeps the invariant, the identity columns of the rows and the
  revocations, and moves the desk of one account only, by a function of the desk.
\<close>

definition tracked :: "auth_db \<Rightarrow> uuid \<Rightarrow> (desk \<Rightarrow> desk) \<Rightarrow> auth_db \<Rightarrow> bool" where
  "tracked db u f db' \<longleftrightarrow> one_desk db' \<and> set (token_keys db) \<subseteq> set (token_keys db')
     \<and> (\<forall>r\<in>set (refresh_tokens db). rt_revokedAt r \<noteq> None
          \<longrightarrow> (\<exists>r'\<in>set (refresh_tokens db'). rt_id r' = rt_id r \<and> rt_revokedAt r' \<noteq> None))
     \<and> (\<forall>v. desk_of db' v = (if v = u then f (desk_of db v) else desk_of db v))"

lemma tracked_refl: "one_desk db \<Longrightarrow> tracked db u id db"
  by (auto simp: tracked_def)

lemma tracked_trans:
  assumes a: "tracked db u f db1" and b: "tracked db1 u g db2"
  shows "tracked db u (g \<circ> f) db2"
proof -
  have "\<exists>r'\<in>set (refresh_tokens db2). rt_id r' = rt_id r \<and> rt_revokedAt r' \<noteq> None"
    if "r \<in> set (refresh_tokens db)" "rt_revokedAt r \<noteq> None" for r
  proof -
    from a that obtain r1 where "r1 \<in> set (refresh_tokens db1)" "rt_id r1 = rt_id r" "rt_revokedAt r1 \<noteq> None"
      unfolding tracked_def by blast
    with b show ?thesis unfolding tracked_def by metis
  qed
  with a b show ?thesis unfolding tracked_def by auto
qed

lemma tracked_cong:
  assumes "tracked db u f db1" "accounts db2 = accounts db1" "refresh_tokens db2 = refresh_tokens db1"
  shows "tracked db u f db2"
  using assms by (simp add: tracked_def one_desk_def keys_ok_def token_keys_def claim_of_def account_of_def desk_of_def)

lemma desk_of_one:
  assumes "\<forall>r\<in>set (filter (live_of u) (refresh_tokens db)). rt_tenantId r = t"
  shows "desk_of db u = Desk (claim_of u db) (open_sessions (rt_id ` set (filter (live_of u) (refresh_tokens db))) t)"
  unfolding desk_of_def by (rule desk_rows [OF assms])

lemma revoked_stays:
  "r \<in> set rows \<Longrightarrow> rt_revokedAt r \<noteq> None
    \<Longrightarrow> \<exists>r'\<in>set (revoke_rows P now rows). rt_id r' = rt_id r \<and> rt_revokedAt r' \<noteq> None"
  by (auto simp: revoke_rows_def table_simps)

lemma tracked_issue:
  assumes ok: "one_desk db" and s: "tm_userId (st_membership s) \<in> ac_id ` set (accounts db)"
    and i: "issueSession env ids s w cont ctx now db = (Inr se, db')" and k: "keys_ok db'"
  shows "tracked db (tm_userId (st_membership s)) (open_at (tm_tenantId (st_membership s)) (fi_row ids)) db'"
proof -
  let ?u = "tm_userId (st_membership s)" and ?t = "tm_tenantId (st_membership s)"
  obtain new where new: "rt_id new = fi_row ids" "rt_userId new = ?u" "rt_tenantId new = ?t" "rt_revokedAt new = None"
    and rows: "refresh_tokens db' = revoke_rows (\<lambda>r. rt_userId r = ?u \<and> rt_tenantId r \<noteq> ?t) now (refresh_tokens db @ [new])"
    using issue_Inr(1) [OF i] by blast
  have known: "account_of ?u db \<noteq> None"
    using s by (auto simp: account_of_def find_row_None_iff)
  have claims: "claim_of v db' = (if v = ?u then Some ?t else claim_of v db)" for v
    using issue_Inr(2) [OF i, of v] known by simp
  have live: "filter (live_of v) (refresh_tokens db')
      = (if v = ?u then filter (\<lambda>r. live_of ?u r \<and> rt_tenantId r = ?t) (refresh_tokens db) @ [new]
         else filter (live_of v) (refresh_tokens db))" for v
    unfolding rows using live_issued [OF new(2-4)] .
  have users: "rt_userId ` set (refresh_tokens db') \<subseteq> ac_id ` set (accounts db')"
  proof -
    have "set (map ac_id (accounts db')) = set (map ac_id (accounts db))" using issue_Inr(3) [OF i] by simp
    moreover have "rt_userId ` set (refresh_tokens db') = rt_userId ` set (refresh_tokens db @ [new])"
      unfolding rows by simp
    ultimately show ?thesis using ok new(2) s by (auto simp: one_desk_def)
  qed
  have one: "one_desk db'"
  proof (rule one_deskI [OF k _ users])
    show "unique_key ac_id (accounts db')"
      using ok issue_Inr(3) [OF i] by (simp add: one_desk_def unique_key_def)
    fix v
    obtain t where "\<forall>r\<in>set (filter (live_of v) (refresh_tokens db)). rt_tenantId r = t"
      "claim_of v db = None \<or> claim_of v db = Some t \<or> filter (live_of v) (refresh_tokens db) = []"
      using one_deskD [OF ok] .
    then show "\<exists>t. (\<forall>r\<in>set (filter (live_of v) (refresh_tokens db')). rt_tenantId r = t)
        \<and> (claim_of v db' = None \<or> claim_of v db' = Some t \<or> filter (live_of v) (refresh_tokens db') = [])"
      using new(3) unfolding live claims by (cases "v = ?u") auto
  qed
  have desks: "desk_of db' v = (if v = ?u then open_at ?t (fi_row ids) (desk_of db v) else desk_of db v)" for v
  proof (cases "v = ?u")
    case True
    obtain t where t: "\<forall>r\<in>set (filter (live_of ?u) (refresh_tokens db)). rt_tenantId r = t"
      using one_deskD [OF ok] .
    have "desk_of db' ?u = Desk (Some ?t) (open_sessions (rt_id ` set (filter (live_of ?u) (refresh_tokens db'))) ?t)"
      using desk_of_one [of ?u db' ?t] claims new(3) unfolding live by auto
    moreover have "filter (\<lambda>r. live_of ?u r \<and> rt_tenantId r = ?t) (refresh_tokens db)
        = (if t = ?t then filter (live_of ?u) (refresh_tokens db) else [])"
      using t by (auto simp: filter_empty_conv intro!: filter_cong)
    ultimately show ?thesis
      using new(1) unfolding True desk_of_one [OF t] live
      by (cases "t = ?t") (auto simp: open_sessions_def)
  next
    case False
    then have "filter (live_of v) (refresh_tokens db') = filter (live_of v) (refresh_tokens db)" "claim_of v db' = claim_of v db"
      unfolding live claims by simp_all
    with False show ?thesis by (simp add: desk_of_def)
  qed
  have ids: "set (token_keys db) \<subseteq> set (token_keys db')"
    unfolding token_keys_def rows keys_revoke by auto
  have stays: "\<forall>r\<in>set (refresh_tokens db). rt_revokedAt r \<noteq> None
      \<longrightarrow> (\<exists>r'\<in>set (refresh_tokens db'). rt_id r' = rt_id r \<and> rt_revokedAt r' \<noteq> None)"
    unfolding rows by (intro ballI impI revoked_stays) simp_all
  show ?thesis unfolding tracked_def by (intro conjI one ids stays allI desks)
qed

text \<open>The changes that only end sessions of one account.\<close>

lemma tracked_revoke:
  assumes ok: "one_desk db" and P: "\<And>r. r \<in> set (refresh_tokens db) \<Longrightarrow> P r \<Longrightarrow> rt_userId r = u"
    and rows: "refresh_tokens db' = revoke_rows P now (refresh_tokens db)"
    and claims: "\<And>v. claim_of v db' = (if v = u \<and> clr then None else claim_of v db)"
    and ids: "map ac_id (accounts db') = map ac_id (accounts db)"
    and moves: "\<And>S t. \<lbrakk>S = rt_id ` set (filter (live_of u) (refresh_tokens db));
        \<forall>r\<in>set (filter (live_of u) (refresh_tokens db)). rt_tenantId r = t\<rbrakk>
      \<Longrightarrow> f (Desk (claim_of u db) (open_sessions S t))
        = Desk (claim_of u db') (open_sessions (rt_id ` {r \<in> set (refresh_tokens db). live_of u r \<and> \<not> P r}) t)"
  shows "tracked db u f db'"
proof -
  have live: "filter (live_of v) (refresh_tokens db')
      = (if v = u then filter (\<lambda>r. live_of u r \<and> \<not> P r) (refresh_tokens db)
         else filter (live_of v) (refresh_tokens db))" for v
    unfolding rows filter_live_revoke using P by (auto simp: live_of_def intro!: filter_cong)
  have one: "one_desk db'"
  proof (rule one_deskI)
    show "keys_ok db'" using ok by (simp add: one_desk_def keys_ok_def unique_key_def rows)
    show "unique_key ac_id (accounts db')" using ok by (simp add: one_desk_def unique_key_def ids)
    have "set (map ac_id (accounts db')) = set (map ac_id (accounts db))" by (simp only: ids)
    with ok show "rt_userId ` set (refresh_tokens db') \<subseteq> ac_id ` set (accounts db')"
      by (simp add: one_desk_def rows)
    fix v
    obtain t where "\<forall>r\<in>set (filter (live_of v) (refresh_tokens db)). rt_tenantId r = t"
      "claim_of v db = None \<or> claim_of v db = Some t \<or> filter (live_of v) (refresh_tokens db) = []"
      using one_deskD [OF ok] .
    then show "\<exists>t. (\<forall>r\<in>set (filter (live_of v) (refresh_tokens db')). rt_tenantId r = t)
        \<and> (claim_of v db' = None \<or> claim_of v db' = Some t \<or> filter (live_of v) (refresh_tokens db') = [])"
      unfolding live claims by (cases "v = u") (auto simp: filter_empty_conv)
  qed
  have desks: "desk_of db' v = (if v = u then f (desk_of db v) else desk_of db v)" for v
  proof (cases "v = u")
    case True
    obtain t where t: "\<forall>r\<in>set (filter (live_of u) (refresh_tokens db)). rt_tenantId r = t"
      using one_deskD [OF ok] .
    then have "\<forall>r\<in>set (filter (live_of u) (refresh_tokens db')). rt_tenantId r = t"
      unfolding live by simp
    from desk_of_one [OF this] desk_of_one [OF t] moves [OF refl t] show ?thesis
      unfolding True live by simp
  next
    case False
    then show ?thesis unfolding desk_of_def live claims by simp
  qed
  have stays: "\<forall>r\<in>set (refresh_tokens db). rt_revokedAt r \<noteq> None
      \<longrightarrow> (\<exists>r'\<in>set (refresh_tokens db'). rt_id r' = rt_id r \<and> rt_revokedAt r' \<noteq> None)"
    unfolding rows by (intro ballI impI revoked_stays)
  have keys: "set (token_keys db) \<subseteq> set (token_keys db')"
    unfolding token_keys_def rows keys_revoke by (rule order_refl)
  show ?thesis unfolding tracked_def by (intro conjI one keys stays allI desks)
qed

lemma tracked_workspace:
  assumes ok: "one_desk db"
    and rows: "refresh_tokens db' = revoke_rows (\<lambda>r. rt_userId r = u \<and> rt_tenantId r = t) now (refresh_tokens db)"
    and claims: "\<And>v. claim_of v db' = (if v = u \<and> b \<and> claim_of u db = Some t then None else claim_of v db)"
    and ids: "map ac_id (accounts db') = map ac_id (accounts db)"
  shows "tracked db u (desk_step (Workspace_Ended t b)) db'"
proof (rule tracked_revoke [OF ok _ rows _ ids, where clr = "b \<and> claim_of u db = Some t"])
  show "claim_of v db' = (if v = u \<and> b \<and> claim_of u db = Some t then None else claim_of v db)" for v
    by (rule claims)
  fix S t'
  assume S: "S = rt_id ` set (filter (live_of u) (refresh_tokens db))"
    and t': "\<forall>r\<in>set (filter (live_of u) (refresh_tokens db)). rt_tenantId r = t'"
  have "{r \<in> set (refresh_tokens db). live_of u r \<and> \<not> (rt_userId r = u \<and> rt_tenantId r = t)}
      = (if t' = t then {} else {r \<in> set (refresh_tokens db). live_of u r})"
    using t' by (auto simp: live_of_def)
  then show "desk_step (Workspace_Ended t b) (Desk (claim_of u db) (open_sessions S t'))
      = Desk (claim_of u db') (open_sessions (rt_id ` {r \<in> set (refresh_tokens db). live_of u r
          \<and> \<not> (rt_userId r = u \<and> rt_tenantId r = t)}) t')"
    using S by (auto simp: claims open_sessions_def)
qed simp

lemma tracked_drop:
  assumes ok: "one_desk db" and r: "r \<in> set (refresh_tokens db)"
    and rows: "refresh_tokens db' = revoke_rows (\<lambda>x. rt_id x = rt_id r) now (refresh_tokens db)"
    and claims: "\<And>v. claim_of v db' = (if v = rt_userId r \<and> clr \<and> claim_of v db = Some tn then None else claim_of v db)"
    and ids: "map ac_id (accounts db') = map ac_id (accounts db)"
  shows "tracked db (rt_userId r) ((if clr then release tn else id) \<circ> drop_session (rt_id r)) db'"
proof (rule tracked_revoke [OF ok _ rows _ ids, where clr = "clr \<and> claim_of (rt_userId r) db = Some tn"])
  show "rt_userId x = rt_userId r" if "x \<in> set (refresh_tokens db)" "rt_id x = rt_id r" for x
    using ok that r by (metis one_desk_def keys_ok_def unique_keyD)
  show "claim_of v db' = (if v = rt_userId r \<and> clr \<and> claim_of (rt_userId r) db = Some tn then None else claim_of v db)" for v
    using claims [of v] by auto
  fix S t
  assume S: "S = rt_id ` set (filter (live_of (rt_userId r)) (refresh_tokens db))"
  have "rt_id ` {x \<in> set (refresh_tokens db). live_of (rt_userId r) x \<and> rt_id x \<noteq> rt_id r} = S - {rt_id r}"
    using S by auto
  then show "((if clr then release tn else id) \<circ> drop_session (rt_id r)) (Desk (claim_of (rt_userId r) db) (open_sessions S t))
      = Desk (claim_of (rt_userId r) db') (open_sessions (rt_id ` {x \<in> set (refresh_tokens db).
          live_of (rt_userId r) x \<and> rt_id x \<noteq> rt_id r}) t)"
    using claims [of "rt_userId r"] by (auto simp: open_sessions_def)
qed

lemma tracked_reuse:
  assumes "one_desk db"
  shows "tracked db (rt_userId r) (desk_step (Workspace_Ended (rt_tenantId r) False))
    (snd (handleRefreshTokenReuse env al r ctx now db))"
  by (rule tracked_workspace [OF assms, where now = now])
    (simp_all add: handleRefreshTokenReuse_def Let_def claim_of_def account_of_def)

lemma reuse_answer [simp]: "fst (handleRefreshTokenReuse env al r ctx now db) = token_reused"
  by (simp add: handleRefreshTokenReuse_def Let_def token_reused_def)

lemma release_ids [simp]: "map ac_id (accounts (releaseActiveWorkspace u t db)) = map ac_id (accounts db)"
  by (simp add: releaseActiveWorkspace_def update_where_def)

lemma tracked_logoutAll:
  assumes "one_desk db"
  shows "tracked db u (desk_step (Workspace_Ended t True)) (snd (logoutAll env u t ctx now db))"
proof (rule tracked_workspace [OF assms, where now = now])
  let ?db' = "snd (logoutAll env u t ctx now db)"
  show "refresh_tokens ?db' = revoke_rows (\<lambda>r. rt_userId r = u \<and> rt_tenantId r = t) now (refresh_tokens db)"
    by (simp add: logoutAll_def Let_def)
  show "map ac_id (accounts ?db') = map ac_id (accounts db)"
    by (simp add: logoutAll_def Let_def)
  fix v
  have "claim_of v ?db' = claim_of v (releaseActiveWorkspace u t
      (revoke_tokens (\<lambda>r. rt_userId r = u \<and> rt_tenantId r = t) now db))"
    by (simp add: logoutAll_def Let_def)
  then show "claim_of v ?db' = (if v = u \<and> True \<and> claim_of u db = Some t then None else claim_of v db)"
    unfolding claim_release by simp
qed

lemma logout_row:
  assumes "r \<in> set rows" "unique_key rt_id rows" "rt_revokedAt r = None"
  shows "update_where (\<lambda>x. rt_id x = rt_id r) (\<lambda>x. x\<lparr>rt_revokedAt := Some now\<rparr>) rows
      = revoke_rows (\<lambda>x. rt_id x = rt_id r) now rows"
proof -
  have "rt_revokedAt x = None" if "x \<in> set rows" "rt_id x = rt_id r" for x
    using unique_keyD [OF assms(2) that(1) assms(1) that(2)] assms(3) by simp
  then show ?thesis unfolding revoke_rows_def update_where_def by simp
qed

lemma tracked_logout:
  assumes ok: "one_desk db" and out: "fst (logout env token ctx now db) = Inr ()"
    and r: "stored_token (ae_tokens env) token db = Some r" "rt_revokedAt r = None"
  shows "tracked db (rt_userId r) (desk_step (Session_Ended (rt_tenantId r) (rt_id r)))
    (snd (logout env token ctx now db))"
proof -
  have mem: "r \<in> set (refresh_tokens db)" using r(1) by (auto simp: stored_token_def dest: find_row_SomeD)
  have u: "unique_key rt_id (refresh_tokens db)" using ok by (simp add: one_desk_def keys_ok_def)
  have db': "snd (logout env token ctx now db)
      = auth_event env (rt_tenantId r) (Some (rt_userId r)) ''LOGOUT'' ''RefreshToken'' (Some (rt_id r)) None ctx now
          (releaseActiveWorkspace (rt_userId r) (rt_tenantId r)
            (db\<lparr>refresh_tokens := revoke_rows (\<lambda>x. rt_id x = rt_id r) now (refresh_tokens db)\<rparr>))"
    using out r logout_row [OF mem u r(2), of now]
    by (auto simp: logout_def split: jwt_outcome.splits if_splits)
  have "tracked db (rt_userId r) ((if True then release (rt_tenantId r) else id) \<circ> drop_session (rt_id r))
      (snd (logout env token ctx now db))"
    unfolding db'
    by (rule tracked_drop [OF ok mem, where now = now])
      (auto simp: claim_release, simp_all add: claim_of_def account_of_def)
  moreover have "(if True then release (rt_tenantId r) else id) \<circ> drop_session (rt_id r)
      = desk_step (Session_Ended (rt_tenantId r) (rt_id r))"
    by (simp add: fun_eq_iff)
  ultimately show ?thesis by simp
qed

lemma tracked_password:
  assumes ok: "one_desk db" and changed: "fst (changePassword env al old new u t ctx now db) = Inr ()"
  shows "tracked db u (desk_step All_Ended) (snd (changePassword env al old new u t ctx now db))"
proof (rule tracked_revoke [OF ok, where P = "\<lambda>r. rt_userId r = u" and clr = False and now = now])
  let ?db' = "snd (changePassword env al old new u t ctx now db)"
  obtain h db1 where db1: "db1 = set_account u (\<lambda>x. x\<lparr>ac_passwordHash := Some h\<rparr>) db"
    and db': "accounts ?db' = accounts db1" "refresh_tokens ?db' = revoke_rows (\<lambda>r. rt_userId r = u) now (refresh_tokens db)"
    using changed by (auto simp: changePassword_def Let_def split: option.splits if_splits)
  show "refresh_tokens ?db' = revoke_rows (\<lambda>r. rt_userId r = u) now (refresh_tokens db)" by (rule db'(2))
  show claims: "claim_of v ?db' = (if v = u \<and> False then None else claim_of v db)" for v
  proof -
    have "claim_of v ?db' = claim_of v db1" using db'(1) by (rule claim_cong)
    also have "\<dots> = claim_of v db"
      unfolding db1 claim_of_def account_of_def set_account_def
      by (cases "find_row (\<lambda>a. ac_id a = v) (accounts db)") (auto simp: find_row_update_key)
    finally show ?thesis by simp
  qed
  show "map ac_id (accounts ?db') = map ac_id (accounts db)"
    unfolding db'(1) db1 by (simp add: set_account_def update_where_def)
  fix S t
  have none: "{r \<in> set (refresh_tokens db). live_of u r \<and> rt_userId r \<noteq> u} = {}" by (auto simp: live_of_def)
  show "desk_step All_Ended (Desk (claim_of u db) (open_sessions S t))
      = Desk (claim_of u ?db') (open_sessions (rt_id ` {r \<in> set (refresh_tokens db). live_of u r \<and> rt_userId r \<noteq> u}) t)"
    unfolding none by (simp add: claims open_sessions_def)
qed simp

lemma find_seat:
  assumes "findByUserAndTenant u t db = Some s"
  shows "tm_userId (st_membership s) = u" "tm_tenantId (st_membership s) = t"
    "st_membership s \<in> set (seats db)" "st_account s \<in> set (accounts db)" "ac_id (st_account s) = u"
    "st_workspace s \<in> set (workspaces db)" "ws_id (st_workspace s) = t"
proof -
  obtain m where m: "find_row (\<lambda>m. tm_userId m = u \<and> tm_tenantId m = t) (seats db) = Some m"
    and r: "with_relations db m = Some s"
    using assms by (auto simp: findByUserAndTenant_def bind_eq_Some_conv)
  obtain w a where w: "workspace_of (tm_tenantId m) db = Some w" and a: "account_of (tm_userId m) db = Some a"
    and s: "s = \<lparr>st_membership = m, st_workspace = w, st_account = a\<rparr>"
    using r by (auto simp: with_relations_def split: option.splits)
  have "ws_id w = tm_tenantId m \<and> w \<in> set (workspaces db)"
    using w unfolding workspace_of_def by (rule find_row_SomeD)
  moreover have "ac_id a = tm_userId m \<and> a \<in> set (accounts db)"
    using a unfolding account_of_def by (rule find_row_SomeD)
  moreover have "(tm_userId m = u \<and> tm_tenantId m = t) \<and> m \<in> set (seats db)"
    using m by (rule find_row_SomeD)
  ultimately show "tm_userId (st_membership s) = u" "tm_tenantId (st_membership s) = t"
    "st_membership s \<in> set (seats db)" "st_account s \<in> set (accounts db)" "ac_id (st_account s) = u"
    "st_workspace s \<in> set (workspaces db)" "ws_id (st_workspace s) = t"
    unfolding s by simp_all
qed

lemma guarded_Inr: "fst (guarded db x) = Inr y \<Longrightarrow> guarded db x = x \<and> keys_ok (snd x)"
  by (auto simp: guarded_def split: if_splits)

lemma tracked_sign_in:
  assumes ok: "one_desk db" and "fst (sign_in env ids u t w ctx now db) = Inr se"
  shows "tracked db u (desk_step (Session_Opened t (fi_row ids))) (snd (sign_in env ids u t w ctx now db))"
proof -
  obtain s where s: "findByUserAndTenant u t db = Some s"
    and g: "fst (guarded db (issueSession env ids s w None ctx now db)) = Inr se"
    using assms(2) by (auto simp: sign_in_def split: option.splits)
  obtain db' where i: "issueSession env ids s w None ctx now db = (Inr se, db')" and k: "keys_ok db'"
    using guarded_Inr [OF g] g by (metis fst_conv prod.collapse snd_conv)
  have e: "snd (sign_in env ids u t w ctx now db) = db'"
    using guarded_Inr [OF g] s i by (simp add: sign_in_def)
  have "tm_userId (st_membership s) \<in> ac_id ` set (accounts db)"
    using find_seat [OF s] by (metis imageI)
  moreover have "desk_step (Session_Opened t (fi_row ids)) = open_at t (fi_row ids)" by (simp add: fun_eq_iff)
  ultimately show ?thesis
    using tracked_issue [OF ok _ i k] find_seat(1,2) [OF s] unfolding e by simp
qed

lemma rotate_Rotate:
  assumes "fst (rotate_session env ids ctx now (Rotate r s sc sid) db) = Inr se"
  obtains db' where "count_where (\<lambda>x. rt_id x = rt_id r \<and> rt_revokedAt x = None) (refresh_tokens db) = 1"
    "issueSession env ids s sc (Some sid) ctx now (revoke_tokens (\<lambda>x. rt_id x = rt_id r) now db) = (Inr se, db')"
    "keys_ok db'" "accounts (snd (rotate_session env ids ctx now (Rotate r s sc sid) db)) = accounts db'"
    "refresh_tokens (snd (rotate_session env ids ctx now (Rotate r s sc sid) db)) = refresh_tokens db'"
proof -
  let ?c = "refresh_commit env ids ctx now (Rotate r s sc sid) db"
  from assms have g: "guarded db ?c = ?c" "keys_ok (snd ?c)"
    using guarded_Inr [OF assms [unfolded rotate_session_def]] by auto
  then have f: "fst ?c = Inr se" using assms by (simp add: rotate_session_def)
  then obtain db' where "count_where (\<lambda>x. rt_id x = rt_id r \<and> rt_revokedAt x = None) (refresh_tokens db) = 1"
    "issueSession env ids s sc (Some sid) ctx now (revoke_tokens (\<lambda>x. rt_id x = rt_id r) now db) = (Inr se, db')"
    by (auto simp: refresh_commit_def token_reused_def split: if_splits sum.splits prod.splits)
  moreover then have "accounts (snd ?c) = accounts db'" "refresh_tokens (snd ?c) = refresh_tokens db'"
    by (simp_all add: refresh_commit_def)
  moreover then have "keys_ok db'" using g(2) by (simp add: keys_ok_def)
  ultimately show ?thesis using that g(1) by (simp add: rotate_session_def)
qed

lemma tracked_rotate:
  assumes ok: "one_desk db" and st: "in_store db (Rotate r s sc sid)"
    and "fst (rotate_session env ids ctx now (Rotate r s sc sid) db) = Inr se"
  shows "tracked db (rt_userId r) (desk_step (Session_Rotated (rt_tenantId r) (rt_id r) (fi_row ids)))
    (snd (rotate_session env ids ctx now (Rotate r s sc sid) db))"
proof -
  let ?db1 = "revoke_tokens (\<lambda>x. rt_id x = rt_id r) now db"
  obtain db' where i: "issueSession env ids s sc (Some sid) ctx now ?db1 = (Inr se, db')" and k: "keys_ok db'"
    and fin: "accounts (snd (rotate_session env ids ctx now (Rotate r s sc sid) db)) = accounts db'"
      "refresh_tokens (snd (rotate_session env ids ctx now (Rotate r s sc sid) db)) = refresh_tokens db'"
    using rotate_Rotate [OF assms(3)] .
  obtain x where x: "x \<in> set (refresh_tokens db)" "rt_id x = rt_id r" "rt_userId x = rt_userId r"
    using st by (auto simp: in_store_def)
  have m: "tm_userId (st_membership s) = rt_userId r" "tm_tenantId (st_membership s) = rt_tenantId r"
    using st by (auto simp: in_store_def)
  have "tracked db (rt_userId x) ((if False then release (rt_tenantId r) else id) \<circ> drop_session (rt_id x)) ?db1"
    by (rule tracked_drop [OF ok x(1), where now = now]) (simp_all add: x(2))
  then have one: "tracked db (rt_userId r) (drop_session (rt_id r)) ?db1" using x by simp
  have "rt_userId r \<in> ac_id ` set (accounts db)"
    using ok x by (metis imageI one_desk_def subsetD)
  then have "tm_userId (st_membership s) \<in> ac_id ` set (accounts ?db1)" using m by simp
  from tracked_issue [OF _ this i k] one have two: "tracked ?db1 (rt_userId r) (open_at (rt_tenantId r) (fi_row ids)) db'"
    using m by (simp add: tracked_def)
  have "tracked db (rt_userId r) (open_at (rt_tenantId r) (fi_row ids) \<circ> drop_session (rt_id r)) db'"
    by (rule tracked_trans [OF one two])
  moreover have "open_at (rt_tenantId r) (fi_row ids) \<circ> drop_session (rt_id r)
      = desk_step (Session_Rotated (rt_tenantId r) (rt_id r) (fi_row ids))"
    by (simp add: fun_eq_iff)
  ultimately show ?thesis using tracked_cong [OF _ fin] by simp
qed

lemma parse_error: "parseDurationToMs d = Inl e \<Longrightarrow> \<exists>m. e = ServerError m"
  by (auto simp: parseDurationToMs_def Let_def split: if_splits option.splits)

lemma issue_error:
  assumes "fst (issueSession env ids s w cont ctx now db) = Inl e"
  shows "\<exists>m. e = ServerError m"
proof -
  from assms have "buildRefreshToken (ae_tokens env) (fi_jti ids) s w cont now = Inl e"
    by (auto simp: issueSession_def Let_def split: sum.splits)
  then show ?thesis
    by (auto simp: buildRefreshToken_def Let_def bind_result_Inl_iff dest: parse_error)
qed

lemma tracked_keys: "tracked db u f db' \<Longrightarrow> keys_ok db'"
  by (simp add: tracked_def one_desk_def)

lemma rotate_reuse:
  assumes ok: "one_desk db" and c: "refresh_commit env ids ctx now d db = handleRefreshTokenReuse env al r ctx now db"
  shows "fst (rotate_session env ids ctx now d db) = token_reused"
    and "tracked db (rt_userId r) (desk_step (Workspace_Ended (rt_tenantId r) False)) (snd (rotate_session env ids ctx now d db))"
  using tracked_reuse [OF ok, of r env al ctx now] c
  by (simp_all add: rotate_session_def guarded_def tracked_keys)

definition moves_desk :: "auth_db \<Rightarrow> (uuid \<times> desk_event) option \<Rightarrow> auth_db \<Rightarrow> bool" where
  "moves_desk db e db' \<longleftrightarrow> (\<exists>u f. tracked db u f db' \<and> (\<forall>v d. desk_after e v d = (if v = u then f d else d)))"

lemma moves_none: "one_desk db \<Longrightarrow> moves_desk db None db"
  unfolding moves_desk_def by (rule exI [of _ "[]"], rule exI [of _ id]) (simp add: tracked_refl desk_after_def)

lemma moves_some: "tracked db u (desk_step e) db' \<Longrightarrow> moves_desk db (Some (u, e)) db'"
  unfolding moves_desk_def by (rule exI [of _ u], rule exI [of _ "desk_step e"]) (auto simp: desk_after_def)

lemma rotation_moves:
  assumes ok: "one_desk db" and st: "in_store db d"
  shows "moves_desk db (rotation_event env ids ctx now d db) (snd (rotate_session env ids ctx now d db))"
proof (cases d)
  case (Refresh_Error e)
  then have "snd (rotate_session env ids ctx now d db) = db"
    by (simp add: rotate_session_def refresh_commit_def guarded_def)
  with ok Refresh_Error show ?thesis by (simp add: rotation_event_def moves_none)
next
  case (Reused r)
  then have "refresh_commit env ids ctx now d db = handleRefreshTokenReuse env (fi_alert ids) r ctx now db"
    by (simp add: refresh_commit_def)
  from rotate_reuse [OF ok this] Reused show ?thesis by (simp add: rotation_event_def moves_some del: desk_step.simps)
next
  case (Rotate r s sc sid)
  let ?x = "issueSession env ids s sc (Some sid) ctx now (revoke_tokens (\<lambda>x. rt_id x = rt_id r) now db)"
  consider (lost) "count_where (\<lambda>x. rt_id x = rt_id r \<and> rt_revokedAt x = None) (refresh_tokens db) \<noteq> 1"
    | (won) se where "fst (rotate_session env ids ctx now d db) = Inr se"
    | (failed) e where "count_where (\<lambda>x. rt_id x = rt_id r \<and> rt_revokedAt x = None) (refresh_tokens db) = 1"
        "fst (rotate_session env ids ctx now d db) = Inl e"
    by (cases "fst (rotate_session env ids ctx now d db)") auto
  then show ?thesis
  proof cases
    case lost
    then have "refresh_commit env ids ctx now d db = handleRefreshTokenReuse env (fi_alert ids) r ctx now db"
      using Rotate by (simp add: refresh_commit_def)
    from rotate_reuse [OF ok this] Rotate show ?thesis
      by (simp add: rotation_event_def moves_some del: desk_step.simps)
  next
    case won
    from tracked_rotate [OF ok] st won Rotate
    have "tracked db (rt_userId r) (desk_step (Session_Rotated (rt_tenantId r) (rt_id r) (fi_row ids)))
        (snd (rotate_session env ids ctx now d db))" by blast
    with won Rotate show ?thesis by (simp add: rotation_event_def token_reused_def moves_some del: desk_step.simps)
  next
    case failed
    have same: "snd (rotate_session env ids ctx now d db) = db"
      using failed Rotate
      by (auto simp: rotate_session_def guarded_def refresh_commit_def split: if_splits sum.splits prod.splits)
    have "\<exists>m. e = ServerError m"
      using failed Rotate issue_error [of env ids s sc "Some sid" ctx now "revoke_tokens (\<lambda>x. rt_id x = rt_id r) now db"]
      by (auto simp: rotate_session_def guarded_def refresh_commit_def split: if_splits sum.splits prod.splits)
    then have "rotation_event env ids ctx now d db = None"
      using failed(2) Rotate by (auto simp: rotation_event_def token_reused_def)
    with same ok show ?thesis by (simp add: moves_none)
  qed
qed

lemma logout_quiet:
  "isl (fst (logout env token ctx now db)) \<Longrightarrow> snd (logout env token ctx now db) = db"
  "stored_token (ae_tokens env) token db = None \<Longrightarrow> snd (logout env token ctx now db) = db"
  "stored_token (ae_tokens env) token db = Some r \<Longrightarrow> rt_revokedAt r \<noteq> None \<Longrightarrow> snd (logout env token ctx now db) = db"
  by (auto simp: logout_def split: jwt_outcome.splits option.splits if_splits)

lemma sign_in_quiet: "isl (fst (sign_in env ids u t w ctx now db)) \<Longrightarrow> snd (sign_in env ids u t w ctx now db) = db"
  by (auto simp: sign_in_def guarded_def issueSession_def Let_def split: option.splits sum.splits if_splits)

lemma password_quiet:
  "isl (fst (changePassword env al old new u t ctx now db)) \<Longrightarrow> snd (changePassword env al old new u t ctx now db) = db"
  by (auto simp: changePassword_def Let_def split: option.splits if_splits)

lemma step_moves:
  assumes ok: "sn_ok s"
  shows "moves_desk (sn_db s) (session_event env s x) (sn_db (session_step env s x))"
proof -
  have one: "one_desk (sn_db s)" using ok by (simp add: sn_ok_def)
  obtain now op where x: "x = (now, op)" by (cases x)
  show ?thesis
  proof (cases op)
    case (S_sign_in ids u t w ctx)
    show ?thesis
    proof (cases "fst (sign_in env ids u t w ctx now (sn_db s))")
      case (Inl e)
      with one sign_in_quiet [of env ids u t w ctx now "sn_db s"] show ?thesis
        by (simp add: x S_sign_in moves_none)
    next
      case (Inr se)
      with moves_some [OF tracked_sign_in [OF one Inr]] show ?thesis by (simp add: x S_sign_in)
    qed
  next
    case (S_present token)
    with one show ?thesis by (simp add: x moves_none)
  next
    case (S_rotate n ids ctx)
    with one ok rotation_moves [OF one, of "sn_flight s ! n"] show ?thesis
      by (simp add: x moves_none sn_ok_def)
  next
    case (S_logout token ctx)
    show ?thesis
    proof (cases "isl (fst (logout env token ctx now (sn_db s))) \<or> stored_token (ae_tokens env) token (sn_db s) = None
        \<or> rt_revokedAt (the (stored_token (ae_tokens env) token (sn_db s))) \<noteq> None")
      case True
      with one logout_quiet [where env = env and token = token and ctx = ctx and now = now and db = "sn_db s"]
      show ?thesis by (auto simp: x S_logout moves_none split: option.splits)
    next
      case False
      then obtain r where r: "stored_token (ae_tokens env) token (sn_db s) = Some r" "rt_revokedAt r = None"
        and out: "fst (logout env token ctx now (sn_db s)) = Inr ()"
        by (cases "fst (logout env token ctx now (sn_db s))") auto
      from moves_some [OF tracked_logout [OF one out r]] r out show ?thesis by (simp add: x S_logout)
    qed
  next
    case (S_logout_all u t ctx)
    with moves_some [OF tracked_logoutAll [OF one]] show ?thesis by (simp add: x)
  next
    case (S_password al old new u t ctx)
    show ?thesis
    proof (cases "fst (changePassword env al old new u t ctx now (sn_db s))")
      case (Inl e)
      with one password_quiet [of env al old new u t ctx now "sn_db s"] show ?thesis
        by (simp add: x S_password moves_none)
    next
      case (Inr un)
      then have "fst (changePassword env al old new u t ctx now (sn_db s)) = Inr ()" by simp
      from moves_some [OF tracked_password [OF one this]] Inr show ?thesis by (simp add: x S_password)
    qed
  qed
qed

subsection \<open>The invariant of every run\<close>

lemma decide_in_store: "in_store db (refresh_decide env token now db)"
proof (cases "refresh_decide env token now db")
  case (Rotate r s sc sid)
  then have "stored_token (ae_tokens env) token db = Some r" "findByUserAndTenant (rt_userId r) (rt_tenantId r) db = Some s"
    by (auto simp: refresh_decide_def Let_def split: sum.splits option.splits if_splits)
  with Rotate show ?thesis
    by (auto simp: in_store_def find_seat stored_token_def dest!: find_row_SomeD)
qed (simp_all add: in_store_def)

lemma step_flight:
  "d \<in> set (sn_flight (session_step env s x)) \<Longrightarrow> d \<in> set (sn_flight s) \<or> in_store (sn_db (session_step env s x)) d"
proof -
  assume d: "d \<in> set (sn_flight (session_step env s x))"
  obtain now op where x: "x = (now, op)" by (cases x)
  from d show ?thesis
    by (cases op) (auto simp: x decide_in_store split: if_splits dest: in_set_takeD in_set_dropD)
qed

lemma session_step_ok:
  assumes "sn_ok s"
  shows "sn_ok (session_step env s x)"
proof -
  obtain u f where t: "tracked (sn_db s) u f (sn_db (session_step env s x))"
    using step_moves [OF assms, of env x] by (auto simp: moves_desk_def)
  then have "in_store (sn_db (session_step env s x)) d" if "in_store (sn_db s) d" for d
    using in_store_mono that by (auto simp: tracked_def)
  with t assms show ?thesis
    unfolding sn_ok_def by (auto simp: tracked_def dest: step_flight)
qed

interpretation session_store: op_machine "session_step env" sn_ok for env
  by unfold_locales (rule session_step_ok)

text \<open>A store with accounts and no session yet.\<close>

definition no_sessions :: "auth_db \<Rightarrow> bool" where
  "no_sessions db \<longleftrightarrow> refresh_tokens db = [] \<and> unique_key ac_id (accounts db)"

definition session_start :: "auth_db \<Rightarrow> session_world" where
  "session_start db = \<lparr>sn_db = db, sn_flight = []\<rparr>"

lemma start_ok: "no_sessions db \<Longrightarrow> sn_ok (session_start db)"
  by (simp add: sn_ok_def one_desk_def no_sessions_def session_start_def keys_ok_def unique_key_def)

definition sessions_after :: "auth_env \<Rightarrow> auth_db \<Rightarrow> (instant \<times> session_op) list \<Rightarrow> session_world" where
  "sessions_after env db xs = foldl (session_step env) (session_start db) xs"

lemma session_run_ok: "no_sessions db \<Longrightarrow> sn_ok (sessions_after env db xs)"
  unfolding sessions_after_def by (rule session_store.run_inv [OF start_ok])

text \<open>
  C2: The session store implements the desks: whatever has run, every step of a request changes the desk
  of one account exactly as its event says (a session opened, rotated or ended, a workspace or every
  session ended), and leaves every other desk alone.
\<close>

theorem store_refines_desks:
  assumes "no_sessions db"
  shows "desk_of (sn_db (session_step env (sessions_after env db xs) x)) u
    = desk_after (session_event env (sessions_after env db xs) x) u (desk_of (sn_db (sessions_after env db xs)) u)"
  using step_moves [OF session_run_ok [OF assms, of env xs], of env x]
  by (auto simp: moves_desk_def tracked_def)

text \<open>
  C14: However sign-ins, rotations and sign-outs interleave, the sessions of an account that can still be
  renewed are all in one workspace, and it is the one the account claims, if it claims one.
\<close>

theorem one_live_workspace:
  assumes "no_sessions db"
    and "r \<in> set (refresh_tokens (sn_db (sessions_after env db xs)))" "live_of u r"
    and "r' \<in> set (refresh_tokens (sn_db (sessions_after env db xs)))" "live_of u r'"
  shows "rt_tenantId r = rt_tenantId r'
    \<and> (claim_of u (sn_db (sessions_after env db xs)) \<in> {None, Some (rt_tenantId r)})"
proof -
  have "one_desk (sn_db (sessions_after env db xs))"
    using session_run_ok [OF assms(1)] by (simp add: sn_ok_def)
  from one_deskD [OF this] obtain t where
    "\<forall>r\<in>set (filter (live_of u) (refresh_tokens (sn_db (sessions_after env db xs)))). rt_tenantId r = t"
    "claim_of u (sn_db (sessions_after env db xs)) = None
     \<or> claim_of u (sn_db (sessions_after env db xs)) = Some t
     \<or> filter (live_of u) (refresh_tokens (sn_db (sessions_after env db xs))) = []" .
  with assms(2-5) show ?thesis by (auto simp: filter_empty_conv)
qed

subsection \<open>A token opens one session\<close>

fun rotates :: "auth_env \<Rightarrow> uuid \<Rightarrow> session_world \<Rightarrow> instant \<times> session_op \<Rightarrow> bool" where
  "rotates env k s (now, S_rotate n ids ctx) =
     (n < length (sn_flight s)
      \<and> (case sn_flight s ! n of
           Rotate r st sc sid \<Rightarrow> rt_id r = k \<and> \<not> isl (fst (rotate_session env ids ctx now (sn_flight s ! n) (sn_db s)))
         | _ \<Rightarrow> False))"
| "rotates env k s x = False"

definition token_spent :: "uuid \<Rightarrow> session_world \<Rightarrow> bool" where
  "token_spent k s \<longleftrightarrow> list_ex (\<lambda>r. rt_id r = k \<and> rt_revokedAt r \<noteq> None) (refresh_tokens (sn_db s))"

lemma rotatesE:
  assumes "rotates env k s x"
  obtains now n ids ctx r st sc sid se where "x = (now, S_rotate n ids ctx)" "n < length (sn_flight s)"
    "sn_flight s ! n = Rotate r st sc sid" "rt_id r = k"
    "fst (rotate_session env ids ctx now (Rotate r st sc sid) (sn_db s)) = Inr se"
proof -
  obtain now op where x: "x = (now, op)" by (cases x)
  from assms obtain n ids ctx where op: "op = S_rotate n ids ctx" unfolding x by (cases op) auto
  from assms obtain r st sc sid where d: "n < length (sn_flight s)" "sn_flight s ! n = Rotate r st sc sid" "rt_id r = k"
    "\<not> isl (fst (rotate_session env ids ctx now (Rotate r st sc sid) (sn_db s)))"
    unfolding x op by (auto split: refresh_decision.splits)
  then obtain se where "fst (rotate_session env ids ctx now (Rotate r st sc sid) (sn_db s)) = Inr se"
    by (cases "fst (rotate_session env ids ctx now (Rotate r st sc sid) (sn_db s))") auto
  with d that x op show ?thesis by blast
qed

interpretation refresh_once: single_use "session_step env" sn_ok "rotates env" token_spent for env
proof unfold_locales
  fix env k s x
  assume ok: "sn_ok s" and use: "rotates env k s x"
  from use obtain now n ids ctx r st sc sid se where x: "x = (now, S_rotate n ids ctx)" "n < length (sn_flight s)"
    "sn_flight s ! n = Rotate r st sc sid" "rt_id r = k"
    and a: "fst (rotate_session env ids ctx now (Rotate r st sc sid) (sn_db s)) = Inr se" by (rule rotatesE)
  obtain db' where one: "count_where (\<lambda>x. rt_id x = k \<and> rt_revokedAt x = None) (refresh_tokens (sn_db s)) = 1"
    and i: "issueSession env ids st sc (Some sid) ctx now (revoke_tokens (\<lambda>x. rt_id x = k) now (sn_db s)) = (Inr se, db')"
    and fin: "refresh_tokens (snd (rotate_session env ids ctx now (Rotate r st sc sid) (sn_db s))) = refresh_tokens db'"
    by (rule rotate_Rotate [OF a]) (simp only: x(4))
  from one have "count_where (\<lambda>x. rt_id x = k \<and> rt_revokedAt x = None) (refresh_tokens (sn_db s)) \<noteq> 0" by simp
  then obtain y where y: "y \<in> set (refresh_tokens (sn_db s))" "rt_id y = k" "rt_revokedAt y = None"
    unfolding count_where_0_iff by blast
  have "rt_revokedAt z = None" if "z \<in> set (refresh_tokens (sn_db s))" "rt_id z = k" for z
  proof -
    have "unique_key rt_id (refresh_tokens (sn_db s))" using ok by (simp add: sn_ok_def one_desk_def keys_ok_def)
    from unique_keyD [OF this that(1) y(1)] y that show ?thesis by simp
  qed
  then show "\<not> token_spent k s" by (auto simp: token_spent_def list_ex_iff)
  obtain P new where rows: "refresh_tokens db'
      = revoke_rows P now (revoke_rows (\<lambda>x. rt_id x = k) now (refresh_tokens (sn_db s)) @ [new])"
    using issue_Inr(1) [OF i] by auto
  have "y\<lparr>rt_revokedAt := Some now\<rparr> \<in> set (revoke_rows (\<lambda>x. rt_id x = k) now (refresh_tokens (sn_db s)))"
    using y by (auto simp: revoke_rows_def table_simps)
  then obtain z where "z \<in> set (refresh_tokens db')" "rt_id z = k" "rt_revokedAt z \<noteq> None"
    unfolding rows using revoked_stays [of "y\<lparr>rt_revokedAt := Some now\<rparr>"
        "revoke_rows (\<lambda>x. rt_id x = k) now (refresh_tokens (sn_db s)) @ [new]" P now] y(2) by auto
  with x fin show "token_spent k (session_step env s x)" by (auto simp: token_spent_def list_ex_iff)
next
  fix env k s x
  assume "sn_ok s" and spent: "token_spent k s"
  then obtain u f where "tracked (sn_db s) u f (sn_db (session_step env s x))"
    using step_moves [of s env x] by (auto simp: moves_desk_def)
  with spent show "token_spent k (session_step env s x)"
    by (auto simp: tracked_def token_spent_def list_ex_iff)
qed

text \<open>
  C3: A refresh token is exchanged for a new session at most once, whatever requests present it and in
  whatever order their reading and committing halves interleave.
\<close>

theorem refresh_token_single_use:
  assumes "no_sessions db"
  shows "count_uses (session_step env) (rotates env) k (session_start db) xs \<le> 1"
  by (rule refresh_once.spends_at_most_once [OF start_ok [OF assms]])

subsection \<open>Access tokens\<close>

lemma tenant_context_cong:
  assumes "seats db' = seats db" "workspaces db' = workspaces db" "sign_in_mailboxes db' = sign_in_mailboxes db"
    and "map_option (\<lambda>a. (ac_status a, ac_activeTenantId a)) (account_of (au_sub c) db')
      = map_option (\<lambda>a. (ac_status a, ac_activeTenantId a)) (account_of (au_sub c) db)"
  shows "tenantContext (Some c) db' = tenantContext (Some c) db"
proof (cases "find_row (\<lambda>m. tm_id m = au_membershipId c \<and> tm_tenantId m = au_tenantId c
    \<and> tm_userId m = au_sub c \<and> tm_status m = MS_ACTIVE) (seats db)")
  case None
  with assms(1) show ?thesis by (simp add: tenantContext_def)
next
  case (Some m)
  then have u: "tm_userId m = au_sub c" by (auto dest: find_row_SomeD)
  show ?thesis
  proof (cases "account_of (au_sub c) db")
    case None
    with assms(4) have "account_of (au_sub c) db' = None" by simp
    with None Some assms(1) u show ?thesis
      by (simp add: tenantContext_def with_relations_def split: option.splits)
  next
    case a: (Some a)
    with assms(4) obtain a' where "account_of (au_sub c) db' = Some a'" "ac_status a' = ac_status a"
      "ac_activeTenantId a' = ac_activeTenantId a" by (cases "account_of (au_sub c) db'") auto
    moreover have "mailboxWorkspacesFor i db' = mailboxWorkspacesFor i db"
        "workspace_of i db' = workspace_of i db" for i
      using assms(2,3) by (simp_all add: mailboxWorkspacesFor_def workspace_of_def)
    ultimately show ?thesis using a Some assms(1) u
      by (cases "workspace_of (tm_tenantId m) db")
        (simp_all add: tenantContext_def with_relations_def Let_def split: option.split)
  qed
qed

lemma tenant_context_InrE:
  assumes "tenantContext (Some c) db = Inr s"
  obtains m w a scope where "m \<in> set (seats db)" "tm_id m = au_membershipId c" "tm_tenantId m = au_tenantId c"
    "tm_userId m = au_sub c" "tm_status m = MS_ACTIVE" "workspace_of (au_tenantId c) db = Some w" "ws_status w = TN_ACTIVE"
    "account_of (au_sub c) db = Some a" "ac_status a = US_ACTIVE" "ac_activeTenantId a = Some (au_tenantId c)"
    "au_workspace c = Some scope" "actingRole (tm_role m) scope = Some (tc_role s)"
    "consoleAuthorized (tm_role m) scope (mailboxWorkspacesFor (tm_id m) db)"
    "tc_tenantId s = au_tenantId c" "tc_userId s = au_sub c" "tc_membershipId s = tm_id m"
    "tc_membershipRole s = tm_role m" "tc_workspace s = scope" "tc_sessionId s = au_sessionId c"
proof -
  obtain m where m: "find_row (\<lambda>m. tm_id m = au_membershipId c \<and> tm_tenantId m = au_tenantId c
      \<and> tm_userId m = au_sub c \<and> tm_status m = MS_ACTIVE) (seats db) = Some m"
    using assms by (auto simp: tenantContext_def bind_eq_Some_conv split: option.splits)
  then have row: "tm_id m = au_membershipId c" "tm_tenantId m = au_tenantId c" "tm_userId m = au_sub c"
    "tm_status m = MS_ACTIVE" "m \<in> set (seats db)" by (auto dest: find_row_SomeD)
  obtain w a where wa: "workspace_of (au_tenantId c) db = Some w" "account_of (au_sub c) db = Some a"
    using assms m row by (auto simp: tenantContext_def with_relations_def split: option.splits)
  with assms m row that show ?thesis
    by (auto simp: tenantContext_def with_relations_def Let_def split: if_splits option.splits)
qed

text \<open>
  Presenting a stolen (revoked) refresh token and changing the password both revoke refresh tokens,
  but neither gives up the claim of the workspace: every access token of the account is accepted
  afterwards exactly as before, until it expires.
\<close>

theorem access_survives_revocation:
  "tenantContext (Some c) (snd (handleRefreshTokenReuse env al r ctx now db)) = tenantContext (Some c) db
   \<and> tenantContext (Some c) (snd (changePassword env al old new u t ctx now db)) = tenantContext (Some c) db"
proof
  show "tenantContext (Some c) (snd (handleRefreshTokenReuse env al r ctx now db)) = tenantContext (Some c) db"
    by (rule tenant_context_cong) (simp_all add: handleRefreshTokenReuse_def Let_def account_of_def)
  show "tenantContext (Some c) (snd (changePassword env al old new u t ctx now db)) = tenantContext (Some c) db"
  proof (rule tenant_context_cong)
    show "map_option (\<lambda>a. (ac_status a, ac_activeTenantId a))
        (account_of (au_sub c) (snd (changePassword env al old new u t ctx now db)))
      = map_option (\<lambda>a. (ac_status a, ac_activeTenantId a)) (account_of (au_sub c) db)"
      by (cases "account_of (au_sub c) db")
        (auto simp: changePassword_def Let_def account_of_def set_account_def find_row_update_key split: option.splits)
  qed (auto simp: changePassword_def Let_def split: option.splits)
qed

lemma refresh_Inr:
  assumes "refresh env ids token ctx now db = (Inr se, db')"
  shows "\<exists>s sc sid (r::refresh_token) db1. issueSession env ids s sc (Some sid) ctx now (revoke_tokens (\<lambda>x. rt_id x = rt_id r) now db) = (Inr se, db1)
    \<and> accounts db' = accounts db1 \<and> seats db' = seats db \<and> workspaces db' = workspaces db
    \<and> sign_in_mailboxes db' = sign_in_mailboxes db"
proof (cases "refresh_decide env token now db")
  case (Rotate r s sc sid)
  let ?i = "issueSession env ids s sc (Some sid) ctx now (revoke_tokens (\<lambda>x. rt_id x = rt_id r) now db)"
  from assms Rotate obtain db1 where i: "?i = (Inr se, db1)"
    and "accounts db' = accounts db1" "seats db' = seats db1" "workspaces db' = workspaces db1"
      "sign_in_mailboxes db' = sign_in_mailboxes db1"
    by (auto simp: refresh_def refresh_commit_def handleRefreshTokenReuse_def Let_def split: if_splits sum.splits prod.splits)
  moreover from i have "seats db1 = seats db" "workspaces db1 = workspaces db" "sign_in_mailboxes db1 = sign_in_mailboxes db"
    by (auto simp: issueSession_def claimActiveWorkspace_def Let_def split: sum.splits)
  ultimately have "?i = (Inr se, db1) \<and> accounts db' = accounts db1 \<and> seats db' = seats db
      \<and> workspaces db' = workspaces db \<and> sign_in_mailboxes db' = sign_in_mailboxes db"
    by simp
  then show ?thesis by blast
qed (use assms in \<open>auto simp: refresh_def refresh_commit_def handleRefreshTokenReuse_def Let_def\<close>)

lemma logout_Inr:
  assumes "logout env token ctx now db = (Inr (), db')"
    and "stored_token (ae_tokens env) token db = Some r" "rt_revokedAt r = None"
  shows "accounts db' = update_where (\<lambda>a. ac_id a = rt_userId r \<and> ac_activeTenantId a = Some (rt_tenantId r))
      (\<lambda>a. a\<lparr>ac_activeTenantId := None\<rparr>) (accounts db)"
    "seats db' = seats db" "workspaces db' = workspaces db" "sign_in_mailboxes db' = sign_in_mailboxes db"
  using assms by (auto simp: logout_def releaseActiveWorkspace_def split: jwt_outcome.splits if_splits)

text \<open>
  A session that signs out has its access token refused on the next request; but when another session
  of the account in the same workspace is then renewed, the claim is taken again and the signed-out token
  is accepted as before.
\<close>

theorem signed_out_session_revives:
  assumes acc: "tenantContext (Some c) db = Inr s"
    and out: "logout env tokA ctx now db = (Inr (), db1)"
    and A: "stored_token (ae_tokens env) tokA db = Some rA" "rt_revokedAt rA = None"
      "rt_userId rA = au_sub c" "rt_tenantId rA = au_tenantId c"
    and renewed: "refresh env ids tokB ctx' now' db1 = (Inr se, db2)"
      "se_userId se = au_sub c" "se_tenantId se = au_tenantId c"
  shows "tenantContext (Some c) db1 = fail_with 401 SESSION_SUPERSEDED \<and> tenantContext (Some c) db2 = Inr s"
proof
  obtain m w a where m: "find_row (\<lambda>m. tm_id m = au_membershipId c \<and> tm_tenantId m = au_tenantId c
      \<and> tm_userId m = au_sub c \<and> tm_status m = MS_ACTIVE) (seats db) = Some m"
    and w: "workspace_of (au_tenantId c) db = Some w" "ws_status w = TN_ACTIVE"
    and a: "account_of (au_sub c) db = Some a" "ac_status a = US_ACTIVE" "ac_activeTenantId a = Some (au_tenantId c)"
    by (rule tenant_context_InrE [OF acc]) (use acc in \<open>auto simp: tenantContext_def bind_eq_Some_conv split: option.splits\<close>)
  have row: "tm_tenantId m = au_tenantId c" "tm_userId m = au_sub c" using m by (auto dest: find_row_SomeD)
  note db1 = logout_Inr [OF out A(1,2)]
  have a1: "account_of (au_sub c) db1 = Some (a\<lparr>ac_activeTenantId := None\<rparr>)"
    using a A unfolding account_of_def db1 by (simp add: find_accounts)
  show "tenantContext (Some c) db1 = fail_with 401 SESSION_SUPERSEDED"
    using m w a a1 row by (simp add: tenantContext_def with_relations_def workspace_of_def db1 Let_def)
  obtain st sc sid and r :: refresh_token and db' where i: "issueSession env ids st sc (Some sid) ctx' now'
      (revoke_tokens (\<lambda>x. rt_id x = rt_id r) now' db1) = (Inr se, db')"
    and db2: "accounts db2 = accounts db'" "seats db2 = seats db1" "workspaces db2 = workspaces db1"
      "sign_in_mailboxes db2 = sign_in_mailboxes db1"
    using refresh_Inr [OF renewed(1)] by blast
  have who: "tm_userId (st_membership st) = au_sub c" "tm_tenantId (st_membership st) = au_tenantId c"
    using i renewed(2,3) by (auto simp: issueSession_def Let_def split: sum.splits)
  have "accounts db' = update_where (\<lambda>x. ac_id x = au_sub c) (\<lambda>x. x\<lparr>ac_activeTenantId := Some (au_tenantId c)\<rparr>) (accounts db1)"
    using i who by (auto simp: issueSession_def claimActiveWorkspace_def set_account_def Let_def split: sum.splits)
  then have "account_of (au_sub c) db2 = Some (a\<lparr>ac_activeTenantId := Some (au_tenantId c)\<rparr>)"
    using a1 unfolding account_of_def db2 by (simp add: find_row_update_key)
  then have "map_option (\<lambda>a. (ac_status a, ac_activeTenantId a)) (account_of (au_sub c) db2)
      = map_option (\<lambda>a. (ac_status a, ac_activeTenantId a)) (account_of (au_sub c) db)"
    using a by simp
  with acc show "tenantContext (Some c) db2 = Inr s"
    using tenant_context_cong [of db2 db c] db1 db2 by simp
qed

subsection \<open>Two sessions of one account\<close>

text \<open>
  A library that renders a refresh token as its identifier and verifies the three identifiers used here.
\<close>

definition demo_ids :: "string \<Rightarrow> fresh_ids" where
  "demo_ids k = \<lparr>fi_jti = ''j'' @ k, fi_row = ''r'' @ k, fi_challenge = ''c'' @ k, fi_alert = ''a'' @ k\<rparr>"

definition demo_refresh :: "string \<Rightarrow> json" where
  "demo_refresh jti = signed_payload (Refresh_Token ''u'' ''t'' ''m'' MEMBER MEMBER jti jti) 0 604800"

definition demo_tokens :: token_env where
  "demo_tokens = demo_token_env
     \<lparr>jwt_sign := (\<lambda>k p d n. case str_prop p ''jti'' of Some j \<Rightarrow> j | None \<Rightarrow> ''access''),
      jwt_verify := (\<lambda>k t n. if t \<in> {''j1'', ''j2'', ''j3''} then Verified (demo_refresh t) else Token_Malformed)\<rparr>"

definition demo_auth :: auth_env where
  "demo_auth = \<lparr>ae_tokens = demo_tokens, ae_mfa = demo_mfa_env\<rparr>"

definition demo_who :: request_context where
  "demo_who = \<lparr>rq_requestId = None, rq_ipAddress = None, rq_userAgent = Some ''Firefox''\<rparr>"

definition demo_account :: account where
  "demo_account = \<lparr>ac_id = ''u'', ac_email = ''e'', ac_passwordHash = Some ''h'', ac_status = US_ACTIVE,
     ac_emailVerifiedAt = Some 0, ac_platformRole = PR_NONE, ac_activeTenantId = None, ac_mfaSecret = None,
     ac_mfaEnrolledAt = None, ac_mfaLastUsedStep = None\<rparr>"

definition demo_store :: auth_db where
  "demo_store = \<lparr>security_alerts = [], alert_log = [], accounts = [demo_account],
     workspaces = [\<lparr>ws_id = ''t'', ws_status = TN_ACTIVE\<rparr>],
     seats = [\<lparr>tm_id = ''m'', tm_tenantId = ''t'', tm_userId = ''u'', tm_role = MEMBER, tm_status = MS_ACTIVE,
        tm_inviteToken = None, tm_inviteExpiresAt = None\<rparr>],
     sign_in_mailboxes = [], refresh_tokens = [], used_selections = [], au_recovery_codes = [], identities = []\<rparr>"

lemma demo_store_ok: "no_sessions demo_store"
  by (simp add: no_sessions_def demo_store_def unique_key_def)

definition demo_sign_ins :: "(instant \<times> session_op) list" where
  "demo_sign_ins = [(0, S_sign_in (demo_ids ''1'') ''u'' ''t'' MEMBER demo_who),
                    (1, S_sign_in (demo_ids ''2'') ''u'' ''t'' MEMBER demo_who)]"

definition demo_race_rotations :: "(instant \<times> session_op) list" where
  "demo_race_rotations = demo_sign_ins @ [(2, S_present ''j1''), (3, S_present ''j1''),
     (4, S_rotate 0 (demo_ids ''3'') demo_who), (5, S_rotate 0 (demo_ids ''4'') demo_who)]"

theorem store_refines_desks_witness:
  "desk_of (sn_db (session_step demo_auth (sessions_after demo_auth demo_store demo_sign_ins) (9, S_logout ''j1'' demo_who))) ''u''
     = desk_step (Session_Ended ''t'' ''r1'') (Desk (Some ''t'') (Some (''t'', {''r1'', ''r2''})))"
proof -
  let ?s = "sessions_after demo_auth demo_store demo_sign_ins"
  have d: "desk_of (sn_db ?s) ''u'' = Desk (Some ''t'') (Some (''t'', {''r1'', ''r2''}))" by code_simp
  have e: "session_event demo_auth ?s (9, S_logout ''j1'' demo_who) = Some (''u'', Session_Ended ''t'' ''r1'')" by code_simp
  show ?thesis
    using store_refines_desks [OF demo_store_ok, of demo_auth demo_sign_ins "(9, S_logout ''j1'' demo_who)" "''u''"]
    unfolding d e by (simp add: desk_after_def del: desk_step.simps)
qed

theorem one_live_workspace_witness:
  "let db = sn_db (sessions_after demo_auth demo_store demo_sign_ins); r = refresh_tokens db ! 0; r' = refresh_tokens db ! 1
   in live_of ''u'' r \<and> live_of ''u'' r' \<and> rt_tenantId r = rt_tenantId r' \<and> claim_of ''u'' db \<in> {None, Some (rt_tenantId r)}"
proof -
  let ?db = "sn_db (sessions_after demo_auth demo_store demo_sign_ins)"
  have n: "length (refresh_tokens ?db) = 2" by code_simp
  have l: "live_of ''u'' (refresh_tokens ?db ! 0)" "live_of ''u'' (refresh_tokens ?db ! 1)" by code_simp+
  from one_live_workspace [OF demo_store_ok nth_mem l(1) nth_mem l(2)] n l show ?thesis by (auto simp: Let_def)
qed

theorem refresh_token_single_use_witness:
  "count_uses (session_step demo_auth) (rotates demo_auth) ''r1'' (session_start demo_store) demo_race_rotations = 1
   \<and> count_uses (session_step demo_auth) (rotates demo_auth) ''r1'' (session_start demo_store) demo_race_rotations \<le> 1"
proof
  show "count_uses (session_step demo_auth) (rotates demo_auth) ''r1'' (session_start demo_store) demo_race_rotations = 1"
    by code_simp
  show "count_uses (session_step demo_auth) (rotates demo_auth) ''r1'' (session_start demo_store) demo_race_rotations \<le> 1"
    by (rule refresh_token_single_use [OF demo_store_ok])
qed

definition demo_bearer :: auth_context where
  "demo_bearer = \<lparr>au_sub = ''u'', au_tenantId = ''t'', au_membershipId = ''m'', au_role = MEMBER,
     au_platformRole = ''NONE'', au_workspace = Some MEMBER, au_sessionId = None\<rparr>"

theorem signed_out_session_revives_witness:
  "let db = sn_db (sessions_after demo_auth demo_store demo_sign_ins);
       db1 = snd (logout demo_auth ''j1'' demo_who 5 db);
       db2 = snd (refresh demo_auth (demo_ids ''3'') ''j2'' demo_who 6 db1)
   in tenantContext (Some demo_bearer) db1 = fail_with 401 SESSION_SUPERSEDED
      \<and> tenantContext (Some demo_bearer) db2 = tenantContext (Some demo_bearer) db
      \<and> \<not> isl (tenantContext (Some demo_bearer) db)"
proof -
  let ?db = "sn_db (sessions_after demo_auth demo_store demo_sign_ins)"
  let ?db1 = "snd (logout demo_auth ''j1'' demo_who 5 ?db)"
  let ?x = "refresh demo_auth (demo_ids ''3'') ''j2'' demo_who 6 ?db1"
  have acc: "\<not> isl (tenantContext (Some demo_bearer) ?db)" by code_simp
  then obtain s where s: "tenantContext (Some demo_bearer) ?db = Inr s"
    by (cases "tenantContext (Some demo_bearer) ?db") auto
  have l: "fst (logout demo_auth ''j1'' demo_who 5 ?db) = Inr ()" by code_simp
  then have out: "logout demo_auth ''j1'' demo_who 5 ?db = (Inr (), ?db1)" by (metis prod.collapse)
  let ?r = "the (stored_token (ae_tokens demo_auth) ''j1'' ?db)"
  have r: "stored_token (ae_tokens demo_auth) ''j1'' ?db \<noteq> None" "rt_revokedAt ?r = None"
    "rt_userId ?r = au_sub demo_bearer" "rt_tenantId ?r = au_tenantId demo_bearer" by code_simp+
  then have A: "stored_token (ae_tokens demo_auth) ''j1'' ?db = Some ?r" by simp
  have x: "\<not> isl (fst ?x)" "se_userId (projr (fst ?x)) = au_sub demo_bearer"
    "se_tenantId (projr (fst ?x)) = au_tenantId demo_bearer" by code_simp+
  then have new: "?x = (Inr (projr (fst ?x)), snd ?x)" by (cases "fst ?x") (simp_all add: prod_eq_iff)
  from signed_out_session_revives [OF s out A r(2-4) new x(2,3)] s acc show ?thesis by (simp add: Let_def)
qed

end
