(* ===== verification/Sign_In.thy ===== *)
theory Sign_In
  imports Session_Safety
begin

section \<open>Signing in\<close>

text \<open>
  The sign-in half of \<open>modules/auth/auth.service.ts\<close>: the password and the Google path, the guard chain
  every one of them ends in, the choice of a workspace, the acceptance of an invitation, and the second
  factor that stands between a proven password and a privileged console.
\<close>

subsection \<open>The second factor's view of the tables\<close>

text \<open>
  \<open>mfa.service.ts\<close> reads and writes some columns of the same tables: \<open>mfa_view\<close> is what it sees,
  \<open>mfa_back\<close> puts back what it wrote.
\<close>

definition mfa_view :: "auth_db \<Rightarrow> mfa_state" where
  "mfa_view db =
     \<lparr>mfa_users = map (\<lambda>a. \<lparr>mu_id = ac_id a, mfaSecret = ac_mfaSecret a, mfaEnrolledAt = ac_mfaEnrolledAt a,
        mfaLastUsedStep = ac_mfaLastUsedStep a, mu_platformRole = ac_platformRole a\<rparr>) (accounts db),
      recovery_codes = au_recovery_codes db,
      mfa_memberships = map (\<lambda>m. \<lparr>mm_userId = tm_userId m, mm_tenantId = tm_tenantId m, mm_role = tm_role m,
        mm_status = tm_status m\<rparr>) (seats db),
      systemTenant = (workspace_of SYSTEM_TENANT_ID db \<noteq> None), mfa_log = alert_log db\<rparr>"

definition mfa_back :: "mfa_state \<Rightarrow> auth_db \<Rightarrow> auth_db" where
  "mfa_back st db =
     (if systemTenant st then ensureSystemTenant else id)
       (db\<lparr>accounts := map (\<lambda>a. case mfa_user_of (ac_id a) st of
              None \<Rightarrow> a
            | Some m \<Rightarrow> a\<lparr>ac_mfaSecret := mfaSecret m, ac_mfaEnrolledAt := mfaEnrolledAt m,
                           ac_mfaLastUsedStep := mfaLastUsedStep m\<rparr>) (accounts db),
           au_recovery_codes := recovery_codes st, alert_log := mfa_log st\<rparr>)"

definition with_mfa :: "(mfa_state \<Rightarrow> 'r \<times> mfa_state) \<Rightarrow> auth_db \<Rightarrow> 'r \<times> auth_db" where
  "with_mfa f db = (let (r, st) = f (mfa_view db) in (r, mfa_back st db))"

definition actor_of :: "request_context \<Rightarrow> actor_context" where
  "actor_of ctx = \<lparr>ax_requestId = rq_requestId ctx, ax_ipAddress = rq_ipAddress ctx, ax_userAgent = rq_userAgent ctx\<rparr>"

subsection \<open>Answers\<close>

record workspace_option =
  wo_id :: uuid
  wo_role :: membership_role
  wo_membershipId :: uuid
  wo_membershipStatus :: membership_status
  wo_tenantStatus :: tenant_status
  wo_selectable :: bool

definition toWorkspaceOption :: "seat \<Rightarrow> workspace_option" where
  "toWorkspaceOption s =
     \<lparr>wo_id = ws_id (st_workspace s), wo_role = tm_role (st_membership s), wo_membershipId = tm_id (st_membership s),
      wo_membershipStatus = tm_status (st_membership s), wo_tenantStatus = ws_status (st_workspace s),
      wo_selectable = (tm_status (st_membership s) = MS_ACTIVE \<and> ws_status (st_workspace s) = TN_ACTIVE)\<rparr>"

datatype auth_state =
    Signed_In session
  | Workspace_Selection "workspace_option list" string
  | No_Workspace string
  | Email_Verification_Required string
  | Account_Suspended
  | Account_Disabled
  | Invitation_Pending "workspace_option list" string
  | Membership_Suspended workspace_option
  | Workspace_Suspended workspace_option
  | Workspace_Deleting workspace_option
  | Mfa_Required "workspace_option option" string nat
  | Mfa_Enrollment_Required "workspace_option option" string
  | Staff_Console platform_role string

type_synonym answer = "auth_state result \<times> auth_db"

subsection \<open>Failed sign-ins\<close>

definition recordLoginFailure ::
  "auth_env \<Rightarrow> uuid \<Rightarrow> uuid option \<Rightarrow> string \<Rightarrow> string \<Rightarrow> request_context \<Rightarrow> instant \<Rightarrow> auth_db \<Rightarrow> auth_db" where
  "recordLoginFailure env alert userId email why ctx now db =
     (let live = (case userId of None \<Rightarrow> None
            | Some u \<Rightarrow> find_row (\<lambda>s. tm_status (st_membership s) = MS_ACTIVE \<and> ws_status (st_workspace s) = TN_ACTIVE)
                (findByUserId u db));
          tenantId = (case live of None \<Rightarrow> SYSTEM_TENANT_ID | Some s \<Rightarrow> tm_tenantId (st_membership s));
          db1 = (if tenantId = SYSTEM_TENANT_ID then ensureSystemTenant db else db);
          db2 = auth_event env tenantId userId ''LOGIN_FAILED'' ''AppUser'' userId
                  (Some (JObj [(''email'', JStr email), (''reason'', JStr why)])) ctx now db1
      in case userId of
           None \<Rightarrow> db2
         | Some u \<Rightarrow> if tenantId \<noteq> SYSTEM_TENANT_ID
             then recordFailedLoginBurst (ae_newId env) alert now tenantId u email ctx db2 else db2)"

subsection \<open>The second factor\<close>

definition role_label :: "membership_role + platform_role \<Rightarrow> string" where
  "role_label r = (case r of Inl m \<Rightarrow> role_name m | Inr p \<Rightarrow> platform_name p)"

definition mfaRequired :: "auth_env \<Rightarrow> mfa_intent \<Rightarrow> membership_role + platform_role \<Rightarrow> bool" where
  "mfaRequired env intent role \<longleftrightarrow>
     (case intent of
        Tenant_Intent t m w \<Rightarrow> w \<noteq> MEMBER \<and> mfaEnforcementEnabled (ae_mfa env)
          \<and> (case role of Inl r \<Rightarrow> roleRequiresMfa r | Inr p \<Rightarrow> False)
      | Platform_Intent p \<Rightarrow> mfaEnforcementEnabled (ae_mfa env))"

definition mfaGate ::
  "auth_env \<Rightarrow> fresh_ids \<Rightarrow> uuid \<Rightarrow> workspace_option option \<Rightarrow> mfa_intent \<Rightarrow> membership_role + platform_role
     \<Rightarrow> request_context \<Rightarrow> instant \<Rightarrow> auth_db \<Rightarrow> auth_state option \<times> auth_db" where
  "mfaGate env ids userId opt intent role ctx now db =
     (if \<not> mfaRequired env intent role then (None, db)
      else let enrolled = isEnrolled userId (mfa_view db);
               challenge = buildMfaChallengeToken (ae_tokens env) (fi_challenge ids) userId intent (\<not> enrolled) now;
               db' = auth_event env (case intent of Tenant_Intent t m w \<Rightarrow> t | Platform_Intent p \<Rightarrow> SYSTEM_TENANT_ID)
                       (Some userId) (if enrolled then ''MFA_CHALLENGE_ISSUED'' else ''MFA_ENROLMENT_REQUIRED'')
                       ''AppUser'' (Some userId) (Some (JObj [(''role'', JStr (role_label role))])) ctx now
                       (ensureSystemTenant db)
        in if \<not> enrolled then (Some (Mfa_Enrollment_Required opt challenge), db')
           else (Some (Mfa_Required opt challenge (length (unused_codes userId (mfa_view db')))), db'))"

subsection \<open>Opening a workspace\<close>

definition new_device ::
  "auth_env \<Rightarrow> fresh_ids \<Rightarrow> seat \<Rightarrow> request_context \<Rightarrow> instant \<Rightarrow> auth_db \<Rightarrow> auth_db" where
  "new_device env ids s ctx now db =
     (let m = st_membership s
      in recordNewDeviceLogin (ae_newId env) (fi_alert ids) now (tm_tenantId m) (tm_userId m)
           (map rt_userAgent (filter (\<lambda>r. rt_tenantId r = tm_tenantId m \<and> rt_userId r = tm_userId m) (refresh_tokens db)))
           (Some (labelForUserAgent (rq_userAgent ctx))) ctx db)"

definition login_success ::
  "auth_env \<Rightarrow> uuid \<Rightarrow> uuid \<Rightarrow> json option \<Rightarrow> request_context \<Rightarrow> instant \<Rightarrow> auth_db \<Rightarrow> auth_db" where
  "login_success env tenantId userId md ctx now db =
     auth_event env tenantId (Some userId) ''LOGIN_SUCCESS'' ''AppUser'' (Some userId) md ctx now db"

text \<open>Device check, session, event: the end of every path that signs in.\<close>

definition open_seat ::
  "auth_env \<Rightarrow> fresh_ids \<Rightarrow> seat \<Rightarrow> workspace_scope \<Rightarrow> json option option \<Rightarrow> request_context \<Rightarrow> instant \<Rightarrow> auth_db \<Rightarrow> answer" where
  "open_seat env ids s scope md ctx now db =
     (case issueSession env ids s scope None ctx now (new_device env ids s ctx now db) of
        (Inl e, db') \<Rightarrow> (Inl e, db')
      | (Inr se, db') \<Rightarrow>
          (Inr (Signed_In se),
           case md of None \<Rightarrow> db'
           | Some x \<Rightarrow> login_success env (tm_tenantId (st_membership s)) (tm_userId (st_membership s)) x ctx now db'))"

definition resolveSelectedWorkspace ::
  "auth_env \<Rightarrow> fresh_ids \<Rightarrow> uuid \<Rightarrow> seat \<Rightarrow> workspace_scope option \<Rightarrow> request_context \<Rightarrow> instant \<Rightarrow> auth_db \<Rightarrow> answer" where
  "resolveSelectedWorkspace env ids userId s intended ctx now db =
     (let opt = toWorkspaceOption s;
          m = st_membership s;
          scope = sessionWorkspaceFor m intended db;
          pending = buildPendingToken (ae_tokens env) userId now
      in if ws_status (st_workspace s) = TN_DELETED_PENDING then (Inr (Workspace_Deleting opt), db)
         else if ws_status (st_workspace s) = TN_SUSPENDED then (Inr (Workspace_Suspended opt), db)
         else if tm_status m = MS_INVITED then (Inr (Invitation_Pending [opt] pending), db)
         else if tm_status m = MS_SUSPENDED then (Inr (Membership_Suspended opt), db)
         else if tm_status m = MS_REMOVED then (Inr (No_Workspace pending), db)
         else (case mfaGate env ids userId (Some opt) (Tenant_Intent (tm_tenantId m) (tm_id m) scope)
                      (Inl (tm_role m)) ctx now db of
                 (Some gate, db') \<Rightarrow> (Inr gate, db')
               | (None, db') \<Rightarrow> open_seat env ids s scope (Some None) ctx now db'))"

definition resolveAuthState ::
  "auth_env \<Rightarrow> fresh_ids \<Rightarrow> account \<Rightarrow> uuid option \<Rightarrow> request_context \<Rightarrow> workspace_scope option \<Rightarrow> instant \<Rightarrow> auth_db \<Rightarrow> answer" where
  "resolveAuthState env ids user selectedTenantId ctx intended now db =
     (let u = ac_id user;
          pending = buildPendingToken (ae_tokens env) u now;
          selection = buildSelectionToken (ae_tokens env) (fi_challenge ids) u intended now
      in if ac_status user = US_PENDING_VERIFICATION then (Inr (Email_Verification_Required pending), db)
         else if ac_status user = US_SUSPENDED
           then (Inr Account_Suspended, recordLoginFailure env (fi_alert ids) (Some u) (ac_email user) ''account_suspended'' ctx now db)
         else if ac_status user = US_DISABLED
           then (Inr Account_Disabled, recordLoginFailure env (fi_alert ids) (Some u) (ac_email user) ''account_disabled'' ctx now db)
         else if ac_platformRole user \<noteq> PR_NONE
           then (case mfaGate env ids u None (Platform_Intent (ac_platformRole user)) (Inr (ac_platformRole user)) ctx now db of
                   (Some gate, db') \<Rightarrow> (Inr gate, db')
                 | (None, db') \<Rightarrow>
                     (Inr (Staff_Console (ac_platformRole user) (buildPlatformToken (ae_tokens env) u (ac_platformRole user) now)),
                      login_success env SYSTEM_TENANT_ID u
                        (Some (JObj [(''platformRole'', JStr (platform_name (ac_platformRole user)))])) ctx now
                        (ensureSystemTenant db')))
         else let nonRemoved = filter (\<lambda>s. tm_status (st_membership s) \<noteq> MS_REMOVED) (findByUserId u db);
                  invited = filter (\<lambda>s. tm_status (st_membership s) = MS_INVITED) nonRemoved
           in if nonRemoved = []
              then (if invited \<noteq> [] then (Inr (Invitation_Pending (map toWorkspaceOption invited) pending), db)
                    else (Inr (No_Workspace pending), db))
              else if truthy selectedTenantId
                then (case find_row (\<lambda>s. Some (tm_tenantId (st_membership s)) = selectedTenantId) nonRemoved of
                        None \<Rightarrow> (Inr (Workspace_Selection (map toWorkspaceOption nonRemoved) selection), db)
                      | Some s \<Rightarrow> resolveSelectedWorkspace env ids u s intended ctx now db)
              else if length nonRemoved = 1
                then resolveSelectedWorkspace env ids u (nonRemoved ! 0) intended ctx now db
              else (Inr (Workspace_Selection (map toWorkspaceOption nonRemoved) selection), db))"

subsection \<open>By password\<close>

definition lower :: "string \<Rightarrow> string" where
  "lower s = map lower_char s"

definition findByEmail :: "string \<Rightarrow> auth_db \<Rightarrow> account option" where
  "findByEmail email db = find_row (\<lambda>a. ac_email a = lower email) (accounts db)"

text \<open>The owner of a mailbox, when its membership is not removed.\<close>

definition mailbox_owner :: "sign_in_mailbox \<Rightarrow> auth_db \<Rightarrow> uuid option" where
  "mailbox_owner b db =
     Option.bind (bx_membershipId b)
       (\<lambda>i. map_option tm_userId (find_row (\<lambda>m. tm_id m = i \<and> tm_status m \<noteq> MS_REMOVED) (seats db)))"

definition findSignInAccount :: "string \<Rightarrow> auth_db \<Rightarrow> (account \<times> uuid option) option" where
  "findSignInAccount identifier db =
     (case findByEmail identifier db of
        Some a \<Rightarrow> Some (a, None)
      | None \<Rightarrow>
          let boxes = filter (\<lambda>b. lower (bx_address b) = lower identifier \<and> mailbox_owner b db \<noteq> None)
                        (sign_in_mailboxes db);
              owners = remdups (map (\<lambda>b. the (mailbox_owner b db)) boxes)
          in case owners of
               [u] \<Rightarrow> map_option (\<lambda>a. (a, if length boxes = 1 then Some (bx_tenantId (hd boxes)) else None))
                        (account_of u db)
             | _ \<Rightarrow> None)"

record login_input =
  li_email :: string
  li_password :: string
  li_tenantId :: "uuid option"
  li_workspace :: "workspace_scope option"

definition login ::
  "auth_env \<Rightarrow> fresh_ids \<Rightarrow> login_input \<Rightarrow> request_context \<Rightarrow> instant \<Rightarrow> auth_db \<Rightarrow> answer" where
  "login env ids x ctx now db =
     (let fail = (\<lambda>u why. (fail_with 401 UNAUTHORIZED,
                     recordLoginFailure env (fi_alert ids) u (li_email x) why ctx now db))
      in case findSignInAccount (li_email x) db of
           None \<Rightarrow> fail None ''unknown_email''
         | Some (a, boxTenant) \<Rightarrow>
             if \<not> truthy (ac_passwordHash a) then fail (Some (ac_id a)) ''password_login_unavailable''
             else if \<not> verifyPassword (e_bcompare (ae_mfa env)) (li_password x) (ac_passwordHash a)
               then fail (Some (ac_id a)) ''invalid_password''
             else resolveAuthState env ids a
                    (case li_tenantId x of None \<Rightarrow> boxTenant | Some t \<Rightarrow> Some t) ctx (li_workspace x) now db)"

subsection \<open>By Google\<close>

text \<open>What the library reads from a credential it verified, and the configuration.\<close>

record google_claims =
  gc_sub :: "string option"
  gc_email :: "string option"
  gc_emailVerified :: bool
  gc_hd :: "string option"

record google_env =
  GOOGLE_CLIENT_ID :: "string option"
  GOOGLE_ALLOWED_HD :: "string option"
  verifyIdToken :: "string \<Rightarrow> google_claims option"

definition verifyGoogleIdToken :: "google_env \<Rightarrow> string \<Rightarrow> (string \<times> string) result" where
  "verifyGoogleIdToken g credential =
     (if \<not> truthy (GOOGLE_CLIENT_ID g) then fail_with 401 TOKEN_INVALID
      else case verifyIdToken g credential of
        None \<Rightarrow> fail_with 401 TOKEN_INVALID
      | Some c \<Rightarrow>
          if \<not> truthy (gc_sub c) \<or> \<not> truthy (gc_email c) then fail_with 401 TOKEN_INVALID
          else if \<not> gc_emailVerified c then fail_with 401 EMAIL_NOT_VERIFIED
          else if truthy (GOOGLE_ALLOWED_HD g) \<and> gc_hd c \<noteq> GOOGLE_ALLOWED_HD g then fail_with 403 FORBIDDEN
          else Inr (the (gc_sub c), lower (the (gc_email c))))"

definition link_identity :: "uuid \<Rightarrow> uuid \<Rightarrow> string \<Rightarrow> string \<Rightarrow> instant \<Rightarrow> auth_db \<Rightarrow> auth_db" where
  "link_identity i userId sub email now db =
     db\<lparr>identities := identities db @
       [\<lparr>ui_id = i, ui_userId = userId, ui_providerUserId = sub, ui_email = email, ui_lastUsedAt = now\<rparr>]\<rparr>"

text \<open>\<open>gids\<close> are the identifiers of a new user and of a new identity.\<close>

definition loginWithGoogle ::
  "auth_env \<Rightarrow> google_env \<Rightarrow> fresh_ids \<Rightarrow> uuid \<times> uuid \<Rightarrow> string \<Rightarrow> request_context \<Rightarrow> instant \<Rightarrow> auth_db \<Rightarrow> answer" where
  "loginWithGoogle env g ids gids idToken ctx now db =
     (case verifyGoogleIdToken g idToken of
        Inl e \<Rightarrow> (Inl e, db)
      | Inr (sub, email) \<Rightarrow>
      (case find_row (\<lambda>i. ui_providerUserId i = sub) (identities db) of
        Some i \<Rightarrow>
          let db1 = db\<lparr>identities := update_where (\<lambda>x. ui_id x = ui_id i)
                (\<lambda>x. x\<lparr>ui_lastUsedAt := now, ui_email := email\<rparr>) (identities db)\<rparr>
          in (case account_of (ui_userId i) db of
                None \<Rightarrow> (Inl (ServerError ''No AppUser found''), db)
              | Some a \<Rightarrow> resolveAuthState env ids a None ctx None now db1)
      | None \<Rightarrow>
          let db0 = ensureSystemTenant db
          in case findByEmail email db of
               None \<Rightarrow>
                 let a = \<lparr>ac_id = fst gids, ac_email = email, ac_passwordHash = None, ac_status = US_ACTIVE,
                          ac_emailVerifiedAt = Some now, ac_platformRole = PR_NONE, ac_activeTenantId = None,
                          ac_mfaSecret = None, ac_mfaEnrolledAt = None, ac_mfaLastUsedStep = None\<rparr>;
                     db1 = link_identity (snd gids) (ac_id a) sub email now (db0\<lparr>accounts := accounts db0 @ [a]\<rparr>);
                     db2 = auth_event env SYSTEM_TENANT_ID (Some (ac_id a)) ''USER_REGISTERED_VIA_GOOGLE'' ''AppUser''
                             (Some (ac_id a)) (Some (JObj [(''email'', JStr email)])) ctx now db1
                 in resolveAuthState env ids a None ctx None now db2
             | Some a \<Rightarrow>
                 if ac_status a \<noteq> US_INVITED \<and> ac_emailVerifiedAt a = None
                 then (fail_with 409 EMAIL_NOT_VERIFIED,
                       auth_event env SYSTEM_TENANT_ID (Some (ac_id a)) ''GOOGLE_LOGIN_BLOCKED'' ''AppUser'' (Some (ac_id a))
                         (Some (JObj [(''email'', JStr email), (''reason'', JStr ''local_account_unverified'')])) ctx now db0)
                 else
                   let claim = (\<lambda>x. x\<lparr>ac_status := (if ac_status a = US_INVITED then US_ACTIVE else ac_status a),
                          ac_emailVerifiedAt := (case ac_emailVerifiedAt a of None \<Rightarrow> Some now | Some t \<Rightarrow> Some t)\<rparr>);
                       db1 = link_identity (snd gids) (ac_id a) sub email now (set_account (ac_id a) claim db0);
                       db2 = auth_event env SYSTEM_TENANT_ID (Some (ac_id a)) ''IDENTITY_LINKED'' ''AppUser'' (Some (ac_id a))
                               (Some (JObj [(''provider'', JStr ''GOOGLE''), (''email'', JStr email),
                                 (''claimedInvite'', JBool (ac_status a = US_INVITED))])) ctx now db1
                   in resolveAuthState env ids (claim a) None ctx None now db2))"

subsection \<open>Choosing a workspace\<close>

definition consumeSelectionToken :: "uuid \<Rightarrow> uuid \<Rightarrow> instant \<Rightarrow> auth_db \<Rightarrow> unit result \<times> auth_db" where
  "consumeSelectionToken jti userId expiresAt db =
     (if list_ex (\<lambda>(j, u, e). j = jti) (used_selections db) then (fail_with 401 TOKEN_REUSED, db)
      else (Inr (), db\<lparr>used_selections := used_selections db @ [(jti, userId, expiresAt)]\<rparr>))"

definition releaseSelectionToken :: "uuid \<Rightarrow> auth_db \<Rightarrow> auth_db" where
  "releaseSelectionToken jti db = db\<lparr>used_selections := delete_where (\<lambda>(j, u, e). j = jti) (used_selections db)\<rparr>"

definition spends_selection :: "auth_state \<Rightarrow> bool" where
  "spends_selection s = (case s of
     Signed_In _ \<Rightarrow> True | Mfa_Required _ _ _ \<Rightarrow> True | Mfa_Enrollment_Required _ _ \<Rightarrow> True | _ \<Rightarrow> False)"

definition selectWorkspace ::
  "auth_env \<Rightarrow> fresh_ids \<Rightarrow> string \<Rightarrow> uuid \<Rightarrow> request_context \<Rightarrow> instant \<Rightarrow> auth_db \<Rightarrow> answer" where
  "selectWorkspace env ids token tenantId ctx now db =
     (case verifySelectionToken (ae_tokens env) token now of
        Inl e \<Rightarrow> (Inl e, db)
      | Inr sel \<Rightarrow>
      (case account_of (sl_userId sel) db of
        None \<Rightarrow> (not_found, db)
      | Some a \<Rightarrow>
      (case consumeSelectionToken (sl_jti sel) (sl_userId sel) (sl_expiresAt sel) db of
        (Inl e, db1) \<Rightarrow> (Inl e, db1)
      | (Inr _, db1) \<Rightarrow>
      (case resolveAuthState env ids a (Some tenantId) ctx (sl_workspace sel) now db1 of
        (Inl e, db2) \<Rightarrow> (Inl e, releaseSelectionToken (sl_jti sel) db2)
      | (Inr st, db2) \<Rightarrow>
          (Inr st, if spends_selection st then db2 else releaseSelectionToken (sl_jti sel) db2)))))"

subsection \<open>Answering the second factor\<close>

definition assertAccountCanSignIn :: "account option \<Rightarrow> account result" where
  "assertAccountCanSignIn user =
     (case user of
        None \<Rightarrow> fail_with 401 UNAUTHORIZED
      | Some a \<Rightarrow> if ac_status a = US_ACTIVE then Inr a else fail_with 403 FORBIDDEN)"

text \<open>The workspace an answered challenge opens, read again.\<close>

definition challenged_seat :: "uuid \<Rightarrow> uuid \<Rightarrow> auth_db \<Rightarrow> seat result" where
  "challenged_seat userId tenantId db =
     (case findByUserAndTenant userId tenantId db of
        None \<Rightarrow> fail_with 403 FORBIDDEN
      | Some s \<Rightarrow>
          if tm_status (st_membership s) \<noteq> MS_ACTIVE \<or> ws_status (st_workspace s) \<noteq> TN_ACTIVE
          then fail_with 403 FORBIDDEN else Inr s)"

definition completeMfaChallenge ::
  "auth_env \<Rightarrow> fresh_ids \<Rightarrow> string \<Rightarrow> string \<Rightarrow> request_context \<Rightarrow> instant \<Rightarrow> auth_db \<Rightarrow> answer" where
  "completeMfaChallenge env ids token given ctx now db =
     (case readMfaChallengeToken (ae_tokens env) token now of
        Inl e \<Rightarrow> (Inl e, db)
      | Inr (u, intent) \<Rightarrow>
      (case with_mfa (verifyChallenge (ae_mfa env) u given (actor_of ctx) now) db of
        (Inl e, db1) \<Rightarrow> (Inl e, db1)
      | (Inr _, db1) \<Rightarrow>
      (case assertAccountCanSignIn (account_of u db1) of
        Inl e \<Rightarrow> (Inl e, db1)
      | Inr a \<Rightarrow>
      (case intent of
        Platform_Intent p \<Rightarrow>
          (Inr (Staff_Console p (buildPlatformToken (ae_tokens env) u p now)),
           login_success env SYSTEM_TENANT_ID u
             (Some (JObj [(''platformRole'', JStr (platform_name p)), (''mfa'', JBool True)])) ctx now (ensureSystemTenant db1))
      | Tenant_Intent t m w \<Rightarrow>
          (case challenged_seat u t db1 of
             Inl e \<Rightarrow> (Inl e, db1)
           | Inr s \<Rightarrow> open_seat env ids s w (Some (Some (JObj [(''mfa'', JBool True)]))) ctx now db1)))))"

definition enrolFromChallenge ::
  "auth_env \<Rightarrow> string \<Rightarrow> string \<Rightarrow> string \<Rightarrow> request_context \<Rightarrow> instant \<Rightarrow> auth_db \<Rightarrow> string result \<times> auth_db" where
  "enrolFromChallenge env secret iv token ctx now db =
     (case readMfaChallengeToken (ae_tokens env) token now of
        Inl e \<Rightarrow> (Inl e, db)
      | Inr (u, intent) \<Rightarrow>
          (case account_of u db of
             None \<Rightarrow> (Inl missing_user, db)
           | Some a \<Rightarrow> with_mfa (beginEnrolment (ae_mfa env) secret iv u (actor_of ctx) now) db))"

text \<open>The answer carries the fresh recovery codes beside the state; \<open>fresh\<close> is their random choice.\<close>

definition confirmEnrolmentFromChallenge ::
  "auth_env \<Rightarrow> fresh_ids \<Rightarrow> (uuid \<times> string) list \<Rightarrow> string \<Rightarrow> string \<Rightarrow> request_context \<Rightarrow> instant \<Rightarrow> auth_db \<Rightarrow> answer" where
  "confirmEnrolmentFromChallenge env ids fresh token given ctx now db =
     (case readMfaChallengeToken (ae_tokens env) token now of
        Inl e \<Rightarrow> (Inl e, db)
      | Inr (u, intent) \<Rightarrow>
      (case with_mfa (confirmEnrolment (ae_mfa env) fresh u given (actor_of ctx) now) db of
        (Inl e, db1) \<Rightarrow> (Inl e, db1)
      | (Inr _, db1) \<Rightarrow>
      (case assertAccountCanSignIn (account_of u db1) of
        Inl e \<Rightarrow> (Inl e, db1)
      | Inr a \<Rightarrow>
      (case intent of
        Platform_Intent p \<Rightarrow> (Inr (Staff_Console p (buildPlatformToken (ae_tokens env) u p now)), db1)
      | Tenant_Intent t m w \<Rightarrow>
          (case challenged_seat u t db1 of
             Inl e \<Rightarrow> (Inl e, db1)
           | Inr s \<Rightarrow> open_seat env ids s w None ctx now db1)))))"

subsection \<open>Accepting an invitation\<close>

text \<open>The transaction: a failure anywhere rolls it back.\<close>

definition join_transaction ::
  "auth_env \<Rightarrow> fresh_ids \<Rightarrow> uuid \<Rightarrow> uuid \<Rightarrow> request_context \<Rightarrow> instant \<Rightarrow> auth_db \<Rightarrow> (seat \<times> session) result \<times> auth_db" where
  "join_transaction env ids userId membershipId ctx now db =
     (case find_row (\<lambda>m. tm_id m = membershipId \<and> tm_userId m = userId \<and> tm_status m = MS_INVITED) (seats db) of
        None \<Rightarrow> (not_found, db)
      | Some invite \<Rightarrow>
          if (case tm_inviteExpiresAt invite of None \<Rightarrow> True | Some t \<Rightarrow> t \<le> now) then (fail_with 410 INVITATION_EXPIRED, db)
          else if map_option ws_status (workspace_of (tm_tenantId invite) db) \<noteq> Some TN_ACTIVE then (fail_with 403 FORBIDDEN, db)
          else (case account_of userId db of
             None \<Rightarrow> (fail_with 401 UNAUTHORIZED, db)
           | Some a \<Rightarrow>
               let db1 = (if ac_status a = US_PENDING_VERIFICATION \<or> ac_status a = US_INVITED
                     then set_account userId (\<lambda>x. x\<lparr>ac_status := US_ACTIVE,
                            ac_emailVerifiedAt := (case ac_emailVerifiedAt a of None \<Rightarrow> Some now | Some t \<Rightarrow> Some t)\<rparr>) db
                     else db);
                   db2 = db1\<lparr>seats := update_where (\<lambda>m. tm_id m = tm_id invite)
                     (\<lambda>m. m\<lparr>tm_status := MS_ACTIVE, tm_inviteExpiresAt := None\<rparr>) (seats db1)\<rparr>;
                   db3 = auth_event env (tm_tenantId invite) (Some userId) ''MEMBERSHIP_INVITATION_ACCEPTED''
                     ''TenantMembership'' (Some (tm_id invite)) None ctx now db2
               in (case findByUserAndTenant userId (tm_tenantId invite) db3 of
                     None \<Rightarrow> (fail_with 500 INTERNAL_ERROR, db)
                   | Some s \<Rightarrow>
                       (case issueSession env ids s (sessionWorkspaceFor (st_membership s) None db3) None ctx now db3 of
                          (Inl e, _) \<Rightarrow> (Inl e, db)
                        | (Inr se, db4) \<Rightarrow> (Inr (s, se), db4)))))"

definition joinWorkspace ::
  "auth_env \<Rightarrow> fresh_ids \<Rightarrow> string \<Rightarrow> uuid \<Rightarrow> request_context \<Rightarrow> instant \<Rightarrow> auth_db \<Rightarrow> answer" where
  "joinWorkspace env ids pendingToken membershipId ctx now db =
     (case verifyPendingToken (ae_tokens env) pendingToken now of
        Inl e \<Rightarrow> (Inl e, db)
      | Inr userId \<Rightarrow>
      (case join_transaction env ids userId membershipId ctx now db of
        (Inl e, db1) \<Rightarrow> (Inl e, db1)
      | (Inr (s, se), db1) \<Rightarrow>
      (case mfaGate env ids userId (Some (toWorkspaceOption s))
              (Tenant_Intent (tm_tenantId (st_membership s)) (tm_id (st_membership s)) (se_workspace se))
              (Inl (tm_role (st_membership s))) ctx now db1 of
        (Some gate, db2) \<Rightarrow>
          (Inr gate, revoke_tokens (\<lambda>r. rt_userId r = userId \<and> rt_tenantId r = tm_tenantId (st_membership s)) now db2)
      | (None, db2) \<Rightarrow> (Inr (Signed_In se), db2))))"

end
