(* ===== verification/Sign_In_Safety.thy ===== *)
theory Sign_In_Safety
  imports Sign_In
begin

section \<open>What signing in promises\<close>

text \<open>
  With the second factor enforced, no path opens a privileged console but an answered challenge; a
  selection token is worth one sign-in; a session just issued is accepted by the check on every request
  and every session for another workspace is refused by it.
\<close>

subsection \<open>No privileged console without the second factor\<close>

definition privileged :: "auth_state \<Rightarrow> bool" where
  "privileged st = (case st of Signed_In se \<Rightarrow> se_workspace se \<noteq> MEMBER | Staff_Console p t \<Rightarrow> True | _ \<Rightarrow> False)"

lemma gate_None: "mfaGate env ids u opt i r ctx now db = (None, db') \<Longrightarrow> \<not> mfaRequired env i r \<and> db' = db"
  by (auto simp: mfaGate_def Let_def split: if_splits)

lemma gate_Some:
  "mfaGate env ids u opt i r ctx now db = (Some g, db') \<Longrightarrow> \<not> privileged g"
  by (auto simp: mfaGate_def privileged_def Let_def split: if_splits)

lemma issue_session:
  "issueSession env ids s w cont ctx now db = (Inr se, db')
    \<Longrightarrow> se_workspace se = w \<and> se_userId se = tm_userId (st_membership s) \<and> se_tenantId se = tm_tenantId (st_membership s)
      \<and> se_membershipId se = tm_id (st_membership s)
      \<and> se_role se = (case actingRole (tm_role (st_membership s)) w of None \<Rightarrow> tm_role (st_membership s) | Some r \<Rightarrow> r)"
  by (auto simp: issueSession_def Let_def split: sum.splits)

lemma open_seat_answer:
  assumes "open_seat env ids s w md ctx now db = (Inr st, db')"
  shows "\<exists>se. st = Signed_In se \<and> se_workspace se = w \<and> se_userId se = tm_userId (st_membership s)"
  using assms by (auto simp: open_seat_def dest!: issue_session split: prod.splits sum.splits)

lemma unprotected_roles: "\<not> roleRequiresMfa r \<longleftrightarrow> r = MEMBER"
  by (cases r) (simp_all add: roleRequiresMfa_def MFA_REQUIRED_ROLES_def)

lemma member_scope: "tm_role m = MEMBER \<Longrightarrow> sessionWorkspaceFor m req db = MEMBER"
  by (simp add: sessionWorkspaceFor_def signInWorkspace_def)

lemma resolve_selected_unprivileged:
  assumes on: "mfaEnforcementEnabled (ae_mfa env)"
    and a: "resolveSelectedWorkspace env ids u s req ctx now db = (Inr st, db')"
  shows "\<not> privileged st"
proof -
  let ?m = "st_membership s"
  let ?i = "Tenant_Intent (tm_tenantId ?m) (tm_id ?m) (sessionWorkspaceFor ?m req db)"
  show ?thesis
  proof (cases "mfaGate env ids u (Some (toWorkspaceOption s)) ?i (Inl (tm_role ?m)) ctx now db")
    case (Pair g db1)
    show ?thesis
    proof (cases g)
      case None
      with Pair have "\<not> mfaRequired env ?i (Inl (tm_role ?m))" using gate_None by blast
      with on have "sessionWorkspaceFor ?m req db = MEMBER"
        using unprotected_roles [of "tm_role ?m"] member_scope [of ?m req db] by (auto simp: mfaRequired_def)
      with a Pair None show ?thesis
        by (auto simp: resolveSelectedWorkspace_def Let_def privileged_def dest!: open_seat_answer split: if_splits)
    next
      case (Some x)
      with a Pair gate_Some show ?thesis
        by (auto simp: resolveSelectedWorkspace_def Let_def privileged_def split: if_splits)
    qed
  qed
qed

lemma resolve_unprivileged:
  assumes on: "mfaEnforcementEnabled (ae_mfa env)"
    and a: "resolveAuthState env ids user sel ctx req now db = (Inr st, db')"
  shows "\<not> privileged st"
proof (cases "ac_status user \<in> {US_PENDING_VERIFICATION, US_SUSPENDED, US_DISABLED}")
  case True
  with a show ?thesis by (auto simp: resolveAuthState_def Let_def privileged_def)
next
  case live: False
  show ?thesis
  proof (cases "ac_platformRole user = PR_NONE")
    case False
    let ?i = "Platform_Intent (ac_platformRole user)"
    obtain g db1 where g: "mfaGate env ids (ac_id user) None ?i (Inr (ac_platformRole user)) ctx now db = (g, db1)"
      by (cases "mfaGate env ids (ac_id user) None ?i (Inr (ac_platformRole user)) ctx now db")
    have "mfaRequired env ?i (Inr (ac_platformRole user))" using on by (simp add: mfaRequired_def)
    with g gate_None obtain x where "g = Some x" by (cases g) blast+
    with g a live False gate_Some show ?thesis
      by (auto simp: resolveAuthState_def Let_def split: if_splits)
  next
    case True
    let ?open = "filter (\<lambda>s. tm_status (st_membership s) \<noteq> MS_REMOVED) (findByUserId (ac_id user) db)"
    have sel: "\<not> privileged st" if "resolveSelectedWorkspace env ids (ac_id user) s req ctx now db = (Inr st, db')" for s
      by (rule resolve_selected_unprivileged [OF on that])
    have rest: "\<not> privileged (Workspace_Selection x y)" "\<not> privileged (No_Workspace y)" "\<not> privileged (Invitation_Pending x y)" for x y
      by (simp_all add: privileged_def)
    from a live True show ?thesis
      by (auto simp: resolveAuthState_def Let_def rest sel split: if_splits option.splits)
  qed
qed

text \<open>The requests that can answer with a session.\<close>

datatype sign_in_request =
    By_password login_input
  | By_google google_env "uuid \<times> uuid" string
  | By_selection string uuid
  | By_invitation string uuid
  | By_code string string
  | By_enrolment "(uuid \<times> string) list" string string

fun answer_of :: "auth_env \<Rightarrow> fresh_ids \<Rightarrow> request_context \<Rightarrow> instant \<Rightarrow> sign_in_request \<Rightarrow> auth_db \<Rightarrow> answer" where
  "answer_of env ids ctx now (By_password x) db = login env ids x ctx now db"
| "answer_of env ids ctx now (By_google g gids t) db = loginWithGoogle env g ids gids t ctx now db"
| "answer_of env ids ctx now (By_selection t tenant) db = selectWorkspace env ids t tenant ctx now db"
| "answer_of env ids ctx now (By_invitation t m) db = joinWorkspace env ids t m ctx now db"
| "answer_of env ids ctx now (By_code t c) db = completeMfaChallenge env ids t c ctx now db"
| "answer_of env ids ctx now (By_enrolment fresh t c) db = confirmEnrolmentFromChallenge env ids fresh t c ctx now db"

text \<open>A request proves the second factor of a user for an intent.\<close>

fun proves_factor ::
  "auth_env \<Rightarrow> request_context \<Rightarrow> instant \<Rightarrow> auth_db \<Rightarrow> sign_in_request \<Rightarrow> uuid \<Rightarrow> mfa_intent \<Rightarrow> bool" where
  "proves_factor env ctx now db (By_code t c) u i \<longleftrightarrow>
     readMfaChallengeToken (ae_tokens env) t now = Inr (u, i)
     \<and> \<not> isl (fst (verifyChallenge (ae_mfa env) u c (actor_of ctx) now (mfa_view db)))"
| "proves_factor env ctx now db (By_enrolment fresh t c) u i \<longleftrightarrow>
     readMfaChallengeToken (ae_tokens env) t now = Inr (u, i)
     \<and> \<not> isl (fst (confirmEnrolment (ae_mfa env) fresh u c (actor_of ctx) now (mfa_view db)))"
| "proves_factor env ctx now db x u i \<longleftrightarrow> False"

definition opens_intent :: "auth_state \<Rightarrow> uuid \<Rightarrow> mfa_intent \<Rightarrow> bool" where
  "opens_intent st u i = (case (st, i) of
     (Signed_In se, Tenant_Intent t m w) \<Rightarrow> se_userId se = u \<and> se_tenantId se = t \<and> se_workspace se = w
   | (Staff_Console p tok, Platform_Intent q) \<Rightarrow> p = q
   | _ \<Rightarrow> False)"

lemma login_unprivileged:
  assumes "mfaEnforcementEnabled (ae_mfa env)" "login env ids x ctx now db = (Inr st, db')"
  shows "\<not> privileged st"
proof -
  from assms(2) obtain a sel where "resolveAuthState env ids a sel ctx (li_workspace x) now db = (Inr st, db')"
    by (auto simp: login_def Let_def split: option.splits if_splits)
  with assms(1) show ?thesis by (rule resolve_unprivileged)
qed

lemma google_unprivileged:
  assumes "mfaEnforcementEnabled (ae_mfa env)" "loginWithGoogle env g ids gids t ctx now db = (Inr st, db')"
  shows "\<not> privileged st"
proof -
  from assms(2) obtain a db1 where "resolveAuthState env ids a None ctx None now db1 = (Inr st, db')"
    by (auto simp: loginWithGoogle_def Let_def split: sum.splits prod.splits option.splits if_splits)
  with assms(1) show ?thesis by (rule resolve_unprivileged)
qed

lemma select_answer:
  assumes "selectWorkspace env ids t tenant ctx now db = (Inr st, db')"
  obtains s a db1 db2 where "verifySelectionToken (ae_tokens env) t now = Inr s"
    "consumeSelectionToken (sl_jti s) (sl_userId s) (sl_expiresAt s) db = (Inr (), db1)"
    "resolveAuthState env ids a (Some tenant) ctx (sl_workspace s) now db1 = (Inr st, db2)"
    "db' = (if spends_selection st then db2 else releaseSelectionToken (sl_jti s) db2)"
  using assms
  by (auto simp: selectWorkspace_def split: sum.splits option.splits prod.splits)

lemma select_unprivileged:
  assumes "mfaEnforcementEnabled (ae_mfa env)" "selectWorkspace env ids t tenant ctx now db = (Inr st, db')"
  shows "\<not> privileged st"
  by (rule select_answer [OF assms(2)]) (rule resolve_unprivileged [OF assms(1)])

lemma join_transaction_scope:
  assumes "join_transaction env ids u m ctx now db = (Inr (s, se), db')"
  shows "\<exists>db3. se_workspace se = sessionWorkspaceFor (st_membership s) None db3"
  using assms
  by (auto simp: join_transaction_def Let_def dest!: issue_session split: option.splits if_splits sum.splits prod.splits)

lemma join_unprivileged:
  assumes on: "mfaEnforcementEnabled (ae_mfa env)" and a: "joinWorkspace env ids t m ctx now db = (Inr st, db')"
  shows "\<not> privileged st"
proof -
  obtain u s se db1 x db2 where tx: "join_transaction env ids u m ctx now db = (Inr (s, se), db1)"
    and x: "mfaGate env ids u (Some (toWorkspaceOption s))
        (Tenant_Intent (tm_tenantId (st_membership s)) (tm_id (st_membership s)) (se_workspace se))
        (Inl (tm_role (st_membership s))) ctx now db1 = (x, db2)"
    and g: "st = (case x of None \<Rightarrow> Signed_In se | Some y \<Rightarrow> y)"
    using a by (auto simp: joinWorkspace_def split: sum.splits prod.splits option.splits)
  let ?i = "Tenant_Intent (tm_tenantId (st_membership s)) (tm_id (st_membership s)) (se_workspace se)"
  show ?thesis
  proof (cases x)
    case None
    with x have "\<not> mfaRequired env ?i (Inl (tm_role (st_membership s)))" using gate_None by blast
    moreover obtain db3 where "se_workspace se = sessionWorkspaceFor (st_membership s) None db3"
      using join_transaction_scope [OF tx] by blast
    ultimately have "se_workspace se = MEMBER"
      using on unprotected_roles [of "tm_role (st_membership s)"] member_scope [of "st_membership s" None db3]
      by (auto simp: mfaRequired_def)
    with g x None show ?thesis by (auto simp: privileged_def)
  next
    case (Some y)
    with g x gate_Some show ?thesis by auto
  qed
qed

lemma with_mfa_fst: "fst (with_mfa f db) = fst (f (mfa_view db))"
  by (simp add: with_mfa_def split: prod.splits)

lemma challenged_seatD:
  "challenged_seat u t db = Inr s \<Longrightarrow> findByUserAndTenant u t db = Some s \<and> tm_status (st_membership s) = MS_ACTIVE
    \<and> ws_status (st_workspace s) = TN_ACTIVE"
  by (auto simp: challenged_seat_def split: option.splits if_splits)

lemma opened_intent:
  assumes "challenged_seat u t db1 = Inr s" "open_seat env ids s w md ctx now db = (Inr st, db')"
  shows "opens_intent st u (Tenant_Intent t m w)"
proof -
  have s: "tm_userId (st_membership s) = u" "tm_tenantId (st_membership s) = t"
    using challenged_seatD [OF assms(1)] find_seat by auto
  obtain se db2 db3 where "issueSession env ids s w None ctx now db2 = (Inr se, db3)" "st = Signed_In se"
    using assms(2) by (auto simp: open_seat_def split: prod.splits sum.splits)
  with s show ?thesis by (auto simp: opens_intent_def dest!: issue_session)
qed

lemma complete_proves:
  assumes "completeMfaChallenge env ids t c ctx now db = (Inr st, db')"
  shows "\<exists>u i. proves_factor env ctx now db (By_code t c) u i \<and> opens_intent st u i"
proof -
  from assms obtain u i r db1 where t: "readMfaChallengeToken (ae_tokens env) t now = Inr (u, i)"
    and c: "with_mfa (verifyChallenge (ae_mfa env) u c (actor_of ctx) now) db = (Inr r, db1)"
    by (auto simp: completeMfaChallenge_def split: sum.splits prod.splits)
  then have "proves_factor env ctx now db (By_code t c) u i"
    using with_mfa_fst [of "verifyChallenge (ae_mfa env) u c (actor_of ctx) now" db]
    by (metis proves_factor.simps(1) fst_conv sum.disc(2))
  moreover have "opens_intent st u i"
  proof (cases i)
    case (Platform_Intent p)
    with assms t c show ?thesis
      by (auto simp: completeMfaChallenge_def opens_intent_def split: sum.splits)
  next
    case (Tenant_Intent tn m w)
    with assms t c obtain s where "challenged_seat u tn db1 = Inr s"
      "open_seat env ids s w (Some (Some (JObj [(''mfa'', JBool True)]))) ctx now db1 = (Inr st, db')"
      by (auto simp: completeMfaChallenge_def split: sum.splits)
    with Tenant_Intent show ?thesis by (simp add: opened_intent)
  qed
  ultimately show ?thesis by blast
qed

lemma confirm_proves:
  assumes "confirmEnrolmentFromChallenge env ids fresh t c ctx now db = (Inr st, db')"
  shows "\<exists>u i. proves_factor env ctx now db (By_enrolment fresh t c) u i \<and> opens_intent st u i"
proof -
  from assms obtain u i r db1 where t: "readMfaChallengeToken (ae_tokens env) t now = Inr (u, i)"
    and c: "with_mfa (confirmEnrolment (ae_mfa env) fresh u c (actor_of ctx) now) db = (Inr r, db1)"
    by (auto simp: confirmEnrolmentFromChallenge_def split: sum.splits prod.splits)
  then have "proves_factor env ctx now db (By_enrolment fresh t c) u i"
    using with_mfa_fst [of "confirmEnrolment (ae_mfa env) fresh u c (actor_of ctx) now" db]
    by (metis proves_factor.simps(2) fst_conv sum.disc(2))
  moreover have "opens_intent st u i"
  proof (cases i)
    case (Platform_Intent p)
    with assms t c show ?thesis
      by (auto simp: confirmEnrolmentFromChallenge_def opens_intent_def split: sum.splits)
  next
    case (Tenant_Intent tn m w)
    with assms t c obtain s where "challenged_seat u tn db1 = Inr s" "open_seat env ids s w None ctx now db1 = (Inr st, db')"
      by (auto simp: confirmEnrolmentFromChallenge_def split: sum.splits)
    with Tenant_Intent show ?thesis by (simp add: opened_intent)
  qed
  ultimately show ?thesis by blast
qed

text \<open>
  C1: With the second factor enforced, a sign-in request is answered with a privileged console (any but
  the Member one, or the staff console) only when it proves the second factor of the person it signs in,
  and the console opened is the one the challenge was issued for: no password, Google account, selected
  workspace or accepted invitation opens one by itself.
\<close>

theorem privileged_console_needs_second_factor:
  assumes "mfaEnforcementEnabled (ae_mfa env)"
    and "answer_of env ids ctx now x db = (Inr st, db')" "privileged st"
  shows "\<exists>u i. proves_factor env ctx now db x u i \<and> opens_intent st u i"
proof (cases x)
  case (By_password a)
  with assms login_unprivileged show ?thesis by auto
next
  case (By_google g gids t)
  with assms google_unprivileged show ?thesis by auto
next
  case (By_selection t tn)
  with assms select_unprivileged show ?thesis by auto
next
  case (By_invitation t m)
  with assms join_unprivileged show ?thesis by auto
next
  case (By_code t c)
  with assms(2) complete_proves show ?thesis by auto
next
  case (By_enrolment fresh t c)
  with assms(2) confirm_proves show ?thesis by auto
qed

subsection \<open>A selection token is worth one sign-in\<close>

text \<open>Only the choice of a workspace touches the spent tokens.\<close>

lemma selections_keep [simp]:
  "used_selections (createAlert g i now tn x db) = used_selections db"
  "used_selections (ensureSystemTenant db) = used_selections db"
  "used_selections (auth_event env tn ac ty tg ti md ctx now db) = used_selections db"
  "used_selections (revoke_tokens P now db) = used_selections db"
  "used_selections (set_account u f db) = used_selections db"
  "used_selections (persistRefreshToken env i s y dv db) = used_selections db"
  "used_selections (mfa_back st db) = used_selections db"
  "used_selections (link_identity i u sb em now db) = used_selections db"
  for db :: auth_db
  by (simp_all add: createAlert_def ensureSystemTenant_def auth_event_def revoke_tokens_def set_account_def
      persistRefreshToken_def mfa_back_def link_identity_def)

lemma selections_keep_calls [simp]:
  "used_selections (recordNewDeviceLogin g i now tn u ags lb ctx db) = used_selections db"
  "used_selections (recordFailedLoginBurst g i now tn u em ctx db) = used_selections db"
  for db :: auth_db
  by (simp_all add: recordNewDeviceLogin_def recordFailedLoginBurst_def Let_def)

lemma selections_keep_flows [simp]:
  "used_selections (recordLoginFailure env al u em wh ctx now db) = used_selections db"
  "used_selections (snd (mfaGate env ids v opt i r ctx now db)) = used_selections db"
  "used_selections (snd (issueSession env ids s w cont ctx now db)) = used_selections db"
  "used_selections (new_device env ids s ctx now db) = used_selections db"
  "used_selections (login_success env tn v md ctx now db) = used_selections db"
  "used_selections (snd (with_mfa f db)) = used_selections db"
  by (auto simp: recordLoginFailure_def mfaGate_def issueSession_def claimActiveWorkspace_def new_device_def
      login_success_def with_mfa_def Let_def split: option.splits sum.splits prod.splits)

lemma selections_pair:
  "issueSession env ids s w cont ctx now db = (r, d) \<Longrightarrow> used_selections d = used_selections db"
  "mfaGate env ids v opt i ro ctx now db = (q, d) \<Longrightarrow> used_selections d = used_selections db"
  "with_mfa f db = (y, d) \<Longrightarrow> used_selections d = used_selections db"
  using selections_keep_flows(3) [of env ids s w cont ctx now db] selections_keep_flows(2) [of env ids v opt i ro ctx now db]
    selections_keep_flows(6) [of f db] by simp_all

lemma selections_open_seat [simp]: "used_selections (snd (open_seat env ids s w md ctx now db)) = used_selections db"
  by (auto simp: open_seat_def dest!: selections_pair split: prod.splits sum.splits option.splits)

lemma selections_resolve_selected [simp]:
  "used_selections (snd (resolveSelectedWorkspace env ids u s req ctx now db)) = used_selections db"
  by (auto simp: resolveSelectedWorkspace_def Let_def dest!: selections_pair split: prod.splits option.splits)

lemma selections_resolve [simp]:
  "used_selections (snd (resolveAuthState env ids a sel ctx req now db)) = used_selections db"
  by (auto simp: resolveAuthState_def Let_def dest!: selections_pair split: prod.splits option.splits)

lemma selections_login [simp]: "used_selections (snd (login env ids x ctx now db)) = used_selections db"
  by (auto simp: login_def Let_def split: option.splits)

lemma selections_google [simp]: "used_selections (snd (loginWithGoogle env g ids gids t ctx now db)) = used_selections db"
  by (auto simp: loginWithGoogle_def Let_def split: option.splits sum.splits)

lemma selections_join_tx: "join_transaction env ids u m ctx now db = (r, d) \<Longrightarrow> used_selections d = used_selections db"
  by (auto simp: join_transaction_def Let_def dest!: selections_pair split: option.splits sum.splits prod.splits if_splits)

lemma selections_join [simp]: "used_selections (snd (joinWorkspace env ids t m ctx now db)) = used_selections db"
  by (auto simp: joinWorkspace_def dest!: selections_pair selections_join_tx split: option.splits sum.splits prod.splits)

lemma selections_factor [simp]:
  "used_selections (snd (completeMfaChallenge env ids t c ctx now db)) = used_selections db"
  "used_selections (snd (confirmEnrolmentFromChallenge env ids fresh t c ctx now db)) = used_selections db"
  by (auto simp: completeMfaChallenge_def confirmEnrolmentFromChallenge_def dest!: selections_pair
      split: sum.splits prod.splits mfa_intent.splits)

text \<open>The machine of sign-in requests.\<close>

type_synonym sign_in_op = "fresh_ids \<times> request_context \<times> instant \<times> sign_in_request"

definition sign_in_step :: "auth_env \<Rightarrow> auth_db \<Rightarrow> sign_in_op \<Rightarrow> auth_db" where
  "sign_in_step env db x = (case x of (ids, ctx, now, r) \<Rightarrow> snd (answer_of env ids ctx now r db))"

definition selects :: "auth_env \<Rightarrow> uuid \<Rightarrow> auth_db \<Rightarrow> sign_in_op \<Rightarrow> bool" where
  "selects env k db x = (case x of (ids, ctx, now, By_selection t tenant) \<Rightarrow>
       (case verifySelectionToken (ae_tokens env) t now of Inl e \<Rightarrow> False | Inr s \<Rightarrow> sl_jti s = k)
       \<and> (case fst (selectWorkspace env ids t tenant ctx now db) of Inl e \<Rightarrow> False | Inr st \<Rightarrow> spends_selection st)
     | _ \<Rightarrow> False)"

definition selection_spent :: "uuid \<Rightarrow> auth_db \<Rightarrow> bool" where
  "selection_spent k db \<longleftrightarrow> k \<in> fst ` set (used_selections db)"

lemma consume_fresh:
  "consumeSelectionToken k u e db = (Inr (), db') \<Longrightarrow> \<not> selection_spent k db \<and> used_selections db' = used_selections db @ [(k, u, e)]"
  by (auto simp: consumeSelectionToken_def selection_spent_def list_ex_iff split: if_splits)

lemma select_keeps_spent:
  assumes spent: "selection_spent k db"
  shows "selection_spent k (snd (selectWorkspace env ids t tenant ctx now db))"
proof (cases "verifySelectionToken (ae_tokens env) t now")
  case (Inl e)
  with spent show ?thesis by (simp add: selectWorkspace_def)
next
  case (Inr s)
  have keeps: "selection_spent k d" if c: "consumeSelectionToken (sl_jti s) (sl_userId s) (sl_expiresAt s) db = (Inr (), db1)"
      and r: "resolveAuthState env ids a (Some tenant) ctx (sl_workspace s) now db1 = (x, db2)"
      and d: "d \<in> {db2, releaseSelectionToken (sl_jti s) db2}" for a db1 db2 x d
  proof -
    have "used_selections db2 = used_selections db1"
      using selections_resolve [of env ids a "Some tenant" ctx "sl_workspace s" now db1] r by simp
    moreover have "k \<noteq> sl_jti s" using consume_fresh [OF c] spent by blast
    ultimately show ?thesis
      using consume_fresh [OF c] spent d
      by (force simp: selection_spent_def releaseSelectionToken_def table_simps)
  qed
  have same: "db1 = db" if "consumeSelectionToken (sl_jti s) (sl_userId s) (sl_expiresAt s) db = (Inl e, db1)" for e db1
    using that by (auto simp: consumeSelectionToken_def split: if_splits)
  from Inr spent show ?thesis
    by (auto simp: selectWorkspace_def dest: same keeps split: option.splits prod.splits sum.splits)
qed

interpretation selection_once: single_use "sign_in_step env" "\<lambda>db. True" "selects env" selection_spent for env
proof unfold_locales
  fix env k db x
  assume u: "selects env k db x"
  then obtain ids ctx now t tenant s st db' where x: "x = (ids, ctx, now, By_selection t tenant)"
    and v: "verifySelectionToken (ae_tokens env) t now = Inr s" "sl_jti s = k"
    and a: "selectWorkspace env ids t tenant ctx now db = (Inr st, db')" "spends_selection st"
    by (auto simp: selects_def prod_eq_iff split: prod.splits sign_in_request.splits sum.splits)
  obtain a db1 db2 where c: "consumeSelectionToken k (sl_userId s) (sl_expiresAt s) db = (Inr (), db1)"
    and r: "resolveAuthState env ids a (Some tenant) ctx (sl_workspace s) now db1 = (Inr st, db2)" and d: "db' = db2"
    using select_answer [OF a(1)] v a(2) by (metis sum.inject(2))
  show "\<not> selection_spent k db" using consume_fresh [OF c] by blast
  have "used_selections db2 = used_selections db1"
    using selections_resolve [of env ids a "Some tenant" ctx "sl_workspace s" now db1] r by simp
  with consume_fresh [OF c] d a(1) x show "selection_spent k (sign_in_step env db x)"
    by (simp add: sign_in_step_def selection_spent_def)
next
  fix env k db and x :: sign_in_op
  assume spent: "selection_spent k db"
  obtain ids ctx now r where x: "x = (ids, ctx, now, r)" by (cases x)
  show "selection_spent k (sign_in_step env db x)"
  proof (cases r)
    case (By_selection t tenant)
    with spent x show ?thesis by (simp add: sign_in_step_def select_keeps_spent)
  qed (use spent x in \<open>simp_all add: sign_in_step_def selection_spent_def\<close>)
qed simp


subsection \<open>A session just opened works, and no other workspace's does\<close>

lemma session_scope_ok:
  "actingRole (tm_role m) (sessionWorkspaceFor m req db) \<noteq> None
   \<and> consoleAuthorized (tm_role m) (sessionWorkspaceFor m req db) (mailboxWorkspacesFor (tm_id m) db)"
  by (cases "tm_role m") (simp_all add: sessionWorkspaceFor_def signInWorkspace_def actingRole_def
      consoleAuthorized_def Let_def split: option.split)

lemma new_device_keeps [simp]:
  "accounts (new_device env ids s ctx now db) = accounts db" "workspaces (new_device env ids s ctx now db) = workspaces db"
  "seats (new_device env ids s ctx now db) = seats db" "sign_in_mailboxes (new_device env ids s ctx now db) = sign_in_mailboxes db"
  by (simp_all add: new_device_def recordNewDeviceLogin_def Let_def)

text \<open>What the workspace entrance reads from the access token of a session.\<close>

definition bearer_context :: "seat \<Rightarrow> workspace_scope \<Rightarrow> uuid \<Rightarrow> int \<Rightarrow> int \<Rightarrow> auth_context" where
  "bearer_context s scope sid iat exp =
     access_context (signed_payload (Access_Token (tm_userId (st_membership s)) (tm_tenantId (st_membership s))
       (tm_id (st_membership s)) (tm_role (st_membership s)) (ac_platformRole (st_account s)) scope sid) iat exp) ''sessionId''"

lemma bearer_fields:
  "au_sub (bearer_context s scope sid iat exp) = tm_userId (st_membership s)"
  "au_tenantId (bearer_context s scope sid iat exp) = tm_tenantId (st_membership s)"
  "au_membershipId (bearer_context s scope sid iat exp) = tm_id (st_membership s)"
  "au_workspace (bearer_context s scope sid iat exp) = Some scope"
  by (simp_all add: bearer_context_def access_context_def reading_simps)

lemma seat_rows:
  assumes "findByUserAndTenant u t db = Some s"
  shows "\<exists>w a. workspace_of t db = Some w \<and> account_of u db = Some a
    \<and> s = \<lparr>st_membership = st_membership s, st_workspace = w, st_account = a\<rparr>"
proof -
  obtain m where m: "find_row (\<lambda>m. tm_userId m = u \<and> tm_tenantId m = t) (seats db) = Some m" "with_relations db m = Some s"
    using assms by (auto simp: findByUserAndTenant_def bind_eq_Some_conv)
  have k: "tm_userId m = u" "tm_tenantId m = t" using find_row_SomeD [OF m(1)] by auto
  show ?thesis using m(2) by (auto simp: with_relations_def k split: option.splits)
qed

lemma selected_session:
  assumes "resolveSelectedWorkspace env ids u s req ctx now db = (Inr (Signed_In se), db')"
  shows "\<exists>db1. issueSession env ids s (sessionWorkspaceFor (st_membership s) req db) None ctx now
        (new_device env ids s ctx now db) = (Inr se, db1)
      \<and> accounts db' = accounts db1 \<and> workspaces db' = workspaces db1 \<and> seats db' = seats db1
      \<and> sign_in_mailboxes db' = sign_in_mailboxes db1"
proof -
  let ?m = "st_membership s"
  let ?i = "Tenant_Intent (tm_tenantId ?m) (tm_id ?m) (sessionWorkspaceFor ?m req db)"
  obtain g db0 where g: "mfaGate env ids u (Some (toWorkspaceOption s)) ?i (Inl (tm_role ?m)) ctx now db = (g, db0)"
    by (cases "mfaGate env ids u (Some (toWorkspaceOption s)) ?i (Inl (tm_role ?m)) ctx now db")
  have "g = None"
    using assms g by (cases g) (auto simp: resolveSelectedWorkspace_def mfaGate_def Let_def split: if_splits)
  with g gate_None have "db0 = db" by blast
  with assms g \<open>g = None\<close> have "open_seat env ids s (sessionWorkspaceFor ?m req db) (Some None) ctx now db = (Inr (Signed_In se), db')"
    by (auto simp: resolveSelectedWorkspace_def Let_def split: if_splits)
  then show ?thesis
    by (auto simp: open_seat_def login_success_def split: prod.splits sum.splits)
qed

text \<open>
  C24: When a sign-in opens a workspace, the access token it hands out passes the check of every request
  at once, with the role the session shows, and from then on no access token of the person for another
  workspace does.
\<close>

theorem new_session_supersedes:
  assumes "unique_key tm_id (seats db)" "findByUserAndTenant u t db = Some s" "tm_status (st_membership s) = MS_ACTIVE"
    and "ws_status (st_workspace s) = TN_ACTIVE" "ac_status (st_account s) = US_ACTIVE"
    and signed: "resolveSelectedWorkspace env ids u s req ctx now db = (Inr (Signed_In se), db')"
  shows "(\<exists>c. tenantContext (Some (bearer_context s (se_workspace se) sid iat exp)) db' = Inr c
        \<and> tc_role c = se_role se \<and> tc_userId c = u \<and> tc_tenantId c = t)
    \<and> (\<forall>c. au_sub c = u \<longrightarrow> au_tenantId c \<noteq> t \<longrightarrow> isl (tenantContext (Some c) db'))"
proof -
  let ?m = "st_membership s" and ?sc = "sessionWorkspaceFor (st_membership s) req db"
  note seat = find_seat [OF assms(2)]
  obtain db1 where i: "issueSession env ids s ?sc None ctx now (new_device env ids s ctx now db) = (Inr se, db1)"
    and db': "accounts db' = accounts db1" "workspaces db' = workspaces db1" "seats db' = seats db1"
      "sign_in_mailboxes db' = sign_in_mailboxes db1"
    using selected_session [OF signed] by blast
  have frame: "workspaces db1 = workspaces db" "seats db1 = seats db" "sign_in_mailboxes db1 = sign_in_mailboxes db"
    and acc: "accounts db1 = update_where (\<lambda>a. ac_id a = u) (\<lambda>a. a\<lparr>ac_activeTenantId := Some t\<rparr>) (accounts db)"
    using i seat by (auto simp: issueSession_def claimActiveWorkspace_def set_account_def Let_def split: sum.splits)
  obtain w a where wa: "workspace_of t db = Some w" "account_of u db = Some a" "s = \<lparr>st_membership = ?m, st_workspace = w, st_account = a\<rparr>"
    using seat_rows [OF assms(2)] by blast
  have a': "account_of u db' = Some (a\<lparr>ac_activeTenantId := Some t\<rparr>)"
    using wa(2) unfolding account_of_def db' acc by (simp add: find_row_update_key)
  have w': "workspace_of t db' = Some w"
    using wa(1) db' frame by (simp add: workspace_of_def)
  have act: "ac_status a = US_ACTIVE" "ws_status w = TN_ACTIVE"
    by (subst assms(5) [symmetric], subst wa(3), simp) (subst assms(4) [symmetric], subst wa(3), simp)
  show ?thesis
  proof (intro conjI allI impI)
    let ?c = "bearer_context s (se_workspace se) sid iat exp"
    have sc: "se_workspace se = ?sc" using issue_session [OF i] by simp
    obtain r where r: "actingRole (tm_role ?m) ?sc = Some r" "se_role se = r"
      using session_scope_ok [of ?m req db] issue_session [OF i] by auto
    have row: "find_row (\<lambda>m. tm_id m = tm_id ?m \<and> tm_tenantId m = t \<and> tm_userId m = u \<and> tm_status m = MS_ACTIVE) (seats db) = Some ?m"
    proof (cases "find_row (\<lambda>m. tm_id m = tm_id ?m \<and> tm_tenantId m = t \<and> tm_userId m = u \<and> tm_status m = MS_ACTIVE) (seats db)")
      case None
      with seat assms(3) show ?thesis by (auto simp: find_row_None_iff)
    next
      case (Some m)
      then have "m \<in> set (seats db)" "tm_id m = tm_id ?m" by (auto dest: find_row_SomeD)
      with unique_keyD [OF assms(1) _ seat(3)] Some show ?thesis by simp
    qed
    have "consoleAuthorized (tm_role ?m) ?sc (mailboxWorkspacesFor (tm_id ?m) db')"
      using session_scope_ok [of ?m req db] db' frame by (simp add: mailboxWorkspacesFor_def)
    with row seat(1,2) a' w' act r db' frame
    show "\<exists>c. tenantContext (Some ?c) db' = Inr c \<and> tc_role c = se_role se \<and> tc_userId c = u \<and> tc_tenantId c = t"
      by (simp add: tenantContext_def bearer_fields with_relations_def sc Let_def)
  next
    fix c :: auth_context
    assume c: "au_sub c = u" "au_tenantId c \<noteq> t"
    show "isl (tenantContext (Some c) db')"
    proof (rule ccontr)
      assume "\<not> isl (tenantContext (Some c) db')"
      then obtain x where "tenantContext (Some c) db' = Inr x" by (cases "tenantContext (Some c) db'") auto
      then obtain y where "account_of (au_sub c) db' = Some y" "ac_activeTenantId y = Some (au_tenantId c)"
        by (rule tenant_context_InrE)
      moreover from this c a' have "ac_activeTenantId y = Some t" by auto
      ultimately show False using c by simp
    qed
  qed
qed

subsection \<open>Concrete runs\<close>

definition demo_challenge :: json where
  "demo_challenge = signed_payload (Mfa_Token ''u'' ''c'' False (Tenant_Intent ''t'' ''m'' OWNER)) 0 600"

definition demo_mfa_auth :: auth_env where
  "demo_mfa_auth = demo_auth\<lparr>ae_tokens := demo_tokens
     \<lparr>jwt_verify := (\<lambda>k t n. if t = ''mfa'' then Verified demo_challenge else Token_Malformed)\<rparr>\<rparr>"

definition demo_owner_store :: auth_db where
  "demo_owner_store = demo_store
     \<lparr>accounts := [demo_account\<lparr>ac_mfaSecret := Some ''i:t:ME'', ac_mfaEnrolledAt := Some 0\<rparr>],
      seats := [\<lparr>tm_id = ''m'', tm_tenantId = ''t'', tm_userId = ''u'', tm_role = OWNER, tm_status = MS_ACTIVE,
        tm_inviteToken = None, tm_inviteExpiresAt = None\<rparr>]\<rparr>"

theorem privileged_console_needs_second_factor_witness:
  "let x = By_code ''mfa'' ''10 63''; st = projr (fst (answer_of demo_mfa_auth (demo_ids ''1'') demo_who 1000000 x demo_owner_store))
   in privileged st \<and> (\<exists>u i. proves_factor demo_mfa_auth demo_who 1000000 demo_owner_store x u i \<and> opens_intent st u i)"
proof -
  let ?x = "By_code ''mfa'' ''10 63''"
  let ?a = "answer_of demo_mfa_auth (demo_ids ''1'') demo_who 1000000 ?x demo_owner_store"
  have e: "mfaEnforcementEnabled (ae_mfa demo_mfa_auth)" by code_simp
  have r: "\<not> isl (fst ?a)" "privileged (projr (fst ?a))" by code_simp+
  then have "?a = (Inr (projr (fst ?a)), snd ?a)" by (cases ?a) (auto simp: isl_def split: sum.splits)
  from privileged_console_needs_second_factor [OF e this r(2)] r(2) show ?thesis unfolding Let_def by blast
qed

theorem new_session_supersedes_witness:
  "let s = the (findByUserAndTenant ''u'' ''t'' demo_store);
       x = resolveSelectedWorkspace demo_auth (demo_ids ''1'') ''u'' s None demo_who 5 demo_store; db' = snd x
   in \<exists>se. fst x = Inr (Signed_In se)
      \<and> (\<exists>c. tenantContext (Some (bearer_context s (se_workspace se) ''s'' 0 1)) db' = Inr c \<and> tc_role c = se_role se)
      \<and> (\<forall>c. au_sub c = ''u'' \<and> au_tenantId c \<noteq> ''t'' \<longrightarrow> isl (tenantContext (Some c) db'))"
proof -
  let ?s = "the (findByUserAndTenant ''u'' ''t'' demo_store)"
  let ?x = "resolveSelectedWorkspace demo_auth (demo_ids ''1'') ''u'' ?s None demo_who 5 demo_store"
  have k: "unique_key tm_id (seats demo_store)" by (simp add: demo_store_def unique_key_def)
  have f: "findByUserAndTenant ''u'' ''t'' demo_store = Some ?s" by code_simp
  have a: "tm_status (st_membership ?s) = MS_ACTIVE" "ws_status (st_workspace ?s) = TN_ACTIVE" "ac_status (st_account ?s) = US_ACTIVE"
    by code_simp+
  have "case fst ?x of Inr (Signed_In se) \<Rightarrow> True | _ \<Rightarrow> False" by code_simp
  then obtain se where se: "?x = (Inr (Signed_In se), snd ?x)"
    by (cases ?x) (auto split: sum.splits auth_state.splits)
  from new_session_supersedes [OF k f a se] se show ?thesis unfolding Let_def by (metis fst_conv)
qed

end
