(* ===== verification/Access_Gate.thy ===== *)
theory Access_Gate
  imports Session_Safety Capabilities
begin

section \<open>The gate of a request\<close>

text \<open>
  The chain of middleware in front of a workspace route: \<open>authenticate\<close>, \<open>tenantContext\<close> and
  \<open>common/middleware/requireCapability.ts\<close>, which turns the membership of this moment, the header of a
  fresh password check and a live support grant into a decision of the capability resolver. The tables are
  those of the sessions and the support grants.
\<close>

subsection \<open>State\<close>

datatype support_scope =
  TENANT_DIAGNOSTICS | DNS_DIAGNOSTICS | DELIVERY_DIAGNOSTICS | AUDIT_READ | MAILBOX_ADMIN | MAIL_CONTENT

record support_grant =
  sg_id :: uuid
  sg_tenantId :: uuid
  sg_supportMembershipId :: uuid
  sg_approvedByUserId :: uuid
  sg_reason :: string
  sg_ticketId :: "uuid option"
  sg_scopes :: "support_scope list"
  sg_expiresAt :: instant
  sg_revokedAt :: "instant option"

record gate_db = auth_db +
  support_grants :: "support_grant list"

definition live_grant :: "instant \<Rightarrow> support_grant \<Rightarrow> bool" where
  "live_grant now g \<longleftrightarrow> sg_revokedAt g = None \<and> now < sg_expiresAt g"

text \<open>What the gate reads of a request.\<close>

record api_request =
  rq_authorization :: "string option"
  rq_access_token :: "string option"
  rq_step_up :: "string option"

subsection \<open>Operations\<close>

definition hasLiveGrant :: "tenant_session \<Rightarrow> instant \<Rightarrow> 'a gate_db_scheme \<Rightarrow> bool" where
  "hasLiveGrant tc now db \<longleftrightarrow>
     tc_role tc = SUPPORT
     \<and> find_row (\<lambda>g. sg_tenantId g = tc_tenantId tc \<and> sg_supportMembershipId g = tc_membershipId tc \<and> live_grant now g)
         (support_grants db) \<noteq> None"

definition contextFrom ::
  "token_env \<Rightarrow> api_request \<Rightarrow> tenant_session option \<Rightarrow> instant \<Rightarrow> 'a gate_db_scheme \<Rightarrow> capability_context" where
  "contextFrom env rq tenant now db =
     \<lparr>cc_role = map_option tc_role tenant,
      membershipActive = Some (tenant \<noteq> None),
      hasActiveSupportGrant = Some (case tenant of None \<Rightarrow> False | Some tc \<Rightarrow> hasLiveGrant tc now db),
      stepUpSatisfied = Some (case tenant of None \<Rightarrow> False
        | Some tc \<Rightarrow> verifyStepUpToken env (rq_step_up rq) (tc_userId tc) (tc_tenantId tc) now),
      secondApproverUserId = None\<rparr>"

fun reason_name :: "decision_reason \<Rightarrow> string" where
  "reason_name ALLOWED = ''ALLOWED''"
| "reason_name ALLOWED_OWN_RESOURCE = ''ALLOWED_OWN_RESOURCE''"
| "reason_name ALLOWED_READ_ONLY = ''ALLOWED_READ_ONLY''"
| "reason_name NO_MEMBERSHIP = ''NO_MEMBERSHIP''"
| "reason_name MEMBERSHIP_INACTIVE = ''MEMBERSHIP_INACTIVE''"
| "reason_name ROLE_LACKS_CAPABILITY = ''ROLE_LACKS_CAPABILITY''"
| "reason_name REQUIRES_STEP_UP = ''REQUIRES_STEP_UP''"
| "reason_name REQUIRES_SECOND_APPROVER = ''REQUIRES_SECOND_APPROVER''"
| "reason_name REQUIRES_SUPPORT_GRANT = ''REQUIRES_SUPPORT_GRANT''"
| "reason_name UNKNOWN_CAPABILITY = ''UNKNOWN_CAPABILITY''"

definition requireCapability ::
  "token_env \<Rightarrow> string \<Rightarrow> api_request \<Rightarrow> tenant_session option \<Rightarrow> instant \<Rightarrow> 'a gate_db_scheme \<Rightarrow> unit result" where
  "requireCapability env cap rq tenant now db =
     (if tenant = None then fail_with 403 FORBIDDEN
      else let d = resolveCapability cap (contextFrom env rq tenant now db)
        in if cd_allowed d then Inr () else fail_because 403 FORBIDDEN (reason_name (cd_reason d)))"

text \<open>A capability chosen from the request; no choice leaves the base gate of the route alone.\<close>

definition requireCapabilityWhen ::
  "token_env \<Rightarrow> (api_request \<Rightarrow> string option) \<Rightarrow> api_request \<Rightarrow> tenant_session option \<Rightarrow> instant
     \<Rightarrow> 'a gate_db_scheme \<Rightarrow> unit result" where
  "requireCapabilityWhen env pick rq tenant now db =
     (case pick rq of
        None \<Rightarrow> Inr ()
      | Some cap \<Rightarrow> if cap = [] then Inr () else requireCapability env cap rq tenant now db)"

text \<open>The chain, with the session it leaves for the handler.\<close>

definition enter_workspace :: "token_env \<Rightarrow> api_request \<Rightarrow> instant \<Rightarrow> 'a gate_db_scheme \<Rightarrow> tenant_session result" where
  "enter_workspace env rq now db =
     (case authenticate env (rq_authorization rq) (rq_access_token rq) now of
        Inl e \<Rightarrow> Inl e
      | Inr c \<Rightarrow> tenantContext (Some c) (auth_db.truncate db))"

definition gated :: "token_env \<Rightarrow> string \<Rightarrow> api_request \<Rightarrow> instant \<Rightarrow> 'a gate_db_scheme \<Rightarrow> tenant_session result" where
  "gated env cap rq now db =
     (case enter_workspace env rq now db of
        Inl e \<Rightarrow> Inl e
      | Inr tc \<Rightarrow>
          (case requireCapability env cap rq (Some tc) now db of Inl e \<Rightarrow> Inl e | Inr _ \<Rightarrow> Inr tc))"

subsection \<open>What the gate lets through\<close>

lemma truncate_fields [simp]:
  "accounts (auth_db.truncate db) = accounts db" "workspaces (auth_db.truncate db) = workspaces db"
  "seats (auth_db.truncate db) = seats db" "sign_in_mailboxes (auth_db.truncate db) = sign_in_mailboxes db"
  "refresh_tokens (auth_db.truncate db) = refresh_tokens db"
  by (simp_all add: auth_db.defs)

text \<open>The row a session stands on: an active membership, in the claimed workspace of an active account.\<close>

definition session_stands :: "tenant_session \<Rightarrow> 'a auth_db_scheme \<Rightarrow> bool" where
  "session_stands tc db \<longleftrightarrow>
     (\<exists>m\<in>set (seats db). tm_id m = tc_membershipId tc \<and> tm_tenantId m = tc_tenantId tc \<and> tm_userId m = tc_userId tc
        \<and> tm_status m = MS_ACTIVE \<and> tm_role m = tc_membershipRole tc)
     \<and> (\<exists>a\<in>set (accounts db). ac_id a = tc_userId tc \<and> ac_status a = US_ACTIVE
        \<and> ac_activeTenantId a = Some (tc_tenantId tc))
     \<and> (\<exists>w\<in>set (workspaces db). ws_id w = tc_tenantId tc \<and> ws_status w = TN_ACTIVE)
     \<and> actingRole (tc_membershipRole tc) (tc_workspace tc) = Some (tc_role tc)"

lemma enter_stands:
  assumes "enter_workspace env rq now db = Inr tc"
  shows "session_stands tc db"
proof -
  obtain c where "tenantContext (Some c) (auth_db.truncate db) = Inr tc"
    using assms by (auto simp: enter_workspace_def split: sum.splits)
  then show ?thesis
    by (rule tenant_context_InrE)
       (auto simp: session_stands_def account_of_def workspace_of_def dest!: find_row_SomeD)
qed

lemma acting_support: "actingRole m w = Some SUPPORT \<longleftrightarrow> m = SUPPORT \<and> w = SUPPORT"
  by (cases m; cases w) (auto simp: actingRole_def)

lemma grant_rows: "matrixKind r c = Some GRANT \<Longrightarrow> r = SUPPORT"
  by (cases r; cases c) (simp_all add: matrixKind_def OWNER_matrix_def ADMIN_matrix_def MEMBER_matrix_def)

definition clears :: "token_env \<Rightarrow> api_request \<Rightarrow> instant \<Rightarrow> 'a gate_db_scheme \<Rightarrow> tenant_session \<Rightarrow> capability \<Rightarrow> bool" where
  "clears env rq now db tc c \<longleftrightarrow>
     (case matrixKind (tc_role tc) c of
        Some ALLOW \<Rightarrow> True | Some OWN \<Rightarrow> True | Some READ_ONLY \<Rightarrow> True
      | Some STEP_UP \<Rightarrow> verifyStepUpToken env (rq_step_up rq) (tc_userId tc) (tc_tenantId tc) now
      | Some GRANT \<Rightarrow> tc_membershipRole tc = SUPPORT \<and> (\<exists>g\<in>set (support_grants db).
            sg_tenantId g = tc_tenantId tc \<and> sg_supportMembershipId g = tc_membershipId tc \<and> live_grant now g)
      | _ \<Rightarrow> False)"

lemma capability_clears:
  assumes "actingRole (tc_membershipRole tc) (tc_workspace tc) = Some (tc_role tc)"
  shows "requireCapability env cap rq (Some tc) now db = Inr ()
    \<longleftrightarrow> (\<exists>c. capability_of cap = Some c \<and> clears env rq now db tc c)"
proof -
  have live: "hasLiveGrant tc now db \<longleftrightarrow> tc_membershipRole tc = SUPPORT \<and> (\<exists>g\<in>set (support_grants db).
      sg_tenantId g = tc_tenantId tc \<and> sg_supportMembershipId g = tc_membershipId tc \<and> live_grant now g)"
    if "tc_role tc = SUPPORT"
  proof -
    have "tc_membershipRole tc = SUPPORT" using assms that by (simp add: acting_support)
    then show ?thesis using that unfolding hasLiveGrant_def
      by (auto simp: find_row_None_iff not_None_eq [symmetric] simp del: not_None_eq)
  qed
  let ?ctx = "contextFrom env rq (Some tc) now db"
  have one: "(\<exists>k. matrixKind (tc_role tc) c = Some k \<and> kind_satisfied ?ctx k) \<longleftrightarrow> clears env rq now db tc c" for c
  proof (cases "matrixKind (tc_role tc) c")
    case (Some k)
    then show ?thesis
      by (cases k) (simp_all add: clears_def contextFrom_def truthy_def live grant_rows)
  qed (simp add: clears_def)
  have named: "cap = capability_name c \<longleftrightarrow> capability_of cap = Some c" for c
    by (auto dest: capability_of_SomeD)
  have "requireCapability env cap rq (Some tc) now db = Inr () \<longleftrightarrow> can cap ?ctx"
    by (simp add: requireCapability_def can_def Let_def)
  also have "\<dots> \<longleftrightarrow> (\<exists>c. capability_of cap = Some c \<and> (\<exists>k. matrixKind (tc_role tc) c = Some k \<and> kind_satisfied ?ctx k))"
    by (simp add: can_iff named) (simp add: contextFrom_def)
  finally show ?thesis by (simp add: one)
qed

text \<open>
  C8: The whole chain in front of a workspace route admits a request exactly when its token opens a session
  that stands on an active membership, account and workspace at this moment, and the role the session acts
  with holds the capability: outright, or with a fresh password check of this very person in this very
  workspace, or, for a support seat, with a live grant of its own. A capability that asks for a second
  approver admits nobody.
\<close>

theorem gate_admits_exactly:
  "gated env cap rq now db = Inr tc \<longleftrightarrow>
     enter_workspace env rq now db = Inr tc \<and> session_stands tc db
     \<and> (\<exists>c. capability_of cap = Some c \<and> clears env rq now db tc c)"
proof (cases "enter_workspace env rq now db")
  case (Inr x)
  have "session_stands x db" using enter_stands [OF Inr] .
  then have "actingRole (tc_membershipRole x) (tc_workspace x) = Some (tc_role x)" by (simp add: session_stands_def)
  from capability_clears [OF this, of env cap rq now db] Inr \<open>session_stands x db\<close> show ?thesis
    by (cases "requireCapability env cap rq (Some x) now db") (auto simp: gated_def)
qed (simp add: gated_def)

end
