(* ===== verification/Support_Access.thy ===== *)
theory Support_Access
  imports Access_Gate Tickets
begin

section \<open>Access of the support\<close>

text \<open>
  The part of \<open>modules/support/support.service.ts\<close> that opens, uses and ends access to a workspace, its
  routes, \<open>redaction.ts\<close>, and the middleware of the two consoles (\<open>requireSupportAccess.ts\<close>,
  \<open>supportAccess.ts\<close>): a support seat asks, an Owner approves, a grant with scopes and an expiry results, and
  every use is written to the workspace's log. The overviews and searches of the consoles, which only read,
  and the request of a deletion are not modelled. Mails to approvers are the notification rows.
\<close>

subsection \<open>State\<close>

datatype access_status = AR_PENDING | AR_APPROVED | AR_DENIED | AR_WITHDRAWN

record access_request =
  ar_id :: uuid
  ar_tenantId :: uuid
  ar_supportMembershipId :: uuid
  ar_reason :: string
  ar_ticketId :: "uuid option"
  ar_scopes :: "support_scope list"
  ar_requestedMinutes :: int
  ar_status :: access_status
  ar_decidedBy :: "uuid option"
  ar_decidedAt :: "instant option"
  ar_grantId :: "uuid option"

record support_notice =
  sn_tenantId :: uuid
  sn_userId :: uuid
  sn_type :: string
  sn_body :: "string option"

record support_mailbox =
  xm_id :: uuid
  xm_tenantId :: uuid
  xm_address :: string
  xm_aiEnabled :: bool
  xm_sendSuspendedAt :: "instant option"
  xm_sendSuspensionReason :: "string option"

record forwarding_rule =
  fr_tenantId :: uuid
  fr_mailboxId :: uuid
  fr_forwardTo :: string
  fr_keepCopy :: bool

text \<open>A copy of a message in a mailbox, joined with the columns of the message it shows.\<close>

record box_message =
  bm_id :: uuid
  bm_tenantId :: uuid
  bm_mailboxId :: uuid
  bm_folder :: string
  bm_isRead :: bool
  bm_createdAt :: instant
  bm_messageId :: uuid
  bm_subject :: "string option"
  bm_from :: string
  bm_sentAt :: "instant option"
  bm_to :: "string list"

record support_db = gate_db +
  access_requests :: "access_request list"
  ticket_refs :: "(uuid \<times> uuid) list"
  support_notices :: "support_notice list"
  support_mailboxes :: "support_mailbox list"
  forwarding_rules :: "forwarding_rule list"
  box_messages :: "box_message list"

record support_env =
  se_tokens :: token_env
  se_newId :: "nat \<Rightarrow> uuid"

text \<open>Who acts: the session the gate let through.\<close>

definition support_event ::
  "support_env \<Rightarrow> instant \<Rightarrow> uuid \<Rightarrow> uuid \<Rightarrow> string \<Rightarrow> string \<Rightarrow> uuid \<Rightarrow> json option \<Rightarrow> support_db \<Rightarrow> support_db" where
  "support_event env now tenantId userId ty tgt i md db = db\<lparr>alert_log :=
     log_event (se_newId env) now tenantId (Some userId) (Some AT_SUPPORT) ty tgt i md (alert_log db)\<rparr>"

subsection \<open>Attribution\<close>

text \<open>
  \<open>NAMES_AN_INCIDENT\<close>: one of the words stands between word boundaries, in any case of its letters. What may
  follow is optional, so it does not matter.
\<close>

definition word_char :: "char \<Rightarrow> bool" where
  "word_char c \<longleftrightarrow> is_digit c \<or> c = CHR ''_'' \<or> (CHR ''a'' \<le> lower_char c \<and> lower_char c \<le> CHR ''z'')"

definition incident_words :: "string list" where
  "incident_words = [''inc'', ''incident'', ''p0'', ''p1'', ''case''] @
     map (\<lambda>(s, d). ''sev'' @ s @ [d]) (List.product ['''', ''-'', '' ''] [CHR ''0'', CHR ''1'', CHR ''2'', CHR ''3''])"

definition word_here :: "string \<Rightarrow> string \<Rightarrow> bool" where
  "word_here w s \<longleftrightarrow> starts_with w s \<and> (case drop (length w) s of [] \<Rightarrow> True | c # _ \<Rightarrow> \<not> word_char c)"

fun names_word :: "bool \<Rightarrow> string \<Rightarrow> bool" where
  "names_word boundary [] = False"
| "names_word boundary (c # cs) =
     (boundary \<and> list_ex (\<lambda>w. word_here w (c # cs)) incident_words \<or> names_word (\<not> word_char c) cs)"

definition NAMES_AN_INCIDENT :: "string \<Rightarrow> bool" where
  "NAMES_AN_INCIDENT s = names_word True (map lower_char s)"

definition assertAttributable :: "string \<Rightarrow> uuid option \<Rightarrow> uuid \<Rightarrow> support_db \<Rightarrow> unit result" where
  "assertAttributable why ticketId tenantId db =
     (if truthy ticketId then
        (if (the ticketId, tenantId) \<in> set (ticket_refs db) then Inr () else not_found)
      else if NAMES_AN_INCIDENT why then Inr ()
      else fail_with 400 VALIDATION_ERROR)"

subsection \<open>Asking and deciding\<close>

record grant_input =
  gi_supportMembershipId :: uuid
  gi_reason :: string
  gi_ticketId :: "uuid option"
  gi_expiresInMinutes :: int
  gi_scopes :: "support_scope list"

definition create_grant ::
  "support_env \<Rightarrow> uuid \<Rightarrow> grant_input \<Rightarrow> uuid \<Rightarrow> uuid \<Rightarrow> instant \<Rightarrow> support_db \<Rightarrow> support_grant result \<times> support_db" where
  "create_grant env i x tenantId userId now db =
     (case find_row (\<lambda>m. tm_id m = gi_supportMembershipId x \<and> tm_tenantId m = tenantId \<and> tm_role m = SUPPORT
            \<and> tm_status m = MS_ACTIVE) (seats db) of
        None \<Rightarrow> (not_found, db)
      | Some m \<Rightarrow>
      (case assertAttributable (gi_reason x) (gi_ticketId x) tenantId db of
        Inl e \<Rightarrow> (Inl e, db)
      | Inr _ \<Rightarrow>
          let g = \<lparr>sg_id = i, sg_tenantId = tenantId, sg_supportMembershipId = tm_id m, sg_approvedByUserId = userId,
                   sg_reason = gi_reason x, sg_ticketId = gi_ticketId x, sg_scopes = gi_scopes x,
                   sg_expiresAt = now + gi_expiresInMinutes x * minute_ms, sg_revokedAt = None\<rparr>;
              rows = update_where (\<lambda>r. sg_tenantId r = tenantId \<and> sg_supportMembershipId r = tm_id m \<and> live_grant now r)
                       (\<lambda>r. r\<lparr>sg_revokedAt := Some now\<rparr>) (support_grants db)
          in (Inr g, support_event env now tenantId userId ''SUPPORT_ACCESS_GRANTED'' ''SupportAccessGrant'' i None
                       (db\<lparr>support_grants := rows @ [g]\<rparr>))))"

definition notifyApprovers :: "uuid \<Rightarrow> string \<Rightarrow> support_db \<Rightarrow> support_db" where
  "notifyApprovers tenantId why db = db\<lparr>support_notices := support_notices db @
     map (\<lambda>m. \<lparr>sn_tenantId = tenantId, sn_userId = tm_userId m, sn_type = ''ACTION_REQUIRED'', sn_body = Some (take 280 why)\<rparr>)
       (filter (\<lambda>m. tm_tenantId m = tenantId \<and> tm_status m = MS_ACTIVE \<and> tm_role m \<in> {OWNER, ADMIN}) (seats db))\<rparr>"

definition notifyRequester :: "uuid \<Rightarrow> uuid \<Rightarrow> bool \<Rightarrow> support_db \<Rightarrow> support_db" where
  "notifyRequester membershipId tenantId approved db =
     (case find_row (\<lambda>m. tm_id m = membershipId) (seats db) of
        None \<Rightarrow> db
      | Some m \<Rightarrow> db\<lparr>support_notices := support_notices db @
          [\<lparr>sn_tenantId = tenantId, sn_userId = tm_userId m, sn_type = (if approved then ''INFO'' else ''WARNING''),
            sn_body = None\<rparr>]\<rparr>)"

record ask_input =
  ak_reason :: string
  ak_ticketId :: "uuid option"
  ak_scopes :: "support_scope list"
  ak_requestedMinutes :: int

definition requestAccess ::
  "support_env \<Rightarrow> uuid \<Rightarrow> ask_input \<Rightarrow> tenant_session \<Rightarrow> instant \<Rightarrow> support_db \<Rightarrow> access_request result \<times> support_db" where
  "requestAccess env i x tc now db =
     (case assertAttributable (ak_reason x) (ak_ticketId x) (tc_tenantId tc) db of
        Inl e \<Rightarrow> (Inl e, db)
      | Inr _ \<Rightarrow>
          if find_row (\<lambda>r. ar_tenantId r = tc_tenantId tc \<and> ar_supportMembershipId r = tc_membershipId tc
                \<and> ar_status r = AR_PENDING) (access_requests db) \<noteq> None
          then (fail_with 409 CONFLICT, db)
          else let r = \<lparr>ar_id = i, ar_tenantId = tc_tenantId tc, ar_supportMembershipId = tc_membershipId tc,
                        ar_reason = ak_reason x, ar_ticketId = ak_ticketId x, ar_scopes = ak_scopes x,
                        ar_requestedMinutes = ak_requestedMinutes x, ar_status = AR_PENDING, ar_decidedBy = None,
                        ar_decidedAt = None, ar_grantId = None\<rparr>
            in (Inr r, notifyApprovers (tc_tenantId tc) (ak_reason x)
                 (support_event env now (tc_tenantId tc) (tc_userId tc) ''SUPPORT_ACCESS_REQUESTED'' ''SupportAccessRequest'' i None
                   (db\<lparr>access_requests := access_requests db @ [r]\<rparr>))))"

definition pending_request :: "uuid \<Rightarrow> uuid \<Rightarrow> support_db \<Rightarrow> access_request option" where
  "pending_request i tenantId db =
     find_row (\<lambda>r. ar_id r = i \<and> ar_tenantId r = tenantId \<and> ar_status r = AR_PENDING) (access_requests db)"

definition set_access_request :: "uuid \<Rightarrow> (access_request \<Rightarrow> access_request) \<Rightarrow> support_db \<Rightarrow> support_db" where
  "set_access_request i f db = db\<lparr>access_requests := update_where (\<lambda>r. ar_id r = i) f (access_requests db)\<rparr>"

definition approveRequest ::
  "support_env \<Rightarrow> uuid \<Rightarrow> uuid \<Rightarrow> int option \<Rightarrow> uuid \<Rightarrow> uuid \<Rightarrow> instant \<Rightarrow> support_db \<Rightarrow> support_grant result \<times> support_db" where
  "approveRequest env gid i overrideMinutes tenantId approverUserId now db =
     (case pending_request i tenantId db of
        None \<Rightarrow> (not_found, db)
      | Some r \<Rightarrow>
          let minutes = min (case overrideMinutes of None \<Rightarrow> ar_requestedMinutes r | Some m \<Rightarrow> m) (ar_requestedMinutes r)
          in case create_grant env gid \<lparr>gi_supportMembershipId = ar_supportMembershipId r, gi_reason = ar_reason r,
                    gi_ticketId = ar_ticketId r, gi_expiresInMinutes = minutes, gi_scopes = ar_scopes r\<rparr>
                    tenantId approverUserId now db of
               (Inl e, db1) \<Rightarrow> (Inl e, db1)
             | (Inr g, db1) \<Rightarrow>
                 (Inr g, notifyRequester (ar_supportMembershipId r) tenantId True
                   (support_event env now tenantId approverUserId ''SUPPORT_ACCESS_REQUEST_APPROVED'' ''SupportAccessRequest'' i None
                     (set_access_request i (\<lambda>x. x\<lparr>ar_status := AR_APPROVED, ar_decidedBy := Some approverUserId,
                        ar_decidedAt := Some now, ar_grantId := Some (sg_id g)\<rparr>) db1))))"

definition denyRequest ::
  "support_env \<Rightarrow> uuid \<Rightarrow> uuid \<Rightarrow> uuid \<Rightarrow> instant \<Rightarrow> support_db \<Rightarrow> unit result \<times> support_db" where
  "denyRequest env i tenantId userId now db =
     (case pending_request i tenantId db of
        None \<Rightarrow> (not_found, db)
      | Some r \<Rightarrow>
          (Inr (), notifyRequester (ar_supportMembershipId r) tenantId False
            (support_event env now tenantId userId ''SUPPORT_ACCESS_REQUEST_DENIED'' ''SupportAccessRequest'' i None
              (set_access_request i (\<lambda>x. x\<lparr>ar_status := AR_DENIED, ar_decidedBy := Some userId, ar_decidedAt := Some now\<rparr>) db))))"

definition withdrawRequest ::
  "support_env \<Rightarrow> uuid \<Rightarrow> tenant_session \<Rightarrow> instant \<Rightarrow> support_db \<Rightarrow> unit result \<times> support_db" where
  "withdrawRequest env i tc now db =
     (case pending_request i (tc_tenantId tc) db of
        None \<Rightarrow> (not_found, db)
      | Some r \<Rightarrow>
          if ar_supportMembershipId r \<noteq> tc_membershipId tc then (not_found, db)
          else (Inr (), support_event env now (tc_tenantId tc) (tc_userId tc) ''SUPPORT_ACCESS_REQUEST_WITHDRAWN''
                 ''SupportAccessRequest'' i None
                 (set_access_request i (\<lambda>x. x\<lparr>ar_status := AR_WITHDRAWN, ar_decidedAt := Some now\<rparr>) db)))"

subsection \<open>Ending a grant\<close>

definition end_grant :: "uuid \<Rightarrow> instant \<Rightarrow> support_db \<Rightarrow> support_db" where
  "end_grant i now db =
     db\<lparr>support_grants := update_where (\<lambda>g. sg_id g = i) (\<lambda>g. g\<lparr>sg_revokedAt := Some now\<rparr>) (support_grants db)\<rparr>"

definition revoke ::
  "support_env \<Rightarrow> uuid \<Rightarrow> uuid \<Rightarrow> uuid \<Rightarrow> instant \<Rightarrow> support_db \<Rightarrow> unit result \<times> support_db" where
  "revoke env i tenantId userId now db =
     (case find_row (\<lambda>g. sg_id g = i \<and> sg_tenantId g = tenantId \<and> sg_revokedAt g = None) (support_grants db) of
        None \<Rightarrow> (not_found, db)
      | Some g \<Rightarrow> (Inr (), support_event env now tenantId userId ''SUPPORT_ACCESS_REVOKED'' ''SupportAccessGrant'' i None
                     (end_grant (sg_id g) now db)))"

text \<open>A member of staff who reaches the platform console: the user, the membership of an access token, the role.\<close>

record staff_caller =
  sc_userId :: uuid
  sc_membershipId :: "uuid option"
  sc_platformRole :: platform_role

definition revokeGrant ::
  "support_env \<Rightarrow> uuid \<Rightarrow> staff_caller \<Rightarrow> instant \<Rightarrow> support_db \<Rightarrow> unit result \<times> support_db" where
  "revokeGrant env i who now db =
     (case find_row (\<lambda>g. sg_id g = i) (support_grants db) of
        None \<Rightarrow> (not_found, db)
      | Some g \<Rightarrow>
          if sc_platformRole who \<noteq> PR_SUPER_ADMIN \<and> Some (sg_supportMembershipId g) \<noteq> sc_membershipId who
          then (fail_with 403 FORBIDDEN, db)
          else (Inr (), support_event env now (sg_tenantId g) (sc_userId who) ''SUPPORT_ACCESS_REVOKED'' ''SupportAccessGrant'' i None
                 (end_grant (sg_id g) now db)))"

subsection \<open>Using a grant\<close>

definition seat_of :: "uuid \<Rightarrow> support_grant \<Rightarrow> 'a auth_db_scheme \<Rightarrow> bool" where
  "seat_of userId g db \<longleftrightarrow> list_ex (\<lambda>m. tm_id m = sg_supportMembershipId g \<and> tm_userId m = userId) (seats db)"

text \<open>A refused scope is written to the log before the error.\<close>

definition grantWithScope ::
  "support_env \<Rightarrow> uuid \<Rightarrow> uuid \<Rightarrow> support_scope \<Rightarrow> instant \<Rightarrow> support_db \<Rightarrow> support_grant result \<times> support_db" where
  "grantWithScope env tenantId userId scope now db =
     (let refused = (fail_with 403 FORBIDDEN, support_event env now tenantId userId ''SUPPORT_ACCESS_DENIED'' ''Tenant'' tenantId None db)
      in case latest_by sg_expiresAt (filter (\<lambda>g. sg_tenantId g = tenantId \<and> seat_of userId g db \<and> live_grant now g) (support_grants db)) of
           None \<Rightarrow> refused
         | Some g \<Rightarrow> if scope \<in> set (sg_scopes g) then (Inr g, db) else refused)"

datatype mailbox_setting = FORWARDING | SEND_SUSPENSION

definition json_opt :: "string option \<Rightarrow> json" where
  "json_opt x = (case x of None \<Rightarrow> JNull | Some s \<Rightarrow> JStr s)"

definition rule_json :: "forwarding_rule \<Rightarrow> json" where
  "rule_json r = JObj [(''forwardToAddress'', JStr (fr_forwardTo r)), (''keepCopy'', JBool (fr_keepCopy r))]"

definition resetMailboxSetting ::
  "support_env \<Rightarrow> uuid \<Rightarrow> mailbox_setting \<Rightarrow> uuid \<Rightarrow> uuid \<Rightarrow> instant \<Rightarrow> support_db \<Rightarrow> nat result \<times> support_db" where
  "resetMailboxSetting env mailboxId setting tenantId userId now db =
     (case grantWithScope env tenantId userId MAILBOX_ADMIN now db of
        (Inl e, db1) \<Rightarrow> (Inl e, db1)
      | (Inr g, db1) \<Rightarrow>
      (case find_row (\<lambda>m. xm_id m = mailboxId \<and> xm_tenantId m = tenantId) (support_mailboxes db1) of
        None \<Rightarrow> (not_found, db1)
      | Some m \<Rightarrow>
          let mine = (\<lambda>r. fr_tenantId r = tenantId \<and> fr_mailboxId r = mailboxId);
              reset_event = (\<lambda>before. support_event env now tenantId userId ''SUPPORT_MAILBOX_SETTING_RESET'' ''Mailbox'' (xm_id m)
                (Some (redactMetadata (JObj [(''mailbox'', JStr (xm_address m)), (''before'', before), (''grantId'', JStr (sg_id g)),
                   (''ticketId'', json_opt (sg_ticketId g)), (''grantReason'', JStr (sg_reason g))]))))
          in (case setting of
                FORWARDING \<Rightarrow>
                  if count_where (\<lambda>r. fr_mailboxId r = xm_id m) (forwarding_rules db1) = 0
                  then (fail_because 409 CONFLICT ''NOTHING_TO_RESET'', db1)
                  else (Inr (count_where mine (forwarding_rules db1)),
                        reset_event (JObj [(''forwardingRules'', JArr (map rule_json (filter mine (forwarding_rules db1))))])
                          (db1\<lparr>forwarding_rules := delete_where mine (forwarding_rules db1)\<rparr>))
              | SEND_SUSPENSION \<Rightarrow>
                  if xm_sendSuspendedAt m = None then (fail_because 409 CONFLICT ''NOTHING_TO_RESET'', db1)
                  else (Inr 1, reset_event (JObj [(''sendSuspensionReason'', json_opt (xm_sendSuspensionReason m))]) (db1\<lparr>support_mailboxes := update_where (\<lambda>x. xm_id x = xm_id m)
                         (\<lambda>x. x\<lparr>xm_sendSuspendedAt := None, xm_sendSuspensionReason := None\<rparr>) (support_mailboxes db1)\<rparr>)))))"

text \<open>The dash between the words is one character of the source, here its three bytes.\<close>

definition REDACTED_SUBJECT :: string where
  "REDACTED_SUBJECT = ''[subject withheld '' @ [CHR 0xE2, CHR 0x80, CHR 0x94] @ '' restricted mailbox]''"

definition redactSubject :: "string option \<Rightarrow> uuid option \<Rightarrow> uuid list \<Rightarrow> string option" where
  "redactSubject subject messageId restricted =
     (if truthy messageId \<and> the messageId \<in> set restricted then Some REDACTED_SUBJECT else subject)"

text \<open>The messages that lie in some mailbox whose owner turned processing off.\<close>

definition restrictedMessageIds :: "uuid list \<Rightarrow> support_db \<Rightarrow> uuid list" where
  "restrictedMessageIds ids db =
     (if ids = [] then []
      else map bm_messageId (filter (\<lambda>b. bm_messageId b \<in> set ids
             \<and> list_ex (\<lambda>m. xm_id m = bm_mailboxId b \<and> \<not> xm_aiEnabled m) (support_mailboxes db)) (box_messages db)))"

record message_header =
  mh_id :: uuid
  mh_folder :: string
  mh_isRead :: bool
  mh_receivedAt :: instant
  mh_subject :: "string option"
  mh_from :: string
  mh_to :: "string list"

definition mailboxMessages ::
  "support_env \<Rightarrow> uuid \<Rightarrow> string option \<Rightarrow> string option \<Rightarrow> nat option \<Rightarrow> uuid \<Rightarrow> uuid \<Rightarrow> instant \<Rightarrow> support_db
     \<Rightarrow> message_header list result \<times> support_db" where
  "mailboxMessages env mailboxId folder q limit tenantId userId now db =
     (case grantWithScope env tenantId userId MAIL_CONTENT now db of
        (Inl e, db1) \<Rightarrow> (Inl e, db1)
      | (Inr g, db1) \<Rightarrow>
      (case find_row (\<lambda>m. xm_id m = mailboxId \<and> xm_tenantId m = tenantId) (support_mailboxes db1) of
        None \<Rightarrow> (not_found, db1)
      | Some m \<Rightarrow>
          let rows = filter (\<lambda>b. bm_tenantId b = tenantId \<and> bm_mailboxId b = mailboxId
                \<and> (case folder of None \<Rightarrow> True | Some f \<Rightarrow> bm_folder b = f)
                \<and> (case q of None \<Rightarrow> True | Some s \<Rightarrow> s = [] \<or>
                     (case bm_subject b of None \<Rightarrow> False | Some x \<Rightarrow> contains_ci s x) \<or> contains_ci s (bm_from b)))
                (box_messages db1);
              page = take (min (max (case limit of None \<Rightarrow> 25 | Some n \<Rightarrow> n) 1) 50) (rev (sort_key bm_createdAt rows));
              restricted = (if xm_aiEnabled m then [] else map bm_messageId page)
          in (Inr (map (\<lambda>b. \<lparr>mh_id = bm_id b, mh_folder = bm_folder b, mh_isRead = bm_isRead b,
                  mh_receivedAt = (case bm_sentAt b of None \<Rightarrow> bm_createdAt b | Some t \<Rightarrow> t),
                  mh_subject = redactSubject (bm_subject b) (Some (bm_messageId b)) restricted,
                  mh_from = bm_from b, mh_to = bm_to b\<rparr>) page),
              support_event env now tenantId userId ''SUPPORT_MAILBOX_READ'' ''Mailbox'' (xm_id m) None db1)))"

text \<open>
  The diagnostics of a grant: which of its sections it may read is its scopes. The figures themselves are
  reads over other components and left out.
\<close>

definition diagnostics ::
  "support_env \<Rightarrow> uuid option \<Rightarrow> tenant_session \<Rightarrow> instant \<Rightarrow> support_db \<Rightarrow> support_grant result \<times> support_db" where
  "diagnostics env grantId tc now db =
     (if \<not> truthy grantId then (fail_with 403 FORBIDDEN, db)
      else case find_row (\<lambda>g. sg_id g = the grantId \<and> sg_tenantId g = tc_tenantId tc
                  \<and> sg_supportMembershipId g = tc_membershipId tc \<and> live_grant now g) (support_grants db) of
             None \<Rightarrow> (fail_with 403 FORBIDDEN, db)
           | Some g \<Rightarrow> (Inr g, support_event env now (tc_tenantId tc) (tc_userId tc) ''SUPPORT_DIAGNOSTICS_ACCESSED''
                          ''SupportAccessGrant'' (sg_id g) None db))"

definition platformDiagnostics ::
  "support_env \<Rightarrow> uuid option \<Rightarrow> staff_caller \<Rightarrow> instant \<Rightarrow> support_db \<Rightarrow> support_grant result \<times> support_db" where
  "platformDiagnostics env grantId who now db =
     (if \<not> truthy grantId then (fail_with 403 FORBIDDEN, db)
      else case find_row (\<lambda>g. sg_id g = the grantId \<and> live_grant now g) (support_grants db) of
             None \<Rightarrow> (fail_with 403 FORBIDDEN, db)
           | Some g \<Rightarrow>
               if sc_platformRole who \<noteq> PR_SUPER_ADMIN \<and> \<not> seat_of (sc_userId who) g db then (fail_with 403 FORBIDDEN, db)
               else (Inr g, support_event env now (sg_tenantId g) (sc_userId who) ''SUPPORT_DIAGNOSTICS_ACCESSED''
                      ''SupportAccessGrant'' (sg_id g) None db))"

subsection \<open>The console of a workspace\<close>

text \<open>
  A request of a workspace's console, its body already parsed. \<open>Read_console\<close> stands for the lists and
  overviews: the capability its route asks for, its path and what the read answers.
\<close>

datatype support_call =
    Ask_access ask_input
  | Approve_access uuid "int option"
  | Deny_access uuid
  | Withdraw_access uuid
  | Open_grant grant_input
  | End_grant uuid
  | Diagnose "uuid option"
  | Reset_setting uuid mailbox_setting
  | Read_messages uuid "string option" "string option" "nat option"
  | Read_console string string "unit result"

datatype support_answer =
    A_request access_request
  | A_grant support_grant
  | A_done
  | A_count nat
  | A_messages "message_header list"

definition minutes_ok :: "int \<Rightarrow> bool" where
  "minutes_ok n \<longleftrightarrow> 5 \<le> n \<and> n \<le> 240"

definition reason_ok :: "string \<Rightarrow> bool" where
  "reason_ok s \<longleftrightarrow> 10 \<le> length (trim s) \<and> length (trim s) \<le> 500"

fun schema_ok :: "support_call \<Rightarrow> bool" where
  "schema_ok (Ask_access x) = (reason_ok (ak_reason x) \<and> minutes_ok (ak_requestedMinutes x) \<and> ak_scopes x \<noteq> [])"
| "schema_ok (Approve_access i m) = (case m of None \<Rightarrow> True | Some n \<Rightarrow> minutes_ok n)"
| "schema_ok (Open_grant x) = (reason_ok (gi_reason x) \<and> minutes_ok (gi_expiresInMinutes x) \<and> gi_scopes x \<noteq> [])"
| "schema_ok c = True"

text \<open>The gate of each route, before the schema.\<close>

fun route_gate :: "support_env \<Rightarrow> support_call \<Rightarrow> api_request \<Rightarrow> tenant_session \<Rightarrow> instant \<Rightarrow> support_db \<Rightarrow> unit result" where
  "route_gate env (Ask_access x) rq tc now db = requireRole [SUPPORT] (Some tc)"
| "route_gate env (Withdraw_access i) rq tc now db = requireRole [SUPPORT] (Some tc)"
| "route_gate env (Approve_access i m) rq tc now db = requireCapability (se_tokens env) ''support.grant.create'' rq (Some tc) now db"
| "route_gate env (Open_grant x) rq tc now db = requireCapability (se_tokens env) ''support.grant.create'' rq (Some tc) now db"
| "route_gate env (Deny_access i) rq tc now db = requireCapability (se_tokens env) ''support.grant.end'' rq (Some tc) now db"
| "route_gate env (End_grant i) rq tc now db = requireCapability (se_tokens env) ''support.grant.end'' rq (Some tc) now db"
| "route_gate env (Diagnose i) rq tc now db = Inr ()"
| "route_gate env (Reset_setting i s) rq tc now db = requireCapability (se_tokens env) ''support.mailbox.reset'' rq (Some tc) now db"
| "route_gate env (Read_messages i f q l) rq tc now db = requireCapability (se_tokens env) ''mail.other.read'' rq (Some tc) now db"
| "route_gate env (Read_console cap path x) rq tc now db = requireCapability (se_tokens env) cap rq (Some tc) now db"

definition answered :: "('a \<Rightarrow> support_answer) \<Rightarrow> 'a result \<times> support_db \<Rightarrow> support_answer result \<times> support_db" where
  "answered f x = (case x of (Inl e, db) \<Rightarrow> (Inl e, db) | (Inr v, db) \<Rightarrow> (Inr (f v), db))"

fun handle :: "support_env \<Rightarrow> uuid \<Rightarrow> support_call \<Rightarrow> tenant_session \<Rightarrow> instant \<Rightarrow> support_db \<Rightarrow> support_answer result \<times> support_db" where
  "handle env i (Ask_access x) tc now db = answered A_request (requestAccess env i x tc now db)"
| "handle env i (Approve_access r m) tc now db = answered A_grant (approveRequest env i r m (tc_tenantId tc) (tc_userId tc) now db)"
| "handle env i (Deny_access r) tc now db = answered (\<lambda>_. A_done) (denyRequest env r (tc_tenantId tc) (tc_userId tc) now db)"
| "handle env i (Withdraw_access r) tc now db = answered (\<lambda>_. A_done) (withdrawRequest env r tc now db)"
| "handle env i (Open_grant x) tc now db = answered A_grant (create_grant env i x (tc_tenantId tc) (tc_userId tc) now db)"
| "handle env i (End_grant g) tc now db = answered (\<lambda>_. A_done) (revoke env g (tc_tenantId tc) (tc_userId tc) now db)"
| "handle env i (Diagnose g) tc now db = answered A_grant (diagnostics env g tc now db)"
| "handle env i (Reset_setting b s) tc now db = answered A_count (resetMailboxSetting env b s (tc_tenantId tc) (tc_userId tc) now db)"
| "handle env i (Read_messages b f q l) tc now db =
     answered A_messages (mailboxMessages env b f q l (tc_tenantId tc) (tc_userId tc) now db)"
| "handle env i (Read_console cap path x) tc now db = answered (\<lambda>_. A_done) (x, db)"

text \<open>
  \<open>logTenantSupportAccess\<close>, when the answer is sent: an access that was served or refused, by a support seat,
  asking for access apart.
\<close>

definition ASKING_FOR_ACCESS :: "string \<Rightarrow> bool" where
  "ASKING_FOR_ACCESS path \<longleftrightarrow> starts_with ''/access-requests'' path
     \<and> (case drop 16 path of [] \<Rightarrow> True | c # _ \<Rightarrow> c = CHR ''/'')"

fun asking :: "support_call \<Rightarrow> bool" where
  "asking (Ask_access x) = True"
| "asking (Approve_access i m) = True"
| "asking (Deny_access i) = True"
| "asking (Withdraw_access i) = True"
| "asking (Read_console cap path x) = ASKING_FOR_ACCESS path"
| "asking c = False"

definition status_of :: "'a result \<Rightarrow> nat" where
  "status_of r = (case r of Inr _ \<Rightarrow> 200 | Inl (AppError st c w) \<Rightarrow> st | Inl (ServerError m) \<Rightarrow> 500)"

definition logTenantSupportAccess ::
  "support_env \<Rightarrow> support_call \<Rightarrow> tenant_session \<Rightarrow> nat \<Rightarrow> instant \<Rightarrow> support_db \<Rightarrow> support_db" where
  "logTenantSupportAccess env c tc status now db =
     (if 400 \<le> status \<and> status \<noteq> 403 then db
      else if tc_membershipRole tc \<noteq> SUPPORT \<or> asking c then db
      else support_event env now (tc_tenantId tc) (tc_userId tc)
             (if status = 403 then ''SUPPORT_ACCESS_DENIED'' else ''SUPPORT_ACCESS_USED'') ''Tenant'' (tc_tenantId tc) None db)"

definition console_request ::
  "support_env \<Rightarrow> api_request \<Rightarrow> uuid \<Rightarrow> instant \<Rightarrow> support_call \<Rightarrow> support_db \<Rightarrow> support_answer result \<times> support_db" where
  "console_request env rq i now c db =
     (case enter_workspace (se_tokens env) rq now db of
        Inl e \<Rightarrow> (Inl e, db)
      | Inr tc \<Rightarrow>
          let (r, db1) = (case route_gate env c rq tc now db of
                Inl e \<Rightarrow> (Inl e, db)
              | Inr _ \<Rightarrow> if schema_ok c then handle env i c tc now db else (fail_with 400 VALIDATION_ERROR, db))
          in (r, logTenantSupportAccess env c tc (status_of r) now db1))"

subsection \<open>The console of the staff\<close>

definition requireSupportAccess :: "auth_context + uuid \<times> platform_role \<Rightarrow> staff_caller result" where
  "requireSupportAccess who =
     (case who of
        Inl c \<Rightarrow> (case platform_of (au_platformRole c) of
            None \<Rightarrow> fail_with 403 FORBIDDEN
          | Some p \<Rightarrow> Inr \<lparr>sc_userId = au_sub c, sc_membershipId = Some (au_membershipId c), sc_platformRole = p\<rparr>)
      | Inr (u, p) \<Rightarrow> Inr \<lparr>sc_userId = u, sc_membershipId = None, sc_platformRole = p\<rparr>)"

text \<open>The path of a request below the console's mount point, and its \<open>tenantId\<close> parameter.\<close>

definition hex_or_dash :: "char \<Rightarrow> bool" where
  "hex_or_dash c \<longleftrightarrow> is_digit c \<or> c = CHR ''-'' \<or> (CHR ''a'' \<le> lower_char c \<and> lower_char c \<le> CHR ''f'')"

definition TENANT_IN_PATH :: "string \<Rightarrow> uuid option" where
  "TENANT_IN_PATH path =
     (let rest = drop 9 path; i = take 36 rest
      in if starts_with ''/tenants/'' path \<and> length i = 36 \<and> list_all hex_or_dash i
            \<and> (case drop 36 rest of [] \<Rightarrow> True | c # _ \<Rightarrow> c = CHR ''/'')
         then Some i else None)"

definition named :: "string option \<Rightarrow> uuid option" where
  "named v = (case v of None \<Rightarrow> None | Some q \<Rightarrow> if trim q = [] then None else Some (trim q))"

text \<open>The parameters of the route are not there yet when the gate runs; they are when the answer is sent.\<close>

definition tenantIdOf :: "string \<Rightarrow> string option \<Rightarrow> string option \<Rightarrow> uuid option" where
  "tenantIdOf path params query =
     (case TENANT_IN_PATH path of
        Some i \<Rightarrow> Some i
      | None \<Rightarrow> (case named params of Some i \<Rightarrow> Some i | None \<Rightarrow> named query))"

definition activeGrantFor :: "uuid \<Rightarrow> uuid \<Rightarrow> instant \<Rightarrow> support_db \<Rightarrow> support_grant option" where
  "activeGrantFor userId tenantId now db =
     find_row (\<lambda>g. sg_tenantId g = tenantId \<and> live_grant now g \<and> seat_of userId g db) (support_grants db)"

text \<open>What it leaves on the request: nothing, a grant, or the mark of a break-glass access.\<close>

datatype staff_pass = Platform_Wide | Under_Grant uuid | Break_Glass

definition requireTenantGrant ::
  "support_env \<Rightarrow> staff_caller \<Rightarrow> uuid option \<Rightarrow> instant \<Rightarrow> support_db \<Rightarrow> staff_pass result \<times> support_db" where
  "requireTenantGrant env who tenant now db =
     (case tenant of
        None \<Rightarrow> (Inr Platform_Wide, db)
      | Some t \<Rightarrow>
          (case activeGrantFor (sc_userId who) t now db of
             Some g \<Rightarrow> (Inr (Under_Grant (sg_id g)), db)
           | None \<Rightarrow>
               if sc_platformRole who = PR_SUPER_ADMIN then (Inr Break_Glass, db)
               else (fail_with 403 FORBIDDEN,
                     support_event env now t (sc_userId who) ''SUPPORT_ACCESS_DENIED'' ''Tenant'' t None db)))"

definition logSupportAccess ::
  "support_env \<Rightarrow> staff_caller \<Rightarrow> uuid option \<Rightarrow> staff_pass \<Rightarrow> nat \<Rightarrow> instant \<Rightarrow> support_db \<Rightarrow> support_db" where
  "logSupportAccess env who tenant pass status now db =
     (if 400 \<le> status then db
      else let ty = (if pass = Break_Glass then ''SUPPORT_BREAK_GLASS_ACCESS'' else ''SUPPORT_ACCESS_USED'')
        in db\<lparr>alert_log := record_event (se_newId env (length (alert_log db))) now
             \<lparr>in_tenantId = (case tenant of None \<Rightarrow> SYSTEM_TENANT_ID | Some t \<Rightarrow> t), in_actorUserId = Some (sc_userId who),
              in_actorType = Some AT_SUPPORT, in_eventType = ty,
              in_targetType = Some (if tenant = None then ''Platform'' else ''Tenant''), in_targetId = tenant,
              in_requestId = None, in_ipAddress = None, in_userAgent = None, in_metadata = None,
              in_beforeHash = None, in_afterHash = None\<rparr> (alert_log db)\<rparr>)"

text \<open>
  \<open>Staff_Read\<close> stands for the searches and overviews, which only read: the path, the \<open>tenantId\<close> the router
  takes out of it, the one of the query, and what the read answers.
\<close>

datatype staff_call =
    Staff_Diagnose "uuid option"
  | Staff_End_Grant uuid
  | Staff_Read string "string option" "string option" "unit result"

fun gate_tenant :: "staff_call \<Rightarrow> uuid option" where
  "gate_tenant (Staff_Read path params query x) = tenantIdOf path None query"
| "gate_tenant c = None"

fun log_tenant :: "staff_call \<Rightarrow> uuid option" where
  "log_tenant (Staff_Read path params query x) = tenantIdOf path params query"
| "log_tenant c = None"

fun staff_handle ::
  "support_env \<Rightarrow> staff_call \<Rightarrow> staff_caller \<Rightarrow> instant \<Rightarrow> support_db \<Rightarrow> support_answer result \<times> support_db" where
  "staff_handle env (Staff_Diagnose g) who now db = answered A_grant (platformDiagnostics env g who now db)"
| "staff_handle env (Staff_End_Grant g) who now db = answered (\<lambda>_. A_done) (revokeGrant env g who now db)"
| "staff_handle env (Staff_Read path params query x) who now db = answered (\<lambda>_. A_done) (x, db)"

definition staff_request ::
  "support_env \<Rightarrow> string option \<Rightarrow> instant \<Rightarrow> staff_call \<Rightarrow> support_db \<Rightarrow> support_answer result \<times> support_db" where
  "staff_request env header now c db =
     (case authenticateStaff (se_tokens env) header now of
        Inl e \<Rightarrow> (Inl e, db)
      | Inr x \<Rightarrow>
      (case requireSupportAccess x of
        Inl e \<Rightarrow> (Inl e, db)
      | Inr who \<Rightarrow>
      (case requireTenantGrant env who (gate_tenant c) now db of
        (Inl e, db1) \<Rightarrow> (Inl e, db1)
      | (Inr pass, db1) \<Rightarrow>
          let (r, db2) = staff_handle env c who now db1
          in (r, logSupportAccess env who (log_tenant c) pass (status_of r) now db2))))"

end
