(* ===== verification/Support_Safety.thy ===== *)
theory Support_Safety
  imports Support_Access
begin

section \<open>What access of the support promises\<close>

text \<open>
  Over every sequence of requests to the two consoles and of changes made elsewhere: a seat holds at most one
  live grant, its mail is read only under a grant an Owner opened shortly before with a fresh password check,
  and an approval gives what was asked for and no more. The last section is the gate of the staff's console,
  with the spelling of a path it does not see.
\<close>

subsection \<open>The sequences\<close>

record support_world =
  sw_now :: instant
  sw_db :: support_db
  sw_used :: "uuid list" \<comment> \<open>the identifiers given to rows so far\<close>

text \<open>
  Time passes between the requests. \<open>Elsewhere x\<close> is what the rest of the program does: any change of the
  accounts, workspaces, memberships and mail, the grants and requests of a membership that is gone deleted
  with it, and more events.
\<close>

datatype support_op =
    Console api_request uuid support_call
  | Staff "string option" staff_call
  | Elsewhere support_db

definition seat_remains :: "uuid \<Rightarrow> support_db \<Rightarrow> bool" where
  "seat_remains i x \<longleftrightarrow> list_ex (\<lambda>m. tm_id m = i) (seats x)"

definition elsewhere :: "support_db \<Rightarrow> support_db \<Rightarrow> support_db" where
  "elsewhere x db = x
     \<lparr>support_grants := filter (\<lambda>g. seat_remains (sg_supportMembershipId g) x) (support_grants db),
      access_requests := filter (\<lambda>r. seat_remains (ar_supportMembershipId r) x) (access_requests db),
      alert_log := alert_log db @ alert_log x\<rparr>"

fun support_effect :: "support_env \<Rightarrow> instant \<Rightarrow> support_op \<Rightarrow> support_db \<Rightarrow> support_db" where
  "support_effect env now (Console rq i c) db = snd (console_request env rq i now c db)"
| "support_effect env now (Staff h c) db = snd (staff_request env h now c db)"
| "support_effect env now (Elsewhere x) db = elsewhere x db"

fun new_row_id :: "support_op \<Rightarrow> uuid option" where
  "new_row_id (Console rq i c) = Some i"
| "new_row_id x = None"

definition reused :: "support_world \<Rightarrow> support_op \<Rightarrow> bool" where
  "reused s x \<longleftrightarrow> (case new_row_id x of None \<Rightarrow> False | Some i \<Rightarrow> i \<in> set (sw_used s))"

lemma never_reused [simp]: "\<not> reused s (Staff h c)" "\<not> reused s (Elsewhere y)"
  by (simp_all add: reused_def)

text \<open>The database gives a new row an identifier no row had.\<close>

fun support_step :: "support_env \<Rightarrow> support_world \<Rightarrow> nat \<times> support_op \<Rightarrow> support_world" where
  "support_step env s (wait, x) =
     (let now = sw_now s + int wait in
      if reused s x then s\<lparr>sw_now := now\<rparr>
      else s\<lparr>sw_now := now, sw_db := support_effect env now x (sw_db s),
             sw_used := (case new_row_id x of None \<Rightarrow> sw_used s | Some i \<Rightarrow> i # sw_used s)\<rparr>)"

subsection \<open>What one step does to the grants\<close>

definition close_rows :: "(support_grant \<Rightarrow> bool) \<Rightarrow> instant \<Rightarrow> support_grant list \<Rightarrow> support_grant list" where
  "close_rows P now rows = update_where P (\<lambda>g. g\<lparr>sg_revokedAt := Some now\<rparr>) rows"

definition same_seat :: "support_grant \<Rightarrow> support_grant \<Rightarrow> bool" where
  "same_seat g r \<longleftrightarrow> sg_tenantId r = sg_tenantId g \<and> sg_supportMembershipId r = sg_supportMembershipId g"

definition open_row :: "instant \<Rightarrow> support_grant \<Rightarrow> support_grant list \<Rightarrow> support_grant list" where
  "open_row now g rows = close_rows (\<lambda>r. same_seat g r \<and> live_grant now r) now rows @ [g]"

lemma event_frame [simp]:
  "support_grants (support_event env now t u ty tgt i md db) = support_grants db"
  "access_requests (support_event env now t u ty tgt i md db) = access_requests db"
  "seats (support_event env now t u ty tgt i md db) = seats db"
  "accounts (support_event env now t u ty tgt i md db) = accounts db"
  "workspaces (support_event env now t u ty tgt i md db) = workspaces db"
  "support_mailboxes (support_event env now t u ty tgt i md db) = support_mailboxes db"
  "forwarding_rules (support_event env now t u ty tgt i md db) = forwarding_rules db"
  by (simp_all add: support_event_def)

lemma notices_frame [simp]:
  "support_grants (notifyApprovers t w db) = support_grants db"
  "access_requests (notifyApprovers t w db) = access_requests db"
  "support_grants (notifyRequester m t a db) = support_grants db"
  "access_requests (notifyRequester m t a db) = access_requests db"
  "alert_log (notifyApprovers t w db) = alert_log db"
  "alert_log (notifyRequester m t a db) = alert_log db"
  by (simp_all add: notifyApprovers_def notifyRequester_def split: option.splits)

lemma writes_frame [simp]:
  "support_grants (set_access_request i f db) = support_grants db"
  "access_requests (set_access_request i f db) = update_where (\<lambda>r. ar_id r = i) f (access_requests db)"
  "support_grants (end_grant i now db) = close_rows (\<lambda>g. sg_id g = i) now (support_grants db)"
  "access_requests (end_grant i now db) = access_requests db"
  "alert_log (set_access_request i f db) = alert_log db"
  "alert_log (end_grant i now db) = alert_log db"
  by (simp_all add: set_access_request_def end_grant_def close_rows_def)

lemma log_frames [simp]:
  "support_grants (logTenantSupportAccess env c tc s now db) = support_grants db"
  "access_requests (logTenantSupportAccess env c tc s now db) = access_requests db"
  "support_grants (logSupportAccess env who t p s now db) = support_grants db"
  "access_requests (logSupportAccess env who t p s now db) = access_requests db"
  by (simp_all add: logTenantSupportAccess_def logSupportAccess_def Let_def)

lemma scope_frame:
  "grantWithScope env t u sc now db = (r, db')
    \<Longrightarrow> support_grants db' = support_grants db \<and> access_requests db' = access_requests db
      \<and> support_mailboxes db' = support_mailboxes db"
  by (auto simp: grantWithScope_def Let_def split: option.splits if_splits)

lemma create_grant_Inr:
  "create_grant env i x t u now db = (Inr g, db')
    \<Longrightarrow> sg_id g = i \<and> sg_tenantId g = t \<and> sg_approvedByUserId g = u \<and> sg_revokedAt g = None
      \<and> sg_supportMembershipId g = gi_supportMembershipId x \<and> sg_scopes g = gi_scopes x \<and> sg_reason g = gi_reason x
      \<and> sg_ticketId g = gi_ticketId x \<and> sg_expiresAt g = now + gi_expiresInMinutes x * minute_ms
      \<and> (\<exists>m\<in>set (seats db). tm_id m = gi_supportMembershipId x \<and> tm_tenantId m = t \<and> tm_role m = SUPPORT \<and> tm_status m = MS_ACTIVE)
      \<and> support_grants db' = open_row now g (support_grants db) \<and> access_requests db' = access_requests db
      \<and> seats db' = seats db"
  by (auto simp: create_grant_def Let_def open_row_def close_rows_def same_seat_def
      dest!: find_row_SomeD split: option.splits sum.splits)

lemma create_grant_Inl: "create_grant env i x t u now db = (Inl e, db') \<Longrightarrow> db' = db"
  by (auto simp: create_grant_def Let_def split: option.splits sum.splits)

text \<open>A grant is opened by an approval or directly, by a session that passes the gate of either route.\<close>

fun opens :: "support_call \<Rightarrow> bool" where
  "opens (Approve_access i m) = True"
| "opens (Open_grant x) = True"
| "opens c = False"

definition opened ::
  "support_env \<Rightarrow> instant \<Rightarrow> api_request \<Rightarrow> uuid \<Rightarrow> support_call \<Rightarrow> support_db \<Rightarrow> support_grant \<Rightarrow> bool" where
  "opened env now rq i c db g \<longleftrightarrow> opens c \<and> schema_ok c
     \<and> (\<exists>tc. enter_workspace (se_tokens env) rq now db = Inr tc
          \<and> requireCapability (se_tokens env) ''support.grant.create'' rq (Some tc) now db = Inr ()
          \<and> sg_tenantId g = tc_tenantId tc \<and> sg_approvedByUserId g = tc_userId tc)
     \<and> sg_id g = i \<and> sg_revokedAt g = None
     \<and> (\<exists>m\<in>set (seats db). tm_id m = sg_supportMembershipId g \<and> tm_tenantId m = sg_tenantId g
          \<and> tm_role m = SUPPORT \<and> tm_status m = MS_ACTIVE)"

definition window :: "support_call \<Rightarrow> instant \<Rightarrow> support_db \<Rightarrow> support_grant \<Rightarrow> bool" where
  "window c now db g \<longleftrightarrow> (case c of
      Open_grant x \<Rightarrow> sg_expiresAt g = now + gi_expiresInMinutes x * minute_ms \<and> sg_scopes g = gi_scopes x
    | Approve_access i m \<Rightarrow> (\<exists>r\<in>set (access_requests db). ar_id r = i \<and> ar_status r = AR_PENDING
         \<and> ar_tenantId r = sg_tenantId g \<and> ar_supportMembershipId r = sg_supportMembershipId g \<and> sg_scopes g = ar_scopes r
         \<and> sg_reason g = ar_reason r
         \<and> sg_expiresAt g = now + min (case m of None \<Rightarrow> ar_requestedMinutes r | Some n \<Rightarrow> n) (ar_requestedMinutes r) * minute_ms)
    | _ \<Rightarrow> False)"

lemma approval_Inr:
  assumes "approveRequest env gid i m t u now db = (Inr g, db')"
  shows "sg_id g = gid \<and> sg_tenantId g = t \<and> sg_approvedByUserId g = u \<and> sg_revokedAt g = None
      \<and> window (Approve_access i m) now db g
      \<and> (\<exists>m\<in>set (seats db). tm_id m = sg_supportMembershipId g \<and> tm_tenantId m = t \<and> tm_role m = SUPPORT \<and> tm_status m = MS_ACTIVE)
      \<and> support_grants db' = open_row now g (support_grants db)
      \<and> access_requests db' = update_where (\<lambda>r. ar_id r = i) (\<lambda>x. x\<lparr>ar_status := AR_APPROVED, ar_decidedBy := Some u,
           ar_decidedAt := Some now, ar_grantId := Some gid\<rparr>) (access_requests db)"
  using assms
  by (auto simp: approveRequest_def window_def pending_request_def Let_def
      dest!: create_grant_Inr find_row_SomeD split: option.splits prod.splits sum.splits)

lemma approval_Inl: "approveRequest env gid i m t u now db = (Inl e, db') \<Longrightarrow> db' = db"
  by (auto simp: approveRequest_def Let_def dest: create_grant_Inl split: option.splits prod.splits sum.splits)

lemma answered_iff:
  "answered f x = (Inr v, db) \<longleftrightarrow> (\<exists>w. x = (Inr w, db) \<and> v = f w)"
  "answered f x = (Inl e, db) \<longleftrightarrow> x = (Inl e, db)"
  by (auto simp: answered_def split: prod.splits sum.splits)

lemma snd_answered [simp]: "snd (answered f x) = snd x"
  by (auto simp: answered_def split: prod.splits sum.splits)

text \<open>The effect of a request on the grants: none, some end, or one is opened.\<close>

definition grants_step ::
  "support_env \<Rightarrow> instant \<Rightarrow> api_request \<Rightarrow> uuid \<Rightarrow> support_call \<Rightarrow> support_db \<Rightarrow> support_db \<Rightarrow> bool" where
  "grants_step env now rq i c db db' \<longleftrightarrow>
     support_grants db' = support_grants db
     \<or> (\<exists>P. support_grants db' = close_rows P now (support_grants db))
     \<or> (\<exists>g. opened env now rq i c db g \<and> window c now db g \<and> support_grants db' = open_row now g (support_grants db))"

lemma quiet_ops:
  "support_grants (snd (requestAccess env i x tc now db)) = support_grants db"
  "support_grants (snd (denyRequest env r t u now db)) = support_grants db"
  "support_grants (snd (withdrawRequest env r tc now db)) = support_grants db"
  "support_grants (snd (diagnostics env gi tc now db)) = support_grants db"
  "support_grants (snd (platformDiagnostics env gi who now db)) = support_grants db"
  by (simp add: requestAccess_def Let_def split: sum.split)
     (simp_all add: denyRequest_def withdrawRequest_def diagnostics_def platformDiagnostics_def split: option.split)

lemma quiet_reset: "support_grants (snd (resetMailboxSetting env b s t u now db)) = support_grants db"
proof (cases "grantWithScope env t u MAILBOX_ADMIN now db")
  case (Pair r db1)
  then show ?thesis using scope_frame [OF Pair]
    by (cases r; cases s)
       (simp_all add: resetMailboxSetting_def Let_def split: option.split)
qed

lemma quiet_read: "support_grants (snd (mailboxMessages env b f q l t u now db)) = support_grants db"
proof (cases "grantWithScope env t u MAIL_CONTENT now db")
  case (Pair r db1)
  then show ?thesis using scope_frame [OF Pair]
    by (cases r) (simp_all add: mailboxMessages_def Let_def split: option.split)
qed

lemma revokes:
  "\<exists>P. support_grants (snd (revoke env i t u now db)) = close_rows P now (support_grants db)
     \<or> support_grants (snd (revoke env i t u now db)) = support_grants db"
  "\<exists>P. support_grants (snd (revokeGrant env i who now db)) = close_rows P now (support_grants db)
     \<or> support_grants (snd (revokeGrant env i who now db)) = support_grants db"
  by (cases "find_row (\<lambda>g. sg_id g = i \<and> sg_tenantId g = t \<and> sg_revokedAt g = None) (support_grants db)")
     (auto simp: revoke_def revokeGrant_def split: option.split)

lemma grants_openedI:
  "opened env now rq i c db g \<Longrightarrow> window c now db g \<Longrightarrow> support_grants db' = open_row now g (support_grants db)
    \<Longrightarrow> grants_step env now rq i c db db'"
  unfolding grants_step_def by blast

lemma grants_same: "support_grants db' = support_grants db \<Longrightarrow> grants_step env now rq i c db db'"
  by (simp add: grants_step_def)

lemma handle_grants:
  assumes e: "enter_workspace (se_tokens env) rq now db = Inr tc"
    and g: "route_gate env c rq tc now db = Inr ()" and s: "schema_ok c"
  shows "grants_step env now rq i c db (snd (handle env i c tc now db))"
proof (cases c)
  case (Approve_access r m)
  show ?thesis
  proof (cases "approveRequest env i r m (tc_tenantId tc) (tc_userId tc) now db")
    case (Pair a db')
    show ?thesis
    proof (cases a)
      case (Inl x)
      with Pair Approve_access show ?thesis by (auto dest: approval_Inl intro: grants_same)
    next
      case (Inr b)
      with approval_Inr [of env i r m "tc_tenantId tc" "tc_userId tc" now db b db'] Pair Approve_access assms
      show ?thesis by (intro grants_openedI [of env now rq i c db b]) (auto simp: opened_def)
    qed
  qed
next
  case (Open_grant x)
  show ?thesis
  proof (cases "create_grant env i x (tc_tenantId tc) (tc_userId tc) now db")
    case (Pair a db')
    show ?thesis
    proof (cases a)
      case (Inl y)
      with Pair Open_grant show ?thesis by (auto dest: create_grant_Inl intro: grants_same)
    next
      case (Inr b)
      with create_grant_Inr [of env i x "tc_tenantId tc" "tc_userId tc" now db b db'] Pair Open_grant assms
      show ?thesis by (intro grants_openedI [of env now rq i c db b]) (auto simp: opened_def window_def)
    qed
  qed
next
  case (End_grant x)
  then show ?thesis using revokes(1) [of env x "tc_tenantId tc" "tc_userId tc" now db] by (auto simp: grants_step_def)
qed (auto simp: grants_step_def quiet_ops quiet_reset quiet_read)

lemma console_grants: "grants_step env now rq i c db (snd (console_request env rq i now c db))"
proof (cases "enter_workspace (se_tokens env) rq now db")
  case (Inr tc)
  then show ?thesis
  proof (cases "route_gate env c rq tc now db = Inr () \<and> schema_ok c")
    case True
    with handle_grants [OF Inr, of c i] Inr show ?thesis
      by (auto simp: console_request_def grants_step_def split: prod.splits)
  qed (auto simp: console_request_def grants_step_def split: sum.splits prod.splits)
qed (simp add: console_request_def grants_step_def)

lemma staff_grants:
  "\<exists>P. support_grants (snd (staff_request env h now c db)) = close_rows P now (support_grants db)
     \<or> support_grants (snd (staff_request env h now c db)) = support_grants db"
proof -
  have pass: "support_grants db1 = support_grants db" if "requireTenantGrant env who t now db = (x, db1)" for who t x db1
    using that by (auto simp: requireTenantGrant_def split: option.splits if_splits)
  have hand: "\<exists>P. support_grants (snd (staff_handle env c who now db1)) = close_rows P now (support_grants db1)
     \<or> support_grants (snd (staff_handle env c who now db1)) = support_grants db1" for who db1
    by (cases c) (use revokes(2) in \<open>auto simp: quiet_ops\<close>)
  show ?thesis
    by (auto simp: staff_request_def dest!: pass split: sum.splits prod.splits) (metis hand snd_conv)
qed

subsection \<open>One live grant to a seat\<close>

definition live_at :: "instant \<Rightarrow> uuid \<Rightarrow> uuid \<Rightarrow> support_grant list \<Rightarrow> support_grant list" where
  "live_at t tenant seat rows = filter (\<lambda>g. sg_tenantId g = tenant \<and> sg_supportMembershipId g = seat \<and> live_grant t g) rows"

definition access_ok :: "support_world \<Rightarrow> bool" where
  "access_ok s \<longleftrightarrow>
     (\<forall>t\<ge>sw_now s. \<forall>tenant seat. length (live_at t tenant seat (support_grants (sw_db s))) \<le> 1)
     \<and> (\<forall>r\<in>set (access_requests (sw_db s)). minutes_ok (ar_requestedMinutes r) \<and> ar_id r \<in> set (sw_used s))"

lemma live_at_close: "length (live_at t tn st (close_rows P now rows)) \<le> length (live_at t tn st rows)"
  by (induction rows) (auto simp: live_at_def close_rows_def update_where_def live_grant_def)

lemma live_at_filter: "length (live_at t tn st (filter P rows)) \<le> length (live_at t tn st rows)"
  by (induction rows) (auto simp: live_at_def)

lemma live_later: "now \<le> t \<Longrightarrow> live_grant t g \<Longrightarrow> live_grant now g"
  by (auto simp: live_grant_def)

lemma live_at_open:
  assumes "now \<le> t" "length (live_at t tn st rows) \<le> 1"
  shows "length (live_at t tn st (open_row now g rows)) \<le> 1"
proof (cases "sg_tenantId g = tn \<and> sg_supportMembershipId g = st")
  case True
  then have "live_at t tn st (close_rows (\<lambda>r. same_seat g r \<and> live_grant now r) now rows) = []"
    by (auto simp: live_at_def close_rows_def filter_empty_conv table_simps same_seat_def live_later [OF assms(1)])
       (simp add: live_grant_def)
  then show ?thesis by (simp add: open_row_def live_at_def)
next
  case False
  have "live_at t tn st (open_row now g rows) = live_at t tn st (close_rows (\<lambda>r. same_seat g r \<and> live_grant now r) now rows)"
    using False by (auto simp: open_row_def live_at_def)
  with assms(2) live_at_close [of t tn st _ now rows] show ?thesis by (metis le_trans)
qed

lemma quiet_reset_requests: "access_requests (snd (resetMailboxSetting env b x t u now db)) = access_requests db"
proof (cases "grantWithScope env t u MAILBOX_ADMIN now db")
  case (Pair r db1)
  then show ?thesis using scope_frame [OF Pair]
    by (cases r; cases x)
       (simp_all add: resetMailboxSetting_def Let_def split: option.split)
qed

lemma quiet_read_requests: "access_requests (snd (mailboxMessages env b f q l t u now db)) = access_requests db"
proof (cases "grantWithScope env t u MAIL_CONTENT now db")
  case (Pair r db1)
  then show ?thesis using scope_frame [OF Pair]
    by (cases r) (simp_all add: mailboxMessages_def Let_def split: option.split)
qed

lemma quiet_create_requests: "access_requests (snd (create_grant env i y t u now db)) = access_requests db"
  by (simp add: create_grant_def Let_def split: option.split sum.split)

lemma quiet_requests:
  "access_requests (snd (diagnostics env gi tc now db)) = access_requests db"
  "access_requests (snd (platformDiagnostics env gi who now db)) = access_requests db"
  "access_requests (snd (revoke env i t u now db)) = access_requests db"
  "access_requests (snd (revokeGrant env i who now db)) = access_requests db"
  by (simp_all add: diagnostics_def platformDiagnostics_def revoke_def revokeGrant_def split: option.split)

lemmas quiet_request_rows = quiet_requests quiet_reset_requests quiet_read_requests quiet_create_requests

text \<open>A request joins as pending, or its decision is written.\<close>

definition decided :: "access_request \<Rightarrow> access_request \<Rightarrow> bool" where
  "decided r r' \<longleftrightarrow> ar_id r' = ar_id r \<and> ar_tenantId r' = ar_tenantId r
     \<and> ar_supportMembershipId r' = ar_supportMembershipId r
     \<and> ar_scopes r' = ar_scopes r \<and> ar_requestedMinutes r' = ar_requestedMinutes r \<and> ar_status r' \<noteq> AR_PENDING"

lemma decided_writes [simp]:
  "decided r (r\<lparr>ar_status := AR_APPROVED, ar_decidedBy := a, ar_decidedAt := b, ar_grantId := c\<rparr>)"
  "decided r (r\<lparr>ar_status := AR_DENIED, ar_decidedBy := a, ar_decidedAt := b\<rparr>)"
  "decided r (r\<lparr>ar_status := AR_WITHDRAWN, ar_decidedAt := b\<rparr>)"
  by (simp_all add: decided_def)

lemma decided_rows:
  assumes "r' \<in> set (update_where P f rows)" "\<And>r. decided r (f r)"
  shows "r' \<in> set rows \<or> (\<exists>r\<in>set rows. decided r r')"
  using assms by (auto simp: update_where_def)

lemma handle_requests:
  assumes s: "schema_ok c" and r: "r' \<in> set (access_requests (snd (handle env i c tc now db)))"
  shows "r' \<in> set (access_requests db)
    \<or> (\<exists>x. c = Ask_access x \<and> ar_id r' = i \<and> ar_status r' = AR_PENDING \<and> minutes_ok (ar_requestedMinutes r'))
    \<or> (\<exists>r\<in>set (access_requests db). decided r r')"
proof (cases c)
  case (Ask_access x)
  with assms show ?thesis
    by (auto simp: requestAccess_def Let_def split: sum.splits if_splits)
next
  case (Approve_access q m)
  show ?thesis
  proof (cases "approveRequest env i q m (tc_tenantId tc) (tc_userId tc) now db")
    case (Pair a db')
    then show ?thesis using Approve_access r
      by (cases a) (auto dest: approval_Inl dest!: approval_Inr decided_rows)
  qed
next
  case (Deny_access q)
  with r show ?thesis
    by (auto simp: denyRequest_def dest!: decided_rows split: option.splits)
next
  case (Withdraw_access q)
  with r show ?thesis
    by (auto simp: withdrawRequest_def dest!: decided_rows split: option.splits if_splits)
qed (use r in \<open>auto simp: quiet_request_rows\<close>)

lemma console_requests:
  assumes "r' \<in> set (access_requests (snd (console_request env rq i now c db)))"
  shows "r' \<in> set (access_requests db)
    \<or> (\<exists>x. c = Ask_access x \<and> ar_id r' = i \<and> ar_status r' = AR_PENDING \<and> minutes_ok (ar_requestedMinutes r'))
    \<or> (\<exists>r\<in>set (access_requests db). decided r r')"
proof (cases "enter_workspace (se_tokens env) rq now db")
  case (Inr tc)
  show ?thesis
  proof (cases "route_gate env c rq tc now db = Inr () \<and> schema_ok c")
    case True
    then have "r' \<in> set (access_requests (snd (handle env i c tc now db)))"
      using assms Inr by (auto simp: console_request_def split: prod.splits)
    with True show ?thesis by (intro handle_requests) auto
  next
    case False
    with assms Inr show ?thesis by (auto simp: console_request_def split: sum.splits prod.splits if_splits)
  qed
qed (use assms in \<open>simp add: console_request_def\<close>)

lemma staff_requests: "access_requests (snd (staff_request env h now c db)) = access_requests db"
proof -
  have pass: "access_requests db1 = access_requests db" if "requireTenantGrant env who t now db = (x, db1)" for who t x db1
    using that by (auto simp: requireTenantGrant_def split: option.splits if_splits)
  have hand: "access_requests (snd (staff_handle env c who now db1)) = access_requests db1" for who db1
    by (cases c) (auto simp: quiet_request_rows)
  show ?thesis
    by (auto simp: staff_request_def dest!: pass split: sum.splits prod.splits) (metis hand snd_conv)
qed

lemma live_at_step:
  assumes "grants_step env now rq i c db db'" "now \<le> t" "length (live_at t tn st (support_grants db)) \<le> 1"
  shows "length (live_at t tn st (support_grants db')) \<le> 1"
  using assms live_at_close [of t tn st _ now "support_grants db"] live_at_open [of now t tn st "support_grants db"]
  unfolding grants_step_def by (metis le_trans)

lemma access_step_ok:
  assumes "access_ok s" shows "access_ok (support_step env s x)"
proof -
  obtain wait op where x: "x = (wait, op)" by (cases x)
  let ?now = "sw_now s + int wait"
  note s = assms [unfolded access_ok_def]
  have l: "length (live_at t tn st (support_grants (sw_db s))) \<le> 1" if "?now \<le> t" for t tn st
    using s that by simp
  show ?thesis
  proof (cases op)
    case (Console rq i c)
    show ?thesis
    proof (cases "reused s op")
      case True
      with s x Console show ?thesis by (auto simp: access_ok_def Let_def)
    next
      case False
      have "minutes_ok (ar_requestedMinutes r) \<and> ar_id r \<in> set (i # sw_used s)"
        if "r \<in> set (access_requests (snd (console_request env rq i ?now c (sw_db s))))" for r
        using console_requests [OF that] s by (auto simp: decided_def)
      moreover have "length (live_at t tn st (support_grants (snd (console_request env rq i ?now c (sw_db s))))) \<le> 1"
        if "?now \<le> t" for t tn st
        by (rule live_at_step [OF console_grants that l [OF that]])
      ultimately show ?thesis using False x Console by (simp add: access_ok_def Let_def)
    qed
  next
    case (Staff h c)
    obtain P where "support_grants (snd (staff_request env h ?now c (sw_db s))) = close_rows P ?now (support_grants (sw_db s))
        \<or> support_grants (snd (staff_request env h ?now c (sw_db s))) = support_grants (sw_db s)"
      using staff_grants by blast
    then have "length (live_at t tn st (support_grants (snd (staff_request env h ?now c (sw_db s)))))
        \<le> length (live_at t tn st (support_grants (sw_db s)))" for t tn st
      using live_at_close [of t tn st P ?now "support_grants (sw_db s)"] by auto
    then have "length (live_at t tn st (support_grants (snd (staff_request env h ?now c (sw_db s))))) \<le> 1"
      if "?now \<le> t" for t tn st using l [OF that] le_trans by blast
    with s x Staff show ?thesis by (auto simp: access_ok_def Let_def staff_requests)
  next
    case (Elsewhere y)
    have "length (live_at t tn st (filter P (support_grants (sw_db s)))) \<le> 1" if "?now \<le> t" for t tn st P
      by (rule le_trans [OF live_at_filter l [OF that]])
    with s x Elsewhere show ?thesis by (simp add: access_ok_def Let_def elsewhere_def)
  qed
qed

interpretation access: op_machine "support_step env" access_ok for env
  by unfold_locales (rule access_step_ok)

text \<open>
  C23: A seat of the support never holds two live grants: whatever requests to the two consoles and changes
  elsewhere follow a state without one, opening a grant ends the one before. So the scopes a use is checked
  against are those of the last approval and no older, wider grant.
\<close>

theorem one_live_grant:
  assumes "support_grants (sw_db s) = []" "access_requests (sw_db s) = []"
  shows "length (live_at (sw_now (foldl (support_step env) s xs)) tenant seat
      (support_grants (sw_db (foldl (support_step env) s xs)))) \<le> 1"
proof -
  have "access_ok s" using assms by (simp add: access_ok_def live_at_def)
  from access.run_inv [OF this, of env xs] show ?thesis by (simp add: access_ok_def)
qed

subsection \<open>Where a read of mail comes from\<close>

lemma create_capability: "capability_of ''support.grant.create'' = Some Support_Grant_Create"
  by code_simp

lemma read_capability: "capability_of ''mail.other.read'' = Some Mail_Other_Read"
  by code_simp

lemma create_holders: "matrixKind r Support_Grant_Create = (if r = OWNER then Some STEP_UP else None)"
  by (cases r) (simp_all add: matrixKind_def OWNER_matrix_def ADMIN_matrix_def MEMBER_matrix_def SUPPORT_matrix_def)

lemma read_holders: "matrixKind r Mail_Other_Read \<noteq> None \<Longrightarrow> r = SUPPORT"
  by (cases r) (simp_all add: matrixKind_def OWNER_matrix_def ADMIN_matrix_def MEMBER_matrix_def SUPPORT_matrix_def)

lemma acting_owner: "actingRole m w = Some OWNER \<Longrightarrow> m = OWNER"
  by (cases m; cases w) (auto simp: actingRole_def)

text \<open>An Owner, with a password check for this workspace that is still fresh.\<close>

definition owner_confirms :: "token_env \<Rightarrow> api_request \<Rightarrow> instant \<Rightarrow> 'a gate_db_scheme \<Rightarrow> tenant_session \<Rightarrow> bool" where
  "owner_confirms env rq now db tc \<longleftrightarrow> enter_workspace env rq now db = Inr tc \<and> tc_membershipRole tc = OWNER
     \<and> session_stands tc db \<and> verifyStepUpToken env (rq_step_up rq) (tc_userId tc) (tc_tenantId tc) now"

lemma creator_is_owner:
  assumes e: "enter_workspace env rq now db = Inr tc"
    and c: "requireCapability env ''support.grant.create'' rq (Some tc) now db = Inr ()"
  shows "owner_confirms env rq now db tc"
proof -
  have st: "session_stands tc db" by (rule enter_stands [OF e])
  then have a: "actingRole (tc_membershipRole tc) (tc_workspace tc) = Some (tc_role tc)" by (simp add: session_stands_def)
  from c have cl: "clears env rq now db tc Support_Grant_Create"
    by (simp add: capability_clears [OF a] create_capability)
  then have "tc_role tc = OWNER" by (auto simp: clears_def create_holders split: if_splits)
  with a cl e st show ?thesis
    by (auto simp: owner_confirms_def clears_def create_holders dest: acting_owner)
qed

lemma reader_is_support:
  assumes e: "enter_workspace env rq now db = Inr tc"
    and c: "requireCapability env ''mail.other.read'' rq (Some tc) now db = Inr ()"
  shows "tc_membershipRole tc = SUPPORT"
proof -
  have a: "actingRole (tc_membershipRole tc) (tc_workspace tc) = Some (tc_role tc)"
    using enter_stands [OF e] by (simp add: session_stands_def)
  from c have "clears env rq now db tc Mail_Other_Read"
    by (simp add: capability_clears [OF a] read_capability)
  then have "matrixKind (tc_role tc) Mail_Other_Read \<noteq> None" by (auto simp: clears_def split: option.splits)
  with a read_holders [of "tc_role tc"] show ?thesis by (simp add: acting_support)
qed

definition grant_key :: "support_grant \<Rightarrow> uuid \<times> uuid \<times> support_scope list \<times> instant" where
  "grant_key g = (sg_tenantId g, sg_supportMembershipId g, sg_scopes g, sg_expiresAt g)"

definition stands :: "uuid \<times> uuid \<times> support_scope list \<times> instant \<Rightarrow> support_world \<Rightarrow> bool" where
  "stands k s \<longleftrightarrow> k \<in> grant_key ` set (support_grants (sw_db s))"

definition confirmed ::
  "support_env \<Rightarrow> uuid \<times> uuid \<times> support_scope list \<times> instant \<Rightarrow> support_world \<Rightarrow> nat \<times> support_op \<Rightarrow> bool" where
  "confirmed env k s x \<longleftrightarrow> (case x of
      (wait, Console rq i c) \<Rightarrow>
        (let now = sw_now s + int wait in
          \<exists>g tc. k = grant_key g \<and> opened env now rq i c (sw_db s) g \<and> window c now (sw_db s) g
            \<and> owner_confirms (se_tokens env) rq now (sw_db s) tc
            \<and> tc_tenantId tc = sg_tenantId g \<and> sg_approvedByUserId g = tc_userId tc
            \<and> sg_expiresAt g \<le> now + 240 * minute_ms)
    | _ \<Rightarrow> False)"

lemma opened_confirms:
  assumes "opened env now rq i c db g" "window c now db g" "\<forall>r\<in>set (access_requests db). minutes_ok (ar_requestedMinutes r)"
  shows "(\<exists>tc. owner_confirms (se_tokens env) rq now db tc \<and> tc_tenantId tc = sg_tenantId g \<and> sg_approvedByUserId g = tc_userId tc)
     \<and> sg_expiresAt g \<le> now + 240 * minute_ms"
proof
  show "\<exists>tc. owner_confirms (se_tokens env) rq now db tc \<and> tc_tenantId tc = sg_tenantId g \<and> sg_approvedByUserId g = tc_userId tc"
    using assms(1) by (auto simp: opened_def dest: creator_is_owner)
  show "sg_expiresAt g \<le> now + 240 * minute_ms"
    using assms by (cases c) (auto simp: opened_def window_def minutes_ok_def minute_ms_def split: option.splits)
qed

lemma close_keys: "grant_key ` set (close_rows P now rows) = grant_key ` set rows"
  by (induction rows) (simp_all add: close_rows_def update_where_def grant_key_def)

lemma stands_earned:
  assumes ok: "access_ok s" and k: "stands k (support_step env s x)"
  shows "stands k s \<or> confirmed env k s x"
proof -
  obtain wait op where x: "x = (wait, op)" by (cases x)
  let ?now = "sw_now s + int wait"
  show ?thesis
  proof (cases op)
    case (Console rq i c)
    from console_grants [of env ?now rq i c "sw_db s"] show ?thesis
      unfolding grants_step_def
    proof (elim disjE exE conjE)
      fix g assume g: "opened env ?now rq i c (sw_db s) g" "window c ?now (sw_db s) g"
        and rows: "support_grants (snd (console_request env rq i ?now c (sw_db s))) = open_row ?now g (support_grants (sw_db s))"
      from opened_confirms [OF g] ok obtain tc where tc: "owner_confirms (se_tokens env) rq ?now (sw_db s) tc"
          "tc_tenantId tc = sg_tenantId g" "sg_approvedByUserId g = tc_userId tc" "sg_expiresAt g \<le> ?now + 240 * minute_ms"
        by (auto simp: access_ok_def)
      from k rows x Console have "k = grant_key g \<or> stands k s"
        by (auto simp: stands_def Let_def open_row_def image_Un close_keys split: if_splits)
      with g tc x Console show ?thesis by (auto simp: confirmed_def Let_def)
    qed (use k x Console in \<open>auto simp: stands_def Let_def close_keys split: if_splits\<close>)
  next
    case (Staff h c)
    obtain P where "support_grants (snd (staff_request env h ?now c (sw_db s))) = close_rows P ?now (support_grants (sw_db s))
        \<or> support_grants (snd (staff_request env h ?now c (sw_db s))) = support_grants (sw_db s)"
      using staff_grants by blast
    with k x Staff show ?thesis by (elim disjE) (simp_all add: stands_def Let_def close_keys)
  next
    case (Elsewhere y)
    with k x show ?thesis by (auto simp: stands_def Let_def elsewhere_def)
  qed
qed

interpretation access_proof: evidence "support_step env" access_ok "confirmed env" stands for env
  by unfold_locales (rule stands_earned)

lemma read_uses_grant:
  assumes "console_request env rq i now (Read_messages b f q l) db = (Inr (A_messages ms), db')"
  shows "\<exists>tc g. enter_workspace (se_tokens env) rq now db = Inr tc \<and> tc_membershipRole tc = SUPPORT
    \<and> g \<in> set (support_grants db) \<and> sg_tenantId g = tc_tenantId tc \<and> seat_of (tc_userId tc) g db
    \<and> live_grant now g \<and> MAIL_CONTENT \<in> set (sg_scopes g)"
proof -
  from assms obtain tc where e: "enter_workspace (se_tokens env) rq now db = Inr tc"
    by (auto simp: console_request_def split: sum.splits)
  from assms e have c: "requireCapability (se_tokens env) ''mail.other.read'' rq (Some tc) now db = Inr ()"
    and h: "\<exists>db1. mailboxMessages env b f q l (tc_tenantId tc) (tc_userId tc) now db = (Inr ms, db1)"
    by (auto simp: console_request_def answered_iff split: sum.splits prod.splits)
  have "\<exists>g. grantWithScope env (tc_tenantId tc) (tc_userId tc) MAIL_CONTENT now db = (Inr g, db)"
  proof (cases "grantWithScope env (tc_tenantId tc) (tc_userId tc) MAIL_CONTENT now db")
    case (Pair r db1)
    with h obtain g where "r = Inr g" by (cases r) (auto simp: mailboxMessages_def)
    with Pair show ?thesis by (auto simp: grantWithScope_def Let_def split: option.splits if_splits)
  qed
  then obtain g where "grantWithScope env (tc_tenantId tc) (tc_userId tc) MAIL_CONTENT now db = (Inr g, db)" by blast
  then have "g \<in> set (filter (\<lambda>g. sg_tenantId g = tc_tenantId tc \<and> seat_of (tc_userId tc) g db \<and> live_grant now g) (support_grants db))
      \<and> MAIL_CONTENT \<in> set (sg_scopes g)"
    by (auto simp: grantWithScope_def Let_def dest!: latest_by_mem split: option.splits if_splits)
  with e reader_is_support [OF e c] show ?thesis by auto
qed


subsection \<open>One decision for a request\<close>

fun decides :: "uuid \<Rightarrow> support_call \<Rightarrow> bool" where
  "decides r (Approve_access i m) = (i = r)"
| "decides r (Deny_access i) = (i = r)"
| "decides r (Withdraw_access i) = (i = r)"
| "decides r c = False"

definition decision_of :: "support_env \<Rightarrow> uuid \<Rightarrow> support_world \<Rightarrow> nat \<times> support_op \<Rightarrow> bool" where
  "decision_of env r s x \<longleftrightarrow> (case x of
      (wait, Console rq i c) \<Rightarrow> decides r c \<and> \<not> reused s (Console rq i c)
        \<and> \<not> isl (fst (console_request env rq i (sw_now s + int wait) c (sw_db s)))
    | _ \<Rightarrow> False)"

definition closed :: "uuid \<Rightarrow> support_world \<Rightarrow> bool" where
  "closed r s \<longleftrightarrow> r \<in> set (sw_used s) \<and> (\<forall>x\<in>set (access_requests (sw_db s)). ar_id x = r \<longrightarrow> ar_status x \<noteq> AR_PENDING)"

lemma handle_decides:
  assumes "decides r c" "\<not> isl (fst (handle env i c tc now db))"
  shows "(\<exists>x\<in>set (access_requests db). ar_id x = r \<and> ar_status x = AR_PENDING)
    \<and> (\<forall>x\<in>set (access_requests (snd (handle env i c tc now db))). ar_id x = r \<longrightarrow> ar_status x \<noteq> AR_PENDING)"
proof (cases c)
  case (Approve_access q m)
  show ?thesis
  proof (cases "approveRequest env i q m (tc_tenantId tc) (tc_userId tc) now db")
    case (Pair a db')
    with Approve_access assms(2) obtain g where a: "a = Inr g" by (cases a) (auto simp: answered_def)
    from approval_Inr [OF Pair [unfolded a]] Pair a Approve_access assms(1) show ?thesis
      by (auto simp: window_def table_simps)
  qed
next
  case (Deny_access q)
  with assms show ?thesis
    by (auto simp: denyRequest_def pending_request_def answered_def table_simps dest!: find_row_SomeD split: option.splits)
next
  case (Withdraw_access q)
  with assms show ?thesis
    by (auto simp: withdrawRequest_def pending_request_def answered_def table_simps
        dest!: find_row_SomeD split: option.splits if_splits)
qed (use assms in simp_all)

lemma console_decides:
  assumes "decides r c" "\<not> isl (fst (console_request env rq i now c db))"
  shows "(\<exists>x\<in>set (access_requests db). ar_id x = r \<and> ar_status x = AR_PENDING)
    \<and> (\<forall>x\<in>set (access_requests (snd (console_request env rq i now c db))). ar_id x = r \<longrightarrow> ar_status x \<noteq> AR_PENDING)"
proof -
  from assms(2) obtain tc where e: "enter_workspace (se_tokens env) rq now db = Inr tc"
    by (cases "enter_workspace (se_tokens env) rq now db") (auto simp: console_request_def)
  from assms(2) e have g: "route_gate env c rq tc now db = Inr ()" "schema_ok c"
    by (cases "route_gate env c rq tc now db"; auto simp: console_request_def split: if_splits)+
  have h: "fst (console_request env rq i now c db) = fst (handle env i c tc now db)"
    "access_requests (snd (console_request env rq i now c db)) = access_requests (snd (handle env i c tc now db))"
    using e g by (auto simp: console_request_def split: prod.splits)
  show ?thesis using handle_decides [of r c env i tc now db] assms h by simp
qed

lemma closed_stays:
  assumes ok: "access_ok s" and c: "closed r s"
  shows "closed r (support_step env s x)"
proof -
  obtain wait op where x: "x = (wait, op)" by (cases x)
  let ?now = "sw_now s + int wait"
  show ?thesis
  proof (cases op)
    case (Console rq i y)
    show ?thesis
    proof (cases "reused s op")
      case False
      then have i: "i \<notin> set (sw_used s)" using Console by (simp add: reused_def)
      have "ar_status z \<noteq> AR_PENDING"
        if "z \<in> set (access_requests (snd (console_request env rq i ?now y (sw_db s))))" "ar_id z = r" for z
        using console_requests [OF that(1)] c i that(2) by (auto simp: closed_def decided_def)
      with False Console x c show ?thesis by (simp add: closed_def Let_def)
    qed (use c x in \<open>simp add: closed_def Let_def\<close>)
  qed (use c x in \<open>auto simp: closed_def Let_def staff_requests elsewhere_def\<close>)
qed

interpretation access_decisions: single_use "support_step env" access_ok "decision_of env" closed for env
proof unfold_locales
  fix s x r assume ok: "access_ok s" and d: "decision_of env r s x"
  then obtain wait rq i c where x: "x = (wait, Console rq i c)" and c: "decides r c" "\<not> reused s (Console rq i c)"
      "\<not> isl (fst (console_request env rq i (sw_now s + int wait) c (sw_db s)))"
    by (auto simp: decision_of_def split: prod.splits support_op.splits)
  note q = console_decides [OF c(1,3)]
  show "\<not> closed r s" using q by (auto simp: closed_def)
  have "r \<in> set (sw_used s)" using q ok by (auto simp: access_ok_def)
  with q c(2) x show "closed r (support_step env s x)" by (simp add: closed_def Let_def)
qed (rule closed_stays)

text \<open>
  A request for access is decided once: over every sequence of requests, at most one approval, refusal or
  withdrawal of it succeeds, so a request its author took back opens nothing later.
\<close>

theorem request_decided_once:
  assumes "support_grants (sw_db s) = []" "access_requests (sw_db s) = []"
  shows "count_uses (support_step env) (decision_of env) r s xs \<le> 1"
  by (rule access_decisions.spends_at_most_once) (use assms in \<open>simp add: access_ok_def live_at_def\<close>)

subsection \<open>The gate of the staff's console\<close>

definition staff_member :: "support_env \<Rightarrow> string option \<Rightarrow> instant \<Rightarrow> staff_caller result" where
  "staff_member env h now = (case authenticateStaff (se_tokens env) h now of
      Inl e \<Rightarrow> Inl e | Inr x \<Rightarrow> requireSupportAccess x)"

lemma staff_request_pass:
  assumes "staff_member env h now = Inr who"
  shows "staff_request env h now c db =
     (case requireTenantGrant env who (gate_tenant c) now db of
        (Inl e, db1) \<Rightarrow> (Inl e, db1)
      | (Inr pass, db1) \<Rightarrow>
          let (r, db2) = staff_handle env c who now db1
          in (r, logSupportAccess env who (log_tenant c) pass (status_of r) now db2))"
  using assms by (auto simp: staff_request_def staff_member_def split: sum.splits)

definition holds_grant :: "staff_caller \<Rightarrow> uuid \<Rightarrow> instant \<Rightarrow> support_db \<Rightarrow> bool" where
  "holds_grant who t now db \<longleftrightarrow>
     (\<exists>g\<in>set (support_grants db). sg_tenantId g = t \<and> live_grant now g \<and> seat_of (sc_userId who) g db)"

lemma active_grant: "(\<exists>g. activeGrantFor (sc_userId who) t now db = Some g) \<longleftrightarrow> holds_grant who t now db"
  by (auto simp: activeGrantFor_def holds_grant_def find_row_None_iff not_None_eq [symmetric] simp del: not_None_eq)

definition names_access :: "staff_caller \<Rightarrow> uuid \<Rightarrow> string \<Rightarrow> audit_event \<Rightarrow> bool" where
  "names_access who t ty e \<longleftrightarrow> ev_tenantId e = t \<and> actorUserId e = Some (sc_userId who) \<and> eventType e = ty
     \<and> actorType e = AT_SUPPORT"

lemma support_event_log:
  "\<exists>e. alert_log (support_event env now t (sc_userId who) ty tgt i md db) = alert_log db @ [e] \<and> names_access who t ty e"
  by (simp add: support_event_def log_event_def record_event_def names_access_def)

lemma logged_access:
  "\<exists>e. alert_log (logSupportAccess env who (Some t) pass 200 now db) = alert_log db @ [e]
     \<and> names_access who t (if pass = Break_Glass then ''SUPPORT_BREAK_GLASS_ACCESS'' else ''SUPPORT_ACCESS_USED'') e"
  by (simp add: logSupportAccess_def record_event_def names_access_def)

text \<open>
  C21: A read of the staff's console whose path spells the workspace as the gate expects is served exactly to a
  member of staff with a live grant of that workspace, or to a super administrator; and the workspace's log
  tells, under this name, which of the two it was, or that it was refused.
\<close>

theorem staff_read_is_gated:
  assumes who: "staff_member env h now = Inr who" and t: "TENANT_IN_PATH path = Some t"
  shows "let (a, db') = staff_request env h now (Staff_Read path params query (Inr ())) db;
             glass = (sc_platformRole who = PR_SUPER_ADMIN)
    in (a = Inr A_done \<longleftrightarrow> holds_grant who t now db \<or> glass)
       \<and> (\<exists>e. alert_log db' = alert_log db @ [e] \<and> names_access who t
            (if holds_grant who t now db then ''SUPPORT_ACCESS_USED''
             else if glass then ''SUPPORT_BREAK_GLASS_ACCESS'' else ''SUPPORT_ACCESS_DENIED'') e)"
proof (cases "activeGrantFor (sc_userId who) t now db")
  case (Some g)
  then have "holds_grant who t now db" using active_grant by blast
  with Some t show ?thesis using logged_access [of env who t "Under_Grant (sg_id g)" now db]
    by (simp add: staff_request_pass [OF who] requireTenantGrant_def tenantIdOf_def answered_def status_of_def)
next
  case None
  then have n: "\<not> holds_grant who t now db" using active_grant [of who t now db] by simp
  show ?thesis
  proof (cases "sc_platformRole who = PR_SUPER_ADMIN")
    case True
    with None t n show ?thesis using logged_access [of env who t Break_Glass now db]
      by (simp add: staff_request_pass [OF who] requireTenantGrant_def tenantIdOf_def answered_def status_of_def)
  next
    case False
    with None t n show ?thesis using support_event_log [of env now t who "''SUPPORT_ACCESS_DENIED''" "''Tenant''" t None db]
      by (simp add: staff_request_pass [OF who] requireTenantGrant_def tenantIdOf_def)
  qed
qed

text \<open>
  C19: The gate knows one spelling only. A path that the router takes to the same route while the pattern does
  not match it, as one with a capital letter (the router ignores case) or an escaped digit (the router decodes
  it), names no workspace when the gate runs: the read is served to any member of staff, with no grant in the
  store, and is then logged as an ordinary use.
\<close>

theorem staff_read_escapes:
  assumes who: "staff_member env h now = Inr who"
    and path: "TENANT_IN_PATH path = None" and routed: "named params = Some t" and query: "named query = None"
  shows "let (a, db') = staff_request env h now (Staff_Read path params query (Inr ())) db
    in a = Inr A_done \<and> (\<exists>e. alert_log db' = alert_log db @ [e] \<and> names_access who t ''SUPPORT_ACCESS_USED'' e)"
  using logged_access [of env who t Platform_Wide now db] path routed query
  by (simp add: staff_request_pass [OF who] requireTenantGrant_def tenantIdOf_def named_def answered_def status_of_def)

subsection \<open>Concrete runs\<close>

text \<open>
  A workspace with an Owner and a support seat. The library of tokens knows their access tokens, the Owner's
  confirmation and the token of a member of staff.
\<close>

definition support_tokens :: token_env where
  "support_tokens = demo_token_env\<lparr>jwt_verify := (\<lambda>k t n.
     if t = ''o'' then Verified (signed_payload (Access_Token ''uo'' ''t'' ''mo'' OWNER PR_NONE OWNER ''s1'') 0 900)
     else if t = ''s'' then Verified (signed_payload (Access_Token ''us'' ''t'' ''ms'' SUPPORT PR_NONE SUPPORT ''s2'') 0 900)
     else if t = ''u'' then Verified (signed_payload (Step_Up_Token ''uo'' ''t'' ''j'') 0 300)
     else if t = ''p'' then Verified (signed_payload (Platform_Token ''us'' PR_SUPPORT) 0 900)
     else Token_Malformed)\<rparr>"

definition demo_support :: support_env where
  "demo_support = \<lparr>se_tokens = support_tokens, se_newId = (\<lambda>n. ''e'')\<rparr>"

definition demo_person :: "uuid \<Rightarrow> account" where
  "demo_person i = demo_account\<lparr>ac_id := i, ac_activeTenantId := Some ''t''\<rparr>"

definition demo_seat :: "uuid \<Rightarrow> uuid \<Rightarrow> membership_role \<Rightarrow> membership" where
  "demo_seat i u r = \<lparr>tm_id = i, tm_tenantId = ''t'', tm_userId = u, tm_role = r, tm_status = MS_ACTIVE,
     tm_inviteToken = None, tm_inviteExpiresAt = None\<rparr>"

definition demo_desk :: support_db where
  "demo_desk = \<lparr>security_alerts = [], alert_log = [], accounts = [demo_person ''uo'', demo_person ''us''],
     workspaces = [\<lparr>ws_id = ''t'', ws_status = TN_ACTIVE\<rparr>],
     seats = [demo_seat ''mo'' ''uo'' OWNER, demo_seat ''ms'' ''us'' SUPPORT],
     sign_in_mailboxes = [], refresh_tokens = [], used_selections = [], au_recovery_codes = [], identities = [],
     support_grants = [], access_requests = [], ticket_refs = [], support_notices = [],
     support_mailboxes = [\<lparr>xm_id = ''b'', xm_tenantId = ''t'', xm_address = ''x'', xm_aiEnabled = False,
        xm_sendSuspendedAt = None, xm_sendSuspensionReason = None\<rparr>],
     forwarding_rules = [],
     box_messages = [\<lparr>bm_id = ''c'', bm_tenantId = ''t'', bm_mailboxId = ''b'', bm_folder = ''INBOX'', bm_isRead = False,
        bm_createdAt = 1, bm_messageId = ''n'', bm_subject = Some ''plan'', bm_from = ''f'', bm_sentAt = None, bm_to = [''x'']\<rparr>]\<rparr>"

definition as_seat :: api_request where
  "as_seat = \<lparr>rq_authorization = Some ''Bearer s'', rq_access_token = None, rq_step_up = None\<rparr>"

definition as_owner :: api_request where
  "as_owner = \<lparr>rq_authorization = Some ''Bearer o'', rq_access_token = None, rq_step_up = Some ''u''\<rparr>"

definition demo_ask :: ask_input where
  "demo_ask = \<lparr>ak_reason = ''Incident: mail lost'', ak_ticketId = None, ak_scopes = [MAIL_CONTENT], ak_requestedMinutes = 60\<rparr>"

definition demo_world :: support_world where
  "demo_world = \<lparr>sw_now = 0, sw_db = demo_desk, sw_used = []\<rparr>"

definition demo_opening :: "(nat \<times> support_op) list" where
  "demo_opening = [(14, Console as_owner ''g1'' (Open_grant \<lparr>gi_supportMembershipId = ''ms'', gi_reason = ''Incident: mail lost'',
     gi_ticketId = None, gi_expiresInMinutes = 60, gi_scopes = [MAIL_CONTENT]\<rparr>))]"

lemmas demo_start = demo_world_def demo_desk_def

theorem one_live_grant_witness:
  "length (live_at 14 ''t'' ''ms'' (support_grants (sw_db (foldl (support_step demo_support) demo_world demo_opening)))) = 1"
proof -
  let ?s = "foldl (support_step demo_support) demo_world demo_opening"
  have n: "sw_now ?s = 14" by code_simp
  have "live_at 14 ''t'' ''ms'' (support_grants (sw_db ?s)) \<noteq> []" by code_simp
  moreover have "length (live_at (sw_now ?s) ''t'' ''ms'' (support_grants (sw_db ?s))) \<le> 1"
    by (rule one_live_grant) (simp_all add: demo_start)
  ultimately show ?thesis by (simp add: n le_Suc_eq)
qed


theorem request_decided_once_witness:
  "count_uses (support_step demo_support) (decision_of demo_support) ''q1'' demo_world
     [(5, Console as_seat ''q1'' (Ask_access demo_ask)), (9, Console as_seat ''q2'' (Withdraw_access ''q1'')),
      (1, Console as_owner ''g1'' (Approve_access ''q1'' None))] = 1"
proof -
  let ?xs = "[(5, Console as_seat ''q1'' (Ask_access demo_ask)), (9, Console as_seat ''q2'' (Withdraw_access ''q1'')),
      (1, Console as_owner ''g1'' (Approve_access ''q1'' None))]"
  have "decision_of demo_support ''q1'' (support_step demo_support demo_world (5, Console as_seat ''q1'' (Ask_access demo_ask)))
      (9, Console as_seat ''q2'' (Withdraw_access ''q1''))" by code_simp
  then have "0 < count_uses (support_step demo_support) (decision_of demo_support) ''q1'' demo_world ?xs"
    by (simp del: support_step.simps)
  moreover have "count_uses (support_step demo_support) (decision_of demo_support) ''q1'' demo_world ?xs \<le> 1"
    by (rule request_decided_once) (simp_all add: demo_start)
  ultimately show ?thesis by linarith
qed

definition demo_tenant :: uuid where
  "demo_tenant = ''00000000-0000-0000-0000-00000000000a''"

theorem staff_read_is_gated_witness:
  "fst (staff_request demo_support (Some ''Bearer p'') 3 (Staff_Read (''/tenants/'' @ demo_tenant) None None (Inr ())) demo_desk)
     \<noteq> Inr A_done"
proof -
  have w: "staff_member demo_support (Some ''Bearer p'') 3
      = Inr \<lparr>sc_userId = ''us'', sc_membershipId = None, sc_platformRole = PR_SUPPORT\<rparr>" by code_simp
  have t: "TENANT_IN_PATH (''/tenants/'' @ demo_tenant) = Some demo_tenant" by code_simp
  from staff_read_is_gated [OF w t, of None None demo_desk] show ?thesis
    by (auto simp: holds_grant_def demo_desk_def split: prod.splits)
qed

theorem staff_read_escapes_witness:
  "support_grants demo_desk = []
   \<and> fst (staff_request demo_support (Some ''Bearer p'') 3
       (Staff_Read (''/Tenants/'' @ demo_tenant) (Some demo_tenant) None (Inr ())) demo_desk) = Inr A_done"
proof
  show "support_grants demo_desk = []" by (simp add: demo_desk_def)
  have w: "staff_member demo_support (Some ''Bearer p'') 3
      = Inr \<lparr>sc_userId = ''us'', sc_membershipId = None, sc_platformRole = PR_SUPPORT\<rparr>" by code_simp
  have t: "TENANT_IN_PATH (''/Tenants/'' @ demo_tenant) = None" "named (Some demo_tenant) = Some demo_tenant" "named None = None"
    by code_simp+
  from staff_read_escapes [OF w t, of demo_desk]
  show "fst (staff_request demo_support (Some ''Bearer p'') 3
       (Staff_Read (''/Tenants/'' @ demo_tenant) (Some demo_tenant) None (Inr ())) demo_desk) = Inr A_done"
    by (auto split: prod.splits)
qed

end
