(* ===== verification/Support_Erasure.thy ===== *)
theory Support_Erasure
  imports Support_Safety Lifecycle
begin

section \<open>A deletion the support raises\<close>

text \<open>
  \<open>requestDeletion\<close> of \<open>modules/support/support.service.ts\<close>, between the two components it joins: a grant of
  the support is spent to write a request of the lifecycle, which the Owners then decide on. The target of a
  request for one account is read as a membership here, and as a user by the job that carries it out.
\<close>

record erasure_db =
  er_support :: support_db
  er_lifecycle :: lc_db

definition requestDeletion ::
  "support_env \<Rightarrow> uuid \<Rightarrow> lc_target \<Rightarrow> uuid option \<Rightarrow> string \<Rightarrow> uuid \<Rightarrow> uuid \<Rightarrow> instant \<Rightarrow> erasure_db
     \<Rightarrow> lc_request result \<times> erasure_db" where
  "requestDeletion env i target tgtId why tenantId userId now db =
     (case grantWithScope env tenantId userId TENANT_DIAGNOSTICS now (er_support db) of
        (Inl e, sdb) \<Rightarrow> (Inl e, db\<lparr>er_support := sdb\<rparr>)
      | (Inr g, sdb) \<Rightarrow>
          if target = TARGET_USER \<and> \<not> truthy tgtId then (fail_with 422 VALIDATION_ERROR, db\<lparr>er_support := sdb\<rparr>)
          else if truthy tgtId
                  \<and> find_row (\<lambda>m. tm_id m = the tgtId \<and> tm_tenantId m = tenantId) (seats sdb) = None
            then (not_found, db\<lparr>er_support := sdb\<rparr>)
          else if find_row (\<lambda>r. lr_tenantId r = tenantId \<and> lr_type r = DELETION \<and> lr_status r = REQUESTED
                  \<and> lr_targetId r = tgtId) (requests (er_lifecycle db)) \<noteq> None
            then (fail_because 409 CONFLICT ''ALREADY_PENDING'', db\<lparr>er_support := sdb\<rparr>)
          else (let r = new_request i \<lparr>lx_tenantId = tenantId, lx_userId = userId, lx_role = SUPPORT\<rparr> DELETION
                          (Some target) tgtId (Some why)
             in (Inr r, \<lparr>er_support = support_event env now tenantId userId ''SUPPORT_DELETION_REQUESTED''
                            ''DataLifecycleRequest'' i None sdb,
                         er_lifecycle = (er_lifecycle db)\<lparr>requests := requests (er_lifecycle db) @ [r]\<rparr>\<rparr>)))"

lemma raised_row:
  assumes "requestDeletion env i target tgtId why t u now db = (Inr r, db')"
  shows "lr_id r = i \<and> lr_tenantId r = t \<and> lr_status r = REQUESTED \<and> lr_type r = DELETION
    \<and> lr_targetType r = Some target \<and> lr_targetId r = tgtId
    \<and> requests (er_lifecycle db') = requests (er_lifecycle db) @ [r]
    \<and> (target = TARGET_USER \<longrightarrow> truthy tgtId)
    \<and> (truthy tgtId \<longrightarrow> (\<exists>m\<in>set (seats (er_support db)). tm_id m = the tgtId \<and> tm_tenantId m = t))"
proof (cases "grantWithScope env t u TENANT_DIAGNOSTICS now (er_support db)")
  case (Pair x sdb)
  with assms obtain g where x: "x = Inr g" by (cases x) (simp_all add: requestDeletion_def)
  with Pair have "sdb = er_support db"
    by (auto simp: grantWithScope_def Let_def split: option.splits if_splits)
  with assms Pair x show ?thesis
    by (auto simp: requestDeletion_def new_request_def Let_def dest!: find_row_SomeD split: if_splits)
qed

lemma no_such_user:
  assumes "\<forall>m\<in>set (lc_members db). tm_tenantId m = t \<longrightarrow> tm_userId m \<noteq> u"
  shows "anonymizeUser env ph nt c t u now db = (not_found, db)"
proof -
  have "find_row (\<lambda>m. tm_tenantId m = t \<and> tm_userId m = u) (lc_members db) = None"
    using assms by (auto simp: find_row_None_iff)
  then show ?thesis by (simp add: anonymizeUser_def)
qed

text \<open>
  C29: What the support asks for the erasure of one account can never be carried out. The target it accepts is
  the identifier of a membership of the workspace; the job looks for a member with that user identifier. As no
  user has the identifier of a membership, the job fails each time, however the Owners decide and whatever
  else became of the store, and the person stays a member.
\<close>

theorem support_deletion_never_runs:
  assumes raised: "requestDeletion env i TARGET_USER (Some target) why t u now db = (Inr r, db')"
    and apart: "\<forall>m\<in>set (lc_members lc). tm_tenantId m = t \<longrightarrow> tm_userId m \<noteq> target"
    and job: "j_tenantId j = t" "seen_by j lc = Some q" "lr_targetType q = lr_targetType r" "lr_targetId q = lr_targetId r"
  shows "(\<exists>m\<in>set (seats (er_support db)). tm_id m = target \<and> tm_tenantId m = t)
    \<and> (\<exists>e. fst (processDeletion lenv ph nt j now' lc) = Failed e)
    \<and> lc_members (snd (processDeletion lenv ph nt j now' lc)) = lc_members lc
    \<and> people (snd (processDeletion lenv ph nt j now' lc)) = people lc"
proof -
  have q: "lr_targetType q = Some TARGET_USER" "lr_targetId q = Some target"
    and m: "\<exists>m\<in>set (seats (er_support db)). tm_id m = target \<and> tm_tenantId m = t"
    using raised_row [OF raised] job by (auto simp: truthy_def)
  obtain k where k: "deletion_target (j_payload j) = Some k"
    using job(2) by (cases "deletion_target (j_payload j)") (simp_all add: seen_by_def)
  let ?lc = "set_request t (lr_id q) (\<lambda>r. r\<lparr>lr_status := PROCESSING\<rparr>) lc"
  have "anonymizeUser lenv ph nt \<lparr>lx_tenantId = t, lx_userId = j_createdBy j, lx_role = OWNER\<rparr> t target now' ?lc = (not_found, ?lc)"
    by (rule no_such_user) (use apart in \<open>simp add: set_request_def\<close>)
  with q k job m show ?thesis
    by (auto simp: processDeletion_def execute_deletion_def delete_person_def set_request_def Let_def)
qed

subsection \<open>A concrete run\<close>

definition demo_visit :: support_db where
  "demo_visit = demo_desk\<lparr>support_grants := [\<lparr>sg_id = ''g'', sg_tenantId = ''t'', sg_supportMembershipId = ''ms'',
     sg_approvedByUserId = ''uo'', sg_reason = ''Incident'', sg_ticketId = None, sg_scopes = [TENANT_DIAGNOSTICS],
     sg_expiresAt = 100, sg_revokedAt = None\<rparr>]\<rparr>"

definition demo_records :: lc_db where
  "demo_records = \<lparr>jobs = [], outbox = [], job_log = [], requests = [], workspaces = [(''t'', ''Acme'')],
     lc_mailboxes = [], lc_tasks = [], lc_members = seats demo_visit, people = [], identities = [], otps = [], refresh_tokens = [],
     work = \<lparr>streams = [], commitments = [], decisions = [], dependencies = [], evidences = []\<rparr>, receipts = []\<rparr>"

definition demo_lc :: lc_env where
  "demo_lc = \<lparr>le_newId = (\<lambda>n. ''e''), le_digest = (\<lambda>x. x)\<rparr>"

text \<open>Raised for the support seat itself, approved by the Owner, claimed by a worker.\<close>

theorem support_deletion_never_runs_witness:
  "let x = requestDeletion demo_support ''r'' TARGET_USER (Some ''ms'') ''asked for by mail'' ''t'' ''us'' 5
         \<lparr>er_support = demo_visit, er_lifecycle = demo_records\<rparr>;
       a = approve demo_lc ''j'' \<lparr>lx_tenantId = ''t'', lx_userId = ''uo'', lx_role = OWNER\<rparr> ''r'' 6 (er_lifecycle (snd x));
       j = the (fst (claimSupported 7 (snd a)))
   in \<not> isl (fst x) \<and> \<not> isl (fst a)
      \<and> (\<exists>e. fst (processDeletion demo_lc ''p'' (\<lambda>i. i) j 8 (snd (claimSupported 7 (snd a)))) = Failed e)"
proof -
  let ?x = "requestDeletion demo_support ''r'' TARGET_USER (Some ''ms'') ''asked for by mail'' ''t'' ''us'' 5
         \<lparr>er_support = demo_visit, er_lifecycle = demo_records\<rparr>"
  let ?a = "approve demo_lc ''j'' \<lparr>lx_tenantId = ''t'', lx_userId = ''uo'', lx_role = OWNER\<rparr> ''r'' 6 (er_lifecycle (snd ?x))"
  let ?j = "the (fst (claimSupported 7 (snd ?a)))"
  let ?lc = "snd (claimSupported 7 (snd ?a))"
  let ?q = "the (seen_by ?j ?lc)"
  have ok: "\<not> isl (fst ?x)" "\<not> isl (fst ?a)" by code_simp+
  have r: "?x = (Inr (projr (fst ?x)), snd ?x)" by (rule prod_eqI) (simp_all add: ok(1))
  have m: "\<forall>m\<in>set (lc_members ?lc). tm_tenantId m = ''t'' \<longrightarrow> tm_userId m \<noteq> ''ms''" by code_simp
  have j: "j_tenantId ?j = ''t''" by code_simp
  have s: "seen_by ?j ?lc = Some ?q" by code_simp
  have q: "lr_targetType ?q = lr_targetType (projr (fst ?x))" "lr_targetId ?q = lr_targetId (projr (fst ?x))" by code_simp+
  from support_deletion_never_runs [OF r m j s q, of demo_lc "''p''" "\<lambda>i. i" 8] ok
  show ?thesis unfolding Let_def by blast
qed

end
