(* ===== verification/People.thy ===== *)
theory People
  imports Session_Safety Capabilities
begin

section \<open>The people of a workspace\<close>

text \<open>
  \<open>modules/membership/membership.service.ts\<close> with \<open>address-claims.ts\<close> and the limit of a plan
  (\<open>billing.service.ts\<close>): adding and inviting people, the links of invitations, changes of role and status,
  removal, and the reset of a lost second factor. The letters and the list of members are left out.
\<close>

subsection \<open>State\<close>

record subscription =
  sb_tenantId :: uuid
  sb_status :: string
  sb_createdAt :: instant
  sb_userLimit :: "int option"

record people_db = auth_db +
  verified_domains :: "(uuid \<times> string) list"
  mail_addresses :: "(uuid \<times> string) list"
  subscriptions :: "subscription list"

record people_env =
  pn_newId :: "nat \<Rightarrow> uuid"
  pn_hashToken :: "string \<Rightarrow> string"
  pn_hashPassword :: "string \<Rightarrow> string"
  INVITATION_EXPIRES_IN_HOURS :: int
  SYSTEM_MAIL_ENABLED :: bool

text \<open>Who acts: the workspace and the person of the session, and the role it acts with.\<close>

record actor =
  ax_tenantId :: uuid
  ax_userId :: uuid
  ax_role :: membership_role

definition people_event ::
  "people_env \<Rightarrow> instant \<Rightarrow> actor \<Rightarrow> string \<Rightarrow> uuid \<Rightarrow> people_db \<Rightarrow> people_db" where
  "people_event env now ax ty i db = db\<lparr>alert_log :=
     log_event (pn_newId env) now (ax_tenantId ax) (Some (ax_userId ax)) (Some AT_ADMIN) ty ''TenantMembership'' i None (alert_log db)\<rparr>"

definition invitee_event ::
  "people_env \<Rightarrow> instant \<Rightarrow> uuid \<Rightarrow> uuid \<Rightarrow> string \<Rightarrow> uuid \<Rightarrow> people_db \<Rightarrow> people_db" where
  "invitee_event env now tenantId userId ty i db = db\<lparr>alert_log :=
     log_event (pn_newId env) now tenantId (Some userId) None ty ''TenantMembership'' i None (alert_log db)\<rparr>"

subsection \<open>Who may act on whom\<close>

fun MANAGE_CAPABILITY :: "membership_role \<Rightarrow> string" where
  "MANAGE_CAPABILITY OWNER = ''people.owner.manage''"
| "MANAGE_CAPABILITY ADMIN = ''people.admin.manage''"
| "MANAGE_CAPABILITY MEMBER = ''people.member.manage''"
| "MANAGE_CAPABILITY SUPPORT = ''people.member.manage''"

fun INVITE_CAPABILITY :: "membership_role \<Rightarrow> string" where
  "INVITE_CAPABILITY OWNER = ''people.invite.owner''"
| "INVITE_CAPABILITY ADMIN = ''people.invite.admin''"
| "INVITE_CAPABILITY MEMBER = ''people.invite.member''"
| "INVITE_CAPABILITY SUPPORT = ''people.invite.member''"

definition acting_context :: "membership_role \<Rightarrow> capability_context" where
  "acting_context r = \<lparr>cc_role = Some r, membershipActive = Some True, hasActiveSupportGrant = None, stepUpSatisfied = None,
     secondApproverUserId = None\<rparr>"

definition assertCanManageRole :: "membership_role \<Rightarrow> membership_role \<Rightarrow> unit result" where
  "assertCanManageRole actor role = (if can (MANAGE_CAPABILITY role) (acting_context actor) then Inr () else fail_with 403 FORBIDDEN)"

definition assertCanInviteRole :: "membership_role \<Rightarrow> membership_role \<Rightarrow> unit result" where
  "assertCanInviteRole actor role = (if can (INVITE_CAPABILITY role) (acting_context actor) then Inr () else fail_with 403 FORBIDDEN)"

definition assertSupportNotElsewhere :: "uuid \<Rightarrow> uuid option \<Rightarrow> people_db \<Rightarrow> unit result" where
  "assertSupportNotElsewhere userId excludeTenantId db =
     (if find_row (\<lambda>m. tm_userId m = userId \<and> tm_role m = SUPPORT \<and> tm_status m = MS_ACTIVE
            \<and> (case excludeTenantId of None \<Rightarrow> True | Some t \<Rightarrow> tm_tenantId m \<noteq> t)) (seats db) = None
      then Inr () else fail_with 409 CONFLICT)"

definition active_owner :: "uuid \<Rightarrow> membership \<Rightarrow> bool" where
  "active_owner t m \<longleftrightarrow> tm_tenantId m = t \<and> tm_role m = OWNER \<and> tm_status m = MS_ACTIVE"

definition protectLastOwner ::
  "uuid \<Rightarrow> membership \<Rightarrow> membership_role \<Rightarrow> membership_status \<Rightarrow> people_db \<Rightarrow> unit result" where
  "protectLastOwner tenantId m nextRole nextStatus db =
     (if tm_role m \<noteq> OWNER \<or> tm_status m \<noteq> MS_ACTIVE \<or> (nextRole = OWNER \<and> nextStatus = MS_ACTIVE) then Inr ()
      else if count_where (active_owner tenantId) (seats db) \<le> 1 then fail_with 409 CONFLICT else Inr ())"

subsection \<open>The limit of the plan\<close>

definition getCurrentSubscription :: "uuid \<Rightarrow> people_db \<Rightarrow> subscription option" where
  "getCurrentSubscription tenantId db =
     latest_by sb_createdAt (filter (\<lambda>s. sb_tenantId s = tenantId \<and> sb_status s \<noteq> ''canceled'') (subscriptions db))"

definition user_limit :: "uuid \<Rightarrow> people_db \<Rightarrow> int option" where
  "user_limit tenantId db = Option.bind (getCurrentSubscription tenantId db) sb_userLimit"

definition active_members :: "uuid \<Rightarrow> people_db \<Rightarrow> nat" where
  "active_members tenantId db = count_where (\<lambda>m. tm_tenantId m = tenantId \<and> tm_status m = MS_ACTIVE) (seats db)"

definition assertUserWithinLimit :: "uuid \<Rightarrow> nat \<Rightarrow> people_db \<Rightarrow> unit result" where
  "assertUserWithinLimit tenantId extra db =
     (case user_limit tenantId db of
        None \<Rightarrow> Inr ()
      | Some n \<Rightarrow> if int (active_members tenantId db + extra) > n then fail_with 409 CONFLICT else Inr ())"

subsection \<open>Addresses another workspace has a claim on\<close>

datatype address_claim = DOMAIN_CLAIM | MAILBOX_CLAIM | ACCOUNT_CLAIM

definition domainOf :: "string \<Rightarrow> string" where
  "domainOf email = map lower_char (rev (takeWhile (\<lambda>c. c \<noteq> CHR ''@'') (rev email)))"

definition claimElsewhere :: "string \<Rightarrow> uuid \<Rightarrow> bool \<Rightarrow> people_db \<Rightarrow> address_claim option" where
  "claimElsewhere email tenantId includeAccount db =
     (let address = map lower_char (trim email) in
      if list_ex (\<lambda>(t, d). map lower_char d = domainOf address \<and> t \<noteq> tenantId) (verified_domains db) then Some DOMAIN_CLAIM
      else if list_ex (\<lambda>(t, a). map lower_char a = address \<and> t \<noteq> tenantId) (mail_addresses db) then Some MAILBOX_CLAIM
      else if includeAccount then
        (let tenants = (case find_row (\<lambda>a. ac_email a = address) (accounts db) of
              None \<Rightarrow> []
            | Some a \<Rightarrow> map tm_tenantId (filter (\<lambda>m. tm_userId m = ac_id a \<and> tm_status m \<noteq> MS_REMOVED) (seats db)))
         in if tenants \<noteq> [] \<and> tenantId \<notin> set tenants then Some ACCOUNT_CLAIM else None)
      else None)"

definition isMailboxAddress :: "string \<Rightarrow> people_db \<Rightarrow> bool" where
  "isMailboxAddress email db \<longleftrightarrow> list_ex (\<lambda>(t, a). map lower_char a = map lower_char (trim email)) (mail_addresses db)"

subsection \<open>Adding and inviting\<close>

definition add_member ::
  "people_env \<Rightarrow> uuid \<Rightarrow> string \<Rightarrow> membership_role \<Rightarrow> actor \<Rightarrow> instant \<Rightarrow> people_db \<Rightarrow> membership result \<times> people_db" where
  "add_member env i email role ax now db =
     (case assertCanInviteRole (ax_role ax) role of
        Inl e \<Rightarrow> (Inl e, db)
      | Inr _ \<Rightarrow>
      (case assertUserWithinLimit (ax_tenantId ax) 1 db of
        Inl e \<Rightarrow> (Inl e, db)
      | Inr _ \<Rightarrow>
      (case find_row (\<lambda>a. ac_email a = email) (accounts db) of
        None \<Rightarrow> (not_found, db)
      | Some u \<Rightarrow>
          if ac_status u \<noteq> US_ACTIVE then (fail_because 409 CONFLICT ''ACCOUNT_NOT_ACTIVE'', db)
          else if find_row (\<lambda>m. tm_tenantId m = ax_tenantId ax \<and> tm_userId m = ac_id u) (seats db) \<noteq> None
            then (fail_with 409 CONFLICT, db)
          else (case (if role = SUPPORT then assertSupportNotElsewhere (ac_id u) None db else Inr ()) of
             Inl e \<Rightarrow> (Inl e, db)
           | Inr _ \<Rightarrow>
               let m = \<lparr>tm_id = i, tm_tenantId = ax_tenantId ax, tm_userId = ac_id u, tm_role = role, tm_status = MS_ACTIVE,
                        tm_inviteToken = None, tm_inviteExpiresAt = None\<rparr>
               in (Inr m, people_event env now ax ''MEMBERSHIP_CREATED'' i (db\<lparr>seats := seats db @ [m]\<rparr>))))))"

text \<open>The identifiers and random values an invitation may need.\<close>

record invitation_draws =
  dr_membershipId :: uuid
  dr_userId :: uuid
  dr_password :: string
  dr_token :: string

definition placeholder_account :: "people_env \<Rightarrow> string \<Rightarrow> invitation_draws \<Rightarrow> account" where
  "placeholder_account env email dr =
     \<lparr>ac_id = dr_userId dr, ac_email = email, ac_passwordHash = Some (pn_hashPassword env (dr_password dr)),
      ac_status = US_INVITED, ac_emailVerifiedAt = None, ac_platformRole = PR_NONE, ac_activeTenantId = None,
      ac_mfaSecret = None, ac_mfaEnrolledAt = None, ac_mfaLastUsedStep = None\<rparr>"

definition issueInvitation ::
  "people_env \<Rightarrow> string \<Rightarrow> membership_role \<Rightarrow> invitation_draws \<Rightarrow> actor \<Rightarrow> instant \<Rightarrow> people_db
     \<Rightarrow> (membership \<times> string) result \<times> people_db" where
  "issueInvitation env email role dr ax now db =
     (case assertCanInviteRole (ax_role ax) role of
        Inl e \<Rightarrow> (Inl e, db)
      | Inr _ \<Rightarrow>
      if claimElsewhere email (ax_tenantId ax) False db \<noteq> None then (fail_because 409 CONFLICT ''ADDRESS_MANAGED_ELSEWHERE'', db)
      else
        let t = ax_tenantId ax;
            token = Some (pn_hashToken env (dr_token dr));
            expires = Some (now + INVITATION_EXPIRES_IN_HOURS env * hour_ms);
            known = find_row (\<lambda>a. ac_email a = email) (accounts db);
            u = (case known of None \<Rightarrow> placeholder_account env email dr | Some a \<Rightarrow> a);
            db1 = (case known of None \<Rightarrow> db\<lparr>accounts := accounts db @ [u]\<rparr> | Some a \<Rightarrow> db)
        in if ac_status u \<noteq> US_ACTIVE \<and> ac_status u \<noteq> US_INVITED then (fail_because 409 CONFLICT ''ACCOUNT_NOT_ACTIVE'', db)
           else case (if role = SUPPORT then assertSupportNotElsewhere (ac_id u) None db1 else Inr ()) of
             Inl e \<Rightarrow> (Inl e, db)
           | Inr _ \<Rightarrow>
               (case find_row (\<lambda>m. tm_tenantId m = t \<and> tm_userId m = ac_id u) (seats db1) of
                  Some m \<Rightarrow>
                    if tm_status m \<noteq> MS_INVITED \<and> tm_status m \<noteq> MS_REMOVED then (fail_with 409 CONFLICT, db)
                    else let again = (\<lambda>m. m\<lparr>tm_role := role, tm_status := MS_INVITED, tm_inviteToken := token, tm_inviteExpiresAt := expires\<rparr>)
                      in (Inr (again m, dr_token dr), people_event env now ax ''MEMBERSHIP_INVITED'' (tm_id m)
                           (db1\<lparr>seats := update_where (\<lambda>x. tm_id x = tm_id m) again (seats db1)\<rparr>))
                | None \<Rightarrow>
                    let m = \<lparr>tm_id = dr_membershipId dr, tm_tenantId = t, tm_userId = ac_id u, tm_role = role,
                             tm_status = MS_INVITED, tm_inviteToken = token, tm_inviteExpiresAt = expires\<rparr>
                    in (Inr (m, dr_token dr), people_event env now ax ''MEMBERSHIP_INVITED'' (tm_id m)
                         (db1\<lparr>seats := seats db1 @ [m]\<rparr>))))"

text \<open>The answer carries the token only when nothing is mailed.\<close>

definition createInvitation ::
  "people_env \<Rightarrow> string \<Rightarrow> membership_role \<Rightarrow> invitation_draws \<Rightarrow> actor \<Rightarrow> instant \<Rightarrow> people_db
     \<Rightarrow> (membership \<times> string option) result \<times> people_db" where
  "createInvitation env email role dr ax now db =
     (case issueInvitation env email role dr ax now db of
        (Inl e, db1) \<Rightarrow> (Inl e, db1)
      | (Inr (m, token), db1) \<Rightarrow> (Inr (m, if SYSTEM_MAIL_ENABLED env then None else Some token), db1))"

definition rotateInvitationToken ::
  "people_env \<Rightarrow> uuid \<Rightarrow> string \<Rightarrow> actor \<Rightarrow> instant \<Rightarrow> people_db \<Rightarrow> string result \<times> people_db" where
  "rotateInvitationToken env i token ax now db =
     (case find_row (\<lambda>m. tm_id m = i \<and> tm_tenantId m = ax_tenantId ax \<and> tm_status m = MS_INVITED) (seats db) of
        None \<Rightarrow> (not_found, db)
      | Some m \<Rightarrow>
      (case assertCanInviteRole (ax_role ax) (tm_role m) of
        Inl e \<Rightarrow> (Inl e, db)
      | Inr _ \<Rightarrow>
          if count_where (\<lambda>x. tm_id x = tm_id m \<and> tm_status x = MS_INVITED) (seats db) = 0
          then (fail_because 409 CONFLICT ''INVITATION_NOT_PENDING'', db)
          else (Inr token, people_event env now ax ''MEMBERSHIP_INVITATION_REISSUED'' (tm_id m)
                 (db\<lparr>seats := update_where (\<lambda>x. tm_id x = tm_id m \<and> tm_status x = MS_INVITED)
                    (\<lambda>x. x\<lparr>tm_inviteToken := Some (pn_hashToken env token),
                           tm_inviteExpiresAt := Some (now + INVITATION_EXPIRES_IN_HOURS env * hour_ms)\<rparr>) (seats db)\<rparr>))))"

subsection \<open>The link of an invitation\<close>

definition by_token :: "people_env \<Rightarrow> string \<Rightarrow> people_db \<Rightarrow> membership option" where
  "by_token env token db = find_row (\<lambda>m. tm_inviteToken m = Some (pn_hashToken env token)) (seats db)"

definition seat_workspace :: "membership \<Rightarrow> people_db \<Rightarrow> workspace option" where
  "seat_workspace m db = find_row (\<lambda>w. ws_id w = tm_tenantId m) (workspaces db)"

definition seat_account :: "membership \<Rightarrow> people_db \<Rightarrow> account option" where
  "seat_account m db = find_row (\<lambda>a. ac_id a = tm_userId m) (accounts db)"

definition lapsed :: "instant \<Rightarrow> membership \<Rightarrow> bool" where
  "lapsed now m \<longleftrightarrow> (case tm_inviteExpiresAt m of None \<Rightarrow> True | Some t \<Rightarrow> t \<le> now)"

definition workspace_open :: "membership \<Rightarrow> people_db \<Rightarrow> bool" where
  "workspace_open m db \<longleftrightarrow> map_option ws_status (seat_workspace m db) = Some TN_ACTIVE"

record invitation_view =
  iv_email :: string
  iv_role :: membership_role
  iv_needsPassword :: bool
  iv_alreadyAccepted :: bool

definition lookupInvitation :: "people_env \<Rightarrow> string \<Rightarrow> instant \<Rightarrow> people_db \<Rightarrow> invitation_view result" where
  "lookupInvitation env token now db =
     (case by_token env token db of
        None \<Rightarrow> fail_with 401 INVITATION_INVALID
      | Some m \<Rightarrow>
      (case seat_account m db of
        None \<Rightarrow> fail_with 401 INVITATION_INVALID
      | Some a \<Rightarrow>
          if \<not> workspace_open m db then fail_with 403 FORBIDDEN
          else if tm_status m = MS_ACTIVE
            then Inr \<lparr>iv_email = ac_email a, iv_role = tm_role m, iv_needsPassword = False, iv_alreadyAccepted = True\<rparr>
          else if tm_status m \<noteq> MS_INVITED then fail_with 401 INVITATION_INVALID
          else if lapsed now m then fail_with 410 INVITATION_EXPIRED
          else Inr \<lparr>iv_email = ac_email a, iv_role = tm_role m, iv_needsPassword = (ac_status a = US_INVITED),
                    iv_alreadyAccepted = False\<rparr>))"

text \<open>What a claim reads, and then what it writes: the row of the invitation is taken under a condition.\<close>

definition claim_decide :: "people_env \<Rightarrow> string \<Rightarrow> instant \<Rightarrow> people_db \<Rightarrow> (membership \<times> account) result" where
  "claim_decide env token now db =
     (case by_token env token db of
        None \<Rightarrow> fail_with 401 INVITATION_INVALID
      | Some m \<Rightarrow>
          if tm_status m = MS_ACTIVE then fail_because 409 CONFLICT ''ALREADY_ACCEPTED''
          else if tm_status m \<noteq> MS_INVITED then fail_with 401 INVITATION_INVALID
          else if lapsed now m then fail_with 410 INVITATION_EXPIRED
          else if \<not> workspace_open m db then fail_with 403 FORBIDDEN
          else (case seat_account m db of
              None \<Rightarrow> fail_with 401 INVITATION_INVALID
            | Some a \<Rightarrow>
                if ac_status a \<noteq> US_INVITED then fail_because 409 CONFLICT ''ACCOUNT_ALREADY_EXISTS''
                else (case assertUserWithinLimit (tm_tenantId m) 1 db of Inl e \<Rightarrow> Inl e | Inr _ \<Rightarrow> Inr (m, a))))"

definition claim_commit ::
  "people_env \<Rightarrow> membership \<times> account \<Rightarrow> string \<Rightarrow> instant \<Rightarrow> people_db \<Rightarrow> string result \<times> people_db" where
  "claim_commit env seen password now db =
     (let (m, a) = seen;
          here = (\<lambda>x. tm_id x = tm_id m \<and> tm_status x = MS_INVITED \<and> tm_inviteToken x = tm_inviteToken m)
      in if count_where here (seats db) = 0 then (fail_because 409 CONFLICT ''ALREADY_ACCEPTED'', db)
         else (Inr (ac_email a), invitee_event env now (tm_tenantId m) (tm_userId m) ''MEMBERSHIP_INVITATION_CLAIMED'' (tm_id m)
           (db\<lparr>seats := update_where here (\<lambda>x. x\<lparr>tm_status := MS_ACTIVE, tm_inviteExpiresAt := None\<rparr>) (seats db),
               accounts := update_where (\<lambda>x. ac_id x = tm_userId m)
                 (\<lambda>x. x\<lparr>ac_passwordHash := Some (pn_hashPassword env password), ac_status := US_ACTIVE,
                        ac_emailVerifiedAt := (case ac_emailVerifiedAt a of None \<Rightarrow> Some now | Some t \<Rightarrow> Some t)\<rparr>) (accounts db)\<rparr>)))"

definition claimInvitation ::
  "people_env \<Rightarrow> string \<Rightarrow> string \<Rightarrow> instant \<Rightarrow> people_db \<Rightarrow> string result \<times> people_db" where
  "claimInvitation env token password now db =
     (case claim_decide env token now db of
        Inl e \<Rightarrow> (Inl e, db)
      | Inr seen \<Rightarrow> claim_commit env seen password now db)"

datatype accept_input = By_link string | By_membership uuid

definition find_invitation :: "people_env \<Rightarrow> accept_input \<Rightarrow> uuid \<Rightarrow> people_db \<Rightarrow> membership result" where
  "find_invitation env x userId db =
     (case x of
        By_link token \<Rightarrow>
          (case by_token env token db of
             None \<Rightarrow> fail_with 401 INVITATION_INVALID
           | Some m \<Rightarrow>
               if userId \<noteq> [] \<and> tm_userId m \<noteq> userId then fail_with 403 FORBIDDEN
               else if tm_status m \<noteq> MS_ACTIVE \<and> tm_status m \<noteq> MS_INVITED then fail_with 401 INVITATION_INVALID
               else Inr m)
      | By_membership i \<Rightarrow>
          (case find_row (\<lambda>m. tm_id m = i \<and> tm_userId m = userId \<and> tm_status m = MS_INVITED) (seats db) of
             None \<Rightarrow> not_found
           | Some m \<Rightarrow> Inr m))"

definition acceptInvitation ::
  "people_env \<Rightarrow> accept_input \<Rightarrow> uuid \<Rightarrow> instant \<Rightarrow> people_db \<Rightarrow> membership result \<times> people_db" where
  "acceptInvitation env x userId now db =
     (case find_invitation env x userId db of
        Inl e \<Rightarrow> (Inl e, db)
      | Inr m \<Rightarrow>
          if tm_status m = MS_ACTIVE then (Inr m, db)
          else if lapsed now m then (fail_with 410 INVITATION_EXPIRED, db)
          else if \<not> workspace_open m db then (fail_with 403 FORBIDDEN, db)
          else (case assertUserWithinLimit (tm_tenantId m) 1 db of
              Inl e \<Rightarrow> (Inl e, db)
            | Inr _ \<Rightarrow>
                let joined = (\<lambda>x. x\<lparr>tm_status := MS_ACTIVE, tm_inviteExpiresAt := None\<rparr>);
                    known = (\<lambda>a. a\<lparr>ac_status := US_ACTIVE,
                      ac_emailVerifiedAt := (case ac_emailVerifiedAt a of None \<Rightarrow> Some now | Some t \<Rightarrow> Some t)\<rparr>)
                in (Inr (joined m), invitee_event env now (tm_tenantId m) (if userId = [] then tm_userId m else userId)
                      ''MEMBERSHIP_INVITATION_ACCEPTED'' (tm_id m)
                      (db\<lparr>accounts := update_where (\<lambda>a. ac_id a = tm_userId m \<and> ac_status a = US_INVITED) known (accounts db),
                          seats := update_where (\<lambda>y. tm_id y = tm_id m) joined (seats db)\<rparr>))))"

definition cancelInvitation :: "people_env \<Rightarrow> uuid \<Rightarrow> actor \<Rightarrow> instant \<Rightarrow> people_db \<Rightarrow> unit result \<times> people_db" where
  "cancelInvitation env i ax now db =
     (case find_row (\<lambda>m. tm_id m = i \<and> tm_tenantId m = ax_tenantId ax \<and> tm_status m = MS_INVITED) (seats db) of
        None \<Rightarrow> (not_found, db)
      | Some m \<Rightarrow>
      (case assertCanManageRole (ax_role ax) (tm_role m) of
        Inl e \<Rightarrow> (Inl e, db)
      | Inr _ \<Rightarrow> (Inr (), people_event env now ax ''MEMBERSHIP_INVITATION_CANCELLED'' (tm_id m)
           (db\<lparr>seats := update_where (\<lambda>x. tm_id x = tm_id m)
             (\<lambda>x. x\<lparr>tm_status := MS_REMOVED, tm_inviteToken := None, tm_inviteExpiresAt := None\<rparr>) (seats db)\<rparr>))))"

subsection \<open>Changing a membership\<close>

text \<open>What a change reads and decides, and then what it writes, by the identifier alone.\<close>

definition standing :: "uuid \<Rightarrow> uuid \<Rightarrow> people_db \<Rightarrow> membership option" where
  "standing i tenantId db = find_row (\<lambda>m. tm_id m = i \<and> tm_tenantId m = tenantId \<and> tm_status m \<noteq> MS_REMOVED) (seats db)"

definition update_decide ::
  "uuid \<Rightarrow> membership_role option \<Rightarrow> membership_status option \<Rightarrow> actor \<Rightarrow> people_db \<Rightarrow> membership result" where
  "update_decide i role status ax db =
     (case standing i (ax_tenantId ax) db of
        None \<Rightarrow> not_found
      | Some m \<Rightarrow>
      (case assertCanManageRole (ax_role ax) (tm_role m) of
        Inl e \<Rightarrow> Inl e
      | Inr _ \<Rightarrow>
      (case (case role of None \<Rightarrow> Inr () | Some r \<Rightarrow> assertCanInviteRole (ax_role ax) r) of
        Inl e \<Rightarrow> Inl e
      | Inr _ \<Rightarrow>
          let nextRole = (case role of None \<Rightarrow> tm_role m | Some r \<Rightarrow> r);
              nextStatus = (case status of None \<Rightarrow> tm_status m | Some s \<Rightarrow> s)
          in case (if nextRole = SUPPORT then assertSupportNotElsewhere (tm_userId m) (Some (ax_tenantId ax)) db else Inr ()) of
               Inl e \<Rightarrow> Inl e
             | Inr _ \<Rightarrow>
                 (case protectLastOwner (ax_tenantId ax) m nextRole nextStatus db of
                    Inl e \<Rightarrow> Inl e | Inr _ \<Rightarrow> Inr m))))"

definition update_commit ::
  "people_env \<Rightarrow> membership \<Rightarrow> membership_role option \<Rightarrow> membership_status option \<Rightarrow> actor \<Rightarrow> instant \<Rightarrow> people_db \<Rightarrow> people_db" where
  "update_commit env m role status ax now db =
     (let change = (\<lambda>x. x\<lparr>tm_role := (case role of None \<Rightarrow> tm_role x | Some r \<Rightarrow> r),
             tm_status := (case status of None \<Rightarrow> tm_status x | Some s \<Rightarrow> s)\<rparr>);
          db1 = db\<lparr>seats := update_where (\<lambda>x. tm_id x = tm_id m) change (seats db)\<rparr>;
          db2 = (if status = Some MS_SUSPENDED
                 then db1\<lparr>refresh_tokens := update_where (\<lambda>r. rt_tenantId r = ax_tenantId ax \<and> rt_userId r = tm_userId m \<and> rt_revokedAt r = None)
                        (\<lambda>r. r\<lparr>rt_revokedAt := Some now\<rparr>) (refresh_tokens db1)\<rparr>
                 else db1)
      in people_event env now ax ''MEMBERSHIP_UPDATED'' (tm_id m) db2)"

definition update_member ::
  "people_env \<Rightarrow> uuid \<Rightarrow> membership_role option \<Rightarrow> membership_status option \<Rightarrow> actor \<Rightarrow> instant \<Rightarrow> people_db
     \<Rightarrow> unit result \<times> people_db" where
  "update_member env i role status ax now db =
     (case update_decide i role status ax db of
        Inl e \<Rightarrow> (Inl e, db)
      | Inr m \<Rightarrow> (Inr (), update_commit env m role status ax now db))"

definition remove_decide :: "uuid \<Rightarrow> actor \<Rightarrow> people_db \<Rightarrow> membership result" where
  "remove_decide i ax db =
     (case standing i (ax_tenantId ax) db of
        None \<Rightarrow> not_found
      | Some m \<Rightarrow>
      (case assertCanManageRole (ax_role ax) (tm_role m) of
        Inl e \<Rightarrow> Inl e
      | Inr _ \<Rightarrow> (case protectLastOwner (ax_tenantId ax) m MEMBER MS_REMOVED db of Inl e \<Rightarrow> Inl e | Inr _ \<Rightarrow> Inr m)))"

definition remove_commit :: "people_env \<Rightarrow> membership \<Rightarrow> actor \<Rightarrow> instant \<Rightarrow> people_db \<Rightarrow> people_db" where
  "remove_commit env m ax now db =
     people_event env now ax ''MEMBERSHIP_REMOVED'' (tm_id m)
       (db\<lparr>refresh_tokens := delete_where (\<lambda>r. rt_tenantId r = ax_tenantId ax \<and> rt_userId r = tm_userId m) (refresh_tokens db),
           seats := update_where (\<lambda>x. tm_id x = tm_id m)
             (\<lambda>x. x\<lparr>tm_status := MS_REMOVED, tm_inviteToken := None, tm_inviteExpiresAt := None\<rparr>) (seats db)\<rparr>)"

definition remove_member :: "people_env \<Rightarrow> uuid \<Rightarrow> actor \<Rightarrow> instant \<Rightarrow> people_db \<Rightarrow> unit result \<times> people_db" where
  "remove_member env i ax now db =
     (case remove_decide i ax db of Inl e \<Rightarrow> (Inl e, db) | Inr m \<Rightarrow> (Inr (), remove_commit env m ax now db))"

definition resetMfa :: "people_env \<Rightarrow> uuid \<Rightarrow> actor \<Rightarrow> instant \<Rightarrow> people_db \<Rightarrow> (uuid \<times> string) result \<times> people_db" where
  "resetMfa env i ax now db =
     (case standing i (ax_tenantId ax) db of
        None \<Rightarrow> (not_found, db)
      | Some m \<Rightarrow>
      (case seat_account m db of
        None \<Rightarrow> (not_found, db)
      | Some a \<Rightarrow>
      (case assertCanManageRole (ax_role ax) (tm_role m) of
        Inl e \<Rightarrow> (Inl e, db)
      | Inr _ \<Rightarrow>
          if tm_userId m = ax_userId ax then (fail_because 409 CONFLICT ''SELF_RESET_NOT_ADMINISTRATIVE'', db)
          else if ac_mfaEnrolledAt a = None then (fail_because 409 CONFLICT ''MFA_NOT_ENROLLED'', db)
          else (Inr (tm_userId m, ac_email a), people_event env now ax ''MFA_RESET_BY_ADMIN'' (tm_id m)
            (db\<lparr>accounts := update_where (\<lambda>x. ac_id x = tm_userId m)
                  (\<lambda>x. x\<lparr>ac_mfaSecret := None, ac_mfaEnrolledAt := None, ac_mfaLastUsedStep := None\<rparr>) (accounts db),
                au_recovery_codes := delete_where (\<lambda>c. rc_userId c = tm_userId m) (au_recovery_codes db),
                refresh_tokens := delete_where (\<lambda>r. rt_tenantId r = ax_tenantId ax \<and> rt_userId r = tm_userId m) (refresh_tokens db)\<rparr>)))))"

end
