(* ===== verification/People_Safety.thy ===== *)
theory People_Safety
  imports People
begin

section \<open>What the management of people promises\<close>

text \<open>
  Over every sequence of requests: a workspace keeps an active Owner, nobody acts above the own role or in
  another workspace, and the link of an invitation sets a password once. Then what goes wrong: two changes
  that read before either writes, and a placeholder account that two workspaces have invited.
\<close>

subsection \<open>The sequences\<close>

datatype people_op =
    P_add uuid string membership_role
  | P_invite string membership_role invitation_draws
  | P_rotate uuid string
  | P_cancel uuid
  | P_update uuid "membership_role option" "membership_status option"
  | P_remove uuid
  | P_reset_mfa uuid

text \<open>The routes of the administrators; the schema of a change admits two statuses.\<close>

fun people_request :: "people_env \<Rightarrow> actor \<Rightarrow> instant \<Rightarrow> people_op \<Rightarrow> people_db \<Rightarrow> people_db" where
  "people_request env ax now (P_add i e r) db = snd (add_member env i e r ax now db)"
| "people_request env ax now (P_invite e r dr) db = snd (createInvitation env e r dr ax now db)"
| "people_request env ax now (P_rotate i token) db = snd (rotateInvitationToken env i token ax now db)"
| "people_request env ax now (P_cancel i) db = snd (cancelInvitation env i ax now db)"
| "people_request env ax now (P_update i r s) db =
     (if s = Some MS_INVITED \<or> s = Some MS_REMOVED then db else snd (update_member env i r s ax now db))"
| "people_request env ax now (P_remove i) db = snd (remove_member env i ax now db)"
| "people_request env ax now (P_reset_mfa i) db = snd (resetMfa env i ax now db)"

datatype people_move =
    By_actor actor people_op
  | Claim_read string
  | Claim_write nat string
  | Accept accept_input uuid
  | Meanwhile people_db \<comment> \<open>everything but the memberships may change\<close>

record people_world =
  pw_db :: people_db
  pw_claims :: "(membership \<times> account) list"
  pw_tokens :: "string list" \<comment> \<open>the hashes of the tokens made so far\<close>

definition seat_taken :: "uuid \<Rightarrow> people_db \<Rightarrow> bool" where
  "seat_taken i db \<longleftrightarrow> i \<in> tm_id ` set (seats db)"

fun drawn_token :: "people_op \<Rightarrow> string option" where
  "drawn_token (P_invite e r dr) = Some (dr_token dr)"
| "drawn_token (P_rotate i token) = Some token"
| "drawn_token x = None"

fun drawn_seat :: "people_op \<Rightarrow> uuid option" where
  "drawn_seat (P_add i e r) = Some i"
| "drawn_seat (P_invite e r dr) = Some (dr_membershipId dr)"
| "drawn_seat x = None"

text \<open>A new row gets an identifier no row has, and a token is one that was never made.\<close>

definition drawn_fresh :: "people_env \<Rightarrow> people_op \<Rightarrow> people_world \<Rightarrow> bool" where
  "drawn_fresh env x s \<longleftrightarrow>
     (case drawn_token x of None \<Rightarrow> True | Some t \<Rightarrow> pn_hashToken env t \<notin> set (pw_tokens s))
     \<and> (case drawn_seat x of None \<Rightarrow> True | Some i \<Rightarrow> \<not> seat_taken i (pw_db s))"

fun people_step :: "people_env \<Rightarrow> people_world \<Rightarrow> instant \<times> people_move \<Rightarrow> people_world" where
  "people_step env s (now, By_actor ax x) =
     (if \<not> drawn_fresh env x s then s
      else s\<lparr>pw_db := people_request env ax now x (pw_db s),
             pw_tokens := (case drawn_token x of None \<Rightarrow> pw_tokens s | Some t \<Rightarrow> pn_hashToken env t # pw_tokens s)\<rparr>)"
| "people_step env s (now, Claim_read token) =
     (case claim_decide env token now (pw_db s) of Inl e \<Rightarrow> s | Inr seen \<Rightarrow> s\<lparr>pw_claims := pw_claims s @ [seen]\<rparr>)"
| "people_step env s (now, Claim_write n password) =
     (if n < length (pw_claims s)
      then s\<lparr>pw_db := snd (claim_commit env (pw_claims s ! n) password now (pw_db s)),
             pw_claims := take n (pw_claims s) @ drop (Suc n) (pw_claims s)\<rparr>
      else s)"
| "people_step env s (now, Accept x u) = s\<lparr>pw_db := snd (acceptInvitation env x u now (pw_db s))\<rparr>"
| "people_step env s (now, Meanwhile y) = s\<lparr>pw_db := y\<lparr>seats := seats (pw_db s)\<rparr>\<rparr>"

subsection \<open>The change of one row\<close>

lemma events_frame [simp]:
  "seats (people_event env now ax ty i db) = seats db"
  "seats (invitee_event env now t u ty i db) = seats db"
  "accounts (people_event env now ax ty i db) = accounts db"
  "accounts (invitee_event env now t u ty i db) = accounts db"
  "workspaces (people_event env now ax ty i db) = workspaces db"
  "workspaces (invitee_event env now t u ty i db) = workspaces db"
  "subscriptions (people_event env now ax ty i db) = subscriptions db"
  "subscriptions (invitee_event env now t u ty i db) = subscriptions db"
  by (simp_all add: people_event_def invitee_event_def)

text \<open>
  Every request leaves the rows as they are, adds one, or rewrites one found in them. What it may write is
  described by a relation between the old and the new row.
\<close>

definition one_row :: "(membership \<Rightarrow> membership \<Rightarrow> bool) \<Rightarrow> (membership \<Rightarrow> bool) \<Rightarrow> membership list \<Rightarrow> membership list \<Rightarrow> bool" where
  "one_row R N rows rows' \<longleftrightarrow>
     rows' = rows
     \<or> (\<exists>m. N m \<and> rows' = rows @ [m])
     \<or> (\<exists>m f. m \<in> set rows \<and> R m (f m) \<and> rows' = update_where (\<lambda>x. tm_id x = tm_id m) f rows)"

lemma one_row_same: "rows' = rows \<Longrightarrow> one_row R N rows rows'"
  by (simp add: one_row_def)

lemma one_row_write: "m \<in> set rows \<Longrightarrow> R m (f m) \<Longrightarrow> one_row R N rows (update_where (\<lambda>x. tm_id x = tm_id m) f rows)"
  unfolding one_row_def by blast

lemma one_row_add: "N m \<Longrightarrow> one_row R N rows (rows @ [m])"
  unfolding one_row_def by blast

lemma one_row_mono:
  assumes "one_row R N rows rows'" "\<And>m m'. R m m' \<Longrightarrow> m \<in> set rows \<Longrightarrow> R' m m'" "\<And>m. N m \<Longrightarrow> N' m"
  shows "one_row R' N' rows rows'"
  using assms unfolding one_row_def by blast

lemma guarded_update:
  assumes "unique_key tm_id rows" "m \<in> set rows" "P m" "\<And>x. P x \<Longrightarrow> tm_id x = tm_id m"
  shows "update_where P f rows = update_where (\<lambda>x. tm_id x = tm_id m) f rows"
proof -
  have "P x \<longleftrightarrow> tm_id x = tm_id m" if "x \<in> set rows" for x
    using unique_keyD [OF assms(1) that assms(2)] assms(3,4) by metis
  then show ?thesis by (simp add: update_where_def)
qed

text \<open>Who may act on which role.\<close>

lemma can_name: "can (capability_name c) (acting_context a) \<longleftrightarrow> (\<exists>k. matrixKind a c = Some k \<and> kind_satisfied (acting_context a) k)"
  by (auto simp: can_iff acting_context_def dest: capability_name_inj)

lemma route_names:
  "INVITE_CAPABILITY r = capability_name
     (case r of OWNER \<Rightarrow> People_Invite_Owner | ADMIN \<Rightarrow> People_Invite_Admin | _ \<Rightarrow> People_Invite_Member)"
  "MANAGE_CAPABILITY r = capability_name
     (case r of OWNER \<Rightarrow> People_Owner_Manage | ADMIN \<Rightarrow> People_Admin_Manage | _ \<Rightarrow> People_Member_Manage)"
  by (cases r; simp)+

lemma may_invite: "can (INVITE_CAPABILITY r) (acting_context a) \<longleftrightarrow> a = OWNER \<or> a = ADMIN \<and> r \<noteq> OWNER"
  unfolding route_names can_name
  by (cases r; cases a) (simp_all add: matrixKind_def OWNER_matrix_def ADMIN_matrix_def MEMBER_matrix_def SUPPORT_matrix_def)

lemma may_manage: "can (MANAGE_CAPABILITY r) (acting_context a) \<longleftrightarrow> a = OWNER \<or> a = ADMIN \<and> r \<noteq> OWNER"
  unfolding route_names can_name
  by (cases r; cases a) (simp_all add: matrixKind_def OWNER_matrix_def ADMIN_matrix_def MEMBER_matrix_def SUPPORT_matrix_def)

definition above :: "membership_role \<Rightarrow> membership_role \<Rightarrow> bool" where
  "above a r \<longleftrightarrow> a = OWNER \<or> a = ADMIN \<and> r \<noteq> OWNER"

lemma role_guards [simp]:
  "assertCanInviteRole a r = (if above a r then Inr () else fail_with 403 FORBIDDEN)"
  "assertCanManageRole a r = (if above a r then Inr () else fail_with 403 FORBIDDEN)"
  by (simp_all add: assertCanInviteRole_def assertCanManageRole_def may_invite may_manage above_def)

subsection \<open>What an administrator may write\<close>

definition token_hash :: "people_env \<Rightarrow> people_op \<Rightarrow> string option" where
  "token_hash env x = map_option (pn_hashToken env) (drawn_token x)"

fun over_pending :: "people_op \<Rightarrow> bool" where
  "over_pending (P_invite e r dr) = True"
| "over_pending x = False"

definition may_write :: "people_env \<Rightarrow> actor \<Rightarrow> people_op \<Rightarrow> people_db \<Rightarrow> membership \<Rightarrow> membership \<Rightarrow> bool" where
  "may_write env ax x db m m' \<longleftrightarrow>
     tm_id m' = tm_id m \<and> tm_tenantId m = ax_tenantId ax \<and> tm_tenantId m' = ax_tenantId ax \<and> tm_userId m' = tm_userId m
     \<and> above (ax_role ax) (tm_role m')
     \<and> (above (ax_role ax) (tm_role m) \<or> over_pending x \<and> (tm_status m = MS_INVITED \<or> tm_status m = MS_REMOVED))
     \<and> (active_owner (ax_tenantId ax) m \<longrightarrow> active_owner (ax_tenantId ax) m'
          \<or> 1 < count_where (active_owner (ax_tenantId ax)) (seats db))
     \<and> (tm_inviteToken m' = None \<or> tm_inviteToken m' = tm_inviteToken m
          \<and> (tm_status m' = MS_INVITED \<longrightarrow> tm_status m = MS_INVITED) \<or> tm_inviteToken m' = token_hash env x)"

definition may_add :: "people_env \<Rightarrow> actor \<Rightarrow> people_op \<Rightarrow> membership \<Rightarrow> bool" where
  "may_add env ax x m \<longleftrightarrow> Some (tm_id m) = drawn_seat x \<and> tm_tenantId m = ax_tenantId ax \<and> above (ax_role ax) (tm_role m)
     \<and> (tm_inviteToken m = None \<or> tm_inviteToken m = token_hash env x)"

abbreviation writes :: "people_env \<Rightarrow> actor \<Rightarrow> people_op \<Rightarrow> people_db \<Rightarrow> people_db \<Rightarrow> bool" where
  "writes env ax x db db' \<equiv> one_row (may_write env ax x db) (may_add env ax x) (seats db) (seats db')"

lemmas write_simps = may_write_def may_add_def token_hash_def active_owner_def

lemma add_rows: "writes env ax (P_add i e r) db (snd (add_member env i e r ax now db))"
  by (auto simp: add_member_def write_simps Let_def split: sum.split option.split if_splits intro: one_row_same one_row_add)

lemma invite_rows: "writes env ax (P_invite e r dr) db (snd (createInvitation env e r dr ax now db))"
proof -
  have "writes env ax (P_invite e r dr) db (snd (issueInvitation env e r dr ax now db))"
    by (auto simp: issueInvitation_def Let_def write_simps dest!: find_row_SomeD
        split: sum.split option.split if_splits intro: one_row_same one_row_add one_row_write)
  then show ?thesis by (auto simp: createInvitation_def split: prod.splits sum.splits)
qed

lemma rotate_rows:
  assumes "unique_key tm_id (seats db)"
  shows "writes env ax (P_rotate i token) db (snd (rotateInvitationToken env i token ax now db))"
proof (cases "find_row (\<lambda>m. tm_id m = i \<and> tm_tenantId m = ax_tenantId ax \<and> tm_status m = MS_INVITED) (seats db)")
  case (Some m)
  then have m: "m \<in> set (seats db)" "tm_id m = i" "tm_tenantId m = ax_tenantId ax" "tm_status m = MS_INVITED"
    by (auto dest: find_row_SomeD)
  have u: "update_where (\<lambda>x. tm_id x = i \<and> tm_status x = MS_INVITED) f (seats db) = update_where (\<lambda>x. tm_id x = tm_id m) f (seats db)" for f
    by (rule guarded_update [OF assms m(1)]) (use m in auto)
  from Some m show ?thesis
    by (auto simp: rotateInvitationToken_def u write_simps intro: one_row_same one_row_write)
qed (simp add: rotateInvitationToken_def one_row_same)

lemma cancel_rows: "writes env ax (P_cancel i) db (snd (cancelInvitation env i ax now db))"
  by (auto simp: cancelInvitation_def write_simps dest!: find_row_SomeD split: option.split intro: one_row_same one_row_write)

definition changed :: "membership_role option \<Rightarrow> membership_status option \<Rightarrow> membership \<Rightarrow> membership" where
  "changed r s x = x\<lparr>tm_role := (case r of None \<Rightarrow> tm_role x | Some q \<Rightarrow> q), tm_status := (case s of None \<Rightarrow> tm_status x | Some q \<Rightarrow> q)\<rparr>"

lemma update_commit_seats:
  "seats (update_commit env m r s ax now db) = update_where (\<lambda>x. tm_id x = tm_id m) (changed r s) (seats db)"
proof -
  have c: "(\<lambda>x. x\<lparr>tm_role := (case r of None \<Rightarrow> tm_role x | Some q \<Rightarrow> q), tm_status := (case s of None \<Rightarrow> tm_status x | Some q \<Rightarrow> q)\<rparr>) = changed r s"
    by (rule ext) (simp add: changed_def)
  show ?thesis unfolding update_commit_def Let_def c by (simp split: if_split)
qed

lemma update_rows:
  assumes "s \<noteq> Some MS_INVITED" "s \<noteq> Some MS_REMOVED"
  shows "writes env ax (P_update i r s) db (snd (update_member env i r s ax now db))"
proof (cases "update_decide i r s ax db")
  case (Inr m)
  then have m: "m \<in> set (seats db)" "tm_tenantId m = ax_tenantId ax" "above (ax_role ax) (tm_role m)"
      "above (ax_role ax) (case r of None \<Rightarrow> tm_role m | Some q \<Rightarrow> q)"
      "protectLastOwner (ax_tenantId ax) m (case r of None \<Rightarrow> tm_role m | Some q \<Rightarrow> q) (case s of None \<Rightarrow> tm_status m | Some q \<Rightarrow> q) db = Inr ()"
    by (auto simp: update_decide_def standing_def Let_def dest!: find_row_SomeD split: option.splits sum.splits if_splits)
  have "may_write env ax (P_update i r s) db m (changed r s m)"
    using m assms by (auto simp: changed_def write_simps protectLastOwner_def split: option.splits if_splits)
  then show ?thesis using one_row_write [OF m(1), where f = "changed r s"]
    by (simp add: update_member_def Inr update_commit_seats)
qed (simp add: update_member_def one_row_same)

lemma remove_rows: "writes env ax (P_remove i) db (snd (remove_member env i ax now db))"
proof (cases "remove_decide i ax db")
  case (Inr m)
  then have m: "m \<in> set (seats db)" "tm_tenantId m = ax_tenantId ax" "above (ax_role ax) (tm_role m)"
      "protectLastOwner (ax_tenantId ax) m MEMBER MS_REMOVED db = Inr ()"
    by (auto simp: remove_decide_def standing_def dest!: find_row_SomeD split: option.splits sum.splits if_splits)
  let ?f = "\<lambda>x. x\<lparr>tm_status := MS_REMOVED, tm_inviteToken := None, tm_inviteExpiresAt := None\<rparr>"
  have "may_write env ax (P_remove i) db m (?f m)"
    using m by (auto simp: write_simps protectLastOwner_def split: if_splits)
  then show ?thesis using one_row_write [OF m(1), where f = ?f]
    by (simp add: remove_member_def Inr remove_commit_def)
qed (simp add: remove_member_def one_row_same)

lemma reset_rows: "seats (snd (resetMfa env i ax now db)) = seats db"
  by (simp add: resetMfa_def split: option.split)

lemma request_rows:
  assumes "unique_key tm_id (seats db)"
  shows "writes env ax x db (people_request env ax now x db)"
  by (cases x) (auto simp: add_rows invite_rows rotate_rows [OF assms] cancel_rows update_rows remove_rows reset_rows
      intro: one_row_same)

subsection \<open>The invariant\<close>

definition tokens_ok :: "string list \<Rightarrow> membership list \<Rightarrow> bool" where
  "tokens_ok used rows \<longleftrightarrow> (\<forall>m\<in>set rows. \<forall>k. tm_inviteToken m = Some k \<longrightarrow> k \<in> set used
     \<and> (\<forall>m'\<in>set rows. tm_inviteToken m' = Some k \<longrightarrow> tm_id m' = tm_id m))"

definition known_link :: "string list \<Rightarrow> membership \<times> account \<Rightarrow> bool" where
  "known_link used seen \<longleftrightarrow> (case tm_inviteToken (fst seen) of None \<Rightarrow> False | Some k \<Rightarrow> k \<in> set used)"

definition people_ok :: "people_world \<Rightarrow> bool" where
  "people_ok s \<longleftrightarrow> unique_key tm_id (seats (pw_db s)) \<and> tokens_ok (pw_tokens s) (seats (pw_db s))
     \<and> (\<forall>seen\<in>set (pw_claims s). known_link (pw_tokens s) seen)"

text \<open>The invitee's side rewrites no more than the status of a row and its expiry.\<close>

definition joined :: "membership \<Rightarrow> membership" where
  "joined m = m\<lparr>tm_status := MS_ACTIVE, tm_inviteExpiresAt := None\<rparr>"

lemma joined_fields [simp]:
  "tm_id (joined m) = tm_id m" "tm_tenantId (joined m) = tm_tenantId m" "tm_userId (joined m) = tm_userId m"
  "tm_role (joined m) = tm_role m" "tm_inviteToken (joined m) = tm_inviteToken m" "tm_status (joined m) = MS_ACTIVE"
  by (simp_all add: joined_def)

definition joins :: "membership list \<Rightarrow> membership list \<Rightarrow> bool" where
  "joins rows rows' \<longleftrightarrow> (\<exists>P. rows' = update_where P joined rows)"

lemma joins_same [simp]: "joins rows rows"
proof -
  have "rows = update_where (\<lambda>x. False) joined rows" by (simp add: update_where_def)
  then show ?thesis unfolding joins_def by blast
qed

lemma claim_rows: "joins (seats db) (seats (snd (claim_commit env seen pw now db)))"
proof (cases "snd (claim_commit env seen pw now db) = db")
  case False
  then show ?thesis
    by (auto simp: claim_commit_def Let_def joins_def joined_def [abs_def] split: prod.splits if_splits)
qed simp

lemma accept_rows: "joins (seats db) (seats (snd (acceptInvitation env x u now db)))"
proof -
  have w: "joins (seats db) (update_where P (\<lambda>x. x\<lparr>tm_status := MS_ACTIVE, tm_inviteExpiresAt := None\<rparr>) (seats db))" for P
    unfolding joins_def joined_def [abs_def] by blast
  show ?thesis by (simp add: acceptInvitation_def Let_def w split: sum.split)
qed

lemma unique_joins: "joins rows rows' \<Longrightarrow> unique_key tm_id rows' = unique_key tm_id rows"
  by (auto simp: joins_def unique_key_update_where)

lemma tokens_okD:
  assumes "tokens_ok used rows" "m \<in> set rows" "tm_inviteToken m = Some k"
  shows "k \<in> set used" "m' \<in> set rows \<Longrightarrow> tm_inviteToken m' = Some k \<Longrightarrow> tm_id m' = tm_id m"
  using assms unfolding tokens_ok_def by blast+

lemma tokens_okI:
  assumes "\<And>m k. m \<in> set rows \<Longrightarrow> tm_inviteToken m = Some k \<Longrightarrow> k \<in> set used"
    and "\<And>m m' k. m \<in> set rows \<Longrightarrow> tm_inviteToken m = Some k \<Longrightarrow> m' \<in> set rows \<Longrightarrow> tm_inviteToken m' = Some k \<Longrightarrow> tm_id m' = tm_id m"
  shows "tokens_ok used rows"
  using assms unfolding tokens_ok_def by blast

lemma joins_member:
  assumes "joins rows rows'" "m' \<in> set rows'"
  shows "\<exists>m\<in>set rows. m' = m \<or> m' = joined m"
  using assms by (auto simp: joins_def update_where_def)

lemma tokens_joins:
  assumes "joins rows rows'" "tokens_ok used rows" shows "tokens_ok used rows'"
proof (rule tokens_okI)
  fix m k assume m: "m \<in> set rows'" "tm_inviteToken m = Some k"
  from joins_member [OF assms(1) m(1)] m(2) obtain x where x: "x \<in> set rows" "tm_inviteToken x = Some k" "tm_id m = tm_id x" by auto
  show "k \<in> set used" by (rule tokens_okD(1) [OF assms(2) x(1,2)])
  fix m' assume m': "m' \<in> set rows'" "tm_inviteToken m' = Some k"
  from joins_member [OF assms(1) m'(1)] m'(2) obtain y where y: "y \<in> set rows" "tm_inviteToken y = Some k" "tm_id m' = tm_id y" by auto
  from tokens_okD(2) [OF assms(2) x(1,2) y(1,2)] x(3) y(3) show "tm_id m' = tm_id m" by simp
qed

lemma one_row_unique:
  assumes "one_row R N rows rows'" "unique_key tm_id rows"
    and "\<And>m m'. R m m' \<Longrightarrow> tm_id m' = tm_id m" "\<And>m. N m \<Longrightarrow> tm_id m \<notin> tm_id ` set rows"
  shows "unique_key tm_id rows'"
  using assms(1) unfolding one_row_def
proof (elim disjE exE conjE)
  fix m f assume m: "m \<in> set rows" "R m (f m)" and r: "rows' = update_where (\<lambda>x. tm_id x = tm_id m) f rows"
  have "x = m" if "x \<in> set rows" "tm_id x = tm_id m" for x using unique_keyD [OF assms(2) that(1) m(1) that(2)] .
  then have "map tm_id rows' = map tm_id rows" using assms(3) [OF m(2)] by (auto simp: r update_where_def)
  with assms(2) show ?thesis by (simp add: unique_key_def)
qed (use assms(2,4) in \<open>auto simp: unique_key_snoc\<close>)

text \<open>The rows after a write: the other ones and the new one.\<close>

lemma one_row_member:
  assumes "one_row R N rows rows'" "unique_key tm_id rows" "m' \<in> set rows'"
  shows "m' \<in> set rows \<or> N m' \<or> (\<exists>m\<in>set rows. R m m')"
  using assms(1) unfolding one_row_def
proof (elim disjE exE conjE)
  fix m f assume m: "m \<in> set rows" "R m (f m)" and r: "rows' = update_where (\<lambda>x. tm_id x = tm_id m) f rows"
  have "x = m" if "x \<in> set rows" "tm_id x = tm_id m" for x using unique_keyD [OF assms(2) that(1) m(1) that(2)] .
  with m r assms(3) show ?thesis by (auto simp: update_where_def split: if_splits)
qed (use assms(3) in auto)

lemma one_row_gone:
  assumes "one_row R N rows rows'" "unique_key tm_id rows" "m \<in> set rows" "m \<notin> set rows'"
  shows "\<exists>m'\<in>set rows'. R m m'"
  using assms(1) unfolding one_row_def
proof (elim disjE exE conjE)
  fix y f assume y: "y \<in> set rows" "R y (f y)" and r: "rows' = update_where (\<lambda>x. tm_id x = tm_id y) f rows"
  have "m = y"
  proof (rule ccontr)
    assume "m \<noteq> y"
    then have "tm_id m \<noteq> tm_id y" using unique_keyD [OF assms(2,3) y(1)] by blast
    then have "m \<in> set rows'" using assms(3) by (force simp: r update_where_def)
    with assms(4) show False by simp
  qed
  with y r show ?thesis by (auto simp: update_where_def)
qed (use assms(3,4) in auto)

lemma request_tokens:
  assumes w: "writes env ax x db db'" and u: "unique_key tm_id (seats db)" and t: "tokens_ok used (seats db)"
    and f: "\<And>k. token_hash env x = Some k \<Longrightarrow> k \<notin> set used"
    and n: "\<And>i. drawn_seat x = Some i \<Longrightarrow> i \<notin> tm_id ` set (seats db)"
  shows "tokens_ok ((case token_hash env x of None \<Rightarrow> [] | Some k \<Rightarrow> [k]) @ used) (seats db')"
proof -
  have src: "tm_inviteToken m' = Some k \<Longrightarrow> m' \<in> set (seats db') \<Longrightarrow>
      (\<exists>m\<in>set (seats db). tm_inviteToken m = Some k \<and> tm_id m = tm_id m') \<or> token_hash env x = Some k" for m' k
    using one_row_member [OF w u, of m'] by (auto simp: may_write_def may_add_def)
  have one: "tm_id m1 = tm_id m2" if "token_hash env x = Some k" "m1 \<in> set (seats db')" "m2 \<in> set (seats db')"
      "tm_inviteToken m1 = Some k" "tm_inviteToken m2 = Some k" for k m1 m2
  proof -
    have old: "m \<notin> set (seats db)" if "tm_inviteToken m = Some k" for m
      using t f [OF \<open>token_hash env x = Some k\<close>] that by (auto simp: tokens_ok_def)
    from w show ?thesis unfolding one_row_def
    proof (elim disjE exE conjE)
      fix m g assume m: "m \<in> set (seats db)" and r: "seats db' = update_where (\<lambda>x. tm_id x = tm_id m) g (seats db)"
        and R: "may_write env ax x db m (g m)"
      have "x = m" if "x \<in> set (seats db)" "tm_id x = tm_id m" for x using unique_keyD [OF u that(1) m that(2)] .
      with r R that old show ?thesis by (auto simp: update_where_def split: if_splits)
    qed (use that old in auto)
  qed
  show ?thesis
  proof (rule tokens_okI)
    fix m k assume m: "m \<in> set (seats db')" and k: "tm_inviteToken m = Some k"
    show "k \<in> set ((case token_hash env x of None \<Rightarrow> [] | Some k \<Rightarrow> [k]) @ used)"
      using src [OF k m] tokens_okD(1) [OF t] by auto
    fix m' assume m': "m' \<in> set (seats db')" and k': "tm_inviteToken m' = Some k"
    show "tm_id m' = tm_id m"
    proof (cases "token_hash env x = Some k")
      case True then show ?thesis using one [OF True m' m k' k] by simp
    next
      case False
      with src [OF k m] src [OF k' m'] obtain a b where
        "a \<in> set (seats db)" "tm_inviteToken a = Some k" "tm_id a = tm_id m"
        "b \<in> set (seats db)" "tm_inviteToken b = Some k" "tm_id b = tm_id m'" by blast
      with tokens_okD(2) [OF t, of a k b] show ?thesis by simp
    qed
  qed
qed

lemma tokens_more: "tokens_ok used rows \<Longrightarrow> set used \<subseteq> set used' \<Longrightarrow> tokens_ok used' rows"
  by (rule tokens_okI) (auto dest: tokens_okD)

lemma fresh_draws:
  assumes "drawn_fresh env x s"
  shows "token_hash env x = Some k \<Longrightarrow> k \<notin> set (pw_tokens s)"
    and "drawn_seat x = Some i \<Longrightarrow> i \<notin> tm_id ` set (seats (pw_db s))"
  using assms by (auto simp: drawn_fresh_def token_hash_def seat_taken_def)

lemma claim_seen:
  assumes "claim_decide env token now db = Inr (m, a)"
  shows "m \<in> set (seats db) \<and> tm_inviteToken m = Some (pn_hashToken env token) \<and> tm_status m = MS_INVITED
    \<and> a \<in> set (accounts db) \<and> ac_id a = tm_userId m \<and> ac_status a = US_INVITED"
  using assms by (auto simp: claim_decide_def by_token_def seat_account_def dest!: find_row_SomeD
      split: option.splits if_splits sum.splits)

lemma people_step_ok:
  assumes ok: "people_ok s" shows "people_ok (people_step env s x)"
proof -
  obtain now mv where x: "x = (now, mv)" by (cases x)
  note u = ok [unfolded people_ok_def, THEN conjunct1]
  note t = ok [unfolded people_ok_def, THEN conjunct2, THEN conjunct1]
  note c = ok [unfolded people_ok_def, THEN conjunct2, THEN conjunct2]
  show ?thesis
  proof (cases mv)
    case (By_actor ax y)
    show ?thesis
    proof (cases "drawn_fresh env y s")
      case True
      note f = fresh_draws [OF True]
      have w: "writes env ax y (pw_db s) (people_request env ax now y (pw_db s))" by (rule request_rows [OF u])
      have "unique_key tm_id (seats (people_request env ax now y (pw_db s)))"
        by (rule one_row_unique [OF w u]) (use f(2) in \<open>auto simp: may_write_def may_add_def\<close>)
      moreover have "tokens_ok (case drawn_token y of None \<Rightarrow> pw_tokens s | Some t \<Rightarrow> pn_hashToken env t # pw_tokens s)
          (seats (people_request env ax now y (pw_db s)))"
        by (rule tokens_more [OF request_tokens [OF w u t f]]) (auto simp: token_hash_def split: option.splits)
      ultimately show ?thesis using True x By_actor c
        by (auto simp: people_ok_def known_link_def split: option.splits)
    qed (use ok x By_actor in simp)
  next
    case (Claim_read token)
    show ?thesis
    proof (cases "claim_decide env token now (pw_db s)")
      case (Inr seen)
      obtain m a where seen: "seen = (m, a)" by (cases seen)
      have "pn_hashToken env token \<in> set (pw_tokens s)"
        by (rule tokens_okD(1) [OF t]) (use claim_seen [OF Inr [unfolded seen]] in auto)
      with claim_seen [OF Inr [unfolded seen]] c have "\<forall>y\<in>set (pw_claims s @ [seen]). known_link (pw_tokens s) y"
        by (simp add: seen known_link_def)
      with u t show ?thesis by (simp add: people_ok_def x Claim_read Inr del: set_append)
    qed (use ok x Claim_read in simp)
  next
    case (Claim_write n pw)
    have "set (take n (pw_claims s) @ drop (Suc n) (pw_claims s)) \<subseteq> set (pw_claims s)"
      by (auto dest: in_set_takeD in_set_dropD)
    with c have "\<forall>seen\<in>set (take n (pw_claims s) @ drop (Suc n) (pw_claims s)). known_link (pw_tokens s) seen"
      by blast
    with x Claim_write ok unique_joins [OF claim_rows] tokens_joins [OF claim_rows t] show ?thesis
      by (simp add: people_ok_def)
  next
    case (Accept y v)
    with x ok unique_joins [OF accept_rows] tokens_joins [OF accept_rows t] show ?thesis by (simp add: people_ok_def)
  next
    case (Meanwhile y)
    with x ok show ?thesis by (simp add: people_ok_def)
  qed
qed

interpretation people: op_machine "people_step env" people_ok for env
  by unfold_locales (rule people_step_ok)

subsection \<open>A workspace keeps an Owner\<close>

definition has_owner :: "uuid \<Rightarrow> membership list \<Rightarrow> bool" where
  "has_owner t rows \<longleftrightarrow> (\<exists>m\<in>set rows. active_owner t m)"

lemma another_one:
  assumes "unique_key k rows" "1 < count_where P rows" shows "\<exists>z\<in>set rows. P z \<and> z \<noteq> m"
proof (rule ccontr)
  assume n: "\<not> ?thesis"
  have d: "distinct rows" using assms(1) by (simp add: unique_key_def distinct_map)
  have "set (filter P rows) \<subseteq> {m}" using n by auto
  then have "card (set (filter P rows)) \<le> 1" using card_mono [of "{m}"] by simp
  moreover have "card (set (filter P rows)) = length (filter P rows)" by (rule distinct_card) (simp add: d)
  ultimately show False using assms(2) by (simp add: count_where_def)
qed

lemma owner_writes:
  assumes w: "writes env ax x db db'" and u: "unique_key tm_id (seats db)" and h: "has_owner t (seats db)"
  shows "has_owner t (seats db')"
  using w unfolding one_row_def
proof (elim disjE exE conjE)
  fix m f assume m: "m \<in> set (seats db)" and R: "may_write env ax x db m (f m)"
    and r: "seats db' = update_where (\<lambda>x. tm_id x = tm_id m) f (seats db)"
  have keep: "z \<in> set (seats db')" if "z \<in> set (seats db)" "z \<noteq> m" for z
    using that unique_keyD [OF u that(1) m] by (force simp: r update_where_def)
  have new: "f m \<in> set (seats db')" using m by (auto simp: r update_where_def)
  from h obtain z where z: "z \<in> set (seats db)" "active_owner t z" by (auto simp: has_owner_def)
  show ?thesis
  proof (cases "z = m")
    case False
    with keep [OF z(1)] z(2) show ?thesis by (auto simp: has_owner_def)
  next
    case True
    then have t: "t = ax_tenantId ax" using R z(2) by (simp add: may_write_def active_owner_def)
    with True R z(2) have "active_owner t (f m) \<or> 1 < count_where (active_owner t) (seats db)" by (simp add: may_write_def)
    then show ?thesis
    proof
      assume "active_owner t (f m)"
      with new show ?thesis by (auto simp: has_owner_def)
    next
      assume "1 < count_where (active_owner t) (seats db)"
      from another_one [OF u this, of m] keep show ?thesis by (auto simp: has_owner_def)
    qed
  qed
qed (use h in \<open>auto simp: has_owner_def\<close>)

lemma owner_joins:
  assumes "joins rows rows'" "has_owner t rows" shows "has_owner t rows'"
proof -
  from assms obtain P m where P: "rows' = update_where P joined rows" and m: "m \<in> set rows" "active_owner t m"
    by (auto simp: joins_def has_owner_def)
  have "(if P m then joined m else m) \<in> set rows'" using m(1) by (auto simp: P update_where_def)
  moreover have "active_owner t (if P m then joined m else m)" using m(2) by (simp add: active_owner_def)
  ultimately show ?thesis by (auto simp: has_owner_def)
qed

definition owned :: "uuid \<Rightarrow> people_world \<Rightarrow> bool" where
  "owned t s \<longleftrightarrow> people_ok s \<and> has_owner t (seats (pw_db s))"

lemma owned_step:
  assumes "owned t s" shows "owned t (people_step env s x)"
proof -
  obtain now mv where x: "x = (now, mv)" by (cases x)
  from assms have ok: "people_ok s" and h: "has_owner t (seats (pw_db s))" by (auto simp: owned_def)
  then have u: "unique_key tm_id (seats (pw_db s))" by (simp add: people_ok_def)
  have "has_owner t (seats (pw_db (people_step env s x)))"
    using h x by (cases mv) (auto split: sum.splits intro: owner_writes [OF request_rows [OF u] u] owner_joins [OF claim_rows]
        owner_joins [OF accept_rows])
  with people_step_ok [OF ok] show ?thesis by (simp add: owned_def)
qed

interpretation ownership: op_machine "people_step env" "owned t" for env t
  by unfold_locales (rule owned_step)


lemma stands_alone:
  assumes u: "unique_key tm_id (seats db)" and m: "m \<in> set (seats db)" "active_owner t m"
  shows "standing (tm_id m) t db = Some m"
proof -
  have "find_row (\<lambda>x. tm_id x = tm_id m \<and> tm_tenantId x = t \<and> tm_status x \<noteq> MS_REMOVED) (seats db) \<noteq> None"
    using m by (auto simp: find_row_None_iff active_owner_def)
  then obtain y where y: "find_row (\<lambda>x. tm_id x = tm_id m \<and> tm_tenantId x = t \<and> tm_status x \<noteq> MS_REMOVED) (seats db) = Some y" by blast
  then have "y = m" using unique_keyD [OF u _ m(1)] by (auto dest!: find_row_SomeD)
  with y show ?thesis by (simp add: standing_def)
qed

text \<open>
  C25: But the count and the change are two statements of a transaction that locks nothing: two Owners who step
  down at the same time, each reading while the other is still there, both succeed and leave none.
\<close>

theorem two_owners_leave_none:
  assumes owners: "filter (active_owner t) (seats db) = [a, b]" and u: "unique_key tm_id (seats db)"
    and acts: "ax_tenantId ax = t" "ax_role ax = OWNER" "ax_tenantId bx = t" "ax_role bx = OWNER"
  shows "remove_decide (tm_id a) ax db = Inr a \<and> remove_decide (tm_id b) bx db = Inr b
    \<and> filter (active_owner t) (seats (remove_commit env b bx now' (remove_commit env a ax now db))) = []
    \<and> isl (remove_decide (tm_id b) bx (remove_commit env a ax now db))"
proof -
  have "a \<in> set (filter (active_owner t) (seats db))" "b \<in> set (filter (active_owner t) (seats db))"
    unfolding owners by simp_all
  then have ab: "a \<in> set (seats db)" "b \<in> set (seats db)" "active_owner t a" "active_owner t b" by simp_all
  have d: "tm_id a \<noteq> tm_id b"
  proof
    assume "tm_id a = tm_id b"
    then have "a = b" by (rule unique_keyD [OF u ab(1,2)])
    moreover have "distinct (filter (active_owner t) (seats db))" using u by (simp add: unique_key_def distinct_map)
    ultimately show False using owners by simp
  qed
  have s: "standing (tm_id m) t db = Some m" if "m \<in> set (seats db)" "active_owner t m" for m
    by (rule stands_alone [OF u that])
  have n: "count_where (active_owner t) (seats db) = 2" using owners by (simp add: count_where_def)
  let ?g = "\<lambda>x. x\<lparr>tm_status := MS_REMOVED, tm_inviteToken := None, tm_inviteExpiresAt := None\<rparr>"
  have one: "filter (active_owner t) (update_where (\<lambda>x. tm_id x = i) ?g rows) = filter (\<lambda>x. active_owner t x \<and> tm_id x \<noteq> i) rows" for i rows
    by (induction rows) (auto simp: update_where_def active_owner_def)
  have "filter (\<lambda>x. tm_id x \<noteq> tm_id a) (filter (active_owner t) (seats db)) = [b]" unfolding owners using d by simp
  then have left: "filter (\<lambda>x. active_owner t x \<and> tm_id x \<noteq> tm_id a) (seats db) = [b]" by (simp add: conj_commute)
  have c1: "filter (active_owner t) (seats (remove_commit env a ax now db)) = [b]"
    by (simp add: remove_commit_def one left)
  have "filter (active_owner t) (seats (remove_commit env b bx now' (remove_commit env a ax now db)))
      = filter (\<lambda>x. tm_id x \<noteq> tm_id b) (filter (active_owner t) (seats (remove_commit env a ax now db)))"
    by (subst (1) remove_commit_def) (simp add: one conj_commute)
  then have c2: "filter (active_owner t) (seats (remove_commit env b bx now' (remove_commit env a ax now db))) = []" by (simp add: c1)
  have late: "isl (remove_decide (tm_id b) bx (remove_commit env a ax now db))"
  proof -
    let ?db = "remove_commit env a ax now db"
    have "count_where (active_owner t) (seats ?db) = 1" using c1 by (simp add: count_where_def)
    moreover have "m = b" if "standing (tm_id b) t ?db = Some m" "tm_role m = OWNER \<and> tm_status m = MS_ACTIVE" for m
    proof -
      have "m \<in> set (filter (active_owner t) (seats ?db))" using that by (auto simp: standing_def active_owner_def dest!: find_row_SomeD)
      with c1 show ?thesis by simp
    qed
    moreover have "standing (tm_id b) t ?db = Some b"
    proof -
      have "unique_key tm_id (seats ?db)" using u by (simp add: remove_commit_def unique_key_update_where)
      moreover have "b \<in> set (filter (active_owner t) (seats ?db))" unfolding c1 by simp
      ultimately show ?thesis using stands_alone [of ?db b] ab(4) by simp
    qed
    ultimately show ?thesis using ab(4) acts by (simp add: remove_decide_def protectLastOwner_def above_def active_owner_def)
  qed
  show ?thesis using s [OF ab(1,3)] s [OF ab(2,4)] ab n acts c2 late
    by (simp add: remove_decide_def protectLastOwner_def above_def)
qed

subsection \<open>Nobody acts above the own role\<close>

text \<open>
  C7: A request of an administrator writes memberships of its own workspace only; a membership it creates or
  leaves behind is of a role its author may hand out, so only an Owner makes an Owner; and one it replaces is
  of a role its author may manage, except that a new invitation may replace one still pending. Members and
  support seats write none.
\<close>

theorem roles_confined:
  assumes u: "unique_key tm_id (seats db)" and db': "db' = people_request env ax now x db"
  shows "(\<forall>m'\<in>set (seats db') - set (seats db). tm_tenantId m' = ax_tenantId ax \<and> ax_role ax \<in> {OWNER, ADMIN}
        \<and> (tm_role m' = OWNER \<longrightarrow> ax_role ax = OWNER))
    \<and> (\<forall>m\<in>set (seats db) - set (seats db'). tm_tenantId m = ax_tenantId ax \<and> ax_role ax \<in> {OWNER, ADMIN}
        \<and> (tm_role m = OWNER \<longrightarrow> ax_role ax = OWNER \<or> over_pending x \<and> tm_status m \<in> {MS_INVITED, MS_REMOVED}))"
proof (intro conjI ballI)
  have w: "writes env ax x db db'" unfolding db' by (rule request_rows [OF u])
  fix m assume m: "m \<in> set (seats db') - set (seats db)"
  with one_row_member [OF w u, of m]
  show "tm_tenantId m = ax_tenantId ax" "ax_role ax \<in> {OWNER, ADMIN}" "tm_role m = OWNER \<longrightarrow> ax_role ax = OWNER"
    by (auto simp: may_write_def may_add_def above_def)
next
  have w: "writes env ax x db db'" unfolding db' by (rule request_rows [OF u])
  fix m assume m: "m \<in> set (seats db) - set (seats db')"
  with one_row_gone [OF w u, of m]
  show "tm_tenantId m = ax_tenantId ax" "ax_role ax \<in> {OWNER, ADMIN}"
    "tm_role m = OWNER \<longrightarrow> ax_role ax = OWNER \<or> over_pending x \<and> tm_status m \<in> {MS_INVITED, MS_REMOVED}"
    by (auto simp: may_write_def above_def)
qed

subsection \<open>A link sets a password once\<close>

definition sets_password :: "people_env \<Rightarrow> string \<Rightarrow> people_world \<Rightarrow> instant \<times> people_move \<Rightarrow> bool" where
  "sets_password env k s x \<longleftrightarrow> (case x of
      (now, Claim_write n pw) \<Rightarrow> n < length (pw_claims s) \<and> tm_inviteToken (fst (pw_claims s ! n)) = Some k
        \<and> \<not> isl (fst (claim_commit env (pw_claims s ! n) pw now (pw_db s)))
    | _ \<Rightarrow> False)"

definition link_spent :: "string \<Rightarrow> people_world \<Rightarrow> bool" where
  "link_spent k s \<longleftrightarrow> k \<in> set (pw_tokens s)
     \<and> (\<forall>m\<in>set (seats (pw_db s)). tm_inviteToken m = Some k \<longrightarrow> tm_status m \<noteq> MS_INVITED)"

lemma spent_joins: "joins rows rows' \<Longrightarrow> \<forall>m\<in>set rows. tm_inviteToken m = Some k \<longrightarrow> tm_status m \<noteq> MS_INVITED
    \<Longrightarrow> \<forall>m\<in>set rows'. tm_inviteToken m = Some k \<longrightarrow> tm_status m \<noteq> MS_INVITED"
  by (auto dest!: joins_member)

lemma link_stays_spent:
  assumes ok: "people_ok s" and sp: "link_spent k s" shows "link_spent k (people_step env s x)"
proof -
  obtain now mv where x: "x = (now, mv)" by (cases x)
  from ok have u: "unique_key tm_id (seats (pw_db s))" by (simp add: people_ok_def)
  from sp have q: "k \<in> set (pw_tokens s)" "\<forall>m\<in>set (seats (pw_db s)). tm_inviteToken m = Some k \<longrightarrow> tm_status m \<noteq> MS_INVITED"
    by (auto simp: link_spent_def)
  show ?thesis
  proof (cases mv)
    case (By_actor ax y)
    show ?thesis
    proof (cases "drawn_fresh env y s")
      case True
      have n: "token_hash env y \<noteq> Some k" using fresh_draws(1) [OF True] q(1) by auto
      have "tm_status m' \<noteq> MS_INVITED"
        if "m' \<in> set (seats (people_request env ax now y (pw_db s)))" "tm_inviteToken m' = Some k" for m'
        using one_row_member [OF request_rows [OF u] u that(1)] that(2) n q(2) by (auto simp: may_write_def may_add_def)
      with True q x By_actor show ?thesis by (auto simp: link_spent_def split: option.splits)
    qed (use sp x By_actor in simp)
  next
    case (Claim_read token)
    with sp x show ?thesis by (auto simp: link_spent_def split: sum.splits)
  next
    case (Claim_write n pw)
    with sp x q spent_joins [OF claim_rows q(2)] show ?thesis by (simp add: link_spent_def)
  next
    case (Accept y v)
    with x q spent_joins [OF accept_rows q(2)] show ?thesis by (simp add: link_spent_def)
  next
    case (Meanwhile y)
    with x sp show ?thesis by (simp add: link_spent_def)
  qed
qed

lemma commit_takes:
  assumes "\<not> isl (fst (claim_commit env (m, a) pw now db))"
  shows "(\<exists>y\<in>set (seats db). tm_id y = tm_id m \<and> tm_status y = MS_INVITED \<and> tm_inviteToken y = tm_inviteToken m)
    \<and> (\<forall>y\<in>set (seats (snd (claim_commit env (m, a) pw now db))). tm_id y = tm_id m \<and> tm_inviteToken y = tm_inviteToken m
        \<longrightarrow> tm_status y \<noteq> MS_INVITED)"
  using assms by (auto simp: claim_commit_def Let_def count_where_0_iff table_simps split: if_splits)

interpretation invitation_links: single_use "people_step env" people_ok "sets_password env" link_spent for env
proof unfold_locales
  fix s x k assume ok: "people_ok s" and d: "sets_password env k s x"
  then obtain now n pw where x: "x = (now, Claim_write n pw)" and n: "n < length (pw_claims s)"
      "tm_inviteToken (fst (pw_claims s ! n)) = Some k" "\<not> isl (fst (claim_commit env (pw_claims s ! n) pw now (pw_db s)))"
    by (auto simp: sets_password_def split: prod.splits people_move.splits)
  obtain m a where ma: "pw_claims s ! n = (m, a)" by (cases "pw_claims s ! n")
  note tk = commit_takes [OF n(3) [unfolded ma]]
  show "\<not> link_spent k s" using tk n(2) ma by (auto simp: link_spent_def)
  obtain y where y: "y \<in> set (seats (pw_db s))" "tm_id y = tm_id m" "tm_inviteToken y = Some k" using tk n(2) ma by auto
  have "tokens_ok (pw_tokens s) (seats (pw_db s))" using ok by (simp add: people_ok_def)
  note tok = tokens_joins [OF claim_rows this, of env "(m, a)" pw now]
  have id: "tm_id z = tm_id m" if z: "z \<in> set (seats (snd (claim_commit env (m, a) pw now (pw_db s))))" "tm_inviteToken z = Some k" for z
  proof -
    from joins_member [OF claim_rows z(1)] z(2) obtain z0 where z0: "z0 \<in> set (seats (pw_db s))" "tm_inviteToken z0 = Some k" "tm_id z = tm_id z0"
      by auto
    from tokens_okD(2) [OF \<open>tokens_ok (pw_tokens s) (seats (pw_db s))\<close> y(1,3) z0(1,2)] y(2) z0(3) show ?thesis by simp
  qed
  have "k \<in> set (pw_tokens s)" by (rule tokens_okD(1) [OF \<open>tokens_ok (pw_tokens s) (seats (pw_db s))\<close> y(1,3)])
  with tk id n(1,2) ma x show "link_spent k (people_step env s x)" by (auto simp: link_spent_def)
qed (rule link_stays_spent)

text \<open>
  C18: The link of an invitation sets a password at most once, however many submissions of it read before any
  of them writes and whatever is invited, changed and removed in between.
\<close>

theorem invitation_link_single_use:
  assumes "people_ok s"
  shows "count_uses (people_step env) (sets_password env) k s xs \<le> 1"
  by (rule invitation_links.spends_at_most_once [OF assms])

subsection \<open>A placeholder two workspaces have invited\<close>

text \<open>
  An account nobody has claimed yet, invited by two workspaces. \<open>waiting m u\<close>: the invitation \<open>m\<close> of the
  first stands and its plan has room.
\<close>

definition waiting :: "instant \<Rightarrow> membership \<Rightarrow> account \<Rightarrow> people_db \<Rightarrow> bool" where
  "waiting now m u db \<longleftrightarrow> m \<in> set (seats db) \<and> tm_userId m = ac_id u \<and> tm_status m = MS_INVITED \<and> \<not> lapsed now m
     \<and> workspace_open m db \<and> user_limit (tm_tenantId m) db = None"

lemma no_limit: "user_limit t db = None \<Longrightarrow> assertUserWithinLimit t n db = Inr ()"
  by (simp add: assertUserWithinLimit_def)

lemma limit_frame: "subscriptions db' = subscriptions db \<Longrightarrow> user_limit t db' = user_limit t db"
  by (simp add: user_limit_def getCurrentSubscription_def)

lemma find_unique:
  assumes "unique_key k rows" "r \<in> set rows" "P r" "\<And>x. x \<in> set rows \<Longrightarrow> P x \<Longrightarrow> k x = k r"
  shows "find_row P rows = Some r"
proof -
  have "find_row P rows \<noteq> None" using assms(2,3) by (auto simp: find_row_None_iff)
  then obtain y where y: "find_row P rows = Some y" by blast
  then have "y \<in> set rows" "P y" by (auto dest: find_row_SomeD)
  with unique_keyD [OF assms(1) _ assms(2)] assms(4) y show ?thesis by auto
qed

text \<open>
  C15: While the placeholder behind an address is unclaimed, any workspace may invite it too; where the system
  sends no mail the link goes to the administrator who asked, who sets the password with it and, signed in as
  that person, takes up the invitation of the first workspace, with the role it names. The mailbox of the
  address was never needed.
\<close>

theorem placeholder_taken_over:
  assumes keys: "unique_key tm_id (seats db)" "unique_key ac_id (accounts db)"
    and u: "find_row (\<lambda>a. ac_email a = e) (accounts db) = Some u" "ac_status u = US_INVITED"
    and m: "waiting now m u db"
    and other: "above (ax_role ax) MEMBER" "\<forall>x\<in>set (seats db). tm_userId x = ac_id u \<longrightarrow> tm_tenantId x \<noteq> ax_tenantId ax"
      "claimElsewhere e (ax_tenantId ax) False db = None" "user_limit (ax_tenantId ax) db = None"
      "find_row (\<lambda>w. ws_id w = ax_tenantId ax) (workspaces db) = Some w" "ws_status w = TN_ACTIVE"
    and env: "\<not> SYSTEM_MAIL_ENABLED env" "0 < INVITATION_EXPIRES_IN_HOURS env"
    and fresh: "\<not> seat_taken (dr_membershipId dr) db" "\<forall>x\<in>set (seats db). tm_inviteToken x \<noteq> Some (pn_hashToken env (dr_token dr))"
  shows "let (r, db1) = createInvitation env e MEMBER dr ax now db;
             (c, db2) = claimInvitation env (dr_token dr) pw now db1;
             (j, db3) = acceptInvitation env (By_membership (tm_id m)) (ac_id u) now db2
    in (\<exists>x. r = Inr (x, Some (dr_token dr))) \<and> c = Inr e
      \<and> (\<forall>a\<in>set (accounts db2). ac_id a = ac_id u \<longrightarrow> ac_passwordHash a = Some (pn_hashPassword env pw) \<and> ac_status a = US_ACTIVE)
      \<and> (\<exists>x. j = Inr x \<and> tm_tenantId x = tm_tenantId m \<and> tm_role x = tm_role m \<and> tm_status x = MS_ACTIVE)"
proof -
  let ?t = "ax_tenantId ax" and ?k = "pn_hashToken env (dr_token dr)"
  let ?n = "\<lparr>tm_id = dr_membershipId dr, tm_tenantId = ?t, tm_userId = ac_id u, tm_role = MEMBER, tm_status = MS_INVITED,
      tm_inviteToken = Some ?k, tm_inviteExpiresAt = Some (now + INVITATION_EXPIRES_IN_HOURS env * hour_ms)\<rparr>"
  let ?db1 = "people_event env now ax ''MEMBERSHIP_INVITED'' (dr_membershipId dr) (db\<lparr>seats := seats db @ [?n]\<rparr>)"
  have ua: "u \<in> set (accounts db)" "ac_email u = e" using u(1) by (auto dest: find_row_SomeD)
  have none: "find_row (\<lambda>x. tm_tenantId x = ?t \<and> tm_userId x = ac_id u) (seats db) = None"
    using other(2) by (auto simp: find_row_None_iff)
  have c1: "createInvitation env e MEMBER dr ax now db = (Inr (?n, Some (dr_token dr)), ?db1)"
    using other(1,3) u none env(1) by (simp add: createInvitation_def issueInvitation_def Let_def)
  have keys1: "unique_key tm_id (seats ?db1)" using keys(1) fresh(1) by (simp add: unique_key_snoc seat_taken_def)
  have tok: "by_token env (dr_token dr) ?db1 = Some ?n" unfolding by_token_def
    by (rule find_unique [OF keys1]) (use fresh(2) in auto)
  have acc: "seat_account ?n ?db1 = Some u" unfolding seat_account_def
    by (rule find_unique [where k = ac_id]) (use keys(2) ua in simp_all)
  have opn: "workspace_open ?n ?db1" using other(5,6) by (simp add: workspace_open_def seat_workspace_def)
  have l1: "user_limit t ?db1 = user_limit t db" for t by (rule limit_frame) simp
  have "\<not> lapsed now ?n" using env(2) by (simp add: lapsed_def hour_ms_def minute_ms_def)
  then have d: "claim_decide env (dr_token dr) now ?db1 = Inr (?n, u)"
    using tok acc opn u(2) no_limit [of ?t ?db1] l1 other(4) by (simp add: claim_decide_def)
  let ?here = "\<lambda>x. tm_id x = dr_membershipId dr \<and> tm_status x = MS_INVITED \<and> tm_inviteToken x = Some ?k"
  have cnt: "count_where ?here (seats ?db1) \<noteq> 0" by (simp add: count_where_0_iff)
  let ?p = "\<lambda>x. x\<lparr>ac_passwordHash := Some (pn_hashPassword env pw), ac_status := US_ACTIVE,
      ac_emailVerifiedAt := (case ac_emailVerifiedAt u of None \<Rightarrow> Some now | Some t \<Rightarrow> Some t)\<rparr>"
  let ?db2 = "invitee_event env now ?t (ac_id u) ''MEMBERSHIP_INVITATION_CLAIMED'' (dr_membershipId dr)
     (?db1\<lparr>seats := update_where ?here joined (seats ?db1), accounts := update_where (\<lambda>x. ac_id x = ac_id u) ?p (accounts ?db1)\<rparr>)"
  have c2: "claimInvitation env (dr_token dr) pw now ?db1 = (Inr e, ?db2)"
    using d cnt ua(2) by (simp add: claimInvitation_def claim_commit_def Let_def joined_def [abs_def])
  have pws: "\<forall>a\<in>set (accounts ?db2). ac_id a = ac_id u \<longrightarrow> ac_passwordHash a = Some (pn_hashPassword env pw) \<and> ac_status a = US_ACTIVE"
    by (auto simp: update_where_def)
  have ids: "dr_membershipId dr \<noteq> tm_id m" using fresh(1) m by (auto simp: seat_taken_def waiting_def)
  have m2: "m \<in> set (seats ?db2)" using m ids by (auto simp: waiting_def update_where_def)
  have keys2: "unique_key tm_id (seats ?db2)" using keys1 by (simp add: unique_key_update_where del: append_assoc)
  have f: "find_invitation env (By_membership (tm_id m)) (ac_id u) ?db2 = Inr m"
  proof -
    have "find_row (\<lambda>x. tm_id x = tm_id m \<and> tm_userId x = ac_id u \<and> tm_status x = MS_INVITED) (seats ?db2) = Some m"
      by (rule find_unique [OF keys2 m2]) (use m in \<open>auto simp: waiting_def\<close>)
    then show ?thesis by (simp add: find_invitation_def)
  qed
  have o2: "workspace_open m ?db2" using m by (simp add: waiting_def workspace_open_def seat_workspace_def)
  have l2: "assertUserWithinLimit (tm_tenantId m) 1 ?db2 = Inr ()"
    by (rule no_limit, subst limit_frame [where db = db]) (use m in \<open>simp_all add: waiting_def\<close>)
  have c3: "fst (acceptInvitation env (By_membership (tm_id m)) (ac_id u) now ?db2) = Inr (joined m)"
    using f o2 l2 m by (simp add: acceptInvitation_def waiting_def Let_def joined_def)
  show ?thesis unfolding Let_def c1 c2 prod.case
    using pws c3 by (auto split: prod.splits)
qed

subsection \<open>Concrete runs\<close>

definition demo_people_env :: people_env where
  "demo_people_env = \<lparr>pn_newId = (\<lambda>n. ''e''), pn_hashToken = (\<lambda>x. ''#'' @ x), pn_hashPassword = (\<lambda>x. ''!'' @ x),
     INVITATION_EXPIRES_IN_HOURS = 72, SYSTEM_MAIL_ENABLED = False\<rparr>"

definition demo_row :: "uuid \<Rightarrow> uuid \<Rightarrow> uuid \<Rightarrow> membership_role \<Rightarrow> membership_status \<Rightarrow> membership" where
  "demo_row i t u r st = \<lparr>tm_id = i, tm_tenantId = t, tm_userId = u, tm_role = r, tm_status = st,
     tm_inviteToken = (if st = MS_INVITED then Some (''#'' @ i) else None),
     tm_inviteExpiresAt = (if st = MS_INVITED then Some 1000 else None)\<rparr>"

text \<open>
  Workspace \<open>t\<close> has two Owners and an Admin, has invited a third Owner and the placeholder \<open>g\<close> as an Admin;
  workspace \<open>v\<close> has an Owner.
\<close>

definition demo_people :: people_db where
  "demo_people = \<lparr>security_alerts = [], alert_log = [],
     accounts = map (\<lambda>i. demo_account\<lparr>ac_id := i, ac_email := i\<rparr>) [''a'', ''b'', ''c'', ''d'', ''v'']
       @ [demo_account\<lparr>ac_id := ''g'', ac_email := ''g'', ac_status := US_INVITED\<rparr>],
     workspaces = [\<lparr>ws_id = ''t'', ws_status = TN_ACTIVE\<rparr>, \<lparr>ws_id = ''v'', ws_status = TN_ACTIVE\<rparr>],
     seats = [demo_row ''1'' ''t'' ''a'' OWNER MS_ACTIVE, demo_row ''2'' ''t'' ''b'' OWNER MS_ACTIVE,
       demo_row ''3'' ''t'' ''c'' ADMIN MS_ACTIVE, demo_row ''4'' ''t'' ''d'' OWNER MS_INVITED,
       demo_row ''5'' ''t'' ''g'' ADMIN MS_INVITED, demo_row ''6'' ''v'' ''v'' OWNER MS_ACTIVE],
     sign_in_mailboxes = [], refresh_tokens = [], used_selections = [], au_recovery_codes = [], identities = [],
     verified_domains = [], mail_addresses = [], subscriptions = []\<rparr>"

definition demo_office :: people_world where
  "demo_office = \<lparr>pw_db = demo_people, pw_claims = [], pw_tokens = [''#4'', ''#5'']\<rparr>"

definition act_as :: "uuid \<Rightarrow> uuid \<Rightarrow> membership_role \<Rightarrow> actor" where
  "act_as t u r = \<lparr>ax_tenantId = t, ax_userId = u, ax_role = r\<rparr>"

definition demo_draws :: "string \<Rightarrow> invitation_draws" where
  "demo_draws k = \<lparr>dr_membershipId = ''m'' @ k, dr_userId = ''u'' @ k, dr_password = ''r'' @ k, dr_token = ''k'' @ k\<rparr>"

lemma demo_office_ok: "people_ok demo_office"
  by (auto simp: people_ok_def tokens_ok_def demo_office_def demo_people_def demo_row_def unique_key_def)


theorem two_owners_leave_none_witness:
  "let a = demo_row ''1'' ''t'' ''a'' OWNER MS_ACTIVE; b = demo_row ''2'' ''t'' ''b'' OWNER MS_ACTIVE;
       ax = act_as ''t'' ''a'' OWNER; bx = act_as ''t'' ''b'' OWNER
   in filter (active_owner ''t'') (seats (remove_commit demo_people_env b bx 2 (remove_commit demo_people_env a ax 1 demo_people))) = []"
proof -
  let ?a = "demo_row ''1'' ''t'' ''a'' OWNER MS_ACTIVE" and ?b = "demo_row ''2'' ''t'' ''b'' OWNER MS_ACTIVE"
  have o: "filter (active_owner ''t'') (seats demo_people) = [?a, ?b]" by code_simp
  have u: "unique_key tm_id (seats demo_people)" by code_simp
  show ?thesis unfolding Let_def
    by (rule two_owners_leave_none [OF o u, THEN conjunct2, THEN conjunct2, THEN conjunct1]) (simp_all add: act_as_def)
qed

text \<open>An Admin replaces the pending invitation of an Owner.\<close>

theorem roles_confined_witness:
  "demo_row ''4'' ''t'' ''d'' OWNER MS_INVITED \<in> set (seats demo_people)
      - set (seats (people_request demo_people_env (act_as ''t'' ''c'' ADMIN) 5 (P_invite ''d'' MEMBER (demo_draws ''7'')) demo_people))
   \<and> over_pending (P_invite ''d'' MEMBER (demo_draws ''7''))"
proof -
  let ?x = "P_invite ''d'' MEMBER (demo_draws ''7'')"
  let ?db = "people_request demo_people_env (act_as ''t'' ''c'' ADMIN) 5 ?x demo_people"
  let ?m = "demo_row ''4'' ''t'' ''d'' OWNER MS_INVITED"
  have u: "unique_key tm_id (seats demo_people)" by code_simp
  have m: "?m \<in> set (seats demo_people) - set (seats ?db)" by code_simp
  from roles_confined [OF u refl, of demo_people_env "act_as ''t'' ''c'' ADMIN" 5 ?x] m
  have "tm_role ?m = OWNER \<longrightarrow> ax_role (act_as ''t'' ''c'' ADMIN) = OWNER \<or> over_pending ?x \<and> tm_status ?m \<in> {MS_INVITED, MS_REMOVED}"
    by blast
  then have "over_pending ?x" by (simp add: demo_row_def act_as_def)
  with m show ?thesis by blast
qed

theorem invitation_link_single_use_witness:
  "count_uses (people_step demo_people_env) (sets_password demo_people_env) ''#5'' demo_office
     [(1, Claim_read ''5''), (2, Claim_read ''5''), (3, Claim_write 0 ''p''), (4, Claim_write 0 ''q'')] = 1"
proof -
  let ?xs = "[(1, Claim_read ''5''), (2, Claim_read ''5''), (3, Claim_write 0 ''p''), (4, Claim_write 0 ''q'')]"
  have "count_uses (people_step demo_people_env) (sets_password demo_people_env) ''#5'' demo_office ?xs \<noteq> 0" by code_simp
  moreover have "count_uses (people_step demo_people_env) (sets_password demo_people_env) ''#5'' demo_office ?xs \<le> 1"
    by (rule invitation_link_single_use [OF demo_office_ok])
  ultimately show ?thesis by linarith
qed

theorem placeholder_taken_over_witness:
  "let dr = demo_draws ''8'';
       (r, db1) = createInvitation demo_people_env ''g'' MEMBER dr (act_as ''v'' ''v'' OWNER) 5 demo_people;
       (c, db2) = claimInvitation demo_people_env (dr_token dr) ''mine'' 5 db1;
       (j, db3) = acceptInvitation demo_people_env (By_membership ''5'') ''g'' 5 db2
   in c = Inr ''g'' \<and> (\<exists>x. j = Inr x \<and> tm_tenantId x = ''t'' \<and> tm_role x = ADMIN \<and> tm_status x = MS_ACTIVE)"
proof -
  let ?u = "demo_account\<lparr>ac_id := ''g'', ac_email := ''g'', ac_status := US_INVITED\<rparr>"
  let ?m = "demo_row ''5'' ''t'' ''g'' ADMIN MS_INVITED"
  let ?ax = "act_as ''v'' ''v'' OWNER"
  have k: "unique_key tm_id (seats demo_people)" "unique_key ac_id (accounts demo_people)" by code_simp+
  have u: "find_row (\<lambda>a. ac_email a = ''g'') (accounts demo_people) = Some ?u" "ac_status ?u = US_INVITED" by code_simp+
  have m: "waiting 5 ?m ?u demo_people" by code_simp
  have o: "above (ax_role ?ax) MEMBER" "\<forall>x\<in>set (seats demo_people). tm_userId x = ac_id ?u \<longrightarrow> tm_tenantId x \<noteq> ax_tenantId ?ax"
    "claimElsewhere ''g'' (ax_tenantId ?ax) False demo_people = None" "user_limit (ax_tenantId ?ax) demo_people = None"
    "find_row (\<lambda>w. ws_id w = ax_tenantId ?ax) (workspaces demo_people) = Some \<lparr>ws_id = ''v'', ws_status = TN_ACTIVE\<rparr>"
    "ws_status \<lparr>ws_id = ''v'', ws_status = TN_ACTIVE\<rparr> = TN_ACTIVE"
    by code_simp+
  have e: "\<not> SYSTEM_MAIL_ENABLED demo_people_env" "0 < INVITATION_EXPIRES_IN_HOURS demo_people_env" by code_simp+
  have f: "\<not> seat_taken (dr_membershipId (demo_draws ''8'')) demo_people"
    "\<forall>x\<in>set (seats demo_people). tm_inviteToken x \<noteq> Some (pn_hashToken demo_people_env (dr_token (demo_draws ''8'')))"
    by code_simp+
  from placeholder_taken_over [OF k u m o e f, of "''mine''"] show ?thesis
    unfolding Let_def by (auto simp: demo_row_def split: prod.splits)
qed

end
