(* ===== verification/Spec2Isabelle.thy ===== *)
theory Spec2Isabelle
  imports Capabilities Pagination Otp Mfa Idempotency Tickets Domain_Sending
    Cleanup_Safety Lifecycle_Safety Sign_In_Safety Support_Erasure People_Safety
begin

text \<open>
  A verification development for the backend of Zoiko Mail (\<open>src/Backend/src\<close>): a multi-tenant mail and
  collaboration service written in TypeScript over one PostgreSQL database. All paths below are relative to
  \<open>src/Backend/src\<close>.

  \<^bold>\<open>The program.\<close> A person (\<open>AppUser\<close>) holds memberships in workspaces (\<open>Tenant\<close>), each with a role. A
  request passes a chain of middleware (who is asking, for which workspace, with which console and
  capability, is it a repetition) and runs one operation of a service; a service reads and writes rows,
  appends to the audit log and leaves deferred work in a queue that workers and schedulers take up. The
  difficulty of the program is in what happens between requests: credentials that must work once, two
  requests that both read before either writes, state machines that outside events move (DNS answers, mail
  hosts, legal holds), clocks, and the rule that one workspace never acts on another.

  \<^bold>\<open>How it is modelled.\<close> A table is the list of its rows in insertion order (\<open>Prelude\<close>: \<open>find_row\<close>,
  \<open>update_where\<close>, \<open>count_where\<close> and so on are the queries of the database client). The state of a component
  is a record of its tables and its audit log. An operation returns its result, an error value with status
  and code or a value, and the new state, on every branch: an error after a write keeps the write, an error
  inside a transaction does not. The time, new identifiers and random choices are arguments. What is not
  under \<open>src/\<close> is a parameter: the library that signs tokens, hashes and ciphers, the DNS resolver, the DNS
  host, the mail host, Google's verification, the mailer. A request runs alone, one step of a machine,
  except where the code itself is split by an \<open>await\<close> and the split matters: then its reading and its
  committing half are two steps and the theorems quantify over their interleavings.

  \<^bold>\<open>Theories, in the order of their imports.\<close>
  \<^item> \<open>Prelude\<close>: tables, units of time, the interfaces as locales: \<open>op_machine\<close> (steps that keep an
    invariant), \<open>append_only\<close> (a log nothing rewrites), \<open>budget\<close> and \<open>single_use\<close> (a credential with a bounded
    number of uses), \<open>evidence\<close> (a state that has to be earned by an earlier step). Each is interpreted on the
    machines of the components below. \<open>Errors\<close>: \<open>common/errors\<close>.
  \<^item> \<open>Roles\<close>: \<open>common/utils/workspaceScope.ts\<close>, the role a session acts with. \<open>Capabilities\<close>:
    \<open>common/capabilities\<close>, the matrix and the resolver.
  \<^item> \<open>Pagination\<close>: \<open>common/utils/pagination.ts\<close>, cursors and pages. \<open>Flags\<close>: \<open>common/flags/flags.ts\<close>.
    \<open>Json\<close>: values of request bodies and metadata.
  \<^item> \<open>Audit_Log\<close>: \<open>modules/audit/audit.service.ts\<close>, the events, their redaction, the readers' scopes and the
    export.
  \<^item> \<open>Idempotency\<close>: \<open>common/middleware/idempotency.ts\<close>, the claim of a key, the answer of a repetition, the
    digest of a payload.
  \<^item> \<open>Totp\<close>: \<open>modules/auth/totp.ts\<close> with words of 32 bits. \<open>Otp\<close>: \<open>otp.service.ts\<close>, e-mailed codes. \<open>Mfa\<close>:
    \<open>mfa.service.ts\<close>, the second factor, also split into halves.
  \<^item> \<open>Sla\<close>: \<open>modules/ticket/sla.ts\<close>, response targets. \<open>Tickets\<close>: \<open>ticket.service.ts\<close>.
  \<^item> \<open>Dns_Records\<close>, \<open>Dns_Verifier\<close>, \<open>Domain_Lifecycle\<close>, \<open>Domains\<close>: \<open>modules/domain\<close>, the records a domain
    has to publish, the judgement of what DNS answers, the state machine, and the service around them with
    its DKIM rotation and its scheduler. \<open>Domain_Safety\<close> (the invariant), \<open>Dns_Agreement\<close>, \<open>Domain_Properties\<close>
    and \<open>Domain_Sending\<close> hold their theorems.
  \<^item> \<open>Members\<close>: the membership rows. \<open>Mailbox_Cleanup\<close>, \<open>Cleanup_Safety\<close>: \<open>modules/mail/mailbox-cleanup.service.ts\<close>
    and \<open>mailbox-identity.ts\<close>, the removal of a mailbox from the mail host, with the host as the locale
    \<open>mail_hosting\<close>.
  \<^item> \<open>Jobs\<close>: \<open>modules/job/job.service.ts\<close>, the queue and its workers. \<open>Work_Erasure\<close>: \<open>modules/workgraph/erasure.ts\<close>.
    \<open>Lifecycle\<close>, \<open>Lifecycle_Safety\<close>: \<open>modules/lifecycle\<close>, deletion requests from the asking to the erasure.
  \<^item> \<open>Tokens\<close>: \<open>common/types/jwt.ts\<close>, \<open>middleware/authenticate.ts\<close>, \<open>staffAuth.ts\<close>, every kind of token with
    its guard. \<open>Security_Alerts\<close>: \<open>modules/security-alert\<close>.
  \<^item> \<open>Sessions\<close>, \<open>Session_Safety\<close>: the session half of \<open>modules/auth/auth.service.ts\<close> and
    \<open>middleware/tenantContext.ts\<close>. \<open>Sign_In\<close>, \<open>Sign_In_Safety\<close>: its sign-in half.
  \<^item> \<open>Access_Gate\<close>: \<open>middleware/requireCapability.ts\<close>, the chain in front of a workspace route. \<open>Support_Access\<close>,
    \<open>Support_Safety\<close>: \<open>modules/support\<close>, \<open>middleware/supportAccess.ts\<close> and \<open>requireSupportAccess.ts\<close>, how the support
    gets into a workspace and what it leaves behind. \<open>Support_Erasure\<close> joins it to \<open>Lifecycle\<close>.
  \<^item> \<open>People\<close>, \<open>People_Safety\<close>: \<open>modules/membership\<close>, who belongs to a workspace and with which role.

  \<^bold>\<open>What the theorems show.\<close>
  \<^item> Spending a credential: refresh tokens, workspace selections, recovery codes, one-time passwords,
    e-mailed codes and idempotency keys are used at most once (or within a budget) in any run; where the code
    loses this in a race the race is a theorem.
  \<^item> Authority: a capability is given exactly as the matrix says, a session acts with the meet of role and
    console, a privileged console needs the second factor, tokens of one kind are never taken for another, a
    tenant sees its own tickets only.
  \<^item> Invariants over any sequence of requests: tickets, domains, jobs, sessions, grants of the support, the Owners
    of a workspace, alerts, limits of mails.
  \<^item> Refinement and equivalence: the session tables implement one desk for each account; the walk over
    days is a clock of working hours; the export of the audit log is what the screen shows; base32 and
    cursors are read back.
  \<^item> Evidence: a workspace is erased only when confirmed, an account of the mail host only when owned, a
    member's mail shown to the support only when an Owner opened it.
  \<^item> Errors: what a failing resolver, a late refusal, a legal hold and a sign-out, an unusual path and a request of the support do, two Owners who leave together, a person invited twice, several of them
    against what the code means to do (they are listed as findings beside the development).

  \<^bold>\<open>Bounds and fuel.\<close> Loops of the code are structural or have a measure. Where the code has a bound of its own
  it is the model's: 27 attempts at a DKIM selector, three attempts of a job, ten of a removal, which has six
  phases, thirty days for an erasure, thirty minutes between alerts. The fuel of the calendar walk in \<open>Sla\<close>
  and of the export loop is shown to suffice by the theorems on them.

  \<^bold>\<open>Simplifications.\<close> Prose of messages and mails, display names and pictures, and parts of the audit metadata
  are left out; status, code and reason of an error are kept. One request reads the clock once. Letters are
  ASCII. The database accepts a row only with a fresh identifier. Working hours are counted in a zone
  without daylight saving. The answer of the policy module to a deletion request is an argument.

  \<^bold>\<open>Not modelled.\<close> The HTTP layer, the connectors of third-party mail, the assistant, billing, calendar, contacts,
  tasks, dashboards and the React client, for the reasons listed beside each in the manifest: they are
  transport, clients of other services, presentation, or row storage that has not been reached.
\<close>

end
